(* ===== verification/Prelude.thy ===== *)
theory Prelude
  imports Main
begin

text \<open>
  Shared ground of the development: Python's \<open>str\<close> as a list of code points, the exceptions the
  program can raise as values, and the string operations of the language that the sources use
  (\<open>startswith\<close>, \<open>in\<close>, \<open>split\<close>, \<open>partition\<close>, \<open>strip\<close>, \<open>splitlines\<close>, \<open>isdigit\<close>, \<open>int\<close>, \<open>str\<close>).

  A \<open>str\<close> is a list of \<open>int\<close> code points, because the program measures, compares and filters code
  points beyond ASCII (SSIDs, user messages), which HOL's eight-bit \<open>char\<close> cannot hold.  An ASCII
  literal of the source is written \<open>lit ''...''\<close>.
\<close>

named_theorems py_eval \<open>definitions to unfold when a model term is evaluated\<close>
named_theorems str_simps \<open>rewrite rules for the string operations\<close>

section \<open>Code points, strings and literals\<close>

type_synonym codepoint = int
type_synonym pystr = "codepoint list"

definition lit :: "string \<Rightarrow> pystr" where
  "lit s = map of_char s"

lemma lit_eq_iff [simp]: "lit s = lit t \<longleftrightarrow> s = t"
proof -
  have "inj (of_char :: char \<Rightarrow> int)"
    by (rule injI) simp
  then show ?thesis
    by (simp add: lit_def inj_map_eq_map)
qed

lemma lit_Nil [simp]: "lit [] = []"
  by (simp add: lit_def)

lemma lit_eq_Nil [simp]: "lit s = [] \<longleftrightarrow> s = []" "[] = lit s \<longleftrightarrow> s = []"
  by (auto simp: lit_def)

lemma lit_append: "lit (s @ t) = lit s @ lit t"
  by (simp add: lit_def)

lemma length_lit [simp]: "length (lit s) = length s"
  by (simp add: lit_def)

declare lit_def [py_eval]

section \<open>Exceptions and results\<close>

text \<open>
  The exception classes the modelled code raises or lets through.  Python's subclass relation is
  written out by the two predicates below: \<open>FileNotFoundError\<close> is an \<open>OSError\<close>; \<open>UnicodeError\<close> and
  \<open>JSONDecodeError\<close> are \<open>ValueError\<close>s.  \<open>FuelOut\<close> is not a Python exception: it marks a recursion
  that ran out of fuel, and each fuelled function has a lemma that it never returns it.
\<close>

datatype exn =
    FileNotFoundError
  | OSError
  | ValueError
  | UnicodeError
  | JSONDecodeError
  | TypeError
  | KeyError
  | AttributeError
  | ReError
  | RuntimeError
  | TimeoutExpired
  | StructError
  | SystemExit
  | FuelOut

definition is_OSError :: "exn \<Rightarrow> bool" where
  "is_OSError e \<longleftrightarrow> e = OSError \<or> e = FileNotFoundError"

definition is_ValueError :: "exn \<Rightarrow> bool" where
  "is_ValueError e \<longleftrightarrow> e = ValueError \<or> e = UnicodeError \<or> e = JSONDecodeError"

type_synonym 'a res = "exn + 'a"

fun is_ok :: "'e + 'a \<Rightarrow> bool" where
  "is_ok (Inl _) = False"
| "is_ok (Inr _) = True"

lemma is_ok_conv: "is_ok r \<longleftrightarrow> (\<exists>x. r = Inr x)"
  by (cases r) auto

definition res_bind :: "'e + 'a \<Rightarrow> ('a \<Rightarrow> 'e + 'b) \<Rightarrow> 'e + 'b" where
  "res_bind r f = (case r of Inl e \<Rightarrow> Inl e | Inr x \<Rightarrow> f x)"

lemma res_bind_simps [simp]:
  "res_bind (Inl e) f = Inl e"
  "res_bind (Inr x) f = f x"
  by (simp_all add: res_bind_def)

lemma res_bind_Inr_conv: "res_bind r f = Inr y \<longleftrightarrow> (\<exists>x. r = Inr x \<and> f x = Inr y)"
  by (cases r) auto

section \<open>Prefixes, substrings, splitting\<close>

definition starts_with :: "pystr \<Rightarrow> pystr \<Rightarrow> bool" where
  "starts_with p s \<longleftrightarrow> take (length p) s = p"

lemma starts_with_conv: "starts_with p s \<longleftrightarrow> (\<exists>r. s = p @ r)"
  by (auto simp: starts_with_def) (metis append_take_drop_id)

lemma starts_with_append [simp, intro]: "starts_with p (p @ r)"
  by (simp add: starts_with_def)

fun contains :: "pystr \<Rightarrow> pystr \<Rightarrow> bool" where
  "contains p [] \<longleftrightarrow> p = []"
| "contains p (x # xs) \<longleftrightarrow> starts_with p (x # xs) \<or> contains p xs"

lemma contains_conv: "contains p s \<longleftrightarrow> (\<exists>a b. s = a @ p @ b)"
proof (induction s)
  case Nil
  then show ?case by simp
next
  case (Cons x xs)
  show ?case
  proof
    assume "contains p (x # xs)"
    then consider "starts_with p (x # xs)" | "contains p xs" by auto
    then show "\<exists>a b. x # xs = a @ p @ b"
    proof cases
      case 1
      then show ?thesis by (metis append_Nil starts_with_conv)
    next
      case 2
      then show ?thesis using Cons.IH by (metis append_Cons)
    qed
  next
    assume "\<exists>a b. x # xs = a @ p @ b"
    then obtain a b where e: "x # xs = a @ p @ b" by blast
    show "contains p (x # xs)"
    proof (cases a)
      case Nil
      then have "starts_with p (x # xs)" using e by (simp only: append_Nil starts_with_append)
      then show ?thesis by simp
    next
      case (Cons y ys)
      then show ?thesis using e Cons.IH by auto
    qed
  qed
qed

text \<open>\<open>split_by\<close> cuts at every separator and keeps empty pieces, as \<open>s.split(sep)\<close> does.\<close>

fun split_by :: "(codepoint \<Rightarrow> bool) \<Rightarrow> pystr \<Rightarrow> pystr list" where
  "split_by p [] = [[]]"
| "split_by p (x # xs) =
     (if p x then [] # split_by p xs
      else (case split_by p xs of [] \<Rightarrow> [[x]] | w # ws \<Rightarrow> (x # w) # ws))"

definition split_on :: "codepoint \<Rightarrow> pystr \<Rightarrow> pystr list" where
  "split_on c = split_by (\<lambda>x. x = c)"

fun join :: "pystr \<Rightarrow> pystr list \<Rightarrow> pystr" where
  "join sep [] = []"
| "join sep [w] = w"
| "join sep (w # v # ws) = w @ sep @ join sep (v # ws)"

lemma split_by_not_Nil [simp]: "split_by p s \<noteq> []"
  by (induction s) (auto split: list.splits)

lemma split_by_pieces: "w \<in> set (split_by p s) \<Longrightarrow> x \<in> set w \<Longrightarrow> \<not> p x"
proof (induction s arbitrary: w)
  case Nil
  then show ?case by simp
next
  case (Cons y ys)
  then show ?case
    by (cases "split_by p ys") (fastforce split: if_splits)+
qed

lemma split_by_sub: "w \<in> set (split_by p s) \<Longrightarrow> set w \<subseteq> set s"
proof (induction s arbitrary: w)
  case Nil
  then show ?case by simp
next
  case (Cons y ys)
  then show ?case
    by (cases "split_by p ys") (fastforce split: if_splits)+
qed

lemma join_Cons: "ws \<noteq> [] \<Longrightarrow> join sep (w # ws) = w @ sep @ join sep ws"
  by (cases ws) auto

lemma join_head_Cons: "join sep ((x # w) # ws) = x # join sep (w # ws)"
  by (cases ws) auto

lemma join_split_on: "join [c] (split_on c s) = s"
  unfolding split_on_def
proof (induction s)
  case Nil
  then show ?case by simp
next
  case (Cons x xs)
  then show ?case
    by (cases "split_by (\<lambda>x. x = c) xs") (auto simp: join_Cons join_head_Cons)
qed

lemma split_by_no_sep: "(\<forall>x \<in> set s. \<not> p x) \<Longrightarrow> split_by p s = [s]"
  by (induction s) auto

lemma split_by_append:
  "(\<forall>x \<in> set a. \<not> p x) \<Longrightarrow> p c \<Longrightarrow> split_by p (a @ c # b) = a # split_by p b"
  by (induction a) auto

lemma split_on_join:
  assumes "ws \<noteq> []" and "\<forall>w \<in> set ws. c \<notin> set w"
  shows "split_on c (join [c] ws) = ws"
  using assms
proof (induction ws)
  case Nil
  then show ?case by simp
next
  case (Cons w ws)
  then have w: "\<forall>x \<in> set w. \<not> x = c" by auto
  show ?case
  proof (cases ws)
    case Nil
    then show ?thesis using w by (simp add: split_on_def split_by_no_sep)
  next
    case (Cons v vs)
    with Cons.IH Cons.prems have "split_on c (join [c] ws) = ws" by simp
    with w Cons show ?thesis
      by (simp add: split_on_def split_by_append)
  qed
qed

text \<open>\<open>s.partition(c)\<close>: the text before the first \<open>c\<close>, whether there is one, the text after it.\<close>

definition partition_at :: "codepoint \<Rightarrow> pystr \<Rightarrow> pystr \<times> bool \<times> pystr" where
  "partition_at c s = (takeWhile (\<lambda>x. x \<noteq> c) s, c \<in> set s, drop 1 (dropWhile (\<lambda>x. x \<noteq> c) s))"

lemma partition_at_append:
  "c \<notin> set a \<Longrightarrow> partition_at c (a @ c # b) = (a, True, b)"
  by (induction a) (auto simp: partition_at_def)

lemma partition_at_True: "partition_at c s = (a, True, b) \<Longrightarrow> s = a @ c # b \<and> c \<notin> set a"
  by (induction s arbitrary: a) (auto simp: partition_at_def split: if_splits)

lemma partition_at_found: "partition_at c s = (a, f, b) \<Longrightarrow> f \<longleftrightarrow> c \<in> set s"
  by (auto simp: partition_at_def)

section \<open>White space and lines\<close>

definition py_isspace :: "codepoint \<Rightarrow> bool" where
  "py_isspace c \<longleftrightarrow>
     (9 \<le> c \<and> c \<le> 13) \<or> (28 \<le> c \<and> c \<le> 32) \<or> c = 133 \<or> c = 160 \<or> c = 5760
     \<or> (8192 \<le> c \<and> c \<le> 8202) \<or> c = 8232 \<or> c = 8233 \<or> c = 8239 \<or> c = 8287 \<or> c = 12288"

definition py_strip :: "pystr \<Rightarrow> pystr" where
  "py_strip s = rev (dropWhile py_isspace (rev (dropWhile py_isspace s)))"

definition py_words :: "pystr \<Rightarrow> pystr list" where
  "py_words s = filter (\<lambda>w. w \<noteq> []) (split_by py_isspace s)"

definition is_linebreak :: "codepoint \<Rightarrow> bool" where
  "is_linebreak c \<longleftrightarrow> (10 \<le> c \<and> c \<le> 13) \<or> (28 \<le> c \<and> c \<le> 30) \<or> c = 133 \<or> c = 8232 \<or> c = 8233"

fun splitlines_aux :: "pystr \<Rightarrow> pystr \<Rightarrow> pystr list" where
  "splitlines_aux cur [] = (if cur = [] then [] else [rev cur])"
| "splitlines_aux cur (x # xs) =
     (if x = 13 \<and> xs \<noteq> [] \<and> hd xs = 10 then rev cur # splitlines_aux [] (tl xs)
      else if is_linebreak x then rev cur # splitlines_aux [] xs
      else splitlines_aux (x # cur) xs)"

definition py_splitlines :: "pystr \<Rightarrow> pystr list" where
  "py_splitlines s = splitlines_aux [] s"

text \<open>Reading a text file translates \<open>\r\n\<close> and \<open>\r\<close> to \<open>\n\<close> (universal newlines).\<close>

fun universal_newlines :: "pystr \<Rightarrow> pystr" where
  "universal_newlines [] = []"
| "universal_newlines (x # xs) =
     (if x = 13 then 10 # universal_newlines (if xs \<noteq> [] \<and> hd xs = 10 then tl xs else xs)
      else x # universal_newlines xs)"

declare py_isspace_def [py_eval] py_strip_def [py_eval] py_words_def [py_eval]
  is_linebreak_def [py_eval] py_splitlines_def [py_eval] split_on_def [py_eval]
  partition_at_def [py_eval] starts_with_def [py_eval]

lemma splitlines_aux_no_break:
  "(\<forall>x \<in> set s. \<not> is_linebreak x) \<Longrightarrow> splitlines_aux cur (s @ 10 # r) = (rev cur @ s) # splitlines_aux [] r"
  by (induction s arbitrary: cur) (auto simp: is_linebreak_def)

lemma splitlines_aux_last:
  "(\<forall>x \<in> set s. \<not> is_linebreak x) \<Longrightarrow> s \<noteq> [] \<or> cur \<noteq> [] \<Longrightarrow> splitlines_aux cur s = [rev cur @ s]"
  by (induction s arbitrary: cur) (auto simp: is_linebreak_def)

text \<open>Splitting a text whose lines are each terminated by a newline gives exactly these lines.\<close>

lemma py_splitlines_lines:
  assumes "\<forall>l \<in> set ls. \<forall>x \<in> set l. \<not> is_linebreak x"
  shows "py_splitlines (concat (map (\<lambda>l. l @ [10]) ls)) = ls"
  using assms
  by (induction ls) (auto simp: py_splitlines_def splitlines_aux_no_break)

lemma universal_newlines_id: "13 \<notin> set s \<Longrightarrow> universal_newlines s = s"
  by (induction s) auto

lemma dropWhile_all_False: "(\<forall>x \<in> set s. \<not> p x) \<Longrightarrow> dropWhile p s = s"
  by (cases s) auto

lemma py_strip_id: "(\<forall>x \<in> set s. \<not> py_isspace x) \<Longrightarrow> py_strip s = s"
  by (simp add: py_strip_def dropWhile_all_False)

lemma py_strip_newline: "(\<forall>x \<in> set s. \<not> py_isspace x) \<Longrightarrow> s \<noteq> [] \<Longrightarrow> py_strip (s @ [10]) = s"
proof -
  assume a: "\<forall>x \<in> set s. \<not> py_isspace x" and ne: "s \<noteq> []"
  then have "dropWhile py_isspace (s @ [10]) = s @ [10]"
    by (cases s) auto
  moreover have "py_isspace 10" by (simp add: py_isspace_def)
  ultimately show ?thesis
    using a by (simp add: py_strip_def dropWhile_all_False)
qed

section \<open>Digits and integers\<close>

text \<open>
  The zeros of Unicode's decimal digit runs (general category Nd), each followed by its nine
  successors, and the ranges of the characters that are digits but not decimals (superscripts,
  circled digits): \<open>str.isdigit\<close> accepts both, \<open>int\<close> only the former.
\<close>

definition decimal_zeros :: "codepoint list" where
  "decimal_zeros =
    [0x660, 0x6f0, 0x7c0, 0x966, 0x9e6, 0xa66, 0xae6, 0xb66, 0xbe6, 0xc66, 0xce6, 0xd66,
     0xde6, 0xe50, 0xed0, 0xf20, 0x1040, 0x1090, 0x17e0, 0x1810, 0x1946, 0x19d0, 0x1a80, 0x1a90,
     0x1b50, 0x1bb0, 0x1c40, 0x1c50, 0xa620, 0xa8d0, 0xa900, 0xa9d0, 0xa9f0, 0xaa50, 0xabf0,
     0xff10, 0x104a0, 0x10d30, 0x11066, 0x110f0, 0x11136, 0x111d0, 0x112f0, 0x11450, 0x114d0,
     0x11650, 0x116c0, 0x11730, 0x118e0, 0x11950, 0x11c50, 0x11d50, 0x11da0, 0x11f50, 0x16a60,
     0x16ac0, 0x16b50, 0x1d7ce, 0x1d7d8, 0x1d7e2, 0x1d7ec, 0x1d7f6, 0x1e140, 0x1e2f0, 0x1e4f0,
     0x1e950, 0x1fbf0]"

definition digit_ranges :: "(codepoint \<times> codepoint) list" where
  "digit_ranges =
    [(0xb2, 0xb3), (0xb9, 0xb9), (0x1369, 0x1371), (0x19da, 0x19da), (0x2070, 0x2070),
     (0x2074, 0x2079), (0x2080, 0x2089), (0x2460, 0x2468), (0x2474, 0x247c), (0x2488, 0x2490),
     (0x24ea, 0x24ea), (0x24f5, 0x24fd), (0x24ff, 0x24ff), (0x2776, 0x277e), (0x2780, 0x2788),
     (0x278a, 0x2792), (0x10a40, 0x10a43), (0x10e60, 0x10e68), (0x11052, 0x1105a),
     (0x1f100, 0x1f10a)]"

definition ascii_digit :: "codepoint \<Rightarrow> bool" where
  "ascii_digit c \<longleftrightarrow> 48 \<le> c \<and> c \<le> 57"

definition decimal_value :: "codepoint \<Rightarrow> int option" where
  "decimal_value c =
     (if ascii_digit c then Some (c - 48)
      else map_option (\<lambda>z. c - z) (find (\<lambda>z. z \<le> c \<and> c \<le> z + 9) decimal_zeros))"

definition digit_cp :: "codepoint \<Rightarrow> bool" where
  "digit_cp c \<longleftrightarrow> decimal_value c \<noteq> None \<or> list_ex (\<lambda>(a, b). a \<le> c \<and> c \<le> b) digit_ranges"

definition py_isdigit :: "pystr \<Rightarrow> bool" where
  "py_isdigit s \<longleftrightarrow> s \<noteq> [] \<and> list_all digit_cp s"

definition py_isascii :: "pystr \<Rightarrow> bool" where
  "py_isascii s \<longleftrightarrow> list_all (\<lambda>c. 0 \<le> c \<and> c < 128) s"

text \<open>
  Lower case as far as it can produce ASCII: the capital letters and the Kelvin sign. No other character's lower
  case consists of ASCII characters.
\<close>

definition lower_ascii :: "codepoint \<Rightarrow> codepoint" where
  "lower_ascii c = (if 65 \<le> c \<and> c \<le> 90 then c + 32 else if c = 0x212A then 107 else c)"

text \<open>
  \<open>int(s)\<close>: surrounding white space, an optional sign, decimal digits with single underscores
  between them; more than 4300 digits are refused (the interpreter's default limit).
\<close>

fun parse_digits :: "bool \<Rightarrow> int \<Rightarrow> pystr \<Rightarrow> int option" where
  "parse_digits prev acc [] = (if prev then Some acc else None)"
| "parse_digits prev acc (c # cs) =
     (case decimal_value c of
        Some d \<Rightarrow> parse_digits True (10 * acc + d) cs
      | None \<Rightarrow> if c = 95 \<and> prev then parse_digits False acc cs else None)"

definition max_str_digits :: nat where
  "max_str_digits = 4300"

definition digit_count :: "pystr \<Rightarrow> nat" where
  "digit_count s = length (filter (\<lambda>c. decimal_value c \<noteq> None) s)"

definition py_int :: "pystr \<Rightarrow> int res" where
  "py_int s =
     (let t = py_strip s;
          neg = (t \<noteq> [] \<and> hd t = 45);
          body = (if t \<noteq> [] \<and> (hd t = 45 \<or> hd t = 43) then tl t else t)
      in if digit_count body > max_str_digits then Inl ValueError
         else (case parse_digits False 0 body of
                 None \<Rightarrow> Inl ValueError
               | Some n \<Rightarrow> Inr (if neg then - n else n)))"

function show_pos :: "int \<Rightarrow> pystr" where
  "show_pos n = (if n < 10 then [48 + n] else show_pos (n div 10) @ [48 + n mod 10])"
  by pat_completeness auto
termination
  by (relation "measure nat") auto

declare show_pos.simps [simp del]

definition show_int :: "int \<Rightarrow> pystr" where
  "show_int n = (if n < 0 then 45 # show_pos (- n) else show_pos n)"

declare ascii_digit_def [py_eval] decimal_value_def [py_eval] py_isdigit_def [py_eval]
  py_isascii_def [py_eval] digit_cp_def [py_eval] max_str_digits_def [py_eval]
  digit_count_def [py_eval] py_int_def [py_eval] show_int_def [py_eval]

lemma decimal_value_ascii [simp]: "ascii_digit c \<Longrightarrow> decimal_value c = Some (c - 48)"
  by (simp add: decimal_value_def)

lemma decimal_zeros_beyond_ascii: "z \<in> set decimal_zeros \<Longrightarrow> 128 \<le> z"
  by (auto simp: decimal_zeros_def)

lemma decimal_value_ascii_only: "c < 128 \<Longrightarrow> decimal_value c \<noteq> None \<longleftrightarrow> ascii_digit c"
  by (auto simp: decimal_value_def find_Some_iff dest!: decimal_zeros_beyond_ascii)
     (metis decimal_zeros_beyond_ascii linorder_not_less nth_mem order_trans)

lemma digit_cp_ascii: "c < 128 \<Longrightarrow> digit_cp c \<longleftrightarrow> ascii_digit c"
  by (auto simp: digit_cp_def decimal_value_ascii_only digit_ranges_def simp flip: decimal_value_ascii_only)

lemma parse_digits_append:
  "list_all ascii_digit a \<Longrightarrow> a \<noteq> [] \<or> prev \<Longrightarrow>
   parse_digits prev acc (a @ b) = parse_digits True (foldl (\<lambda>n c. 10 * n + (c - 48)) acc a) b"
  by (induction a arbitrary: prev acc) auto

lemma parse_digits_ascii:
  "list_all ascii_digit s \<Longrightarrow> s \<noteq> [] \<Longrightarrow>
   parse_digits prev acc s = Some (foldl (\<lambda>n c. 10 * n + (c - 48)) acc s)"
  using parse_digits_append [of s prev acc "[]"] by simp

lemma show_pos_digits: "0 \<le> n \<Longrightarrow> list_all ascii_digit (show_pos n)"
proof (induction n rule: show_pos.induct)
  case (1 n)
  then show ?case
    by (auto simp: show_pos.simps [of n] ascii_digit_def)
qed

lemma show_pos_not_Nil [simp]: "show_pos n \<noteq> []"
  by (simp add: show_pos.simps [of n])

lemma foldl_show_pos: "0 \<le> n \<Longrightarrow> foldl (\<lambda>n c. 10 * n + (c - 48)) 0 (show_pos n) = n"
proof (induction n rule: show_pos.induct)
  case (1 n)
  show ?case
  proof (cases "n < 10")
    case True
    then show ?thesis by (simp add: show_pos.simps [of n])
  next
    case False
    with 1 show ?thesis by (simp add: show_pos.simps [of n])
  qed
qed

lemma ascii_digit_not_space: "ascii_digit c \<Longrightarrow> \<not> py_isspace c"
  by (auto simp: ascii_digit_def py_isspace_def)

lemma digit_count_le: "digit_count s \<le> length s"
  by (simp add: digit_count_def)

lemma length_show_pos: "0 \<le> n \<Longrightarrow> n < 10 ^ Suc k \<Longrightarrow> length (show_pos n) \<le> Suc k"
proof (induction k arbitrary: n)
  case (Suc k)
  show ?case
  proof (cases "n < 10")
    case False
    have "n div 10 < 10 ^ Suc k" using Suc.prems by simp
    then have "length (show_pos (n div 10)) \<le> Suc k" using Suc by simp
    then show ?thesis using False Suc.prems by (subst show_pos.simps) simp
  qed (use Suc.prems in \<open>simp add: show_pos.simps [of n]\<close>)
qed (simp add: show_pos.simps)

text \<open>Round trip of decimal numerals: \<open>int(str(n)) = n\<close> within the interpreter's digit limit.\<close>

lemma py_int_show_pos:
  assumes "0 \<le> n" and "length (show_pos n) \<le> max_str_digits"
  shows "py_int (show_pos n) = Inr n"
proof -
  let ?s = "show_pos n"
  have dig: "list_all ascii_digit ?s" using assms(1) by (rule show_pos_digits)
  then have "py_strip ?s = ?s"
    by (intro py_strip_id) (auto simp: list_all_iff ascii_digit_not_space)
  moreover have "hd ?s \<noteq> 45" and "hd ?s \<noteq> 43"
    using dig by (cases ?s; auto simp: ascii_digit_def)+
  moreover have "digit_count ?s \<le> max_str_digits"
    using digit_count_le assms(2) by (rule order_trans)
  ultimately show ?thesis
    using dig assms(1) by (simp add: py_int_def parse_digits_ascii foldl_show_pos)
qed

end
