(* ===== verification/Routes.thy ===== *)
theory Routes
  imports Prelude
begin

text \<open>
  The route decision model, \<open>sushida_os/runtime/routes.py\<close>: the snapshot of observations, the
  decision table \<open>decide\<close>, the restart test \<open>restart_needed\<close> and the command line entry \<open>main\<close>.
\<close>

section \<open>Constants and data\<close>

definition ROUTE_ONLINE :: pystr where "ROUTE_ONLINE = lit ''online''"
definition ROUTE_SETUP :: pystr where "ROUTE_SETUP = lit ''setup''"
definition ROUTE_OFFLINE :: pystr where "ROUTE_OFFLINE = lit ''offline''"
definition ROUTES :: "pystr list" where "ROUTES = [ROUTE_ONLINE, ROUTE_SETUP, ROUTE_OFFLINE]"

definition REASON_FORCE_OFFLINE :: pystr where "REASON_FORCE_OFFLINE = lit ''force-offline''"
definition REASON_TIME_SYNC_PENDING :: pystr where
  "REASON_TIME_SYNC_PENDING = lit ''time-sync-pending''"
definition REASON_ONLINE_FULL :: pystr where "REASON_ONLINE_FULL = lit ''online-full''"
definition REASON_SETUP_AVAILABLE :: pystr where "REASON_SETUP_AVAILABLE = lit ''setup-available''"
definition REASON_OFFLINE_FALLBACK :: pystr where
  "REASON_OFFLINE_FALLBACK = lit ''offline-fallback''"
definition REASONS :: "pystr list" where
  "REASONS = [REASON_FORCE_OFFLINE, REASON_TIME_SYNC_PENDING, REASON_ONLINE_FULL,
              REASON_SETUP_AVAILABLE, REASON_OFFLINE_FALLBACK]"

lemmas route_consts = ROUTE_ONLINE_def ROUTE_SETUP_def ROUTE_OFFLINE_def ROUTES_def
lemmas reason_consts = REASON_FORCE_OFFLINE_def REASON_TIME_SYNC_PENDING_def REASON_ONLINE_FULL_def
  REASON_SETUP_AVAILABLE_def REASON_OFFLINE_FALLBACK_def REASONS_def

declare route_consts [py_eval] reason_consts [py_eval]

record RouteInputs =
  force_offline :: bool
  time_sync_pending :: bool
  nm_ok :: bool
  nm_state :: pystr
  nm_connectivity :: pystr
  setup_service_active :: bool

record RouteDecision =
  rd_route :: pystr
  rd_reason :: pystr

text \<open>The defaults of the dataclass.\<close>

definition RouteInputs_default :: RouteInputs where
  "RouteInputs_default =
     \<lparr>force_offline = False, time_sync_pending = False, nm_ok = False,
      nm_state = [], nm_connectivity = [], setup_service_active = False\<rparr>"

section \<open>The decision table\<close>

definition decide :: "RouteInputs \<Rightarrow> RouteDecision" where
  "decide i =
     (if force_offline i then \<lparr>rd_route = ROUTE_OFFLINE, rd_reason = REASON_FORCE_OFFLINE\<rparr>
      else if time_sync_pending i then
        \<lparr>rd_route = ROUTE_OFFLINE, rd_reason = REASON_TIME_SYNC_PENDING\<rparr>
      else if nm_ok i \<and> nm_state i = lit ''connected'' \<and> nm_connectivity i = lit ''full'' then
        \<lparr>rd_route = ROUTE_ONLINE, rd_reason = REASON_ONLINE_FULL\<rparr>
      else if setup_service_active i then
        \<lparr>rd_route = ROUTE_SETUP, rd_reason = REASON_SETUP_AVAILABLE\<rparr>
      else \<lparr>rd_route = ROUTE_OFFLINE, rd_reason = REASON_OFFLINE_FALLBACK\<rparr>)"

definition restart_needed :: "pystr option \<Rightarrow> pystr \<Rightarrow> bool" where
  "restart_needed active_route desired_route =
     (case active_route of
        None \<Rightarrow> False
      | Some a \<Rightarrow> if a \<notin> set ROUTES then False
                  else if desired_route \<notin> set ROUTES then False
                  else a \<noteq> desired_route)"

section \<open>The command line\<close>

text \<open>
  The flag loop of \<open>main\<close>, over the rest of \<open>argv\<close>; \<open>None\<close> is the early return 2.  The result is the
  exit status and what is printed.
\<close>

fun parse_route_flags :: "RouteInputs \<Rightarrow> pystr list \<Rightarrow> RouteInputs option" where
  "parse_route_flags i [] = Some i"
| "parse_route_flags i (flag # rest) =
     (if flag = lit ''--force-offline'' then parse_route_flags (i\<lparr>force_offline := True\<rparr>) rest
      else if flag = lit ''--time-sync-pending'' then
        parse_route_flags (i\<lparr>time_sync_pending := True\<rparr>) rest
      else if flag = lit ''--nm-ok'' then parse_route_flags (i\<lparr>nm_ok := True\<rparr>) rest
      else if flag = lit ''--setup-active'' then
        parse_route_flags (i\<lparr>setup_service_active := True\<rparr>) rest
      else if flag = lit ''--nm-state'' then
        (case rest of [] \<Rightarrow> None | v # rest' \<Rightarrow> parse_route_flags (i\<lparr>nm_state := v\<rparr>) rest')
      else if flag = lit ''--nm-connectivity'' then
        (case rest of [] \<Rightarrow> None | v # rest' \<Rightarrow> parse_route_flags (i\<lparr>nm_connectivity := v\<rparr>) rest')
      else None)"

definition routes_main :: "pystr list \<Rightarrow> int \<times> pystr option" where
  "routes_main argv =
     (case parse_route_flags RouteInputs_default argv of
        None \<Rightarrow> (2, None)
      | Some i \<Rightarrow> (0, Some (rd_route (decide i))))"

declare decide_def [py_eval] restart_needed_def [py_eval] routes_main_def [py_eval]
  RouteInputs_default_def [py_eval]

section \<open>Lemmas\<close>

lemma ROUTES_distinct [simp]:
  "ROUTE_ONLINE \<noteq> ROUTE_OFFLINE" "ROUTE_ONLINE \<noteq> ROUTE_SETUP" "ROUTE_SETUP \<noteq> ROUTE_OFFLINE"
  "ROUTE_OFFLINE \<noteq> ROUTE_ONLINE" "ROUTE_SETUP \<noteq> ROUTE_ONLINE" "ROUTE_OFFLINE \<noteq> ROUTE_SETUP"
  by (simp_all add: route_consts)

lemma decide_in_ROUTES: "rd_route (decide i) \<in> set ROUTES"
  by (simp add: decide_def ROUTES_def)

section \<open>The options of a command line\<close>

text \<open>
  What a caller can say, independently of how \<open>main\<close> reads it: a list of switches and of fields with a value, in any
  order and as often as it likes; of several values of one field the last counts.
\<close>

datatype route_opt = ForceOffline | TimeSyncPending | NmOk | SetupActive | NmState pystr | NmConnectivity pystr

fun spell :: "route_opt list \<Rightarrow> pystr list" where
  "spell [] = []"
| "spell (ForceOffline # os) = lit ''--force-offline'' # spell os"
| "spell (TimeSyncPending # os) = lit ''--time-sync-pending'' # spell os"
| "spell (NmOk # os) = lit ''--nm-ok'' # spell os"
| "spell (SetupActive # os) = lit ''--setup-active'' # spell os"
| "spell (NmState v # os) = lit ''--nm-state'' # v # spell os"
| "spell (NmConnectivity v # os) = lit ''--nm-connectivity'' # v # spell os"

definition last_value :: "pystr option list \<Rightarrow> pystr" where
  "last_value vs = (case rev (filter (\<lambda>v. v \<noteq> None) vs) of Some v # _ \<Rightarrow> v | _ \<Rightarrow> [])"

definition said_state :: "route_opt list \<Rightarrow> pystr" where
  "said_state os = last_value (map (\<lambda>x. case x of NmState v \<Rightarrow> Some v | _ \<Rightarrow> None) os)"

definition said_connectivity :: "route_opt list \<Rightarrow> pystr" where
  "said_connectivity os = last_value (map (\<lambda>x. case x of NmConnectivity v \<Rightarrow> Some v | _ \<Rightarrow> None) os)"

lemma last_value_snoc [simp]: "last_value [] = []" "last_value (vs @ [None]) = last_value vs" "last_value (vs @ [Some v]) = v"
  by (simp_all add: last_value_def)

text \<open>The parser reads a spelling back option by option, and accepts nothing else.\<close>

lemma parse_spell_append:
  "parse_route_flags i (spell os) = Some j \<Longrightarrow> parse_route_flags i (spell (os @ os')) = parse_route_flags j (spell os')"
  by (induction os arbitrary: i rule: spell.induct) auto

lemma parse_spell:
  "parse_route_flags RouteInputs_default (spell os) = Some
     \<lparr>force_offline = ForceOffline \<in> set os, time_sync_pending = TimeSyncPending \<in> set os, nm_ok = NmOk \<in> set os,
      nm_state = said_state os, nm_connectivity = said_connectivity os, setup_service_active = SetupActive \<in> set os\<rparr>"
proof (induction os rule: rev_induct)
  case Nil
  then show ?case by (simp add: RouteInputs_default_def said_state_def said_connectivity_def)
next
  case (snoc x os)
  show ?case
    by (cases x) (simp_all add: parse_spell_append [OF snoc] said_state_def said_connectivity_def)
qed

lemma parse_only_spelled: "parse_route_flags i argv = Some j \<Longrightarrow> \<exists>os. argv = spell os"
proof (induction i argv rule: parse_route_flags.induct)
  case (1 i)
  show ?case by (rule exI [of _ "[]"]) simp
next
  case (2 i flag rest)
  consider x os where "flag # rest = spell (x # os)" | "parse_route_flags i (flag # rest) = None"
  proof -
    show thesis if *: "\<And>x os. flag # rest = spell (x # os) \<Longrightarrow> thesis" "parse_route_flags i (flag # rest) = None \<Longrightarrow> thesis"
      using 2 *(1) [of ForceOffline] *(1) [of TimeSyncPending] *(1) [of NmOk] *(1) [of SetupActive]
        *(1) [of "NmState v" for v] *(1) [of "NmConnectivity v" for v] *(2)
      by (auto split: if_splits list.splits)
  qed
  then show ?case using 2(7) by cases auto
qed

section \<open>Properties\<close>

text \<open>
  C38. The route command, from the command line to the printed route. Exit status 2 without output exactly for an
  argument list that is no spelling of options (an unknown word, or a field without its value). For every
  spelling, in any order, with repetitions and with arbitrary NetworkManager texts (even ones that look like
  flags), exit status 0 and one of the three routes: the game (\<open>online\<close>) exactly when neither offline switch is
  given, NetworkManager answered, and the last state and connectivity given are \<open>connected\<close> and \<open>full\<close>; the setup
  page exactly when, failing that, neither offline switch is given and the setup service runs; \<open>offline\<close> otherwise.
\<close>

theorem routes_main_exact:
  "(routes_main argv = (2, None) \<longleftrightarrow> (\<nexists>os. argv = spell os))
   \<and> fst (routes_main (spell os)) = 0
   \<and> snd (routes_main (spell os)) \<in> {Some (lit ''online''), Some (lit ''setup''), Some (lit ''offline'')}
   \<and> (snd (routes_main (spell os)) = Some (lit ''online'') \<longleftrightarrow>
        set os \<inter> {ForceOffline, TimeSyncPending} = {} \<and> NmOk \<in> set os
        \<and> said_state os = lit ''connected'' \<and> said_connectivity os = lit ''full'')
   \<and> (snd (routes_main (spell os)) = Some (lit ''setup'') \<longleftrightarrow>
        set os \<inter> {ForceOffline, TimeSyncPending} = {} \<and> SetupActive \<in> set os
        \<and> \<not> (NmOk \<in> set os \<and> said_state os = lit ''connected'' \<and> said_connectivity os = lit ''full''))"
proof -
  have "routes_main argv = (2, None) \<longleftrightarrow> parse_route_flags RouteInputs_default argv = None"
    by (simp add: routes_main_def split: option.split)
  moreover have "parse_route_flags RouteInputs_default argv = None \<longleftrightarrow> (\<nexists>os. argv = spell os)"
    using parse_spell parse_only_spelled [of RouteInputs_default argv]
    by (cases "parse_route_flags RouteInputs_default argv") (fastforce, auto)
  ultimately show ?thesis
    by (auto simp: routes_main_def parse_spell decide_def route_consts)
qed

end
