(* ===== verification/Py_Codec.thy ===== *)
theory Py_Codec
  imports Prelude "HOL-Library.Word"
begin

text \<open>
  Bytes and the text encodings the sources use: ASCII, UTF-8 with the error handlers \<open>strict\<close>,
  \<open>replace\<close> and \<open>surrogateescape\<close>, the little-endian integers of \<open>struct.unpack_from\<close>.
  A byte is an \<open>8 word\<close>; the codecs compute on the integer values of the bytes.
\<close>

type_synonym byte = "8 word"
type_synonym bytes = "byte list"

definition ints_of :: "bytes \<Rightarrow> int list" where
  "ints_of bs = map uint bs"

definition bytes_of :: "int list \<Rightarrow> bytes" where
  "bytes_of xs = map word_of_int xs"

definition byte_value :: "int \<Rightarrow> bool" where
  "byte_value x \<longleftrightarrow> 0 \<le> x \<and> x < 256"

lemma ints_of_bytes_of: "list_all byte_value xs \<Longrightarrow> ints_of (bytes_of xs) = xs"
  by (induction xs)
     (auto simp: ints_of_def bytes_of_def byte_value_def uint_word_of_int take_bit_eq_mod)

lemma bytes_of_ints_of [simp]: "bytes_of (ints_of bs) = bs"
  by (simp add: ints_of_def bytes_of_def comp_def)

lemma length_ints_of [simp]: "length (ints_of bs) = length bs"
  by (simp add: ints_of_def)

lemma length_bytes_of [simp]: "length (bytes_of xs) = length xs"
  by (simp add: bytes_of_def)

lemma ints_of_append: "ints_of (a @ b) = ints_of a @ ints_of b"
  by (simp add: ints_of_def)

lemma bytes_of_append: "bytes_of (a @ b) = bytes_of a @ bytes_of b"
  by (simp add: bytes_of_def)

lemma ints_of_byte_values: "list_all byte_value (ints_of bs)"
proof -
  have "byte_value (uint b)" for b :: byte
    using uint_lt2p [of b] by (simp add: byte_value_def)
  then show ?thesis
    by (simp add: ints_of_def list_all_iff)
qed

declare ints_of_def [py_eval] bytes_of_def [py_eval]

section \<open>ASCII\<close>

definition ascii_encode :: "pystr \<Rightarrow> bytes res" where
  "ascii_encode s = (if py_isascii s then Inr (bytes_of s) else Inl UnicodeError)"

definition ascii_decode :: "bytes \<Rightarrow> pystr res" where
  "ascii_decode bs =
     (if list_all (\<lambda>x. x < 128) (ints_of bs) then Inr (ints_of bs) else Inl UnicodeError)"

lemma ascii_roundtrip: "ascii_encode s = Inr bs \<Longrightarrow> ascii_decode bs = Inr s"
proof -
  assume a: "ascii_encode s = Inr bs"
  then have s: "py_isascii s" and bs: "bs = bytes_of s"
    by (auto simp: ascii_encode_def split: if_splits)
  then have "list_all byte_value s" and "list_all (\<lambda>x. x < 128) s"
    by (auto simp: py_isascii_def list_all_iff byte_value_def)
  then show ?thesis
    using bs by (simp add: ascii_decode_def ints_of_bytes_of)
qed

section \<open>UTF-8\<close>

definition is_surrogate :: "codepoint \<Rightarrow> bool" where
  "is_surrogate c \<longleftrightarrow> 0xD800 \<le> c \<and> c \<le> 0xDFFF"

definition valid_cp :: "codepoint \<Rightarrow> bool" where
  "valid_cp c \<longleftrightarrow> 0 \<le> c \<and> c \<le> 0x10FFFF"

text \<open>A string Python can encode: code points in range, no surrogate.\<close>

definition encodable :: "pystr \<Rightarrow> bool" where
  "encodable s \<longleftrightarrow> list_all (\<lambda>c. valid_cp c \<and> \<not> is_surrogate c) s"

definition utf8_cp :: "codepoint \<Rightarrow> int list" where
  "utf8_cp c =
     (if c < 0x80 then [c]
      else if c < 0x800 then [0xC0 + c div 64, 0x80 + c mod 64]
      else if c < 0x10000 then [0xE0 + c div 4096, 0x80 + c div 64 mod 64, 0x80 + c mod 64]
      else [0xF0 + c div 262144, 0x80 + c div 4096 mod 64, 0x80 + c div 64 mod 64, 0x80 + c mod 64])"

definition utf8_ints :: "pystr \<Rightarrow> int list" where
  "utf8_ints s = concat (map utf8_cp s)"

text \<open>\<open>s.encode("utf-8")\<close>: a surrogate raises \<open>UnicodeEncodeError\<close>.\<close>

definition utf8_encode :: "pystr \<Rightarrow> bytes res" where
  "utf8_encode s = (if list_ex is_surrogate s then Inl UnicodeError else Inr (bytes_of (utf8_ints s)))"

text \<open>
  One decoding step on a non-empty rest: \<open>Inr (c, rest)\<close> is a code point, \<open>Inl n\<close> an ill-formed
  sequence whose maximal subpart has \<open>n\<close> bytes.
\<close>

definition cont :: "int \<Rightarrow> bool" where
  "cont x \<longleftrightarrow> 0x80 \<le> x \<and> x \<le> 0xBF"

definition second_ok :: "int \<Rightarrow> int \<Rightarrow> bool" where
  "second_ok b0 b1 \<longleftrightarrow>
     (if b0 = 0xE0 then 0xA0 \<le> b1 \<and> b1 \<le> 0xBF
      else if b0 = 0xED then 0x80 \<le> b1 \<and> b1 \<le> 0x9F
      else if b0 = 0xF0 then 0x90 \<le> b1 \<and> b1 \<le> 0xBF
      else if b0 = 0xF4 then 0x80 \<le> b1 \<and> b1 \<le> 0x8F
      else cont b1)"

definition utf8_step2 :: "int \<Rightarrow> int list \<Rightarrow> nat + codepoint \<times> int list" where
  "utf8_step2 b0 r =
     (case r of b1 # r1 \<Rightarrow> if cont b1 then Inr ((b0 - 0xC0) * 64 + (b1 - 0x80), r1) else Inl 1
              | [] \<Rightarrow> Inl 1)"

definition utf8_step3 :: "int \<Rightarrow> int list \<Rightarrow> nat + codepoint \<times> int list" where
  "utf8_step3 b0 r =
     (case r of
        [] \<Rightarrow> Inl 1
      | b1 # r1 \<Rightarrow>
          if \<not> second_ok b0 b1 then Inl 1
          else (case r1 of
                  [] \<Rightarrow> Inl 2
                | b2 # r2 \<Rightarrow>
                    if cont b2 then Inr ((b0 - 0xE0) * 4096 + (b1 - 0x80) * 64 + (b2 - 0x80), r2)
                    else Inl 2))"

definition utf8_step4 :: "int \<Rightarrow> int list \<Rightarrow> nat + codepoint \<times> int list" where
  "utf8_step4 b0 r =
     (case r of
        [] \<Rightarrow> Inl 1
      | b1 # r1 \<Rightarrow>
          if \<not> second_ok b0 b1 then Inl 1
          else (case r1 of
                  [] \<Rightarrow> Inl 2
                | b2 # r2 \<Rightarrow>
                    if \<not> cont b2 then Inl 2
                    else (case r2 of
                            [] \<Rightarrow> Inl 3
                          | b3 # r3 \<Rightarrow>
                              if cont b3 then
                                Inr ((b0 - 0xF0) * 262144 + (b1 - 0x80) * 4096
                                     + (b2 - 0x80) * 64 + (b3 - 0x80), r3)
                              else Inl 3)))"

definition utf8_step :: "int \<Rightarrow> int list \<Rightarrow> nat + codepoint \<times> int list" where
  "utf8_step b0 r =
     (if b0 < 0x80 then Inr (b0, r)
      else if 0xC2 \<le> b0 \<and> b0 \<le> 0xDF then utf8_step2 b0 r
      else if 0xE0 \<le> b0 \<and> b0 \<le> 0xEF then utf8_step3 b0 r
      else if 0xF0 \<le> b0 \<and> b0 \<le> 0xF4 then utf8_step4 b0 r
      else Inl 1)"

lemmas utf8_step_defs = utf8_step_def utf8_step2_def utf8_step3_def utf8_step4_def

lemma utf8_step_shorter: "utf8_step b r = Inr (c, r') \<Longrightarrow> length r' \<le> length r"
  by (auto simp: utf8_step_defs split: if_splits list.splits)

text \<open>The three error handlers: raise, U+FFFD per subpart, one low surrogate per byte.\<close>

datatype utf8_errors = Strict | Replace | SurrogateEscape

function utf8_decode_ints :: "utf8_errors \<Rightarrow> int list \<Rightarrow> pystr res" where
  "utf8_decode_ints h [] = Inr []"
| "utf8_decode_ints h (b # r) =
     (case utf8_step b r of
        Inr (c, r') \<Rightarrow> res_bind (utf8_decode_ints h r') (\<lambda>s. Inr (c # s))
      | Inl n \<Rightarrow>
          (case h of
             Strict \<Rightarrow> Inl UnicodeError
           | Replace \<Rightarrow> res_bind (utf8_decode_ints h (drop (n - 1) r)) (\<lambda>s. Inr (0xFFFD # s))
           | SurrogateEscape \<Rightarrow>
               res_bind (utf8_decode_ints h (drop (n - 1) r))
                 (\<lambda>s. Inr (map (\<lambda>x. 0xDC00 + x) (take n (b # r)) @ s))))"
  by pat_completeness auto
termination
  by (relation "measure (\<lambda>(h, bs). length bs)") (auto dest: utf8_step_shorter)

definition utf8_decode :: "utf8_errors \<Rightarrow> bytes \<Rightarrow> pystr res" where
  "utf8_decode h bs = utf8_decode_ints h (ints_of bs)"

declare utf8_cp_def [py_eval] utf8_ints_def [py_eval] utf8_encode_def [py_eval]
  utf8_step_defs [py_eval] cont_def [py_eval] second_ok_def [py_eval]
  is_surrogate_def [py_eval] utf8_decode_def [py_eval] valid_cp_def [py_eval] encodable_def [py_eval]

subsection \<open>Round trip\<close>

lemma utf8_cp_byte_values: "valid_cp c \<Longrightarrow> list_all byte_value (utf8_cp c)"
  by (auto simp: utf8_cp_def byte_value_def valid_cp_def)

lemma utf8_cp_not_Nil [simp]: "utf8_cp c \<noteq> []"
  by (simp add: utf8_cp_def)

text \<open>A number is rebuilt from its base-64 or base-256 digits.\<close>

lemma div_mod_split:
  fixes c k :: int
  assumes "0 < k" and "0 < m"
  shows "c div (k * m) * m + c div k mod m = c div k"
  using assms by (simp add: zdiv_zmult2_eq)

lemma base64_digits:
  fixes c :: int
  shows "c div 4096 * 64 + c div 64 mod 64 = c div 64"
    and "c div 262144 * 64 + c div 4096 mod 64 = c div 4096"
    and "c div 64 * 64 + c mod 64 = c"
  using div_mod_split [of 64 64 c] div_mod_split [of 4096 64 c] by simp_all

lemma base256_four:
  fixes c :: int
  shows "c mod 256 + 256 * (c div 256 mod 256) + 65536 * (c div 65536 mod 256)
         + 16777216 * (c div 16777216) = c"
proof -
  have "c = c div 256 * 256 + c mod 256" by simp
  also have "c div 256 = c div 65536 * 256 + c div 256 mod 256"
    using div_mod_split [of 256 256 c] by simp
  also have "c div 65536 = c div 16777216 * 256 + c div 65536 mod 256"
    using div_mod_split [of 65536 256 c] by simp
  finally show ?thesis by (simp add: algebra_simps)
qed

lemma utf8_step_cp2:
  "0x80 \<le> c \<Longrightarrow> c < 0x800 \<Longrightarrow>
   utf8_step (0xC0 + c div 64) ((0x80 + c mod 64) # r) = Inr (c, r)"
  by (auto simp: utf8_step_def utf8_step2_def cont_def)

text \<open>
  The linear facts behind the three- and four-byte forms, over the digits as plain numbers
  (\<open>q\<close> the top digits, \<open>m\<close>, \<open>n\<close>, \<open>r\<close> the lower base-64 digits).
\<close>

lemma three_digit_facts:
  fixes c q m r :: int
  assumes "c = q * 4096 + m * 64 + r" and "0 \<le> m" "m < 64" "0 \<le> r" "r < 64"
    and "0x800 \<le> c" "c < 0x10000" "\<not> is_surrogate c"
  shows "second_ok (0xE0 + q) (0x80 + m) \<and> 0 \<le> q \<and> q \<le> 15"
proof -
  have q: "0 \<le> q" "q \<le> 15" using assms by linarith+
  have "q = 0 \<Longrightarrow> 32 \<le> m" using assms by linarith
  moreover have "q = 13 \<Longrightarrow> m \<le> 31" using assms unfolding is_surrogate_def by linarith
  ultimately show ?thesis
    using assms q by (auto simp: second_ok_def cont_def)
qed

lemma four_digit_facts:
  fixes c q m n r :: int
  assumes "c = q * 262144 + m * 4096 + n * 64 + r"
    and "0 \<le> m" "m < 64" "0 \<le> n" "n < 64" "0 \<le> r" "r < 64" "0x10000 \<le> c" "c \<le> 0x10FFFF"
  shows "second_ok (0xF0 + q) (0x80 + m) \<and> 0 \<le> q \<and> q \<le> 4"
proof -
  have q: "0 \<le> q" "q \<le> 4" using assms by linarith+
  have "q = 0 \<Longrightarrow> 16 \<le> m" using assms by linarith
  moreover have "q = 4 \<Longrightarrow> m \<le> 15" using assms by linarith
  ultimately show ?thesis
    using assms q by (auto simp: second_ok_def cont_def)
qed

lemma base64_three:
  fixes c :: int
  shows "c = c div 4096 * 4096 + c div 64 mod 64 * 64 + c mod 64"
proof -
  have "c = c div 64 * 64 + c mod 64" by simp
  also have "c div 64 = c div 4096 * 64 + c div 64 mod 64" by (simp only: base64_digits)
  finally show ?thesis by (simp add: algebra_simps)
qed

lemma base64_four:
  fixes c :: int
  shows "c = c div 262144 * 262144 + c div 4096 mod 64 * 4096 + c div 64 mod 64 * 64 + c mod 64"
proof -
  have "c = c div 4096 * 4096 + c div 64 mod 64 * 64 + c mod 64" by (rule base64_three)
  also have "c div 4096 = c div 262144 * 64 + c div 4096 mod 64" by (simp only: base64_digits)
  finally show ?thesis by (simp add: algebra_simps)
qed

lemma utf8_step_cp3:
  assumes "0x800 \<le> c" and "c < 0x10000" and "\<not> is_surrogate c"
  shows "utf8_step (0xE0 + c div 4096) ((0x80 + c div 64 mod 64) # (0x80 + c mod 64) # r) = Inr (c, r)"
proof -
  define q m l where "q = c div 4096" and "m = c div 64 mod 64" and "l = c mod 64"
  have c: "c = q * 4096 + m * 64 + l" unfolding q_def m_def l_def by (rule base64_three)
  have ml: "0 \<le> m" "m < 64" "0 \<le> l" "l < 64" by (simp_all add: m_def l_def)
  have "utf8_step (0xE0 + q) ((0x80 + m) # (0x80 + l) # r) = Inr (c, r)"
    using three_digit_facts [OF c ml assms] c ml
    by (auto simp: utf8_step_def utf8_step3_def cont_def)
  then show ?thesis by (simp add: q_def m_def l_def)
qed

lemma utf8_step_cp4:
  assumes "0x10000 \<le> c" and "c \<le> 0x10FFFF"
  shows "utf8_step (0xF0 + c div 262144)
           ((0x80 + c div 4096 mod 64) # (0x80 + c div 64 mod 64) # (0x80 + c mod 64) # r) = Inr (c, r)"
proof -
  define q m n l where "q = c div 262144" and "m = c div 4096 mod 64" and "n = c div 64 mod 64"
    and "l = c mod 64"
  have c: "c = q * 262144 + m * 4096 + n * 64 + l"
    unfolding q_def m_def n_def l_def by (rule base64_four)
  have ml: "0 \<le> m" "m < 64" "0 \<le> n" "n < 64" "0 \<le> l" "l < 64" by (simp_all add: m_def n_def l_def)
  have "utf8_step (0xF0 + q) ((0x80 + m) # (0x80 + n) # (0x80 + l) # r) = Inr (c, r)"
    using four_digit_facts [OF c ml assms] c ml
    by (auto simp: utf8_step_def utf8_step4_def cont_def)
  then show ?thesis by (simp add: q_def m_def n_def l_def)
qed

lemma utf8_decode_ints_cp:
  assumes "valid_cp c" and "\<not> is_surrogate c"
  shows "utf8_decode_ints h (utf8_cp c @ r) = res_bind (utf8_decode_ints h r) (\<lambda>s. Inr (c # s))"
proof -
  consider "c < 0x80" | "0x80 \<le> c" "c < 0x800" | "0x800 \<le> c" "c < 0x10000" | "0x10000 \<le> c"
    by linarith
  then show ?thesis
  proof cases
    case 1
    then show ?thesis by (simp add: utf8_cp_def utf8_step_def)
  next
    case 2
    then show ?thesis by (simp add: utf8_cp_def utf8_step_cp2)
  next
    case 3
    then show ?thesis using assms by (simp add: utf8_cp_def utf8_step_cp3)
  next
    case 4
    then show ?thesis using assms by (simp add: utf8_cp_def utf8_step_cp4 valid_cp_def)
  qed
qed

lemma utf8_decode_ints_roundtrip: "encodable s \<Longrightarrow> utf8_decode_ints h (utf8_ints s) = Inr s"
  by (induction s) (auto simp: encodable_def utf8_ints_def utf8_decode_ints_cp)

lemma utf8_ints_byte_values: "encodable s \<Longrightarrow> list_all byte_value (utf8_ints s)"
  by (induction s) (auto simp: encodable_def utf8_ints_def utf8_cp_byte_values)

lemma encodable_no_surrogate: "encodable s \<Longrightarrow> \<not> list_ex is_surrogate s"
  by (auto simp: encodable_def list_all_iff list_ex_iff)

lemma utf8_encode_encodable: "encodable s \<Longrightarrow> utf8_encode s = Inr (bytes_of (utf8_ints s))"
  by (simp add: utf8_encode_def encodable_no_surrogate)

lemma utf8_roundtrip:
  assumes "encodable s"
  shows "utf8_decode h (bytes_of (utf8_ints s)) = Inr s"
  using assms by (simp add: utf8_decode_def ints_of_bytes_of utf8_ints_byte_values utf8_decode_ints_roundtrip)

lemma utf8_ints_ascii: "py_isascii s \<Longrightarrow> utf8_ints s = s"
  by (induction s) (auto simp: py_isascii_def utf8_ints_def utf8_cp_def)

lemma utf8_ints_append: "utf8_ints (a @ b) = utf8_ints a @ utf8_ints b"
  by (simp add: utf8_ints_def)

lemma py_isascii_encodable: "py_isascii s \<Longrightarrow> encodable s"
  by (auto simp: py_isascii_def encodable_def list_all_iff valid_cp_def is_surrogate_def)

section \<open>Surrogate escapes\<close>

text \<open>
  \<open>s.encode("utf-8", "surrogateescape")\<close>: the low surrogates U+DC80 to U+DCFF become the bytes they
  stand for; any other surrogate is an error.
\<close>

definition escaped_byte :: "codepoint \<Rightarrow> bool" where
  "escaped_byte c \<longleftrightarrow> 0xDC80 \<le> c \<and> c \<le> 0xDCFF"

definition utf8_cp_se :: "codepoint \<Rightarrow> int list" where
  "utf8_cp_se c = (if escaped_byte c then [c - 0xDC00] else utf8_cp c)"

definition utf8_encode_se :: "pystr \<Rightarrow> bytes res" where
  "utf8_encode_se s =
     (if list_ex (\<lambda>c. is_surrogate c \<and> \<not> escaped_byte c) s then Inl UnicodeError
      else Inr (bytes_of (concat (map utf8_cp_se s))))"

declare escaped_byte_def [py_eval] utf8_cp_se_def [py_eval] utf8_encode_se_def [py_eval]

lemma quot_rem:
  fixes q m k :: int
  assumes "0 \<le> m" "m < k"
  shows "(q * k + m) div k = q" and "(q * k + m) mod k = m"
  using assms by (simp_all add: div_pos_pos_trivial)

lemma quot_rem3:
  fixes q m r :: int
  assumes "0 \<le> m" "m < 64" "0 \<le> r" "r < 64" and c: "c = q * 4096 + m * 64 + r"
  shows "c div 4096 = q" "c div 64 mod 64 = m" "c mod 64 = r"
proof -
  have c': "c = (q * 64 + m) * 64 + r" using c by simp
  have d: "c div 64 = q * 64 + m" unfolding c' using assms(3,4) by (rule quot_rem(1))
  then show "c div 64 mod 64 = m" using assms(1,2) quot_rem(2) by simp
  have "c div 64 div 64 = c div 4096" by (simp add: zdiv_zmult2_eq [symmetric])
  then show "c div 4096 = q" using d assms(1,2) quot_rem(1) [of m 64 q] by simp
  show "c mod 64 = r" unfolding c' using assms(3,4) by (rule quot_rem(2))
qed

lemma quot_rem4:
  fixes q m n r :: int
  assumes "0 \<le> m" "m < 64" "0 \<le> n" "n < 64" "0 \<le> r" "r < 64"
    and c: "c = q * 262144 + m * 4096 + n * 64 + r"
  shows "c div 262144 = q" "c div 4096 mod 64 = m" "c div 64 mod 64 = n" "c mod 64 = r"
proof -
  have c': "c = (q * 64 + m) * 4096 + n * 64 + r" using c by simp
  note low = quot_rem3 [OF assms(3-6) c']
  show "c div 64 mod 64 = n" "c mod 64 = r" by (rule low)+
  show "c div 4096 mod 64 = m" using low(1) assms(1,2) quot_rem(2) by simp
  have "c div 4096 div 64 = c div 262144" by (simp add: zdiv_zmult2_eq [symmetric])
  then show "c div 262144 = q" using low(1) assms(1,2) quot_rem(1) [of m 64 q] by simp
qed

lemma utf8_step2_inv:
  assumes "utf8_step2 b r = Inr (c, r')" and "0xC2 \<le> b" "b \<le> 0xDF"
  shows "b # r = utf8_cp c @ r' \<and> valid_cp c \<and> \<not> is_surrogate c"
proof -
  obtain b1 where r: "r = b1 # r'" "0x80 \<le> b1" "b1 \<le> 0xBF" and c: "c = (b - 0xC0) * 64 + (b1 - 0x80)"
    using assms(1) by (auto simp: utf8_step2_def cont_def split: list.splits if_splits)
  have "c div 64 = b - 0xC0" "c mod 64 = b1 - 0x80"
    unfolding c using r by (intro quot_rem; simp)+
  moreover have "0x80 \<le> c" "c < 0x800" using c r assms by simp_all
  ultimately show ?thesis using r by (simp add: utf8_cp_def valid_cp_def is_surrogate_def)
qed

lemma utf8_step3_inv:
  assumes "utf8_step3 b r = Inr (c, r')" and "0xE0 \<le> b" "b \<le> 0xEF"
  shows "b # r = utf8_cp c @ r' \<and> valid_cp c \<and> \<not> is_surrogate c"
proof -
  obtain b1 b2 where r: "r = b1 # b2 # r'" "second_ok b b1" "0x80 \<le> b2" "b2 \<le> 0xBF"
    and c: "c = (b - 0xE0) * 4096 + (b1 - 0x80) * 64 + (b2 - 0x80)"
    using assms(1) by (auto simp: utf8_step3_def cont_def split: list.splits if_splits)
  have b1: "0x80 \<le> b1" "b1 \<le> 0xBF" "b = 0xE0 \<Longrightarrow> 0xA0 \<le> b1" "b = 0xED \<Longrightarrow> b1 \<le> 0x9F"
    using r(2) by (auto simp: second_ok_def cont_def split: if_splits)
  have "0x800 \<le> c" using c r b1 assms by (cases "b = 0xE0") auto
  moreover have "c < 0x10000" using c r b1 assms by simp
  moreover have "\<not> is_surrogate c" using c r b1 by (cases "b < 0xED"; cases "b = 0xED") (auto simp: is_surrogate_def)
  moreover have "c div 4096 = b - 0xE0" "c div 64 mod 64 = b1 - 0x80" "c mod 64 = b2 - 0x80"
    using r b1 by (intro quot_rem3 [OF _ _ _ _ c]; simp)+
  ultimately show ?thesis using r by (simp add: utf8_cp_def valid_cp_def)
qed

lemma utf8_step4_inv:
  assumes "utf8_step4 b r = Inr (c, r')" and "0xF0 \<le> b" "b \<le> 0xF4"
  shows "b # r = utf8_cp c @ r' \<and> valid_cp c \<and> \<not> is_surrogate c"
proof -
  obtain b1 b2 b3 where r: "r = b1 # b2 # b3 # r'" "second_ok b b1" "0x80 \<le> b2" "b2 \<le> 0xBF"
      "0x80 \<le> b3" "b3 \<le> 0xBF"
    and c: "c = (b - 0xF0) * 262144 + (b1 - 0x80) * 4096 + (b2 - 0x80) * 64 + (b3 - 0x80)"
    using assms(1) by (auto simp: utf8_step4_def cont_def split: list.splits if_splits)
  have b1: "0x80 \<le> b1" "b1 \<le> 0xBF" "b = 0xF0 \<Longrightarrow> 0x90 \<le> b1" "b = 0xF4 \<Longrightarrow> b1 \<le> 0x8F"
    using r(2) by (auto simp: second_ok_def cont_def split: if_splits)
  have lo: "0x10000 \<le> c" using c r b1 assms by (cases "b = 0xF0") auto
  have hi: "c \<le> 0x10FFFF" using c r b1 assms by (cases "b = 0xF4") auto
  have dg: "c div 262144 = b - 0xF0" "c div 4096 mod 64 = b1 - 0x80"
    "c div 64 mod 64 = b2 - 0x80" "c mod 64 = b3 - 0x80"
    using r b1 by (intro quot_rem4 [OF _ _ _ _ _ _ c]; simp)+
  have cp: "utf8_cp c = [0xF0 + c div 262144, 0x80 + c div 4096 mod 64, 0x80 + c div 64 mod 64, 0x80 + c mod 64]"
    using lo by (simp add: utf8_cp_def)
  have "b # r = utf8_cp c @ r'" unfolding r(1) cp dg by simp
  with lo hi show ?thesis by (simp add: valid_cp_def is_surrogate_def)
qed

lemma utf8_step_inv:
  assumes "utf8_step b r = Inr (c, r')" and "0 \<le> b"
  shows "b # r = utf8_cp c @ r' \<and> valid_cp c \<and> \<not> is_surrogate c"
proof (cases "b < 0x80")
  case True
  then show ?thesis using assms by (simp add: utf8_step_def utf8_cp_def valid_cp_def is_surrogate_def)
next
  case False
  then consider "0xC2 \<le> b" "b \<le> 0xDF" "utf8_step2 b r = Inr (c, r')"
    | "0xE0 \<le> b" "b \<le> 0xEF" "utf8_step3 b r = Inr (c, r')"
    | "0xF0 \<le> b" "b \<le> 0xF4" "utf8_step4 b r = Inr (c, r')"
    using assms(1) by (auto simp: utf8_step_def split: if_splits)
  then show ?thesis
    by cases (rule utf8_step2_inv utf8_step3_inv utf8_step4_inv; assumption)+
qed

lemma utf8_step_bad:
  assumes "utf8_step b r = Inl n" and "list_all byte_value (b # r)"
  shows "0 < n \<and> n \<le> Suc (length r) \<and> list_all (\<lambda>x. 0x80 \<le> x \<and> x \<le> 0xFF) (take n (b # r))"
  using assms
  by (auto simp: utf8_step_defs byte_value_def second_ok_def cont_def numeral_2_eq_2 numeral_3_eq_3
      split: if_splits list.splits)

lemma escaped_bytes_back:
  "list_all (\<lambda>x. 0x80 \<le> x \<and> x \<le> 0xFF) h \<Longrightarrow> concat (map utf8_cp_se (map (\<lambda>x. 0xDC00 + x) h)) = h"
  by (induction h) (auto simp: utf8_cp_se_def escaped_byte_def)

text \<open>Decoding with surrogate escapes never fails, and encoding gives the same bytes back.\<close>

lemma utf8_decode_se_ints:
  assumes "list_all byte_value bs"
  shows "\<exists>s. utf8_decode_ints SurrogateEscape bs = Inr s \<and> concat (map utf8_cp_se s) = bs
           \<and> \<not> list_ex (\<lambda>c. is_surrogate c \<and> \<not> escaped_byte c) s"
  using assms
proof (induction "length bs" arbitrary: bs rule: less_induct)
  case less
  show ?case
  proof (cases bs)
    case Nil
    then show ?thesis by simp
  next
    case (Cons b r)
    show ?thesis
    proof (cases "utf8_step b r")
      case (Inl n)
      note bad = utf8_step_bad [OF Inl less.prems [unfolded Cons]]
      let ?h = "take n (b # r)" and ?t = "drop (n - 1) r"
      have t: "length ?t < length bs" "list_all byte_value ?t"
        using less.prems Cons by (auto simp: list_all_iff dest: in_set_dropD)
      obtain s where s: "utf8_decode_ints SurrogateEscape ?t = Inr s" "concat (map utf8_cp_se s) = ?t"
        "\<not> list_ex (\<lambda>c. is_surrogate c \<and> \<not> escaped_byte c) s"
        using less.hyps [OF t] by blast
      have "concat (map utf8_cp_se (map (\<lambda>x. 0xDC00 + x) ?h)) = ?h"
        using bad by (intro escaped_bytes_back) simp
      moreover have "?h @ ?t = b # r" using bad by (cases n) auto
      moreover have "list_all escaped_byte (map (\<lambda>x. 0xDC00 + x) ?h)"
        using bad by (auto simp: escaped_byte_def list_all_iff)
      ultimately show ?thesis
        using s Inl Cons by (auto simp: list_ex_iff list_all_iff)
    next
      case (Inr p)
      then obtain c r' where p: "utf8_step b r = Inr (c, r')" by (cases p) auto
      have inv: "b # r = utf8_cp c @ r'" "\<not> is_surrogate c"
        using utf8_step_inv [OF p] less.prems Cons by (auto simp: byte_value_def)
      then have "list_all byte_value r'" using less.prems Cons by (metis list_all_append)
      then obtain s where s: "utf8_decode_ints SurrogateEscape r' = Inr s" "concat (map utf8_cp_se s) = r'"
        "\<not> list_ex (\<lambda>c. is_surrogate c \<and> \<not> escaped_byte c) s"
        using less.hyps [of r'] utf8_step_shorter [OF p] Cons by auto
      have "utf8_cp_se c = utf8_cp c"
        using inv(2) by (auto simp: utf8_cp_se_def escaped_byte_def is_surrogate_def)
      then have "concat (map utf8_cp_se (c # s)) = bs" using s(2) inv(1) Cons by simp
      moreover have "utf8_decode_ints SurrogateEscape bs = Inr (c # s)" using s(1) p Cons by simp
      ultimately show ?thesis using s(3) inv(2) by (intro exI [of _ "c # s"]) simp
    qed
  qed
qed

theorem surrogateescape_roundtrip:
  "\<exists>s. utf8_decode SurrogateEscape bs = Inr s \<and> utf8_encode_se s = Inr bs"
  using utf8_decode_se_ints [OF ints_of_byte_values [of bs]]
  by (auto simp: utf8_decode_def utf8_encode_se_def)

lemma utf8_decode_ints_prefix:
  assumes "encodable a"
  shows "utf8_decode_ints h (utf8_ints a @ r) = res_bind (utf8_decode_ints h r) (\<lambda>s. Inr (a @ s))"
  using assms
proof (induction a)
  case Nil
  then show ?case by (cases "utf8_decode_ints h r") (simp_all add: utf8_ints_def)
next
  case (Cons c a)
  then have ih: "utf8_decode_ints h (utf8_ints a @ r) = res_bind (utf8_decode_ints h r) (\<lambda>s. Inr (a @ s))"
    by (simp add: encodable_def)
  have "utf8_ints (c # a) @ r = utf8_cp c @ utf8_ints a @ r" by (simp add: utf8_ints_def)
  moreover have "valid_cp c" "\<not> is_surrogate c" using Cons.prems by (simp_all add: encodable_def)
  ultimately show ?case
    by (cases "utf8_decode_ints h r") (simp_all add: utf8_decode_ints_cp ih)
qed

lemma utf8_cp_se_small:
  "valid_cp c \<Longrightarrow> c < 128 \<Longrightarrow> utf8_cp_se c = [c]" "utf8_cp_se c \<noteq> []"
  by (auto simp: utf8_cp_se_def utf8_cp_def escaped_byte_def)

text \<open>An ASCII character of the decoded text is a byte of the file.\<close>

lemma utf8_cp_se_mem: "c < 128 \<Longrightarrow> c \<in> set s \<Longrightarrow> c \<in> set (concat (map utf8_cp_se s))"
  by (induction s) (auto simp: utf8_cp_se_def utf8_cp_def escaped_byte_def)

lemma utf8_cp_se_last:
  "s \<noteq> [] \<Longrightarrow> last s = c \<Longrightarrow> c < 128 \<Longrightarrow> last (concat (map utf8_cp_se s)) = c"
  by (cases s rule: rev_cases) (auto simp: utf8_cp_se_def utf8_cp_def escaped_byte_def)

section \<open>Little-endian integers\<close>

text \<open>\<open>struct.unpack_from\<close> with formats \<open><I\<close> and \<open><i\<close> on a buffer known to be long enough.\<close>

definition unpack_u32 :: "bytes \<Rightarrow> nat \<Rightarrow> int" where
  "unpack_u32 bs off =
     uint (bs ! off) + 256 * uint (bs ! (off + 1)) + 65536 * uint (bs ! (off + 2))
     + 16777216 * uint (bs ! (off + 3))"

definition unpack_i32 :: "bytes \<Rightarrow> nat \<Rightarrow> int" where
  "unpack_i32 bs off =
     (let v = unpack_u32 bs off in if v < 2147483648 then v else v - 4294967296)"

definition pack_u32 :: "int \<Rightarrow> bytes" where
  "pack_u32 n = bytes_of [n mod 256, n div 256 mod 256, n div 65536 mod 256, n div 16777216 mod 256]"

declare unpack_u32_def [py_eval] unpack_i32_def [py_eval] pack_u32_def [py_eval]

lemma length_pack_u32 [simp]: "length (pack_u32 n) = 4"
  by (simp add: pack_u32_def)

lemma uint_byte_mod: "uint (word_of_int (x mod 256) :: byte) = x mod 256"
  by (simp add: uint_word_of_int take_bit_eq_mod)

lemma nth_pack_u32:
  "uint (pack_u32 n ! 0) = n mod 256"
  "uint (pack_u32 n ! 1) = n div 256 mod 256"
  "uint (pack_u32 n ! 2) = n div 65536 mod 256"
  "uint (pack_u32 n ! 3) = n div 16777216 mod 256"
  unfolding pack_u32_def bytes_of_def
  by (simp_all only: list.map nth_Cons_0 nth_Cons_numeral One_nat_def nth_Cons_Suc uint_byte_mod
      numeral_2_eq_2 numeral_3_eq_3)

lemma unpack_pack_u32:
  assumes "0 \<le> n" and "n < 4294967296"
  shows "unpack_u32 (a @ pack_u32 n @ b) (length a) = n"
proof -
  have nth: "(a @ pack_u32 n @ b) ! (length a + i) = pack_u32 n ! i" if "i < 4" for i
    using that by (simp add: nth_append)
  have "n div 16777216 mod 256 = n div 16777216"
    using assms by simp
  then have "unpack_u32 (a @ pack_u32 n @ b) (length a)
    = n mod 256 + 256 * (n div 256 mod 256) + 65536 * (n div 65536 mod 256)
      + 16777216 * (n div 16777216)"
    unfolding unpack_u32_def
    using nth [of 0] nth [of 1] nth [of 2] nth [of 3] by (simp only: nth_pack_u32 add_0_right)
  also have "\<dots> = n" by (rule base256_four)
  finally show ?thesis .
qed

lemma unpack_u32_bounds: "0 \<le> unpack_u32 bs off \<and> unpack_u32 bs off < 4294967296"
proof -
  have b: "0 \<le> uint x \<and> uint x < 256" for x :: byte
    using uint_lt2p [of x] by simp
  show ?thesis
    using b [of "bs ! off"] b [of "bs ! (off + 1)"] b [of "bs ! (off + 2)"] b [of "bs ! (off + 3)"]
    unfolding unpack_u32_def by linarith
qed

subsection \<open>Line by line\<close>

text \<open>An ASCII byte never belongs to a longer sequence, so a text may be decoded up to it and after it.\<close>

lemma utf8_step_break:
  assumes "c < 0x80"
  shows "utf8_step b (r @ c # y) =
    (case utf8_step b r of Inr (x, r') \<Rightarrow> Inr (x, r' @ c # y) | Inl n \<Rightarrow> Inl n)"
proof -
  have "\<not> cont c" "\<not> second_ok b c" using assms by (auto simp: cont_def second_ok_def)
  then show ?thesis
    by (cases r; cases "tl r"; cases "tl (tl r)") (auto simp: utf8_step_defs)
qed

lemma decode_ints_break:
  assumes "c < 0x80" and "list_all byte_value x"
  shows "utf8_decode_ints SurrogateEscape (x @ c # y) =
    res_bind (utf8_decode_ints SurrogateEscape x) (\<lambda>s. res_bind (utf8_decode_ints SurrogateEscape (c # y)) (\<lambda>t. Inr (s @ t)))"
  using assms(2)
proof (induction "SurrogateEscape" x rule: utf8_decode_ints.induct)
  case (2 b r)
  show ?case
  proof (cases "utf8_step b r")
    case (Inl n)
    have n: "n \<le> Suc (length r)" using utf8_step_bad [OF Inl 2(4)] by simp
    moreover have "list_all byte_value (drop (n - 1) r)" using 2(4) by (auto simp: list_all_iff dest: in_set_dropD)
    ultimately show ?thesis
      using 2(2) [OF Inl] Inl assms(1) by (cases n) (auto simp: utf8_step_break res_bind_def split: sum.splits)
  next
    case (Inr p)
    then obtain z r' where p: "utf8_step b r = Inr (z, r')" by (cases p) auto
    then have "list_all byte_value r'" using utf8_step_inv [OF p] 2(4) by (metis byte_value_def list.pred_inject(2) list_all_append)
    then show ?thesis
      using 2(3) [OF p] p assms(1) by (auto simp: utf8_step_break res_bind_def split: sum.splits)
  qed
qed (simp add: res_bind_def split: sum.split)

lemma decode_break:
  assumes "uint c < 0x80"
  shows "utf8_decode SurrogateEscape (x @ c # y) =
    res_bind (utf8_decode SurrogateEscape x) (\<lambda>s. res_bind (utf8_decode SurrogateEscape y) (\<lambda>t. Inr (s @ uint c # t)))"
proof -
  have "utf8_decode_ints SurrogateEscape (uint c # ints_of y)
      = res_bind (utf8_decode_ints SurrogateEscape (ints_of y)) (\<lambda>t. Inr (uint c # t))"
    using assms by (simp add: utf8_step_def)
  then show ?thesis
    using decode_ints_break [OF assms ints_of_byte_values, of x "ints_of y"]
    by (simp add: utf8_decode_def ints_of_def res_bind_def split: sum.splits)
qed

end
