(* ===== verification/Py_Json.thy ===== *)
theory Py_Json
  imports Py_Codec "HOL-Library.AList"
begin

text \<open>
  Python's \<open>json\<close> module as the sources use it: \<open>json.loads\<close> (the C scanner's grammar, with its
  extensions \<open>NaN\<close>, \<open>Infinity\<close> and \<open>-Infinity\<close>, last-key-wins objects and the digit limit of
  \<open>int\<close>), and \<open>json.dumps\<close> on flat dictionaries of scalars, with \<open>ensure_ascii\<close> on or off and both
  pairs of separators.  The interpreter's recursion limit is not modelled.
\<close>

section \<open>Values\<close>

text \<open>A finite float literal is kept exactly, as mantissa and decimal exponent.\<close>

datatype jfloat = FDec int int | FNaN | FInf | FNegInf

datatype json =
    JNull
  | JBool bool
  | JInt int
  | JFloat jfloat
  | JStr pystr
  | JList "json list"
  | JObj "(pystr \<times> json) list"

text \<open>
  \<open>v == 1\<close> in Python: the integer 1, \<open>True\<close>, and a float that is 1.0 after rounding to binary64
  (round half to even: every real from \<open>1 - 2\<^sup>-\<^sup>5\<^sup>4\<close> to \<open>1 + 2\<^sup>-\<^sup>5\<^sup>3\<close>, both included).
\<close>

fun float_is_one :: "jfloat \<Rightarrow> bool" where
  "float_is_one (FDec m e) =
     (let num = (if 0 \<le> e then m * 10 ^ nat e else m);
          den = (if 0 \<le> e then 1 else 10 ^ nat (- e))
      in (2 ^ 54 - 1) * den \<le> num * 2 ^ 54 \<and> num * 2 ^ 53 \<le> (2 ^ 53 + 1) * den)"
| "float_is_one _ = False"

fun py_eq_one :: "json \<Rightarrow> bool" where
  "py_eq_one (JInt n) = (n = 1)"
| "py_eq_one (JBool b) = b"
| "py_eq_one (JFloat f) = float_is_one f"
| "py_eq_one _ = False"

fun is_JStr :: "json \<Rightarrow> bool" where
  "is_JStr (JStr _) = True"
| "is_JStr _ = False"

fun is_JBool :: "json \<Rightarrow> bool" where
  "is_JBool (JBool _) = True"
| "is_JBool _ = False"

section \<open>Reading\<close>

definition json_ws :: "codepoint \<Rightarrow> bool" where
  "json_ws c \<longleftrightarrow> c = 32 \<or> c = 9 \<or> c = 10 \<or> c = 13"

definition skip_ws :: "pystr \<Rightarrow> pystr" where
  "skip_ws s = dropWhile json_ws s"

lemma length_skip_ws: "length (skip_ws s) \<le> length s"
  by (simp add: skip_ws_def length_dropWhile_le)

lemma skip_ws_nows: "s = [] \<or> \<not> json_ws (hd s) \<Longrightarrow> skip_ws s = s"
  by (cases s) (auto simp: skip_ws_def)

definition hex_val :: "codepoint \<Rightarrow> int option" where
  "hex_val c =
     (if 48 \<le> c \<and> c \<le> 57 then Some (c - 48)
      else if 97 \<le> c \<and> c \<le> 102 then Some (c - 87)
      else if 65 \<le> c \<and> c \<le> 70 then Some (c - 55)
      else None)"

fun hex4 :: "pystr \<Rightarrow> int option" where
  "hex4 (a # b # c # d # _) =
     (case (hex_val a, hex_val b, hex_val c, hex_val d) of
        (Some w, Some x, Some y, Some z) \<Rightarrow> Some (w * 4096 + x * 256 + y * 16 + z)
      | _ \<Rightarrow> None)"
| "hex4 _ = None"

definition simple_escape :: "codepoint \<Rightarrow> codepoint option" where
  "simple_escape e =
     (if e = 34 \<or> e = 92 \<or> e = 47 then Some e
      else if e = 98 then Some 8
      else if e = 102 then Some 12
      else if e = 110 then Some 10
      else if e = 114 then Some 13
      else if e = 116 then Some 9
      else None)"

definition high_surrogate :: "codepoint \<Rightarrow> bool" where
  "high_surrogate n \<longleftrightarrow> 0xD800 \<le> n \<and> n \<le> 0xDBFF"

definition low_surrogate :: "codepoint \<Rightarrow> bool" where
  "low_surrogate n \<longleftrightarrow> 0xDC00 \<le> n \<and> n \<le> 0xDFFF"

text \<open>The low half of a surrogate pair written as a second \<open>\u\<close> escape, if \<open>r\<close> starts with one.\<close>

definition pair_low :: "int \<Rightarrow> pystr \<Rightarrow> int option" where
  "pair_low n r =
     (if high_surrogate n \<and> take 2 r = [92, 117] then
        (case hex4 (drop 2 r) of Some m \<Rightarrow> if low_surrogate m then Some m else None | None \<Rightarrow> None)
      else None)"

definition cons_res :: "codepoint \<Rightarrow> (pystr \<times> pystr) res \<Rightarrow> (pystr \<times> pystr) res" where
  "cons_res c x = res_bind x (\<lambda>(s, r). Inr (c # s, r))"

text \<open>The characters of a string literal after its opening quote.\<close>

function str_body :: "pystr \<Rightarrow> (pystr \<times> pystr) res" where
  "str_body [] = Inl JSONDecodeError"
| "str_body (c # cs) =
     (if c = 34 then Inr ([], cs)
      else if c = 92 then
        (case cs of
           [] \<Rightarrow> Inl JSONDecodeError
         | e # r \<Rightarrow>
             if e = 117 then
               (case hex4 r of
                  None \<Rightarrow> Inl JSONDecodeError
                | Some n \<Rightarrow>
                    (case pair_low n (drop 4 r) of
                       Some m \<Rightarrow>
                         cons_res (0x10000 + (n - 0xD800) * 1024 + (m - 0xDC00)) (str_body (drop 10 r))
                     | None \<Rightarrow> cons_res n (str_body (drop 4 r))))
             else (case simple_escape e of
                     None \<Rightarrow> Inl JSONDecodeError
                   | Some x \<Rightarrow> cons_res x (str_body r)))
      else if c < 32 then Inl JSONDecodeError
      else cons_res c (str_body cs))"
  by pat_completeness auto
termination
  by (relation "measure length") auto

definition digits_of :: "pystr \<Rightarrow> pystr" where
  "digits_of s = takeWhile ascii_digit s"

definition digits_value :: "pystr \<Rightarrow> int" where
  "digits_value ds = foldl (\<lambda>n c. 10 * n + (c - 48)) 0 ds"

text \<open>The integer part: a single zero, or digits that do not start with one.\<close>

definition int_part :: "pystr \<Rightarrow> pystr" where
  "int_part s = (if s \<noteq> [] \<and> hd s = 48 then [48] else digits_of s)"

definition frac_part :: "pystr \<Rightarrow> pystr option" where
  "frac_part s = (if s \<noteq> [] \<and> hd s = 46 \<and> digits_of (tl s) \<noteq> [] then Some (digits_of (tl s)) else None)"

text \<open>The exponent: its value and the length of its text, when well formed.\<close>

definition exp_part :: "pystr \<Rightarrow> (int \<times> nat) option" where
  "exp_part s =
     (if s \<noteq> [] \<and> (hd s = 101 \<or> hd s = 69) then
        (let r = tl s;
             signed = (r \<noteq> [] \<and> (hd r = 43 \<or> hd r = 45));
             ds = digits_of (if signed then tl r else r)
         in if ds = [] then None
            else Some (if signed \<and> hd r = 45 then - digits_value ds else digits_value ds,
                       1 + (if signed then 1 else 0) + length ds))
      else None)"

definition parse_unsigned :: "int \<Rightarrow> pystr \<Rightarrow> (json \<times> pystr) res" where
  "parse_unsigned sg b =
     (let ip = int_part b;
          r1 = drop (length ip) b;
          fp = frac_part r1;
          r2 = (case fp of None \<Rightarrow> r1 | Some ds \<Rightarrow> drop (1 + length ds) r1);
          ep = exp_part r2;
          r3 = (case ep of None \<Rightarrow> r2 | Some (_, k) \<Rightarrow> drop k r2)
      in if ip = [] then Inl JSONDecodeError
         else if fp = None \<and> ep = None then
           (if length ip > max_str_digits then Inl ValueError
            else Inr (JInt (sg * digits_value ip), r3))
         else
           (let fd = (case fp of None \<Rightarrow> [] | Some ds \<Rightarrow> ds)
            in Inr (JFloat (FDec (sg * digits_value (ip @ fd))
                             ((case ep of None \<Rightarrow> 0 | Some (e, _) \<Rightarrow> e) - int (length fd))), r3)))"

definition parse_number :: "pystr \<Rightarrow> (json \<times> pystr) res" where
  "parse_number s =
     (case s of
        [] \<Rightarrow> Inl JSONDecodeError
      | c # r \<Rightarrow> if c = 45 then parse_unsigned (-1) r else parse_unsigned 1 s)"

definition parse_atom :: "pystr \<Rightarrow> (json \<times> pystr) res" where
  "parse_atom s =
     (if starts_with (lit ''null'') s then Inr (JNull, drop 4 s)
      else if starts_with (lit ''true'') s then Inr (JBool True, drop 4 s)
      else if starts_with (lit ''false'') s then Inr (JBool False, drop 5 s)
      else if starts_with (lit ''NaN'') s then Inr (JFloat FNaN, drop 3 s)
      else if starts_with (lit ''Infinity'') s then Inr (JFloat FInf, drop 8 s)
      else if starts_with (lit ''-Infinity'') s then Inr (JFloat FNegInf, drop 9 s)
      else parse_number s)"

text \<open>
  The value, the members of an object and the elements of an array, with fuel.  Two nested calls
  consume at least one character, so \<open>2 * length s + 1\<close> units are enough (\<open>json_loads_no_fuel\<close>).
\<close>

fun parse_value :: "nat \<Rightarrow> pystr \<Rightarrow> (json \<times> pystr) res"
and parse_members :: "nat \<Rightarrow> (pystr \<times> json) list \<Rightarrow> pystr \<Rightarrow> ((pystr \<times> json) list \<times> pystr) res"
and parse_elems :: "nat \<Rightarrow> json list \<Rightarrow> pystr \<Rightarrow> (json list \<times> pystr) res"
where
  "parse_value 0 s = Inl FuelOut"
| "parse_value (Suc n) s =
     (case s of
        [] \<Rightarrow> Inl JSONDecodeError
      | c # r \<Rightarrow>
          if c = 34 then res_bind (str_body r) (\<lambda>(t, r'). Inr (JStr t, r'))
          else if c = 123 then
            (if skip_ws r \<noteq> [] \<and> hd (skip_ws r) = 125 then Inr (JObj [], tl (skip_ws r))
             else res_bind (parse_members n [] (skip_ws r)) (\<lambda>(m, r'). Inr (JObj m, r')))
          else if c = 91 then
            (if skip_ws r \<noteq> [] \<and> hd (skip_ws r) = 93 then Inr (JList [], tl (skip_ws r))
             else res_bind (parse_elems n [] (skip_ws r)) (\<lambda>(m, r'). Inr (JList m, r')))
          else parse_atom s)"
| "parse_members 0 acc s = Inl FuelOut"
| "parse_members (Suc n) acc s =
     (if s = [] \<or> hd s \<noteq> 34 then Inl JSONDecodeError
      else res_bind (str_body (tl s)) (\<lambda>(k, r).
        let r1 = skip_ws r in
        if r1 = [] \<or> hd r1 \<noteq> 58 then Inl JSONDecodeError
        else res_bind (parse_value n (skip_ws (tl r1))) (\<lambda>(v, r2).
          let r3 = skip_ws r2; acc' = AList.update k v acc in
          if r3 = [] then Inl JSONDecodeError
          else if hd r3 = 125 then Inr (acc', tl r3)
          else if hd r3 = 44 then parse_members n acc' (skip_ws (tl r3))
          else Inl JSONDecodeError)))"
| "parse_elems 0 acc s = Inl FuelOut"
| "parse_elems (Suc n) acc s =
     res_bind (parse_value n s) (\<lambda>(v, r).
       let r1 = skip_ws r; acc' = acc @ [v] in
       if r1 = [] then Inl JSONDecodeError
       else if hd r1 = 93 then Inr (acc', tl r1)
       else if hd r1 = 44 then parse_elems n acc' (skip_ws (tl r1))
       else Inl JSONDecodeError)"

definition json_loads :: "pystr \<Rightarrow> json res" where
  "json_loads s =
     res_bind (parse_value (2 * length s + 1) (skip_ws s))
       (\<lambda>(v, r). if skip_ws r = [] then Inr v else Inl JSONDecodeError)"

declare json_ws_def [py_eval] skip_ws_def [py_eval] hex_val_def [py_eval] simple_escape_def [py_eval]
  high_surrogate_def [py_eval] low_surrogate_def [py_eval] pair_low_def [py_eval]
  cons_res_def [py_eval] digits_of_def [py_eval] digits_value_def [py_eval] int_part_def [py_eval]
  frac_part_def [py_eval] exp_part_def [py_eval] parse_unsigned_def [py_eval] parse_number_def [py_eval] parse_atom_def [py_eval]
  json_loads_def [py_eval]

subsection \<open>The fuel is enough\<close>

lemma cons_res_Inr: "cons_res c x = Inr (s, r) \<longleftrightarrow> (\<exists>t. x = Inr (t, r) \<and> s = c # t)"
  by (auto simp: cons_res_def res_bind_Inr_conv)

lemma cons_res_Inl: "cons_res c x = Inl e \<longleftrightarrow> x = Inl e"
  by (cases x) (auto simp: cons_res_def)

lemma str_body_shorter: "str_body s = Inr (t, r) \<Longrightarrow> length r < length s"
proof (induction s arbitrary: t r rule: str_body.induct)
  case 1
  then show ?case by simp
next
  case (2 c cs)
  then show ?case
    by (fastforce simp: cons_res_Inr split: if_splits list.splits option.splits)
qed

lemma str_body_no_fuel: "str_body s \<noteq> Inl FuelOut"
proof (induction s rule: str_body.induct)
  case 1
  then show ?case by simp
next
  case (2 c cs)
  then show ?case
    by (auto simp: cons_res_Inl split: if_splits list.splits option.splits)
qed

lemma int_part_le: "int_part s \<noteq> [] \<Longrightarrow> 0 < length s \<and> 0 < length (int_part s)"
  by (cases s) (auto simp: int_part_def digits_of_def)

lemma parse_unsigned_rest:
  "parse_unsigned sg b = Inr (v, r) \<Longrightarrow>
   int_part b \<noteq> [] \<and> length r \<le> length b - length (int_part b)"
  by (auto simp: parse_unsigned_def Let_def split: if_splits option.splits)

lemma parse_unsigned_shorter: "parse_unsigned sg b = Inr (v, r) \<Longrightarrow> length r < length b"
  using parse_unsigned_rest [of sg b v r] int_part_le [of b] by linarith

lemma parse_number_shorter: "parse_number s = Inr (v, r) \<Longrightarrow> length r < length s"
  by (auto simp: parse_number_def dest: parse_unsigned_shorter split: list.splits if_splits)

lemma parse_number_no_fuel: "parse_number s \<noteq> Inl FuelOut"
  by (auto simp: parse_number_def parse_unsigned_def Let_def split: list.splits)

lemma starts_with_length: "starts_with p s \<Longrightarrow> length p \<le> length s"
  by (auto simp: starts_with_conv)

lemma parse_atom_shorter: "parse_atom s = Inr (v, r) \<Longrightarrow> length r < length s"
  by (auto simp: parse_atom_def dest: parse_number_shorter starts_with_length split: if_splits)

lemma parse_atom_no_fuel: "parse_atom s \<noteq> Inl FuelOut"
  by (auto simp: parse_atom_def parse_number_no_fuel)

lemma length_tl_skip_ws: "skip_ws r \<noteq> [] \<Longrightarrow> length (tl (skip_ws r)) < length r"
  using length_skip_ws [of r] by (cases "skip_ws r") auto

lemmas skip_ws_less = le_less_trans [OF length_skip_ws]

text \<open>
  One unfolding of each parser as facts about its intermediate results; the induction proofs
  below only chain the lengths.
\<close>

lemma parse_members_Suc_Inr:
  assumes "parse_members (Suc n) acc s = Inr (m, r')"
  obtains k r v r2 where "s \<noteq> []" "str_body (tl s) = Inr (k, r)" "skip_ws r \<noteq> []"
    "parse_value n (skip_ws (tl (skip_ws r))) = Inr (v, r2)" "skip_ws r2 \<noteq> []"
    "m = AList.update k v acc \<and> r' = tl (skip_ws r2)
     \<or> parse_members n (AList.update k v acc) (skip_ws (tl (skip_ws r2))) = Inr (m, r')"
proof -
  from assms have "s \<noteq> []" and "hd s = 34" by (auto split: if_splits)
  with assms obtain k r where kr: "str_body (tl s) = Inr (k, r)"
    by (cases "str_body (tl s)") auto
  with assms \<open>s \<noteq> []\<close> \<open>hd s = 34\<close> have r: "skip_ws r \<noteq> []" "hd (skip_ws r) = 58"
    by (auto simp: Let_def split: if_splits)
  with assms kr \<open>s \<noteq> []\<close> \<open>hd s = 34\<close> obtain v r2
    where vr: "parse_value n (skip_ws (tl (skip_ws r))) = Inr (v, r2)"
    by (cases "parse_value n (skip_ws (tl (skip_ws r)))") (auto simp: Let_def)
  show thesis
    using assms kr r vr \<open>s \<noteq> []\<close> \<open>hd s = 34\<close>
    by (intro that [of k r v r2]) (auto simp: Let_def split: if_splits)
qed

lemma parse_elems_Suc_Inr:
  assumes "parse_elems (Suc n) acc s = Inr (l, r')"
  obtains v r where "parse_value n s = Inr (v, r)" "skip_ws r \<noteq> []"
    "r' = tl (skip_ws r) \<or> parse_elems n (acc @ [v]) (skip_ws (tl (skip_ws r))) = Inr (l, r')"
proof -
  from assms obtain v r where vr: "parse_value n s = Inr (v, r)"
    by (cases "parse_value n s") auto
  show thesis
    using assms vr by (intro that [of v r]) (auto simp: Let_def split: if_splits)
qed

lemma parse_value_Suc_Inr:
  assumes "parse_value (Suc n) s = Inr (v, r)"
  obtains (str) c t where "s = c # t" "\<exists>k. str_body t = Inr (k, r)"
  | (end_tok) c t where "s = c # t" "skip_ws t \<noteq> []" "r = tl (skip_ws t)"
  | (obj) c t m where "s = c # t" "parse_members n [] (skip_ws t) = Inr (m, r)"
  | (arr) c t l where "s = c # t" "parse_elems n [] (skip_ws t) = Inr (l, r)"
  | (atom) "parse_atom s = Inr (v, r)"
  using assms by (cases s) (auto simp: res_bind_Inr_conv split: if_splits)

lemma parse_shorter_all:
  "(\<forall>s v r. parse_value n s = Inr (v, r) \<longrightarrow> length r < length s)
   \<and> (\<forall>acc s m r. parse_members n acc s = Inr (m, r) \<longrightarrow> length r < length s)
   \<and> (\<forall>acc s l r. parse_elems n acc s = Inr (l, r) \<longrightarrow> length r < length s)"
proof (induction n)
  case 0
  then show ?case by simp
next
  case (Suc n)
  note ws = length_skip_ws and tlws = length_tl_skip_ws
  have v: "length r < length s" if "parse_value (Suc n) s = Inr (v, r)" for s v r
    using that
  proof (cases rule: parse_value_Suc_Inr)
    case (str c t)
    then show ?thesis by (auto dest: str_body_shorter)
  next
    case (end_tok c t)
    then show ?thesis using tlws [of t] by simp
  next
    case (obj c t m)
    then have "length r < length (skip_ws t)" using Suc.IH by blast
    then show ?thesis using ws [of t] obj(1) by simp
  next
    case (arr c t l)
    then have "length r < length (skip_ws t)" using Suc.IH by blast
    then show ?thesis using ws [of t] arr(1) by simp
  next
    case atom
    then show ?thesis by (rule parse_atom_shorter)
  qed
  have m: "length r' < length s" if "parse_members (Suc n) acc s = Inr (m, r')" for acc s m r'
    using that
  proof (cases rule: parse_members_Suc_Inr)
    case (1 k r v r2)
    have "length r < length (tl s)" using 1(2) by (rule str_body_shorter)
    moreover have "length r2 < length (skip_ws (tl (skip_ws r)))" using 1(4) Suc.IH by blast
    moreover have "length r' \<le> length (tl (skip_ws r2))"
      using 1(6) Suc.IH ws [of "tl (skip_ws r2)"] by (metis less_imp_le_nat order.trans order_refl)
    ultimately show ?thesis
      using ws [of "tl (skip_ws r)"] tlws [OF 1(3)] tlws [OF 1(5)] by simp
  qed
  have l: "length r' < length s" if "parse_elems (Suc n) acc s = Inr (l, r')" for acc s l r'
    using that
  proof (cases rule: parse_elems_Suc_Inr)
    case (1 v r)
    have "length r < length s" using 1(1) Suc.IH by blast
    moreover have "length r' \<le> length (tl (skip_ws r))"
      using 1(3) Suc.IH ws [of "tl (skip_ws r)"] by (metis less_imp_le_nat order.trans order_refl)
    ultimately show ?thesis using tlws [OF 1(2)] by simp
  qed
  show ?case using v m l by blast
qed

lemmas parse_value_shorter = parse_shorter_all [THEN conjunct1, rule_format]

lemma res_bind_Inl_conv:
  "res_bind r f = Inl e \<longleftrightarrow> r = Inl e \<or> (\<exists>x. r = Inr x \<and> f x = Inl e)"
  by (cases r) auto

lemma parse_members_Suc_FuelOut:
  assumes "parse_members (Suc n) acc s = Inl FuelOut"
  obtains k r where "s \<noteq> []" "str_body (tl s) = Inr (k, r)" "skip_ws r \<noteq> []"
    "parse_value n (skip_ws (tl (skip_ws r))) = Inl FuelOut"
  | k r v r2 where "s \<noteq> []" "str_body (tl s) = Inr (k, r)" "skip_ws r \<noteq> []"
    "parse_value n (skip_ws (tl (skip_ws r))) = Inr (v, r2)" "skip_ws r2 \<noteq> []"
    "parse_members n (AList.update k v acc) (skip_ws (tl (skip_ws r2))) = Inl FuelOut"
  using assms str_body_no_fuel [of "tl s"]
  by (auto simp: res_bind_Inl_conv Let_def split: if_splits)

lemma parse_elems_Suc_FuelOut:
  assumes "parse_elems (Suc n) acc s = Inl FuelOut"
  obtains "parse_value n s = Inl FuelOut"
  | v r where "parse_value n s = Inr (v, r)" "skip_ws r \<noteq> []"
    "parse_elems n (acc @ [v]) (skip_ws (tl (skip_ws r))) = Inl FuelOut"
  using assms by (auto simp: res_bind_Inl_conv Let_def split: if_splits)

lemma parse_value_Suc_FuelOut:
  assumes "parse_value (Suc n) s = Inl FuelOut"
  obtains c t where "s = c # t"
    "parse_members n [] (skip_ws t) = Inl FuelOut \<or> parse_elems n [] (skip_ws t) = Inl FuelOut"
  using assms str_body_no_fuel [of "tl s"] parse_atom_no_fuel [of s]
  by (cases s) (auto simp: res_bind_Inl_conv split: if_splits)

lemma parse_no_fuel_all:
  "(\<forall>s. 2 * length s < n \<longrightarrow> parse_value n s \<noteq> Inl FuelOut)
   \<and> (\<forall>acc s. 2 * length s < n \<longrightarrow> parse_members n acc s \<noteq> Inl FuelOut)
   \<and> (\<forall>acc s. 2 * length s + 1 < n \<longrightarrow> parse_elems n acc s \<noteq> Inl FuelOut)"
proof (induction n)
  case 0
  then show ?case by simp
next
  case (Suc n)
  note ws = length_skip_ws and tlws = length_tl_skip_ws
  have v: False if "parse_value (Suc n) s = Inl FuelOut" and len: "2 * length s < Suc n" for s
    using that(1)
  proof (cases rule: parse_value_Suc_FuelOut)
    case (1 c t)
    then have "2 * length (skip_ws t) + 1 < n" using len ws [of t] by simp
    then show False using 1(2) Suc.IH by auto
  qed
  have m: False
    if "parse_members (Suc n) acc s = Inl FuelOut" and len: "2 * length s < Suc n" for acc s
    using that(1)
  proof (cases rule: parse_members_Suc_FuelOut)
    case (1 k r)
    then have "length (skip_ws (tl (skip_ws r))) < length (tl s)"
      using str_body_shorter [of "tl s" k r] tlws [of r] ws [of "tl (skip_ws r)"] by simp
    then show False using 1 Suc.IH len by (cases s) auto
  next
    case (2 k r v r2)
    then have "length (skip_ws (tl (skip_ws r2))) < length (tl s)"
      using str_body_shorter [of "tl s" k r] tlws [of r] ws [of "tl (skip_ws r)"]
        parse_value_shorter [OF 2(4)] tlws [of r2] ws [of "tl (skip_ws r2)"] by simp
    then show False using 2 Suc.IH len by (cases s) auto
  qed
  have l: False
    if "parse_elems (Suc n) acc s = Inl FuelOut" and len: "2 * length s + 1 < Suc n" for acc s
    using that(1)
  proof (cases rule: parse_elems_Suc_FuelOut)
    case 1
    then show False using Suc.IH len by simp
  next
    case (2 v r)
    then have "length (skip_ws (tl (skip_ws r))) < length s"
      using parse_value_shorter [OF 2(1)] tlws [of r] ws [of "tl (skip_ws r)"] by simp
    then show False using 2(3) Suc.IH len by auto
  qed
  show ?case using v m l by blast
qed

lemma json_loads_no_fuel: "json_loads s \<noteq> Inl FuelOut"
proof -
  have "2 * length (skip_ws s) < 2 * length s + 1"
    using length_skip_ws [of s] by simp
  then have "parse_value (2 * length s + 1) (skip_ws s) \<noteq> Inl FuelOut"
    using parse_no_fuel_all by blast
  then show ?thesis
    by (auto simp: json_loads_def res_bind_Inl_conv split: if_splits)
qed

section \<open>Writing flat dictionaries\<close>

datatype jscalar = SNull | SBool bool | SInt int | SStr pystr

fun of_scalar :: "jscalar \<Rightarrow> json" where
  "of_scalar SNull = JNull"
| "of_scalar (SBool b) = JBool b"
| "of_scalar (SInt n) = JInt n"
| "of_scalar (SStr s) = JStr s"

definition hex_digit :: "int \<Rightarrow> codepoint" where
  "hex_digit x = (if x < 10 then 48 + x else 87 + x)"

definition u_escape :: "int \<Rightarrow> pystr" where
  "u_escape n = [92, 117, hex_digit (n div 4096 mod 16), hex_digit (n div 256 mod 16),
                 hex_digit (n div 16 mod 16), hex_digit (n mod 16)]"

text \<open>One character of a string literal; \<open>a\<close> is \<open>ensure_ascii\<close>.\<close>

definition esc_char :: "bool \<Rightarrow> codepoint \<Rightarrow> pystr" where
  "esc_char a c =
     (if c = 34 then [92, 34]
      else if c = 92 then [92, 92]
      else if c = 10 then [92, 110]
      else if c = 13 then [92, 114]
      else if c = 9 then [92, 116]
      else if c = 12 then [92, 102]
      else if c = 8 then [92, 98]
      else if c < 32 then u_escape c
      else if a \<and> c > 126 then
        (if c < 0x10000 then u_escape c
         else u_escape (0xD800 + (c - 0x10000) div 1024) @ u_escape (0xDC00 + (c - 0x10000) mod 1024))
      else [c])"

definition dump_str :: "bool \<Rightarrow> pystr \<Rightarrow> pystr" where
  "dump_str a s = 34 # concat (map (esc_char a) s) @ [34]"

fun dump_scalar :: "bool \<Rightarrow> jscalar \<Rightarrow> pystr" where
  "dump_scalar a SNull = lit ''null''"
| "dump_scalar a (SBool b) = (if b then lit ''true'' else lit ''false'')"
| "dump_scalar a (SInt n) = show_int n"
| "dump_scalar a (SStr s) = dump_str a s"

text \<open>\<open>compact\<close> is \<open>separators=(",", ":")\<close>; otherwise the defaults \<open>(", ", ": ")\<close>.\<close>

definition item_sep :: "bool \<Rightarrow> pystr" where
  "item_sep compact = (if compact then [44] else [44, 32])"

definition key_sep :: "bool \<Rightarrow> pystr" where
  "key_sep compact = (if compact then [58] else [58, 32])"

definition dump_item :: "bool \<Rightarrow> bool \<Rightarrow> pystr \<times> jscalar \<Rightarrow> pystr" where
  "dump_item a compact = (\<lambda>(k, v). dump_str a k @ key_sep compact @ dump_scalar a v)"

definition json_dumps :: "bool \<Rightarrow> bool \<Rightarrow> (pystr \<times> jscalar) list \<Rightarrow> pystr" where
  "json_dumps a compact kvs = 123 # join (item_sep compact) (map (dump_item a compact) kvs) @ [125]"

declare hex_digit_def [py_eval] u_escape_def [py_eval] esc_char_def [py_eval] dump_str_def [py_eval]
  item_sep_def [py_eval] key_sep_def [py_eval] dump_item_def [py_eval] json_dumps_def [py_eval]

subsection \<open>Round trip\<close>

lemma hex_val_digit: "0 \<le> x \<Longrightarrow> x < 16 \<Longrightarrow> hex_val (hex_digit x) = Some x"
  by (auto simp: hex_val_def hex_digit_def)

lemma horner16: "n = ((a * 16 + b) * 16 + c) * 16 + d \<Longrightarrow> a * 4096 + b * 256 + c * 16 + d = (n :: int)"
  by simp

lemma base16_four:
  fixes n :: int
  assumes "0 \<le> n" and "n < 65536"
  shows "n div 4096 mod 16 * 4096 + n div 256 mod 16 * 256 + n div 16 mod 16 * 16 + n mod 16 = n"
proof -
  have "n = n div 16 * 16 + n mod 16" by simp
  also have "n div 16 = n div 256 * 16 + n div 16 mod 16"
    using div_mod_split [of 16 16 n] by simp
  also have "n div 256 = n div 4096 * 16 + n div 256 mod 16"
    using div_mod_split [of 256 16 n] by simp
  finally have n: "n = ((n div 4096 * 16 + n div 256 mod 16) * 16 + n div 16 mod 16) * 16 + n mod 16" .
  have "n div 4096 mod 16 = n div 4096" using assms by simp
  then show ?thesis using horner16 [OF n] by (simp only:)
qed

lemma hex4_digits:
  assumes "0 \<le> w" "w < 16" "0 \<le> x" "x < 16" "0 \<le> y" "y < 16" "0 \<le> z" "z < 16"
  shows "hex4 (hex_digit w # hex_digit x # hex_digit y # hex_digit z # t)
         = Some (w * 4096 + x * 256 + y * 16 + z)"
  using assms by (simp add: hex_val_digit)

lemma u_escape_shape:
  assumes "0 \<le> n" and "n < 65536"
  obtains d1 d2 d3 d4 where "u_escape n = [92, 117, d1, d2, d3, d4]"
    and "\<And>t. hex4 (d1 # d2 # d3 # d4 # t) = Some n"
proof -
  define w x y z where "w = n div 4096 mod 16" and "x = n div 256 mod 16" and "y = n div 16 mod 16"
    and "z = n mod 16"
  have n: "w * 4096 + x * 256 + y * 16 + z = n"
    unfolding w_def x_def y_def z_def using assms by (rule base16_four)
  have "u_escape n = [92, 117, hex_digit w, hex_digit x, hex_digit y, hex_digit z]"
    by (simp only: u_escape_def w_def x_def y_def z_def)
  moreover have "hex4 (hex_digit w # hex_digit x # hex_digit y # hex_digit z # t) = Some n" for t
    unfolding n [symmetric] by (rule hex4_digits) (simp_all add: w_def x_def y_def z_def)
  ultimately show thesis by (rule that)
qed

lemma pair_low_not_high: "\<not> high_surrogate n \<Longrightarrow> pair_low n t = None"
  by (simp add: pair_low_def)

lemma pair_low_u_escape:
  assumes "high_surrogate n" and "low_surrogate m"
  shows "pair_low n (u_escape m @ t) = Some m"
proof -
  have "0 \<le> m" "m < 65536" using assms(2) by (simp_all add: low_surrogate_def)
  then obtain d1 d2 d3 d4 where "u_escape m = [92, 117, d1, d2, d3, d4]"
    and "hex4 (d1 # d2 # d3 # d4 # t) = Some m"
    by (rule u_escape_shape) blast
  with assms show ?thesis by (simp add: pair_low_def)
qed

lemma str_body_u:
  assumes "0 \<le> n" and "n < 65536"
  shows "pair_low n t = None \<Longrightarrow> str_body (u_escape n @ t) = cons_res n (str_body t)"
    and "pair_low n t = Some m \<Longrightarrow>
      str_body (u_escape n @ t)
      = cons_res (0x10000 + (n - 0xD800) * 1024 + (m - 0xDC00)) (str_body (drop 6 t))"
proof -
  obtain d1 d2 d3 d4 where d: "u_escape n = [92, 117, d1, d2, d3, d4]"
    and h: "hex4 (d1 # d2 # d3 # d4 # t) = Some n"
    using assms by (rule u_escape_shape) blast
  show "pair_low n t = None \<Longrightarrow> str_body (u_escape n @ t) = cons_res n (str_body t)"
    by (simp add: d h del: hex4.simps)
  show "pair_low n t = Some m \<Longrightarrow>
      str_body (u_escape n @ t)
      = cons_res (0x10000 + (n - 0xD800) * 1024 + (m - 0xDC00)) (str_body (drop 6 t))"
    by (simp add: d h del: hex4.simps)
qed

lemma str_body_u_bmp:
  assumes "0 \<le> n" and "n < 65536" and "\<not> is_surrogate n"
  shows "str_body (u_escape n @ t) = cons_res n (str_body t)"
proof -
  have "\<not> high_surrogate n"
    using assms(3) by (auto simp: high_surrogate_def is_surrogate_def)
  with assms(1,2) show ?thesis
    by (simp add: str_body_u pair_low_not_high)
qed

text \<open>Beyond the basic plane a character is written as a surrogate pair, which is read back whole.\<close>

lemma str_body_u_pair:
  assumes "0x10000 \<le> c" and "c \<le> 0x10FFFF"
  shows "str_body (u_escape (0xD800 + (c - 0x10000) div 1024)
                   @ u_escape (0xDC00 + (c - 0x10000) mod 1024) @ t) = cons_res c (str_body t)"
proof -
  define h l where "h = (c - 0x10000) div 1024" and "l = (c - 0x10000) mod 1024"
  have c: "0x10000 + h * 1024 + l = c"
    using mult_div_mod_eq [of 1024 "c - 0x10000"] unfolding h_def l_def by linarith
  have l: "0 \<le> l" "l < 1024" by (simp_all add: l_def)
  have h: "0 \<le> h" "h < 1024" using assms c l by linarith+
  have "high_surrogate (0xD800 + h)" and "low_surrogate (0xDC00 + l)"
    using h l by (simp_all add: high_surrogate_def low_surrogate_def)
  then have p: "pair_low (0xD800 + h) (u_escape (0xDC00 + l) @ t) = Some (0xDC00 + l)"
    by (rule pair_low_u_escape)
  have d: "drop 6 (u_escape (0xDC00 + l) @ t) = t" by (simp add: u_escape_def)
  have "str_body (u_escape (0xD800 + h) @ u_escape (0xDC00 + l) @ t)
    = cons_res (0x10000 + (0xD800 + h - 0xD800) * 1024 + (0xDC00 + l - 0xDC00)) (str_body t)"
    using str_body_u(2) [OF _ _ p] h unfolding d by simp
  then show ?thesis by (simp add: c flip: h_def l_def)
qed

lemma str_body_esc_char:
  assumes "valid_cp c" and "\<not> is_surrogate c"
  shows "str_body (esc_char a c @ t) = cons_res c (str_body t)"
proof (cases "a \<and> 0x10000 \<le> c")
  case True
  then show ?thesis
    using assms str_body_u_pair [of c t] by (simp add: esc_char_def valid_cp_def)
next
  case False
  then show ?thesis
    using assms str_body_u_bmp [of c t] by (auto simp: esc_char_def simple_escape_def valid_cp_def)
qed

lemma str_body_dump: "encodable s \<Longrightarrow> str_body (concat (map (esc_char a) s) @ 34 # r) = Inr (s, r)"
  by (induction s) (auto simp: encodable_def str_body_esc_char cons_res_def)

text \<open>A scalar that can be written and read back: encodable text, integers within the digit limit.\<close>

fun scalar_ok :: "jscalar \<Rightarrow> bool" where
  "scalar_ok (SStr s) = encodable s"
| "scalar_ok (SInt n) = (length (show_int n) \<le> max_str_digits)"
| "scalar_ok _ = True"

text \<open>What follows a value inside a flat object.\<close>

definition after_value :: "pystr \<Rightarrow> bool" where
  "after_value r \<longleftrightarrow> r \<noteq> [] \<and> (hd r = 44 \<or> hd r = 125)"

lemma hd_show_pos: "0 < n \<Longrightarrow> hd (show_pos n) \<noteq> 48"
proof (induction n rule: show_pos.induct)
  case (1 n)
  then show ?case by (auto simp: show_pos.simps [of n] hd_append)
qed

lemma show_pos_0: "show_pos 0 = [48]"
  by (simp add: show_pos.simps)

lemma takeWhile_all_append: "list_all p a \<Longrightarrow> r = [] \<or> \<not> p (hd r) \<Longrightarrow> takeWhile p (a @ r) = a"
  by (induction a) (auto simp: neq_Nil_conv takeWhile_eq_Nil_iff)

lemma int_part_show_pos:
  assumes "0 \<le> n" and "r \<noteq> []" and "\<not> ascii_digit (hd r)"
  shows "int_part (show_pos n @ r) = show_pos n"
proof (cases "n = 0")
  case True
  then show ?thesis by (simp add: int_part_def show_pos_0)
next
  case False
  then have "hd (show_pos n @ r) \<noteq> 48" using assms(1) hd_show_pos [of n] by simp
  moreover have "takeWhile ascii_digit (show_pos n @ r) = show_pos n"
    using assms show_pos_digits [of n] by (intro takeWhile_all_append) auto
  ultimately show ?thesis by (simp add: int_part_def digits_of_def)
qed

lemma parse_unsigned_show_pos:
  assumes "0 \<le> n" and "after_value r" and "length (show_pos n) \<le> max_str_digits"
  shows "parse_unsigned sg (show_pos n @ r) = Inr (JInt (sg * n), r)"
proof -
  have "int_part (show_pos n @ r) = show_pos n"
    using assms by (intro int_part_show_pos) (auto simp: after_value_def ascii_digit_def)
  moreover have "frac_part r = None" and "exp_part r = None"
    using assms(2) by (auto simp: frac_part_def exp_part_def after_value_def)
  moreover have "digits_value (show_pos n) = n"
    using assms(1) by (simp add: digits_value_def foldl_show_pos)
  ultimately show ?thesis using assms(3) by (simp add: parse_unsigned_def Let_def)
qed

lemma hd_digit_show_pos:
  assumes "0 \<le> n"
  obtains c t where "show_pos n = c # t" and "48 \<le> c" and "c \<le> 57"
  using show_pos_digits [OF assms] show_pos_not_Nil [of n]
  by (cases "show_pos n") (auto simp: ascii_digit_def)

lemma parse_value_int:
  assumes "after_value r" and "length (show_int n) \<le> max_str_digits"
  shows "parse_value (Suc k) (show_int n @ r) = Inr (JInt n, r)"
proof (cases "n < 0")
  case True
  then have "0 \<le> - n" by simp
  then obtain c t where ct: "show_pos (- n) = c # t" "48 \<le> c" "c \<le> 57" by (rule hd_digit_show_pos)
  have "parse_unsigned (-1) (show_pos (- n) @ r) = Inr (JInt n, r)"
    using True assms parse_unsigned_show_pos [of "- n" r "-1"] by (simp add: show_int_def)
  then show ?thesis
    using True ct by (simp add: show_int_def parse_atom_def parse_number_def starts_with_def lit_def)
next
  case False
  then have "0 \<le> n" by simp
  then obtain c t where ct: "show_pos n = c # t" "48 \<le> c" "c \<le> 57" by (rule hd_digit_show_pos)
  have "parse_unsigned 1 (show_pos n @ r) = Inr (JInt n, r)"
    using False assms parse_unsigned_show_pos [of n r 1] by (simp add: show_int_def)
  then show ?thesis
    using False ct by (auto simp: show_int_def parse_atom_def parse_number_def starts_with_def lit_def)
qed

lemma parse_value_str:
  "encodable s \<Longrightarrow> parse_value (Suc k) (dump_str a s @ r) = Inr (JStr s, r)"
  by (simp add: dump_str_def str_body_dump)

lemma parse_value_scalar:
  assumes "scalar_ok v" and "after_value r"
  shows "parse_value (Suc k) (dump_scalar a v @ r) = Inr (of_scalar v, r)"
proof (cases v)
  case SNull
  then show ?thesis by (simp add: parse_atom_def starts_with_def lit_def)
next
  case (SBool b)
  then show ?thesis by (simp add: parse_atom_def starts_with_def lit_def)
next
  case (SInt n)
  then show ?thesis using assms by (simp add: parse_value_int del: parse_value.simps)
next
  case (SStr s)
  then show ?thesis using assms by (simp add: parse_value_str del: parse_value.simps)
qed

lemma AList_update_fresh: "k \<notin> fst ` set al \<Longrightarrow> AList.update k v al = al @ [(k, v)]"
  by (induction al) auto

definition of_items :: "(pystr \<times> jscalar) list \<Rightarrow> (pystr \<times> json) list" where
  "of_items kvs = map (\<lambda>(k, v). (k, of_scalar v)) kvs"

definition items_ok :: "(pystr \<times> jscalar) list \<Rightarrow> bool" where
  "items_ok kvs \<longleftrightarrow> distinct (map fst kvs) \<and> list_all (\<lambda>(k, v). encodable k \<and> scalar_ok v) kvs"

lemma skip_ws_after: "after_value r \<Longrightarrow> skip_ws r = r"
  by (intro skip_ws_nows) (auto simp: after_value_def json_ws_def)

lemma skip_ws_scalar: "skip_ws (dump_scalar a v @ r) = dump_scalar a v @ r"
proof -
  have "dump_scalar a v \<noteq> [] \<and> \<not> json_ws (hd (dump_scalar a v))"
  proof (cases v)
    case (SInt n)
    have "show_int n \<noteq> [] \<and> \<not> json_ws (hd (show_int n))"
      using show_pos_digits [of n] show_pos_not_Nil [of n]
      by (cases "show_pos n") (auto simp: show_int_def json_ws_def ascii_digit_def)
    with SInt show ?thesis by simp
  qed (auto simp: lit_def json_ws_def dump_str_def)
  then show ?thesis by (intro skip_ws_nows) simp
qed

lemma parse_members_one:
  assumes "encodable k" and "scalar_ok v" and "after_value r"
  shows "parse_members (Suc (Suc n)) acc (dump_item a c (k, v) @ r) =
     (if hd r = 125 then Inr (AList.update k (of_scalar v) acc, tl r)
      else parse_members (Suc n) (AList.update k (of_scalar v) acc) (skip_ws (tl r)))"
proof -
  let ?rest = "dump_scalar a v @ r"
  have sb: "str_body (concat (map (esc_char a) k) @ 34 # key_sep c @ ?rest) = Inr (k, key_sep c @ ?rest)"
    using assms(1) by (rule str_body_dump)
  have ks: "skip_ws (key_sep c @ ?rest) = key_sep c @ ?rest"
    by (intro skip_ws_nows) (simp add: key_sep_def json_ws_def)
  have kt: "skip_ws (tl (key_sep c @ ?rest)) = ?rest"
    by (simp add: key_sep_def skip_ws_scalar) (simp add: skip_ws_def json_ws_def skip_ws_scalar [unfolded skip_ws_def])
  have pv: "parse_value (Suc n) ?rest = Inr (of_scalar v, r)"
    using assms(2,3) by (rule parse_value_scalar)
  have hk: "key_sep c @ ?rest \<noteq> []" "hd (key_sep c @ ?rest) = 58" by (simp_all add: key_sep_def)
  show ?thesis
    using assms(3) hk
    by (auto simp: dump_item_def dump_str_def sb ks kt pv skip_ws_after Let_def after_value_def
        simp del: parse_value.simps)
qed

lemma parse_members_dump:
  assumes "items_ok kvs" and "kvs \<noteq> []" and "fst ` set acc \<inter> fst ` set kvs = {}" and "length kvs < n"
  shows "parse_members n acc (join (item_sep c) (map (dump_item a c) kvs) @ 125 # r)
         = Inr (acc @ of_items kvs, r)"
  using assms
proof (induction kvs arbitrary: acc n)
  case Nil
  then show ?case by simp
next
  case (Cons kv kvs)
  obtain k v where kv: "kv = (k, v)" by (cases kv)
  obtain m where n: "n = Suc (Suc m)"
    using Cons.prems(4) by (cases n; cases "n - 1") auto
  have kvok: "encodable k" "scalar_ok v" using Cons.prems(1) kv by (auto simp: items_ok_def)
  have upd: "AList.update k (of_scalar v) acc = acc @ [(k, of_scalar v)]"
    using Cons.prems(3) kv by (intro AList_update_fresh) auto
  show ?case
  proof (cases kvs)
    case Nil
    then show ?thesis
      using kv kvok upd n parse_members_one [of k v "125 # r" m acc a c]
      by (simp add: after_value_def of_items_def)
  next
    case (Cons w ws)
    let ?j = "join (item_sep c) (map (dump_item a c) kvs) @ 125 # r"
    have j: "join (item_sep c) (map (dump_item a c) (kv # kvs)) @ 125 # r
             = dump_item a c (k, v) @ item_sep c @ ?j"
      using kv Cons by simp
    have "hd ?j = 34 \<and> ?j \<noteq> []"
      using Cons by (cases "map (dump_item a c) ws") (auto simp: dump_item_def dump_str_def split: prod.split)
    then have "skip_ws (tl (item_sep c @ ?j)) = ?j"
      by (cases ?j) (auto simp: item_sep_def skip_ws_def json_ws_def)
    moreover have "parse_members (Suc m) (acc @ [(k, of_scalar v)]) ?j
                   = Inr ((acc @ [(k, of_scalar v)]) @ of_items kvs, r)"
      using Cons Cons.prems kv n by (intro Cons.IH) (auto simp: items_ok_def)
    ultimately show ?thesis
      using kv kvok upd n parse_members_one [of k v "item_sep c @ ?j" m acc a c] j
      by (simp add: after_value_def item_sep_def of_items_def)
  qed
qed

lemma length_join_dump: "length kvs \<le> length (join (item_sep c) (map (dump_item a c) kvs))"
proof (induction kvs)
  case (Cons kv kvs)
  have "0 < length (dump_item a c kv)"
    by (simp add: dump_item_def dump_str_def split: prod.split)
  then have "Suc 0 \<le> length (dump_item a c kv)" by (rule Suc_leI)
  with Cons show ?case by (cases kvs) (auto simp del: length_greater_0_conv)
qed simp

text \<open>Reading back what was written, whatever white space (a final newline) follows it.\<close>

theorem json_loads_dumps_ws:
  assumes "items_ok kvs" and w: "list_all json_ws w"
  shows "json_loads (json_dumps a c kvs @ w) = Inr (JObj (of_items kvs))"
proof -
  let ?j = "join (item_sep c) (map (dump_item a c) kvs)"
  let ?d = "json_dumps a c kvs @ w"
  let ?n = "2 * length ?d"
  have len: "length kvs < ?n"
    using length_join_dump [of kvs c a] by (simp add: json_dumps_def)
  have d: "?d = 123 # ?j @ 125 # w" by (simp add: json_dumps_def)
  have pv: "parse_value (Suc ?n) ?d = Inr (JObj (of_items kvs), w)"
  proof (cases "kvs = []")
    case True
    then show ?thesis by (simp add: json_dumps_def of_items_def skip_ws_def json_ws_def)
  next
    case False
    have hd: "hd (?j @ 125 # w) = 34 \<and> ?j \<noteq> []"
      using False by (cases kvs; cases "tl kvs") (auto simp: dump_item_def dump_str_def split: prod.split)
    have "parse_members ?n [] (?j @ 125 # w) = Inr (of_items kvs, w)"
      using assms(1) False len by (subst parse_members_dump) auto
    then show ?thesis
      using hd skip_ws_nows [of "?j @ 125 # w"] by (auto simp: d json_ws_def)
  qed
  have "skip_ws w = []" using w by (auto simp: skip_ws_def list_all_iff dropWhile_eq_Nil_conv)
  moreover have "skip_ws ?d = ?d"
    by (intro skip_ws_nows) (simp add: d json_ws_def)
  ultimately show ?thesis
    using pv by (simp add: json_loads_def del: parse_value.simps)
qed

lemma json_loads_dumps: "items_ok kvs \<Longrightarrow> json_loads (json_dumps a c kvs) = Inr (JObj (of_items kvs))"
  using json_loads_dumps_ws [of kvs "[]"] by simp

section \<open>What a compact ASCII document looks like\<close>

text \<open>With \<open>ensure_ascii\<close> every character is printable ASCII: no newline, no byte above 126.\<close>

definition printable :: "pystr \<Rightarrow> bool" where
  "printable s \<longleftrightarrow> list_all (\<lambda>c. 32 \<le> c \<and> c \<le> 126) s"

lemma printable_simps [simp]:
  "printable []" "printable (c # s) \<longleftrightarrow> 32 \<le> c \<and> c \<le> 126 \<and> printable s"
  "printable (a @ b) \<longleftrightarrow> printable a \<and> printable b"
  by (auto simp: printable_def)

lemma printable_hex: "0 \<le> x \<Longrightarrow> x < 16 \<Longrightarrow> 32 \<le> hex_digit x \<and> hex_digit x \<le> 126"
  by (simp add: hex_digit_def)

lemma printable_u_escape: "printable (u_escape n)"
  by (simp add: u_escape_def printable_hex)

lemma printable_esc_char: "printable (esc_char True c)"
  by (simp add: esc_char_def printable_u_escape)

lemma printable_concat: "(\<forall>w \<in> set ws. printable w) \<Longrightarrow> printable (concat ws)"
  by (induction ws) auto

lemma printable_dump_str: "printable (dump_str True s)"
proof -
  have "printable (concat (map (esc_char True) s))"
    by (rule printable_concat) (simp add: printable_esc_char)
  then show ?thesis by (simp add: dump_str_def)
qed

lemma printable_show_int: "printable (show_int n)"
  using show_pos_digits [of n] show_pos_digits [of "- n"]
  by (auto simp: show_int_def printable_def list_all_iff ascii_digit_def) force+

lemma printable_dump_scalar: "printable (dump_scalar True v)"
  by (cases v) (auto simp: printable_dump_str printable_show_int lit_def)

lemma printable_join: "printable sep \<Longrightarrow> (\<forall>w \<in> set ws. printable w) \<Longrightarrow> printable (join sep ws)"
  by (induction sep ws rule: join.induct) auto

lemma printable_json_dumps: "printable (json_dumps True c kvs)"
proof -
  have "printable (join (item_sep c) (map (dump_item True c) kvs))"
    by (intro printable_join)
       (auto simp: item_sep_def key_sep_def dump_item_def printable_dump_str printable_dump_scalar)
  then show ?thesis by (simp add: json_dumps_def)
qed

lemma printable_isascii: "printable s \<Longrightarrow> py_isascii s"
  by (auto simp: printable_def py_isascii_def list_all_iff)

section \<open>What a document with raw non-ASCII text looks like\<close>

text \<open>Whatever \<open>ensure_ascii\<close> is, a written document is encodable and has no control character.\<close>

definition visible :: "pystr \<Rightarrow> bool" where
  "visible s \<longleftrightarrow> list_all (\<lambda>c. 32 \<le> c \<and> valid_cp c \<and> \<not> is_surrogate c) s"

lemma visible_simps [simp]:
  "visible []" "visible (c # s) \<longleftrightarrow> 32 \<le> c \<and> valid_cp c \<and> \<not> is_surrogate c \<and> visible s"
  "visible (a @ b) \<longleftrightarrow> visible a \<and> visible b"
  by (auto simp: visible_def)

lemma printable_visible: "printable s \<Longrightarrow> visible s"
  by (auto simp: printable_def visible_def list_all_iff valid_cp_def is_surrogate_def)

lemma visible_esc_char:
  assumes "valid_cp c" and "\<not> is_surrogate c"
  shows "visible (esc_char a c)"
proof (cases "esc_char a c = [c]")
  case True
  then have "32 \<le> c"
    using assms by (auto simp: esc_char_def u_escape_def valid_cp_def split: if_splits)
  with True assms show ?thesis by simp
next
  case False
  then have "esc_char a c = esc_char True c" by (auto simp: esc_char_def split: if_splits)
  then show ?thesis by (simp add: printable_esc_char printable_visible)
qed

lemma visible_concat: "(\<forall>w \<in> set ws. visible w) \<Longrightarrow> visible (concat ws)"
  by (induction ws) auto

lemma visible_dump_str:
  assumes "encodable s"
  shows "visible (dump_str a s)"
proof -
  have "visible (concat (map (esc_char a) s))"
    using assms by (intro visible_concat) (auto simp: encodable_def list_all_iff visible_esc_char)
  then show ?thesis by (simp add: dump_str_def valid_cp_def is_surrogate_def)
qed

lemma visible_dump_scalar: "scalar_ok v \<Longrightarrow> visible (dump_scalar a v)"
  by (cases v) (auto simp: visible_dump_str printable_visible printable_show_int lit_def valid_cp_def is_surrogate_def)

lemma visible_join: "visible sep \<Longrightarrow> (\<forall>w \<in> set ws. visible w) \<Longrightarrow> visible (join sep ws)"
  by (induction sep ws rule: join.induct) auto

lemma visible_json_dumps:
  assumes "items_ok kvs"
  shows "visible (json_dumps a c kvs)"
proof -
  have v: "visible (dump_item a c (k, x))" if "(k, x) \<in> set kvs" for k x
    using assms that
    by (auto simp: items_ok_def list_all_iff dump_item_def key_sep_def visible_dump_str visible_dump_scalar
        valid_cp_def is_surrogate_def)
  have "visible (join (item_sep c) (map (dump_item a c) kvs))"
    by (intro visible_join ballI) (auto simp: item_sep_def valid_cp_def is_surrogate_def v)
  then show ?thesis by (simp add: json_dumps_def valid_cp_def is_surrogate_def)
qed

lemma visible_encodable: "visible s \<Longrightarrow> encodable s"
  by (auto simp: visible_def encodable_def list_all_iff)

lemma visible_no_cr: "visible s \<Longrightarrow> 13 \<notin> set s"
  by (auto simp: visible_def list_all_iff)

text \<open>Each character takes at most six bytes when it is not forced to ASCII.\<close>

lemma length_utf8_cp: "1 \<le> length (utf8_cp c)"
  by (simp add: utf8_cp_def)

lemma length_esc_char_raw:
  "length (utf8_ints (esc_char False c)) \<le> 6 * length (utf8_cp c)"
proof (cases "esc_char False c = [c]")
  case True
  then show ?thesis by (simp add: utf8_ints_def)
next
  case False
  then have e: "esc_char False c = u_escape c \<or> esc_char False c \<in> {[92, x] | x. x \<in> {34, 92, 110, 114, 116, 102, 98}}"
    by (simp add: esc_char_def split: if_splits)
  from e have "py_isascii (esc_char False c) \<and> length (esc_char False c) \<le> 6"
  proof
    assume u: "esc_char False c = u_escape c"
    have "length (u_escape c) = 6" by (simp add: u_escape_def)
    then show ?thesis unfolding u using printable_isascii [OF printable_u_escape] by simp
  next
    assume "esc_char False c \<in> {[92, x] | x. x \<in> {34, 92, 110, 114, 116, 102, 98}}"
    then obtain x where x: "esc_char False c = [92, x]" and "x \<in> {34, 92, 110, 114, 116, 102, 98}" by blast
    then have "0 \<le> x" "x < 128" by auto
    then show ?thesis unfolding x by (simp add: py_isascii_def)
  qed
  then have "length (utf8_ints (esc_char False c)) \<le> 6" by (simp add: utf8_ints_ascii)
  with length_utf8_cp [of c] show ?thesis by linarith
qed

lemma length_dump_str_raw: "length (utf8_ints (dump_str False s)) \<le> 6 * length (utf8_ints s) + 2"
proof -
  have "length (utf8_ints (concat (map (esc_char False) s))) \<le> 6 * length (utf8_ints s)"
  proof (induction s)
    case (Cons c s)
    then show ?case
      using length_esc_char_raw [of c] by (simp add: utf8_ints_def)
  qed (simp add: utf8_ints_def)
  then show ?thesis by (simp add: dump_str_def utf8_ints_def utf8_cp_def)
qed

end
