(* ===== verification/Os_Model.thy ===== *)
theory Os_Model
  imports Py_Codec
begin

text \<open>
  The operating system as the sources see it: a flat file system of inodes under path names, the
  system calls of \<open>os\<close>, \<open>stat\<close> and \<open>pathlib\<close> that the program makes, and their failures.

  Every call can fail: \<open>faults\<close> says which call on which path raises \<open>OSError\<close>, and \<open>torn\<close> how many
  bytes a failing \<open>write\<close> leaves behind.  \<open>history\<close> is a ghost field: the file systems that existed
  one after the other, newest first, so that a property can speak of everything a concurrent
  reader could have found. Syncing can fail and has no other effect: nothing is said about what survives a
  power cut.
\<close>

unbundle bit_operations_syntax

type_synonym path = pystr

datatype ftype = Regular | Directory | Symlink | OtherType

record inode =
  n_type :: ftype
  n_mode :: int
  n_uid :: int
  n_data :: bytes

type_synonym fsys = "path \<rightharpoonup> inode"

datatype syscall = SysLstat | SysOpen | SysRead | SysWrite | SysFsync | SysChmod | SysReplace | SysUnlink

record os =
  files :: fsys
  my_uid :: int
  umask :: int
  faults :: "syscall \<Rightarrow> path \<Rightarrow> bool"
  torn :: nat
  history :: "fsys list"

section \<open>Path names\<close>

definition path_join :: "path \<Rightarrow> pystr \<Rightarrow> path" where
  "path_join d n =
     (if d = [46] then n
      else if d \<noteq> [] \<and> last d = 47 then d @ n
      else d @ 47 # n)"

text \<open>\<open>p.parent\<close> of a normal path.\<close>

definition path_parent :: "path \<Rightarrow> path" where
  "path_parent p =
     (let r = dropWhile (\<lambda>c. c \<noteq> 47) (rev p)
      in if r = [] then [46] else if tl r = [] then [47] else rev (tl r))"

text \<open>\<open>Path(value)\<close>: empty and \<open>.\<close> components vanish, the root is kept.\<close>

definition path_norm :: "pystr \<Rightarrow> path" where
  "path_norm v =
     (let comps = filter (\<lambda>c. c \<noteq> [] \<and> c \<noteq> [46]) (split_on 47 v);
          root = (if starts_with [47, 47] v \<and> \<not> starts_with [47, 47, 47] v then [47, 47]
                  else if starts_with [47] v then [47] else [])
      in if root = [] \<and> comps = [] then [46] else root @ join [47] comps)"

declare path_join_def [py_eval] path_norm_def [py_eval] path_parent_def [py_eval]

lemma path_join_inj [simp]: "path_join d x = path_join d y \<longleftrightarrow> x = y"
  by (simp add: path_join_def)

lemma path_join_not_self: "n \<noteq> [] \<Longrightarrow> n \<noteq> [46] \<Longrightarrow> path_join d n \<noteq> d \<and> d \<noteq> path_join d n"
  by (auto simp: path_join_def)

section \<open>Programs over the operating system\<close>

type_synonym 'a io = "os \<Rightarrow> 'a res \<times> os"

definition io_return :: "'a \<Rightarrow> 'a io" where
  "io_return x = (\<lambda>s. (Inr x, s))"

definition io_raise :: "exn \<Rightarrow> 'a io" where
  "io_raise e = (\<lambda>s. (Inl e, s))"

definition io_bind :: "'a io \<Rightarrow> ('a \<Rightarrow> 'b io) \<Rightarrow> 'b io" where
  "io_bind m f = (\<lambda>s. case m s of (Inl e, s') \<Rightarrow> (Inl e, s') | (Inr x, s') \<Rightarrow> f x s')"

definition io_seq :: "'a io \<Rightarrow> 'b io \<Rightarrow> 'b io" where
  "io_seq m k = io_bind m (\<lambda>_. k)"

definition io_lift :: "'a res \<Rightarrow> 'a io" where
  "io_lift r = (\<lambda>s. (r, s))"

text \<open>\<open>try: body finally: fin\<close>: an exception of \<open>fin\<close> replaces the one of \<open>body\<close>.\<close>

definition io_finally :: "'a io \<Rightarrow> unit io \<Rightarrow> 'a io" where
  "io_finally body fin =
     (\<lambda>s. case body s of (r, s') \<Rightarrow>
            (case fin s' of (Inl e, s'') \<Rightarrow> (Inl e, s'') | (Inr _, s'') \<Rightarrow> (r, s'')))"

lemmas io_defs = io_return_def io_raise_def io_bind_def io_seq_def io_lift_def io_finally_def
declare io_defs [py_eval]

section \<open>System calls\<close>

definition lstat :: "path \<Rightarrow> inode io" where
  "lstat p = (\<lambda>s. (if faults s SysLstat p then Inl OSError
                   else (case files s p of None \<Rightarrow> Inl FileNotFoundError | Some n \<Rightarrow> Inr n), s))"

definition st_size :: "inode \<Rightarrow> int" where
  "st_size n = int (length (n_data n))"

text \<open>
  Reading a whole file.  A directory cannot be read; the data of a link or a device stands for what
  a read through it returns.
\<close>

definition read_bytes :: "path \<Rightarrow> bytes io" where
  "read_bytes p = (\<lambda>s. (if faults s SysRead p then Inl OSError
                        else (case files s p of
                                None \<Rightarrow> Inl FileNotFoundError
                              | Some n \<Rightarrow> if n_type n = Directory then Inl OSError else Inr (n_data n)), s))"

text \<open>Every mutating call records the file system it makes.\<close>

definition set_files :: "fsys \<Rightarrow> os \<Rightarrow> os" where
  "set_files f s = s\<lparr>files := f, history := f # history s\<rparr>"

text \<open>\<open>os.open(p, O_WRONLY | O_CREAT | O_EXCL, mode)\<close>: fails on anything that exists, links included.\<close>

definition open_excl :: "path \<Rightarrow> int \<Rightarrow> unit io" where
  "open_excl p m =
     (\<lambda>s. if faults s SysOpen p \<or> files s p \<noteq> None then (Inl OSError, s)
          else (Inr (), set_files ((files s)(p \<mapsto>
                  \<lparr>n_type = Regular, n_mode = m AND NOT (umask s), n_uid = my_uid s, n_data = []\<rparr>)) s))"

definition update_data :: "bytes \<Rightarrow> inode option \<Rightarrow> inode option" where
  "update_data d = map_option (\<lambda>n. n\<lparr>n_data := d\<rparr>)"

definition write_all :: "path \<Rightarrow> bytes \<Rightarrow> unit io" where
  "write_all p d =
     (\<lambda>s. if faults s SysWrite p
          then (Inl OSError, set_files ((files s)(p := update_data (take (torn s) d) (files s p))) s)
          else (Inr (), set_files ((files s)(p := update_data d (files s p))) s))"

definition fsync :: "path \<Rightarrow> unit io" where
  "fsync p = (\<lambda>s. (if faults s SysFsync p then Inl OSError else Inr (), s))"

definition chmod :: "path \<Rightarrow> int \<Rightarrow> unit io" where
  "chmod p m =
     (\<lambda>s. if faults s SysChmod p then (Inl OSError, s)
          else (Inr (), set_files ((files s)(p := map_option (\<lambda>n. n\<lparr>n_mode := m\<rparr>) (files s p))) s))"

text \<open>\<open>os.replace\<close>: a rename over anything but a directory.\<close>

definition replace :: "path \<Rightarrow> path \<Rightarrow> unit io" where
  "replace src dst =
     (\<lambda>s. if faults s SysReplace dst \<or> files s src = None
             \<or> (\<exists>n. files s dst = Some n \<and> n_type n = Directory)
          then (Inl OSError, s)
          else (Inr (), set_files ((files s)(dst := files s src, src := None)) s))"

definition unlink :: "path \<Rightarrow> unit io" where
  "unlink p =
     (\<lambda>s. if faults s SysUnlink p then (Inl OSError, s)
          else (case files s p of
                  None \<Rightarrow> (Inl FileNotFoundError, s)
                | Some n \<Rightarrow> if n_type n = Directory then (Inl OSError, s)
                            else (Inr (), set_files ((files s)(p := None)) s)))"

text \<open>
  \<open>os.open(p, O_WRONLY | O_CREAT | O_NOFOLLOW, mode)\<close> and \<open>os.close\<close>: creates an empty file or leaves the
  existing one as it is; a link or a directory is refused.
\<close>

definition touch :: "path \<Rightarrow> int \<Rightarrow> unit io" where
  "touch p m =
     (\<lambda>s. if faults s SysOpen p then (Inl OSError, s)
          else (case files s p of
                  None \<Rightarrow> (Inr (), set_files ((files s)(p \<mapsto>
                     \<lparr>n_type = Regular, n_mode = m AND NOT (umask s), n_uid = my_uid s, n_data = []\<rparr>)) s)
                | Some n \<Rightarrow> (if n_type n = Symlink \<or> n_type n = Directory then Inl OSError else Inr (), s)))"

text \<open>Opening a directory and syncing it.\<close>

definition fsync_dir :: "path \<Rightarrow> unit io" where
  "fsync_dir d =
     (\<lambda>s. (if faults s SysOpen d \<or> faults s SysFsync d then Inl OSError
           else (case files s d of
                   None \<Rightarrow> Inl FileNotFoundError
                 | Some n \<Rightarrow> if n_type n = Directory then Inr () else Inl OSError), s))"

text \<open>\<open>p.is_dir() and not p.is_symlink()\<close>; a failing \<open>stat\<close> counts as no.\<close>

definition real_dir :: "path \<Rightarrow> os \<Rightarrow> bool" where
  "real_dir p s \<longleftrightarrow>
     \<not> faults s SysLstat p \<and> (case files s p of None \<Rightarrow> False | Some n \<Rightarrow> n_type n = Directory)"

text \<open>\<open>try: p.unlink() except FileNotFoundError: pass\<close>\<close>

definition unlink_missing_ok :: "path \<Rightarrow> unit io" where
  "unlink_missing_ok p =
     (\<lambda>s. case unlink p s of (Inl FileNotFoundError, s') \<Rightarrow> (Inr (), s') | r \<Rightarrow> r)"

lemmas syscall_defs = lstat_def read_bytes_def open_excl_def write_all_def fsync_def chmod_def
  replace_def unlink_def unlink_missing_ok_def update_data_def set_files_def touch_def fsync_dir_def
  real_dir_def
declare syscall_defs [py_eval] st_size_def [py_eval]

text \<open>Where nothing fails.\<close>

definition no_faults :: "os \<Rightarrow> bool" where
  "no_faults s \<longleftrightarrow> (\<forall>c p. \<not> faults s c p)"

lemma replace_code [code]:
  "replace src dst =
     (\<lambda>s. if faults s SysReplace dst \<or> files s src = None
             \<or> (case files s dst of None \<Rightarrow> False | Some n \<Rightarrow> n_type n = Directory)
          then (Inl OSError, s)
          else (Inr (), set_files ((files s)(dst := files s src, src := None)) s))"
  by (auto simp: replace_def fun_eq_iff split: option.splits)

section \<open>Runs that leave one path alone\<close>

text \<open>
  \<open>only T A s\<close>: at every instant up to now the path \<open>T\<close> held one of the inodes in \<open>A\<close>;
  \<open>keeps P m\<close>: the program \<open>m\<close> keeps \<open>P\<close>, whatever fails and however it returns.
\<close>

definition only :: "path \<Rightarrow> inode option set \<Rightarrow> os \<Rightarrow> bool" where
  "only T A s \<longleftrightarrow> files s T \<in> A \<and> (\<forall>f \<in> set (history s). f T \<in> A)"

definition keeps :: "(os \<Rightarrow> bool) \<Rightarrow> 'a io \<Rightarrow> bool" where
  "keeps P m \<longleftrightarrow> (\<forall>s r s'. P s \<longrightarrow> m s = (r, s') \<longrightarrow> P s')"

lemma keepsI: "(\<And>s r s'. P s \<Longrightarrow> m s = (r, s') \<Longrightarrow> P s') \<Longrightarrow> keeps P m"
  by (auto simp: keeps_def)

lemma keeps_simple [intro]: "keeps P (io_return x)" "keeps P (io_raise e)" "keeps P (io_lift r)"
  by (auto simp: keeps_def io_defs)

lemma keepsD: "keeps P m \<Longrightarrow> P s \<Longrightarrow> m s = (r, s') \<Longrightarrow> P s'"
  by (auto simp: keeps_def)

lemma keeps_bind [intro]:
  assumes m: "keeps P m" and f: "\<And>x. keeps P (f x)"
  shows "keeps P (io_bind m f)"
proof (rule keepsI)
  fix s r s'
  assume P: "P s" and e: "io_bind m f s = (r, s')"
  obtain x s1 where x: "m s = (x, s1)" by fastforce
  with m P have "P s1" by (rule keepsD)
  with e x f show "P s'"
    by (cases x) (auto simp: io_bind_def dest: keepsD)
qed

lemma keeps_seq [intro]: "keeps P m \<Longrightarrow> keeps P k \<Longrightarrow> keeps P (io_seq m k)"
  by (auto simp: io_seq_def)

lemma keeps_if [intro]: "keeps P a \<Longrightarrow> keeps P b \<Longrightarrow> keeps P (if c then a else b)"
  by simp

lemma keeps_finally [intro]:
  assumes m: "keeps P m" and k: "keeps P k"
  shows "keeps P (io_finally m k)"
proof (rule keepsI)
  fix s r s'
  assume P: "P s" and e: "io_finally m k s = (r, s')"
  obtain x s1 where x: "m s = (x, s1)" by fastforce
  obtain y s2 where y: "k s1 = (y, s2)" by fastforce
  from m P x have "P s1" by (rule keepsD)
  with k have "P s2" using y by (rule keepsD)
  with e x y show "P s'" by (cases y) (auto simp: io_finally_def)
qed

lemma keeps_only_reads [intro]:
  "keeps (only T A) (lstat p)" "keeps (only T A) (read_bytes p)" "keeps (only T A) (fsync p)"
  "keeps (only T A) (fsync_dir p)"
  by (auto simp: keeps_def syscall_defs)

lemma keeps_only_other [intro]:
  assumes "p \<noteq> T"
  shows "keeps (only T A) (open_excl p m)" "keeps (only T A) (write_all p d)"
    "keeps (only T A) (chmod p m)" "keeps (only T A) (unlink p)"
    "keeps (only T A) (unlink_missing_ok p)"
  using assms
  by (auto simp: keeps_def only_def syscall_defs split: if_splits option.splits sum.splits exn.splits)

section \<open>Write a temporary file, then rename it\<close>

text \<open>The common core of the program's three publishers: write, flush and sync an open temporary.\<close>

definition write_flush_sync :: "path \<Rightarrow> bytes \<Rightarrow> unit io" where
  "write_flush_sync p d = io_seq (write_all p d) (fsync p)"

declare write_flush_sync_def [py_eval]

lemma write_flush_sync_ok:
  assumes "write_flush_sync p d s = (Inr (), s')"
  shows "files s' = (files s)(p := update_data d (files s p))"
  using assms
  by (auto simp: write_flush_sync_def io_defs syscall_defs split: if_splits)

lemma keeps_write_flush_sync [intro]: "p \<noteq> T \<Longrightarrow> keeps (only T A) (write_flush_sync p d)"
  unfolding write_flush_sync_def by (intro keeps_seq keeps_only_other keeps_only_reads)

lemma keeps_replace:
  assumes "only T A s" and "files s p \<in> A" and "p \<noteq> T" and "replace p T s = (r, s')"
  shows "only T A s'"
  using assms by (auto simp: only_def replace_def set_files_def split: if_splits)

lemma io_seq_cases:
  assumes "io_seq m k s = (r, s')"
  obtains e where "m s = (Inl e, s')" "r = Inl e"
  | x s1 where "m s = (Inr x, s1)" "k s1 = (r, s')"
  using assms by (auto simp: io_seq_def io_bind_def split: prod.splits sum.splits)

lemma io_finally_cases:
  assumes "io_finally m k s = (r, s')"
  obtains x s1 e where "m s = (x, s1)" "k s1 = (Inl e, s')" "r = Inl e"
  | s1 where "m s = (r, s1)" "k s1 = (Inr (), s')"
  using assms by (auto simp: io_finally_def split: prod.splits sum.splits)

text \<open>
  Atomicity: from a state where the temporary has just been created as \<open>n\<close>, writing and renaming
  it shows at \<open>T\<close> only what was allowed there before or the complete new file, whatever fails.
\<close>

lemma publish_keeps_only:
  assumes "only T A s" and "files s p = Some n" and "p \<noteq> T" and "Some (n\<lparr>n_data := d\<rparr>) \<in> A"
    and "io_seq (write_flush_sync p d) (replace p T) s = (r, s')"
  shows "only T A s'"
  using assms(5)
proof (cases rule: io_seq_cases)
  case 1
  then show ?thesis using assms by (auto dest: keepsD [OF keeps_write_flush_sync])
next
  case (2 x s1)
  then have "only T A s1" using assms by (auto dest: keepsD [OF keeps_write_flush_sync])
  moreover have "files s1 p \<in> A"
    using 2(1) assms(2,4) by (simp add: write_flush_sync_ok update_data_def)
  ultimately show ?thesis using assms(3) 2(2) by (rule keeps_replace)
qed

text \<open>The same when the directory is synced after the rename.\<close>

lemma publish_sync_keeps_only:
  assumes "only T A s" and "files s p = Some n" and "p \<noteq> T" and "Some (n\<lparr>n_data := d\<rparr>) \<in> A"
    and "io_seq (write_flush_sync p d) (io_seq (replace p T) (fsync_dir dir)) s = (r, s')"
  shows "only T A s'"
proof -
  obtain x s1 where b: "io_seq (write_flush_sync p d) (replace p T) s = (x, s1)" by fastforce
  then have "only T A s1" by (rule publish_keeps_only [OF assms(1-4)])
  moreover have "s' = s1"
    using assms(5) b by (auto simp: io_seq_def io_bind_def fsync_dir_def split: prod.splits sum.splits)
  ultimately show ?thesis by simp
qed

lemma publish_sync_ok:
  assumes "files s p = Some n" and "p \<noteq> T"
    and "io_seq (write_flush_sync p d) (io_seq (replace p T) (fsync_dir dir)) s = (Inr (), s')"
  shows "files s' = (files s)(T \<mapsto> n\<lparr>n_data := d\<rparr>, p := None)"
  using assms
  by (auto simp: write_flush_sync_def io_defs syscall_defs fun_eq_iff split: if_splits)

lemma publish_chmod_keeps_only:
  assumes "only T A s" and "files s p = Some n" and "p \<noteq> T"
    and "Some (n\<lparr>n_data := d, n_mode := m\<rparr>) \<in> A"
    and "io_seq (write_flush_sync p d) (io_seq (chmod p m) (replace p T)) s = (r, s')"
  shows "only T A s'"
  using assms(5)
proof (cases rule: io_seq_cases)
  case 1
  then show ?thesis using assms by (auto dest: keepsD [OF keeps_write_flush_sync])
next
  case (2 x s1)
  then have o1: "only T A s1" using assms by (auto dest: keepsD [OF keeps_write_flush_sync])
  from 2(2) show ?thesis
  proof (cases rule: io_seq_cases)
    case 1
    then show ?thesis using o1 by (auto simp: chmod_def split: if_splits)
  next
    case c: (2 y s2)
    have "only T A s2" using o1 c(1) assms(3) by (auto dest: keepsD [OF keeps_only_other(3)])
    moreover have "files s2 p \<in> A"
      using 2(1) c(1) assms(2,4)
      by (auto simp: write_flush_sync_ok update_data_def chmod_def set_files_def split: if_splits)
    ultimately show ?thesis using assms(3) c(2) by (rule keeps_replace)
  qed
qed

lemma publish_chmod_ok:
  assumes "files s p = Some n" and "p \<noteq> T"
    and "io_seq (write_flush_sync p d) (io_seq (chmod p m) (replace p T)) s = (Inr (), s')"
  shows "files s' = (files s)(T \<mapsto> n\<lparr>n_data := d, n_mode := m\<rparr>, p := None)"
  using assms
  by (auto simp: write_flush_sync_def io_defs syscall_defs fun_eq_iff split: if_splits)

lemma unlink_missing_ok_files: "unlink_missing_ok p s = (r, s') \<Longrightarrow> q \<noteq> p \<Longrightarrow> files s' q = files s q"
  by (auto simp: syscall_defs split: if_splits option.splits sum.splits exn.splits)

text \<open>The frame: a program that only works on the paths in \<open>P\<close>.\<close>

definition frame :: "path set \<Rightarrow> fsys \<Rightarrow> os \<Rightarrow> bool" where
  "frame P g s \<longleftrightarrow> (\<forall>q. q \<notin> P \<longrightarrow> files s q = g q)"

lemma keeps_frame [intro]:
  "keeps (frame P g) (lstat p)" "keeps (frame P g) (read_bytes p)" "keeps (frame P g) (fsync p)"
  "keeps (frame P g) (fsync_dir p)"
  "p \<in> P \<Longrightarrow> keeps (frame P g) (open_excl p m)"
  "p \<in> P \<Longrightarrow> keeps (frame P g) (touch p m)"
  "p \<in> P \<Longrightarrow> keeps (frame P g) (write_all p d)"
  "p \<in> P \<Longrightarrow> keeps (frame P g) (chmod p m)"
  "p \<in> P \<Longrightarrow> q \<in> P \<Longrightarrow> keeps (frame P g) (replace p q)"
  "p \<in> P \<Longrightarrow> keeps (frame P g) (unlink p)"
  "p \<in> P \<Longrightarrow> keeps (frame P g) (unlink_missing_ok p)"
  by (auto simp: keeps_def frame_def syscall_defs split: if_splits option.splits sum.splits exn.splits)

lemma keeps_frame_sync [intro]: "p \<in> P \<Longrightarrow> keeps (frame P g) (write_flush_sync p d)"
  unfolding write_flush_sync_def by (intro keeps_seq keeps_frame)

lemma frame_refl: "frame P (files s) s"
  by (simp add: frame_def)

text \<open>
  The temporary of a publication: it only ever holds an inode of \<open>A\<close>, and it is gone at the end unless its
  removal failed.
\<close>

definition temp_ok :: "(syscall \<Rightarrow> path \<Rightarrow> bool) \<Rightarrow> path \<Rightarrow> inode option set \<Rightarrow> os \<Rightarrow> bool" where
  "temp_ok F T A s \<longleftrightarrow> faults s = F \<and> only T A s"

lemma keeps_temp_ok [intro]:
  assumes "None \<in> A" and "\<And>n d. Some n \<in> A \<Longrightarrow> Some (n\<lparr>n_data := d\<rparr>) \<in> A"
  shows "keeps (temp_ok F T A) (write_flush_sync T d)" "keeps (temp_ok F T A) (unlink_missing_ok T)"
    "keeps (temp_ok F T A) (fsync_dir q)" "q \<noteq> T \<Longrightarrow> keeps (temp_ok F T A) (replace T q)"
    "(\<And>n. Some n \<in> A \<Longrightarrow> Some (n\<lparr>n_mode := m\<rparr>) \<in> A) \<Longrightarrow> keeps (temp_ok F T A) (chmod T m)"
proof -
  have u: "update_data b x \<in> A" if "x \<in> A" for b x
    using that assms by (cases x) (simp_all add: update_data_def)
  show "keeps (temp_ok F T A) (write_flush_sync T d)"
    using u by (auto simp: keeps_def temp_ok_def only_def write_flush_sync_def io_defs write_all_def fsync_def
        set_files_def split: if_splits)
  show "keeps (temp_ok F T A) (chmod T m)" if c: "\<And>n. Some n \<in> A \<Longrightarrow> Some (n\<lparr>n_mode := m\<rparr>) \<in> A"
  proof -
    have "map_option (\<lambda>n. n\<lparr>n_mode := m\<rparr>) x \<in> A" if "x \<in> A" for x
      using that assms(1) c by (cases x) simp_all
    then show ?thesis by (auto simp: keeps_def temp_ok_def only_def chmod_def set_files_def split: if_splits)
  qed
qed (use assms(1) in \<open>auto simp: keeps_def temp_ok_def only_def syscall_defs
       split: if_splits option.splits sum.splits exn.splits\<close>)

lemma temp_removed:
  assumes "keeps (temp_ok F T A) body" and "temp_ok F T A s" and "\<not> F SysUnlink T"
    and "\<And>n. Some n \<in> A \<Longrightarrow> n_type n \<noteq> Directory" and "io_finally body (unlink_missing_ok T) s = (r, s')"
  shows "files s' T = None"
proof -
  have "files s2 T = None" if "body s = (x, s1)" "unlink_missing_ok T s1 = (y, s2)" for x s1 y s2
  proof -
    have "temp_ok F T A s1" using assms(1,2) that(1) by (rule keepsD)
    then have "\<not> faults s1 SysUnlink T" "files s1 T \<in> A" using assms(3) by (simp_all add: temp_ok_def only_def)
    with assms(4) that(2) show ?thesis by (auto simp: unlink_missing_ok_def unlink_def set_files_def split: option.splits)
  qed
  then show ?thesis using assms(5) by (auto elim: io_finally_cases)
qed

text \<open>A system with the given files, where nothing fails, for concrete runs.\<close>

definition os_of :: "(path \<times> inode) list \<Rightarrow> os" where
  "os_of fs = \<lparr>files = map_of fs, my_uid = 0, umask = 63, faults = (\<lambda>_ _. False), torn = 0, history = []\<rparr>"

definition dir_inode :: inode where
  "dir_inode = \<lparr>n_type = Directory, n_mode = 493, n_uid = 0, n_data = []\<rparr>"

declare os_of_def [py_eval] dir_inode_def [py_eval]

section \<open>A published value\<close>

text \<open>
  The contract of a file that holds one value, published by a writer and read back by a reader:
  reading changes nothing and only returns \<open>valid\<close> values; a \<open>writable\<close> value written where the writer
  is \<open>ready\<close> (nothing fails, the directory exists, the temporary's name is free) is read back and
  leaves the writer ready.
\<close>

locale published =
  fixes rd :: "'v option io"
    and wr :: "'v \<Rightarrow> unit io"
    and valid :: "'v \<Rightarrow> bool"
    and writable :: "'v \<Rightarrow> bool"
    and ready :: "os \<Rightarrow> bool"
  assumes rd_pure: "snd (rd s) = s"
    and rd_valid: "fst (rd s) = Inr (Some v) \<Longrightarrow> valid v"
    and wr_rd: "ready s \<Longrightarrow> writable v \<Longrightarrow> \<exists>s'. wr v s = (Inr (), s') \<and> ready s' \<and> rd s' = (Inr (Some v), s')"
begin

lemma rd_cases:
  obtains e where "rd s = (Inl e, s)" | "rd s = (Inr None, s)" | v where "rd s = (Inr (Some v), s)" "valid v"
  using rd_pure [of s] rd_valid [of s] by (metis prod.collapse sum.exhaust option.exhaust)

text \<open>Read, modify, write back: the changed value is what a reader finds next.\<close>

lemma read_modify_write:
  assumes "ready s" and "rd s = (Inr (Some v), s)" and "writable (f v)"
  shows "\<exists>s'. io_bind rd (\<lambda>r. case r of None \<Rightarrow> io_raise OSError | Some v \<Rightarrow> wr (f v)) s = (Inr (), s')
           \<and> ready s' \<and> rd s' = (Inr (Some (f v)), s')"
  using wr_rd [OF assms(1,3)] assms(2) by (auto simp: io_bind_def)

text \<open>A sequence of writes: the last one is what a reader finds.\<close>

lemma last_write_wins:
  assumes "ready s" and "\<forall>v \<in> set vs. writable v" and "vs \<noteq> []"
  shows "\<exists>s'. foldr (\<lambda>v m. io_seq (wr v) m) vs (io_return ()) s = (Inr (), s')
           \<and> ready s' \<and> rd s' = (Inr (Some (last vs)), s')"
  using assms
proof (induction vs arbitrary: s)
  case (Cons v vs)
  then obtain s1 where s1: "wr v s = (Inr (), s1)" "ready s1" "rd s1 = (Inr (Some v), s1)"
    using wr_rd [of s v] by auto
  show ?case
  proof (cases "vs = []")
    case True
    with s1 show ?thesis by (simp add: io_seq_def io_bind_def io_return_def)
  next
    case False
    with Cons.IH [OF s1(2)] Cons.prems s1(1) show ?thesis
      by (simp add: io_seq_def io_bind_def)
  qed
qed simp

end

text \<open>A writer that checks the value first: an invalid one is refused before anything is touched.\<close>

locale published_checked = published +
  assumes wr_invalid: "\<not> valid v \<Longrightarrow> \<exists>e. wr v s = (Inl e, s)"
    and valid_writable: "valid v \<Longrightarrow> writable v"
begin

lemma wr_total:
  assumes "ready s"
  shows "(\<exists>s'. wr v s = (Inr (), s') \<and> rd s' = (Inr (Some v), s')) \<or> (\<exists>e. wr v s = (Inl e, s))"
  using assms wr_rd wr_invalid valid_writable by (cases "valid v") blast+

end

end
