(* ===== verification/Runtime_State.thy ===== *)
theory Runtime_State
  imports Routes Py_Json Os_Model
begin

text \<open>
  The runtime-state protocol, \<open>sushida_os/runtime/runtime_state.py\<close>: the four-field record, its
  validation, the atomic writer, the fail-closed reader and the command line used by the shell
  scripts.  The fields hold Python values, modelled as JSON values, because the reader builds the
  record before it validates it.
\<close>

section \<open>The record and its validation\<close>

record RuntimeState =
  active_route :: json
  time_sync_required :: json
  connection_in_progress :: json
  last_reason :: json

definition SCHEMA_VERSION :: int where "SCHEMA_VERSION = 1"
definition STATE_BASENAME :: pystr where "STATE_BASENAME = lit ''runtime-state.json''"
definition PROD_RUNTIME_DIR :: path where "PROD_RUNTIME_DIR = lit ''/run/sushida-os''"
definition MAX_STATE_BYTES :: int where "MAX_STATE_BYTES = 4096"

text \<open>
  \<open>^[a-z][a-z0-9-]{0,63}$\<close> with \<open>re.match\<close>: without \<open>re.MULTILINE\<close> the \<open>$\<close> also matches before a
  newline that ends the string.
\<close>

definition lower_cp :: "codepoint \<Rightarrow> bool" where
  "lower_cp c \<longleftrightarrow> 97 \<le> c \<and> c \<le> 122"

definition reason_token :: "pystr \<Rightarrow> bool" where
  "reason_token s \<longleftrightarrow>
     s \<noteq> [] \<and> lower_cp (hd s) \<and> length (tl s) \<le> 63
     \<and> list_all (\<lambda>c. lower_cp c \<or> ascii_digit c \<or> c = 45) (tl s)"

definition REASON_PATTERN_match :: "pystr \<Rightarrow> bool" where
  "REASON_PATTERN_match s \<longleftrightarrow>
     reason_token s \<or> (s \<noteq> [] \<and> last s = 10 \<and> reason_token (butlast s))"

definition is_route :: "json \<Rightarrow> bool" where
  "is_route v = (case v of JStr s \<Rightarrow> s \<in> set ROUTES | _ \<Rightarrow> False)"

definition validate :: "RuntimeState \<Rightarrow> unit res" where
  "validate st =
     (if \<not> is_route (active_route st) then Inl ValueError
      else if \<not> is_JBool (time_sync_required st) then Inl ValueError
      else if \<not> is_JBool (connection_in_progress st) then Inl ValueError
      else (case last_reason st of
              JStr s \<Rightarrow> if REASON_PATTERN_match s then Inr () else Inl ValueError
            | _ \<Rightarrow> Inl TypeError))"

section \<open>Writing\<close>

definition state_path :: "path \<Rightarrow> path" where
  "state_path directory = path_join directory STATE_BASENAME"

text \<open>The Python values as JSON scalars; only used after \<open>validate\<close> accepted them.\<close>

fun scalar_of :: "json \<Rightarrow> jscalar" where
  "scalar_of (JStr s) = SStr s"
| "scalar_of (JBool b) = SBool b"
| "scalar_of (JInt n) = SInt n"
| "scalar_of _ = SNull"

text \<open>The dictionary in the order \<open>sort_keys=True\<close> gives it.\<close>

definition state_items :: "RuntimeState \<Rightarrow> (pystr \<times> jscalar) list" where
  "state_items st =
     [(lit ''active_route'', scalar_of (active_route st)),
      (lit ''connection_in_progress'', scalar_of (connection_in_progress st)),
      (lit ''last_reason'', scalar_of (last_reason st)),
      (lit ''schema_version'', SInt SCHEMA_VERSION),
      (lit ''time_sync_required'', scalar_of (time_sync_required st))]"

definition state_payload :: "RuntimeState \<Rightarrow> bytes res" where
  "state_payload st =
     res_bind (ascii_encode (json_dumps True True (state_items st))) (\<lambda>b. Inr (b @ [10]))"

text \<open>
  The temporary's name ends in the process id and a random token: \<open>sfx\<close> is that text.
  The mode 420 is \<open>0o644\<close>.
\<close>

definition state_temp :: "path \<Rightarrow> pystr \<Rightarrow> path" where
  "state_temp directory sfx = path_join directory (46 # STATE_BASENAME @ 46 # sfx)"

definition refuse_symlink :: "path \<Rightarrow> unit io" where
  "refuse_symlink target =
     (\<lambda>s. case lstat target s of
            (Inl FileNotFoundError, s') \<Rightarrow> (Inr (), s')
          | (Inl e, s') \<Rightarrow> (Inl e, s')
          | (Inr info, s') \<Rightarrow> (if n_type info = Symlink then Inl OSError else Inr (), s'))"

definition write_state :: "path \<Rightarrow> pystr \<Rightarrow> RuntimeState \<Rightarrow> unit io" where
  "write_state directory sfx st =
     io_seq (io_lift (validate st))
     (io_bind (lstat directory) (\<lambda>info.
      if n_type info \<noteq> Directory then io_raise OSError
      else io_seq (refuse_symlink (state_path directory))
       (io_bind (io_lift (state_payload st)) (\<lambda>payload.
        if int (length payload) > MAX_STATE_BYTES then io_raise OSError
        else io_seq (open_excl (state_temp directory sfx) 420)
          (io_finally
            (io_seq (write_flush_sync (state_temp directory sfx) payload)
              (io_seq (chmod (state_temp directory sfx) 420)
                (replace (state_temp directory sfx) (state_path directory))))
            (unlink_missing_ok (state_temp directory sfx)))))))"

section \<open>Reading\<close>

definition expected_keys :: "pystr list" where
  "expected_keys =
     [lit ''schema_version'', lit ''active_route'', lit ''time_sync_required'',
      lit ''connection_in_progress'', lit ''last_reason'']"

definition get_key :: "(pystr \<times> json) list \<Rightarrow> pystr \<Rightarrow> json" where
  "get_key m k = (case map_of m k of Some v \<Rightarrow> v | None \<Rightarrow> JNull)"

text \<open>From the parsed document to the result; the keys are known to be present when they are read.\<close>

definition state_of_json :: "json \<Rightarrow> RuntimeState option res" where
  "state_of_json data =
     (case data of
        JObj m \<Rightarrow>
          if set (map fst m) \<noteq> set expected_keys then Inr None
          else if \<not> py_eq_one (get_key m (lit ''schema_version'')) then Inr None
          else
            (let st = \<lparr>active_route = get_key m (lit ''active_route''),
                       time_sync_required = get_key m (lit ''time_sync_required''),
                       connection_in_progress = get_key m (lit ''connection_in_progress''),
                       last_reason = get_key m (lit ''last_reason'')\<rparr>
             in case validate st of
                  Inr _ \<Rightarrow> Inr (Some st)
                | Inl e \<Rightarrow> if is_ValueError e then Inr None else Inl e)
      | _ \<Rightarrow> Inr None)"

definition read_state :: "path \<Rightarrow> RuntimeState option io" where
  "read_state directory =
     (\<lambda>s. (case fst (lstat (state_path directory) s) of
             Inl e \<Rightarrow> Inr None
           | Inr info \<Rightarrow>
               if n_type info \<noteq> Regular \<or> st_size info > MAX_STATE_BYTES then Inr None
               else (case fst (read_bytes (state_path directory) s) of
                       Inl e \<Rightarrow> Inr None
                     | Inr bs \<Rightarrow>
                         (case ascii_decode bs of
                            Inl e \<Rightarrow> Inr None
                          | Inr text \<Rightarrow>
                              (case json_loads (universal_newlines text) of
                                 Inl e \<Rightarrow> Inr None
                               | Inr data \<Rightarrow> state_of_json data))), s))"

lemmas state_consts = SCHEMA_VERSION_def STATE_BASENAME_def PROD_RUNTIME_DIR_def MAX_STATE_BYTES_def
lemmas state_defs = validate_def is_route_def REASON_PATTERN_match_def reason_token_def lower_cp_def
  state_path_def state_items_def state_payload_def state_temp_def refuse_symlink_def write_state_def
  expected_keys_def get_key_def state_of_json_def read_state_def
declare state_consts [py_eval] state_defs [py_eval]

section \<open>The command line\<close>

record StateFlags =
  sf_directory :: "path option"
  sf_route :: pystr
  sf_time_sync_required :: bool
  sf_connection_in_progress :: bool
  sf_reason :: pystr
  sf_print_field :: "pystr option"
  sf_clear_time_sync :: bool
  sf_set_progress :: "bool option"
  sf_write_flags_seen :: bool

definition StateFlags_init :: StateFlags where
  "StateFlags_init =
     \<lparr>sf_directory = None, sf_route = [], sf_time_sync_required = False,
      sf_connection_in_progress = False, sf_reason = [], sf_print_field = None,
      sf_clear_time_sync = False, sf_set_progress = None, sf_write_flags_seen = False\<rparr>"

definition parse_bool_flag :: "pystr \<Rightarrow> bool option" where
  "parse_bool_flag v = (if v = lit ''0'' then Some False else if v = lit ''1'' then Some True else None)"

text \<open>One flag that takes a value; \<open>None\<close> is the early return 2.\<close>

definition state_flag_value :: "StateFlags \<Rightarrow> pystr \<Rightarrow> pystr \<Rightarrow> StateFlags option" where
  "state_flag_value f flag v =
     (if flag = lit ''--directory'' then Some (f\<lparr>sf_directory := Some (path_norm v)\<rparr>)
      else if flag = lit ''--print'' then
        (if v = lit ''active-route'' \<or> v = lit ''time-sync-required''
         then Some (f\<lparr>sf_print_field := Some v\<rparr>) else None)
      else if flag = lit ''--set-connection-in-progress'' then
        map_option (\<lambda>b. f\<lparr>sf_set_progress := Some b\<rparr>) (parse_bool_flag v)
      else if flag = lit ''--route'' then Some (f\<lparr>sf_write_flags_seen := True, sf_route := v\<rparr>)
      else if flag = lit ''--reason'' then Some (f\<lparr>sf_write_flags_seen := True, sf_reason := v\<rparr>)
      else if flag = lit ''--time-sync-required'' then
        map_option (\<lambda>b. f\<lparr>sf_write_flags_seen := True, sf_time_sync_required := b\<rparr>) (parse_bool_flag v)
      else if flag = lit ''--connection-in-progress'' then
        map_option (\<lambda>b. f\<lparr>sf_write_flags_seen := True, sf_connection_in_progress := b\<rparr>) (parse_bool_flag v)
      else None)"

fun parse_state_flags :: "StateFlags \<Rightarrow> pystr list \<Rightarrow> StateFlags option" where
  "parse_state_flags f [] = Some f"
| "parse_state_flags f (flag # rest) =
     (if flag = lit ''--clear-time-sync'' then parse_state_flags (f\<lparr>sf_clear_time_sync := True\<rparr>) rest
      else (case rest of
              [] \<Rightarrow> None
            | v # rest' \<Rightarrow>
                (case state_flag_value f flag v of
                   None \<Rightarrow> None
                 | Some f' \<Rightarrow> parse_state_flags f' rest')))"

text \<open>How many of the mutually exclusive modes were asked for.\<close>

definition mode_count :: "StateFlags \<Rightarrow> nat" where
  "mode_count f = of_bool (sf_print_field f \<noteq> None) + of_bool (sf_clear_time_sync f)
     + of_bool (sf_set_progress f \<noteq> None) + of_bool (sf_write_flags_seen f)"

text \<open>\<open>try: write_state(...) except (OSError, ValueError): return 1\<close>, else 0.\<close>

definition write_status :: "unit io \<Rightarrow> (int \<times> pystr option) io" where
  "write_status m =
     (\<lambda>s. case m s of
            (Inr _, s') \<Rightarrow> (Inr (0, None), s')
          | (Inl e, s') \<Rightarrow> (if is_OSError e \<or> is_ValueError e then Inr (1, None) else Inl e, s'))"

text \<open>
  The exit status and what is printed; an exception that leaves \<open>main\<close> is an \<open>Inl\<close>.  \<open>test_mode\<close>
  is whether \<open>SUSHIDA_OS_TEST_MODE\<close> is \<open>1\<close> in the environment.
\<close>

definition state_run :: "pystr \<Rightarrow> path \<Rightarrow> StateFlags \<Rightarrow> (int \<times> pystr option) io" where
  "state_run sfx directory f =
     (case sf_print_field f of
        Some field \<Rightarrow>
          io_bind (read_state directory) (\<lambda>r. case r of
             None \<Rightarrow> io_return (1, None)
           | Some st \<Rightarrow>
               io_return (0, if field = lit ''active-route''
                             then (case active_route st of JStr x \<Rightarrow> Some x | _ \<Rightarrow> None)
                             else Some (if time_sync_required st = JBool True then lit ''1'' else lit ''0'')))
      | None \<Rightarrow>
          if sf_clear_time_sync f then
            io_bind (read_state directory) (\<lambda>r. case r of
               None \<Rightarrow> io_return (1, None)
             | Some st \<Rightarrow> write_status (write_state directory sfx (st\<lparr>time_sync_required := JBool False\<rparr>)))
          else (case sf_set_progress f of
             Some p \<Rightarrow>
               io_bind (read_state directory) (\<lambda>r. case r of
                  None \<Rightarrow> io_return (1, None)
                | Some st \<Rightarrow>
                    if connection_in_progress st = JBool p then io_return (0, None)
                    else write_status (write_state directory sfx (st\<lparr>connection_in_progress := JBool p\<rparr>)))
           | None \<Rightarrow>
               write_status (write_state directory sfx
                 \<lparr>active_route = JStr (sf_route f),
                  time_sync_required = JBool (sf_time_sync_required f),
                  connection_in_progress = JBool (sf_connection_in_progress f),
                  last_reason = JStr (sf_reason f)\<rparr>)))"

definition state_main :: "bool \<Rightarrow> pystr \<Rightarrow> pystr list \<Rightarrow> (int \<times> pystr option) io" where
  "state_main test_mode sfx argv =
     (case parse_state_flags StateFlags_init argv of
        None \<Rightarrow> io_return (2, None)
      | Some f \<Rightarrow>
          (case sf_directory f of
             None \<Rightarrow> io_return (2, None)
           | Some directory \<Rightarrow>
               if mode_count f > 1 then io_return (2, None)
               else if directory \<noteq> PROD_RUNTIME_DIR \<and> \<not> test_mode then io_return (2, None)
               else state_run sfx directory f))"

declare StateFlags_init_def [py_eval] parse_bool_flag_def [py_eval] state_flag_value_def [py_eval]
  mode_count_def [py_eval] write_status_def [py_eval] state_run_def [py_eval] state_main_def [py_eval]

section \<open>The type invariant of a valid state\<close>

text \<open>What \<open>validate\<close> accepts, as a specification: a known route, two booleans, a short token.\<close>

definition valid_state :: "RuntimeState \<Rightarrow> bool" where
  "valid_state st \<longleftrightarrow>
     (\<exists>r b c t. st = \<lparr>active_route = JStr r, time_sync_required = JBool b,
                     connection_in_progress = JBool c, last_reason = JStr t\<rparr>
        \<and> r \<in> set ROUTES \<and> REASON_PATTERN_match t)"

lemma validate_ok_iff: "validate st = Inr () \<longleftrightarrow> valid_state st"
proof
  assume a: "validate st = Inr ()"
  then obtain r b c t where "active_route st = JStr r" "r \<in> set ROUTES"
    "time_sync_required st = JBool b" "connection_in_progress st = JBool c"
    "last_reason st = JStr t" "REASON_PATTERN_match t"
    by (cases "active_route st"; cases "time_sync_required st"; cases "connection_in_progress st";
        cases "last_reason st") (auto simp: validate_def is_route_def split: if_splits)
  then have "st = \<lparr>active_route = JStr r, time_sync_required = JBool b,
                   connection_in_progress = JBool c, last_reason = JStr t\<rparr>"
    by simp
  then show "valid_state st"
    using \<open>r \<in> set ROUTES\<close> \<open>REASON_PATTERN_match t\<close> unfolding valid_state_def by blast
next
  assume "valid_state st"
  then show "validate st = Inr ()"
    by (auto simp: valid_state_def validate_def is_route_def)
qed

lemma reason_token_chars: "reason_token s \<Longrightarrow> \<forall>c \<in> set s. 45 \<le> c \<and> c \<le> 122 \<and> c \<noteq> 92"
  by (cases s) (fastforce simp: reason_token_def lower_cp_def ascii_digit_def list_all_iff)+

lemma reason_token_range: "reason_token s \<Longrightarrow> \<forall>c \<in> set s. 10 \<le> c \<and> c \<le> 122"
  by (drule reason_token_chars) auto

lemma reason_match_chars:
  assumes "REASON_PATTERN_match s"
  shows "\<forall>c \<in> set s. 10 \<le> c \<and> c \<le> 122"
proof (cases "reason_token s")
  case True
  then show ?thesis by (rule reason_token_range)
next
  case False
  with assms have *: "s \<noteq> []" "last s = 10" "reason_token (butlast s)"
    by (simp_all add: REASON_PATTERN_match_def)
  then have "set s = insert 10 (set (butlast s))"
    by (metis Un_insert_right append_butlast_last_id append_Nil2 list.simps(15) set_append)
  then show ?thesis using reason_token_range [OF *(3)] by simp
qed

lemma reason_match_length: "REASON_PATTERN_match t \<Longrightarrow> length t \<le> 65"
  by (auto simp: REASON_PATTERN_match_def reason_token_def)

lemma reason_match_encodable: "REASON_PATTERN_match t \<Longrightarrow> encodable t"
  by (drule reason_match_chars, rule py_isascii_encodable) (auto simp: py_isascii_def list_all_iff)

lemma route_encodable: "r \<in> set ROUTES \<Longrightarrow> encodable r \<and> length r \<le> 7"
  by (auto simp: route_consts lit_def encodable_def valid_cp_def is_surrogate_def)

section \<open>The payload\<close>

text \<open>The bytes \<open>write_state\<close> publishes for a state.\<close>

definition payload_text :: "RuntimeState \<Rightarrow> pystr" where
  "payload_text st = json_dumps True True (state_items st)"

definition payload_of :: "RuntimeState \<Rightarrow> bytes" where
  "payload_of st = bytes_of (payload_text st) @ [10]"

lemma state_payload_eq: "state_payload st = Inr (payload_of st)"
  using printable_isascii [OF printable_json_dumps]
  by (simp add: state_payload_def payload_of_def payload_text_def ascii_encode_def)

lemma show_int_1: "show_int 1 = [49]"
  by (simp add: show_int_def show_pos.simps)

lemma length_esc_char: "length (esc_char a c) \<le> 12"
  by (simp add: esc_char_def u_escape_def)

lemma length_dump_str: "length (dump_str a s) \<le> 12 * length s + 2"
proof -
  have "length (concat (map (esc_char a) s)) \<le> 12 * length s"
    by (induction s) (auto intro: add_mono length_esc_char)
  then show ?thesis by (simp add: dump_str_def)
qed

lemma length_payload: "valid_state st \<Longrightarrow> length (payload_of st) \<le> 4096"
proof -
  assume "valid_state st"
  then obtain r b c t where st: "st = \<lparr>active_route = JStr r, time_sync_required = JBool b,
      connection_in_progress = JBool c, last_reason = JStr t\<rparr>"
    and "r \<in> set ROUTES" and "REASON_PATTERN_match t"
    unfolding valid_state_def by blast
  then have "length (dump_str True r) \<le> 86" and "length (dump_str True t) \<le> 782"
    using length_dump_str [of True r] length_dump_str [of True t] route_encodable reason_match_length
    by (fastforce intro: order_trans)+
  moreover have "length (dump_str True (lit k)) \<le> 12 * length k + 2" for k
    using length_dump_str [of True "lit k"] by simp
  note this [of "''active_route''"] this [of "''connection_in_progress''"] this [of "''last_reason''"]
    this [of "''schema_version''"] this [of "''time_sync_required''"]
  moreover have "length (show_int SCHEMA_VERSION) = 1"
    by (simp add: SCHEMA_VERSION_def show_int_1)
  ultimately show ?thesis
    using st by (simp add: payload_of_def payload_text_def state_items_def json_dumps_def dump_item_def
        item_sep_def key_sep_def)
qed

lemma payload_decode: "ascii_decode (payload_of st) = Inr (payload_text st @ [10])"
proof -
  have "py_isascii (payload_text st @ [10])"
    using printable_isascii [OF printable_json_dumps, of True "state_items st"]
    by (simp add: payload_text_def py_isascii_def)
  then have "ascii_encode (payload_text st @ [10]) = Inr (payload_of st)"
    by (simp add: ascii_encode_def payload_of_def bytes_of_append) (simp add: bytes_of_def)
  then show ?thesis by (rule ascii_roundtrip)
qed

lemma state_items_ok: "valid_state st \<Longrightarrow> items_ok (state_items st)"
  using reason_match_encodable route_encodable
  by (auto simp: valid_state_def items_ok_def state_items_def SCHEMA_VERSION_def show_int_1
      max_str_digits_def lit_def encodable_def valid_cp_def is_surrogate_def)

lemma payload_loads:
  assumes "valid_state st"
  shows "json_loads (universal_newlines (payload_text st @ [10])) = Inr (JObj (of_items (state_items st)))"
proof -
  have "13 \<notin> set (payload_text st @ [10])"
    using printable_json_dumps [of True "state_items st"]
    by (auto simp: payload_text_def printable_def list_all_iff)
  then have "universal_newlines (payload_text st @ [10]) = payload_text st @ [10]"
    by (rule universal_newlines_id)
  then show ?thesis
    using json_loads_dumps_ws [OF state_items_ok [OF assms], of "[10]" True True]
    by (simp add: payload_text_def json_ws_def)
qed

lemma state_of_payload:
  assumes "valid_state st"
  shows "state_of_json (JObj (of_items (state_items st))) = Inr (Some st)"
proof -
  have "validate st = Inr ()" using assms by (simp add: validate_ok_iff)
  then show ?thesis
    using assms
    by (auto simp: valid_state_def state_of_json_def of_items_def state_items_def expected_keys_def
        get_key_def SCHEMA_VERSION_def)
qed

section \<open>Writing and reading the file\<close>

text \<open>The inode a completed write leaves.\<close>

definition state_inode :: "int \<Rightarrow> RuntimeState \<Rightarrow> inode" where
  "state_inode u st = \<lparr>n_type = Regular, n_mode = 420, n_uid = u, n_data = payload_of st\<rparr>"

text \<open>Where the writer can work: nothing fails, the directory is real, the names are free.\<close>

definition state_ready :: "path \<Rightarrow> pystr \<Rightarrow> os \<Rightarrow> bool" where
  "state_ready d sfx s \<longleftrightarrow>
     no_faults s \<and> (\<exists>n. files s d = Some n \<and> n_type n = Directory)
     \<and> (\<forall>n. files s (state_path d) = Some n \<longrightarrow> n_type n = Regular)
     \<and> files s (state_temp d sfx) = None"

lemma state_paths_distinct [simp]:
  "state_temp d sfx \<noteq> state_path d" "state_path d \<noteq> state_temp d sfx" "state_path d \<noteq> d"
  "d \<noteq> state_path d" "state_temp d sfx \<noteq> d" "d \<noteq> state_temp d sfx"
  by (simp_all add: state_temp_def state_path_def STATE_BASENAME_def lit_def path_join_not_self)

lemma read_state_ok:
  assumes "valid_state st" and "no_faults s" and "files s (state_path d) = Some (state_inode u st)"
  shows "read_state d s = (Inr (Some st), s)"
  using assms length_payload [OF assms(1)]
  by (simp add: read_state_def lstat_def read_bytes_def no_faults_def state_inode_def st_size_def
      MAX_STATE_BYTES_def payload_decode payload_loads state_of_payload)

lemma write_state_ok:
  assumes v: "valid_state st" and r: "state_ready d sfx s"
  shows "\<exists>s'. write_state d sfx st s = (Inr (), s') \<and> faults s' = faults s
           \<and> files s' = (files s)(state_path d \<mapsto> state_inode (my_uid s) st, state_temp d sfx := None)"
proof -
  obtain n where n: "files s d = Some n" "n_type n = Directory"
    using r by (auto simp: state_ready_def)
  have nf: "\<not> faults s c p" for c p using r by (simp add: state_ready_def no_faults_def)
  have tmp: "files s (state_temp d sfx) = None" using r by (simp add: state_ready_def)
  have sym: "refuse_symlink (state_path d) s = (Inr (), s)"
    using r nf by (auto simp: refuse_symlink_def lstat_def state_ready_def split: option.splits)
  have dst: "\<not> (\<exists>m. files s (state_path d) = Some m \<and> n_type m = Directory)"
    using r by (auto simp: state_ready_def)
  have len: "\<not> int (length (payload_of st)) > MAX_STATE_BYTES"
    using length_payload [OF v] by (simp add: MAX_STATE_BYTES_def)
  show ?thesis
    using v n tmp dst len
    by (simp add: write_state_def io_defs validate_ok_iff [THEN iffD2] sym state_payload_eq
        write_flush_sync_def syscall_defs nf state_inode_def fun_eq_iff)
qed

lemma write_state_ready:
  assumes "valid_state st" and "state_ready d sfx s"
  shows "\<exists>s'. write_state d sfx st s = (Inr (), s') \<and> state_ready d sfx s'
           \<and> read_state d s' = (Inr (Some st), s')"
proof -
  obtain s' where w: "write_state d sfx st s = (Inr (), s')" "faults s' = faults s"
    and f: "files s' = (files s)(state_path d \<mapsto> state_inode (my_uid s) st, state_temp d sfx := None)"
    using write_state_ok [OF assms] by blast
  have "no_faults s'" using assms(2) w(2) by (simp add: state_ready_def no_faults_def)
  moreover have "files s' (state_path d) = Some (state_inode (my_uid s) st)"
    using f by simp
  moreover have "state_ready d sfx s'"
    using assms(2) f w(2)
    by (auto simp: state_ready_def no_faults_def state_inode_def)
  ultimately show ?thesis using w(1) read_state_ok [OF assms(1)] by blast
qed

lemma write_state_invalid: "\<not> valid_state st \<Longrightarrow> \<exists>e. write_state d sfx st s = (Inl e, s)"
  using validate_ok_iff [of st]
  by (cases "validate st") (auto simp: write_state_def io_defs)

lemma state_of_json_valid: "state_of_json data = Inr (Some st) \<Longrightarrow> valid_state st"
  by (auto simp: state_of_json_def Let_def validate_ok_iff [symmetric] split: json.splits if_splits sum.splits)

lemma read_state_pure: "snd (read_state d s) = s"
  by (simp add: read_state_def)

lemma read_state_valid: "fst (read_state d s) = Inr (Some st) \<Longrightarrow> valid_state st"
  by (auto simp: read_state_def state_of_json_valid split: sum.splits if_splits)

interpretation rstate: published_checked "read_state d" "write_state d sfx" valid_state valid_state "state_ready d sfx"
  for d sfx
  by unfold_locales
     (auto simp: read_state_pure intro: read_state_valid write_state_ready dest: write_state_invalid)

section \<open>Writing under failures\<close>

lemma refuse_symlink_pure: "refuse_symlink p s = (r, s') \<Longrightarrow> s' = s"
  by (auto simp: refuse_symlink_def lstat_def split: if_splits option.splits)

lemma write_state_cases:
  assumes "write_state d sfx st s = (r, s')"
  obtains e where "r = Inl e" "s' = s"
  | s1 where "valid_state st" "open_excl (state_temp d sfx) 420 s = (Inr (), s1)"
      "io_finally (io_seq (write_flush_sync (state_temp d sfx) (payload_of st))
           (io_seq (chmod (state_temp d sfx) 420) (replace (state_temp d sfx) (state_path d))))
         (unlink_missing_ok (state_temp d sfx)) s1 = (r, s')"
proof (cases "validate st")
  case (Inl e)
  then show ?thesis using assms that(1) [of e] by (simp add: write_state_def io_defs)
next
  case (Inr u)
  then have v: "valid_state st" by (simp add: validate_ok_iff)
  obtain x s0 where rs: "refuse_symlink (state_path d) s = (x, s0)" by fastforce
  note rs' = rs [unfolded refuse_symlink_pure [OF rs]]
  have ls: "snd (lstat p s) = s" for p by (simp add: lstat_def)
  obtain y s1 where op: "open_excl (state_temp d sfx) 420 s = (y, s1)" by fastforce
  have "s1 = s" if "y = Inl e" for e
    using op that by (auto simp: open_excl_def split: if_splits)
  with assms v op rs' ls [of d] show ?thesis
    by (cases "lstat d s"; cases "fst (lstat d s)"; cases x; cases y)
       (auto simp: write_state_def validate_ok_iff [THEN iffD2] io_bind_def io_seq_def io_lift_def
         io_raise_def state_payload_eq split: if_splits intro: that)
qed

lemma open_state_temp:
  assumes "open_excl (state_temp d sfx) 420 s = (Inr (), s1)"
  obtains n where "files s1 = (files s)(state_temp d sfx \<mapsto> n)"
    "history s1 = files s1 # history s"
    "n\<lparr>n_data := payload_of st, n_mode := 420\<rparr> = state_inode (my_uid s) st"
  using assms by (fastforce simp: open_excl_def set_files_def state_inode_def split: if_splits)

text \<open>
  Whatever fails, a reader of the target only ever finds the old file or the complete new one.
\<close>

lemma write_state_only:
  assumes "write_state d sfx st s = (r, s')" and "history s = []"
  shows "only (state_path d) {files s (state_path d), Some (state_inode (my_uid s) st)} s'"
  using assms(1)
proof (cases rule: write_state_cases)
  case (1 e)
  then show ?thesis using assms(2) by (simp add: only_def)
next
  case (2 s1)
  let ?A = "{files s (state_path d), Some (state_inode (my_uid s) st)}"
  obtain n where n: "files s1 = (files s)(state_temp d sfx \<mapsto> n)" "history s1 = files s1 # history s"
    "n\<lparr>n_data := payload_of st, n_mode := 420\<rparr> = state_inode (my_uid s) st"
    using open_state_temp [OF 2(2)] .
  have o1: "only (state_path d) ?A s1" using n assms(2) by (simp add: only_def)
  have body: "only (state_path d) ?A s2"
    if "io_seq (write_flush_sync (state_temp d sfx) (payload_of st))
         (io_seq (chmod (state_temp d sfx) 420) (replace (state_temp d sfx) (state_path d))) s1 = (x, s2)"
    for x s2
    using publish_chmod_keeps_only [OF o1 _ _ _ that] n by auto
  from 2(3) show ?thesis
    by (cases rule: io_finally_cases) (auto dest!: body elim: keepsD [OF keeps_only_other(5), rotated])
qed

lemma write_state_success:
  assumes "write_state d sfx st s = (Inr (), s')"
  shows "valid_state st \<and> files s' (state_path d) = Some (state_inode (my_uid s) st)"
  using assms
proof (cases rule: write_state_cases)
  case (2 s1)
  obtain n where n: "files s1 = (files s)(state_temp d sfx \<mapsto> n)"
    "n\<lparr>n_data := payload_of st, n_mode := 420\<rparr> = state_inode (my_uid s) st"
    using open_state_temp [OF 2(2)] .
  from 2(3) show ?thesis
  proof (cases rule: io_finally_cases)
    case u: (2 s2)
    have "files s2 (state_path d) = Some (state_inode (my_uid s) st)"
      using publish_chmod_ok [OF _ _ u(1)] n by simp
    then show ?thesis using unlink_missing_ok_files [OF u(2)] 2(1) by simp
  qed simp
qed simp

text \<open>The temporary goes away unless its removal fails.\<close>

lemma write_state_temp:
  assumes "write_state d sfx st s = (r, s')" and "history s = []" and "\<not> faults s SysUnlink (state_temp d sfx)"
  shows "files s' (state_temp d sfx) = files s (state_temp d sfx)"
  using assms(1)
proof (cases rule: write_state_cases)
  case (2 s1)
  let ?T = "state_temp d sfx" and ?A = "insert None {Some n | n. n_type n = Regular}"
  have f: "files s ?T = None" "temp_ok (faults s) ?T ?A s1"
    using 2(2) assms(2) by (auto simp: open_excl_def temp_ok_def only_def set_files_def split: if_splits)
  have "keeps (temp_ok (faults s) ?T ?A) (io_seq (write_flush_sync ?T (payload_of st))
      (io_seq (chmod ?T 420) (replace ?T (state_path d))))"
    by (intro keeps_seq keeps_temp_ok) auto
  from temp_removed [OF this f(2) assms(3) _ 2(3)] show ?thesis using f(1) by auto
qed simp

lemma write_state_frame:
  "keeps (frame {state_path d, state_temp d sfx} g) (write_state d sfx st)"
proof -
  have "keeps (frame P g) (refuse_symlink p)" for P p
    by (auto simp: keeps_def dest: refuse_symlink_pure)
  then show ?thesis
    unfolding write_state_def
    by (intro keeps_seq keeps_bind keeps_simple keeps_finally keeps_frame keeps_frame_sync
        keeps_if) auto
qed

section \<open>The command line\<close>

lemma write_status_frame: "keeps P m \<Longrightarrow> keeps P (write_status m)"
  by (auto simp: keeps_def write_status_def split: prod.splits sum.splits)

lemma read_state_frame: "keeps P (read_state d)"
  by (auto simp: keeps_def read_state_def)

lemma state_run_frame: "keeps (frame {state_path d, state_temp d sfx} g) (state_run sfx d f)"
  unfolding state_run_def
  by (auto split: option.splits
      intro!: keeps_bind keeps_simple read_state_frame write_status_frame write_state_frame)

lemma state_argv_parse:
  "parse_state_flags StateFlags_init [lit ''--directory'', v, lit ''--set-connection-in-progress'', b]
   = map_option (\<lambda>p. StateFlags_init\<lparr>sf_directory := Some (path_norm v), sf_set_progress := Some p\<rparr>)
       (parse_bool_flag b)"
  "parse_state_flags StateFlags_init [lit ''--directory'', v, lit ''--clear-time-sync'']
   = Some (StateFlags_init\<lparr>sf_directory := Some (path_norm v), sf_clear_time_sync := True\<rparr>)"
  by (simp_all add: state_flag_value_def split: option.split)

lemma state_main_run:
  assumes "parse_state_flags StateFlags_init argv = Some f" and "sf_directory f = Some d"
    and "mode_count f \<le> 1" and "test_mode \<or> d = PROD_RUNTIME_DIR"
  shows "state_main test_mode sfx argv = state_run sfx d f"
  using assms by (auto simp: state_main_def)

lemma write_status_ok: "m s = (Inr (), s') \<Longrightarrow> write_status m s = (Inr (0, None), s')"
  by (simp add: write_status_def)

lemma valid_state_set:
  "valid_state st \<Longrightarrow> valid_state (st\<lparr>connection_in_progress := JBool b\<rparr>)"
  "valid_state st \<Longrightarrow> valid_state (st\<lparr>time_sync_required := JBool b\<rparr>)"
  by (auto simp: valid_state_def)

lemma state_run_set:
  assumes "state_ready d sfx s" and "read_state d s = (Inr (Some st), s)"
  shows "\<exists>s'. write_status (write_state d sfx (st\<lparr>connection_in_progress := JBool b\<rparr>)) s = (Inr (0, None), s')
           \<and> read_state d s' = (Inr (Some (st\<lparr>connection_in_progress := JBool b\<rparr>)), s')"
    and "\<exists>s'. write_status (write_state d sfx (st\<lparr>time_sync_required := JBool b\<rparr>)) s = (Inr (0, None), s')
           \<and> read_state d s' = (Inr (Some (st\<lparr>time_sync_required := JBool b\<rparr>)), s')"
proof -
  have v: "valid_state st" using assms(2) by (intro read_state_valid [of d s]) simp
  show "\<exists>s'. write_status (write_state d sfx (st\<lparr>connection_in_progress := JBool b\<rparr>)) s = (Inr (0, None), s')
           \<and> read_state d s' = (Inr (Some (st\<lparr>connection_in_progress := JBool b\<rparr>)), s')"
    using rstate.wr_rd [OF assms(1) valid_state_set(1) [OF v]] write_status_ok by blast
  show "\<exists>s'. write_status (write_state d sfx (st\<lparr>time_sync_required := JBool b\<rparr>)) s = (Inr (0, None), s')
           \<and> read_state d s' = (Inr (Some (st\<lparr>time_sync_required := JBool b\<rparr>)), s')"
    using rstate.wr_rd [OF assms(1) valid_state_set(2) [OF v]] write_status_ok by blast
qed

section \<open>Properties\<close>

text \<open>
  C35. Publish and read back: a valid state written where nothing fails is exactly what
  \<open>read_state\<close> returns next, the temporary is gone, and the file is one line of at most 4096
  printable ASCII bytes followed by a newline.
\<close>

theorem state_write_read:
  assumes "valid_state st" and "state_ready d sfx s"
  shows "\<exists>s'. write_state d sfx st s = (Inr (), s') \<and> read_state d s' = (Inr (Some st), s')
           \<and> files s' (state_temp d sfx) = None
           \<and> (\<exists>n line. files s' (state_path d) = Some n \<and> n_data n = bytes_of line @ [10]
                \<and> printable line \<and> st_size n \<le> MAX_STATE_BYTES)"
proof -
  obtain s' where w: "write_state d sfx st s = (Inr (), s')" "state_ready d sfx s'"
    "read_state d s' = (Inr (Some st), s')"
    using rstate.wr_rd [OF assms(2,1)] by blast
  have "n_data (state_inode u st) = bytes_of (payload_text st) @ [10]" for u
    by (simp add: state_inode_def payload_of_def)
  moreover have "printable (payload_text st)"
    unfolding payload_text_def by (rule printable_json_dumps)
  moreover have "st_size (state_inode u st) \<le> MAX_STATE_BYTES" for u
    using length_payload [OF assms(1)] by (simp add: st_size_def state_inode_def MAX_STATE_BYTES_def)
  ultimately show ?thesis
    using w write_state_success [OF w(1)] unfolding state_ready_def by blast
qed

definition sample_state :: RuntimeState where
  "sample_state = \<lparr>active_route = JStr ROUTE_SETUP, time_sync_required = JBool True,
     connection_in_progress = JBool False, last_reason = JStr (lit ''time-sync-pending'')\<rparr>"

definition sample_os :: os where
  "sample_os = os_of [(PROD_RUNTIME_DIR, dir_inode)]"

lemma sample_state_valid: "valid_state sample_state"
  unfolding validate_ok_iff [symmetric]
  by (simp add: sample_state_def validate_def is_route_def ROUTES_def REASON_PATTERN_match_def
      reason_token_def lower_cp_def ascii_digit_def lit_def)

lemma sample_os_ready: "state_ready PROD_RUNTIME_DIR sfx sample_os"
  by (simp add: state_ready_def sample_os_def os_of_def no_faults_def dir_inode_def)

theorem state_write_read_witness:
  "\<exists>s'. write_state PROD_RUNTIME_DIR (lit ''7.ab'') sample_state sample_os = (Inr (), s')
     \<and> read_state PROD_RUNTIME_DIR s' = (Inr (Some sample_state), s')"
  using state_write_read [OF sample_state_valid sample_os_ready] by blast

text \<open>
  C34. Atomic publication under any failures: whichever system calls fail, and however much of a
  failed write reaches the disk, at every instant of \<open>write_state\<close> the target holds the old file
  or the complete new one with mode 0644; a normal return means the new one is there and the
  state was valid. Besides the target only the temporary is written, and at the end it is as it was before,
  so gone, unless its removal failed; no other path changes.
\<close>

theorem write_state_atomic:
  assumes "write_state d sfx st s = (r, s')" and "history s = []"
  shows "(\<forall>f \<in> set (files s' # history s').
            f (state_path d) \<in> {files s (state_path d), Some (state_inode (my_uid s) st)})
         \<and> (r = Inr () \<longrightarrow> valid_state st \<and> files s' (state_path d) = Some (state_inode (my_uid s) st))
         \<and> (\<forall>p. p \<noteq> state_path d \<longrightarrow> p \<noteq> state_temp d sfx \<or> \<not> faults s SysUnlink (state_temp d sfx)
              \<longrightarrow> files s' p = files s p)"
proof (intro conjI impI)
  show "\<forall>f \<in> set (files s' # history s').
          f (state_path d) \<in> {files s (state_path d), Some (state_inode (my_uid s) st)}"
    using write_state_only [OF assms] by (simp only: only_def list.set ball_simps) simp
  show "\<forall>p. p \<noteq> state_path d \<longrightarrow> p \<noteq> state_temp d sfx \<or> \<not> faults s SysUnlink (state_temp d sfx) \<longrightarrow> files s' p = files s p"
    using keepsD [OF write_state_frame frame_refl assms(1)] write_state_temp [OF assms] by (auto simp: frame_def)
qed (use assms write_state_success in blast)+

definition failing_os :: os where
  "failing_os = sample_os\<lparr>faults := (\<lambda>c p. c = SysReplace), torn := 3\<rparr>"

theorem write_state_atomic_witness:
  "list_all (\<lambda>f. f (state_path PROD_RUNTIME_DIR) \<in> {None, Some (state_inode 0 sample_state)})
     (history (snd (write_state PROD_RUNTIME_DIR [55] sample_state failing_os)))
   \<and> files (snd (write_state PROD_RUNTIME_DIR [55] sample_state failing_os)) (state_temp PROD_RUNTIME_DIR [55]) = None"
proof -
  let ?w = "write_state PROD_RUNTIME_DIR [55] sample_state failing_os"
  have "history failing_os = []" by (simp add: failing_os_def sample_os_def os_of_def)
  note write_state_atomic [OF prod.collapse [symmetric] this, of PROD_RUNTIME_DIR "[55]" sample_state]
  moreover have "files failing_os (state_path PROD_RUNTIME_DIR) = None" "my_uid failing_os = 0"
    "files failing_os (state_temp PROD_RUNTIME_DIR [55]) = None" "\<not> faults failing_os SysUnlink p"
    "state_temp PROD_RUNTIME_DIR [55] \<noteq> state_path PROD_RUNTIME_DIR" for p
    by (simp_all add: failing_os_def sample_os_def os_of_def state_temp_def state_path_def path_join_def
        PROD_RUNTIME_DIR_def STATE_BASENAME_def lit_def)
  ultimately show ?thesis by (simp add: list_all_iff)
qed

lemma validate_errors: "validate st = Inl e \<Longrightarrow> e = ValueError \<or> e = TypeError \<and> \<not> is_JStr (last_reason st)"
  by (auto simp: validate_def split: if_splits json.splits)

lemma state_of_json_errors:
  "state_of_json data = Inl e
   \<Longrightarrow> e = TypeError \<and> (\<exists>m. data = JObj m \<and> set (map fst m) = set expected_keys
         \<and> \<not> is_JStr (get_key m (lit ''last_reason'')))"
  by (auto simp: state_of_json_def Let_def is_ValueError_def split: json.splits if_splits sum.splits
      dest!: validate_errors)

lemma state_of_json_keys:
  "state_of_json data = Inr (Some st) \<Longrightarrow> \<exists>m. data = JObj m \<and> set (map fst m) = set expected_keys"
  by (auto simp: state_of_json_def split: json.splits if_splits)

definition state_doc :: "path \<Rightarrow> os \<Rightarrow> json \<Rightarrow> bool" where
  "state_doc d s data \<longleftrightarrow>
     (case files s (state_path d) of
        None \<Rightarrow> False
      | Some n \<Rightarrow> n_type n = Regular \<and> st_size n \<le> MAX_STATE_BYTES
          \<and> (\<exists>text. ascii_decode (n_data n) = Inr text \<and> json_loads (universal_newlines text) = Inr data))"

lemma read_state_doc:
  "fst (read_state d s) = Inr None \<or> (\<exists>data. state_doc d s data \<and> fst (read_state d s) = state_of_json data)"
  by (auto simp: read_state_def lstat_def read_bytes_def state_doc_def split: option.split sum.split)

text \<open>
  What the file must hold for \<open>st\<close> to be the published state: a readable regular file of at most 4096 bytes,
  ASCII, one JSON object with exactly the five keys, version 1, and four valid values.
\<close>

definition publishes :: "path \<Rightarrow> os \<Rightarrow> RuntimeState \<Rightarrow> bool" where
  "publishes d s st \<longleftrightarrow>
     \<not> faults s SysLstat (state_path d) \<and> \<not> faults s SysRead (state_path d) \<and> valid_state st
     \<and> (\<exists>m. state_doc d s (JObj m) \<and> set (map fst m) = set expected_keys
          \<and> py_eq_one (get_key m (lit ''schema_version''))
          \<and> active_route st = get_key m (lit ''active_route'')
          \<and> time_sync_required st = get_key m (lit ''time_sync_required'')
          \<and> connection_in_progress st = get_key m (lit ''connection_in_progress'')
          \<and> last_reason st = get_key m (lit ''last_reason''))"

lemma state_of_json_some:
  "state_of_json data = Inr (Some st) \<longleftrightarrow>
     valid_state st
     \<and> (\<exists>m. data = JObj m \<and> set (map fst m) = set expected_keys \<and> py_eq_one (get_key m (lit ''schema_version''))
          \<and> active_route st = get_key m (lit ''active_route'')
          \<and> time_sync_required st = get_key m (lit ''time_sync_required'')
          \<and> connection_in_progress st = get_key m (lit ''connection_in_progress'')
          \<and> last_reason st = get_key m (lit ''last_reason''))"
  by (cases data; cases st) (auto simp: state_of_json_def Let_def validate_ok_iff [symmetric] split: sum.splits if_splits)

lemma state_doc_unique: "state_doc d s x \<Longrightarrow> state_doc d s y \<Longrightarrow> x = y"
  by (auto simp: state_doc_def split: option.splits)

lemma read_state_of_doc:
  "\<not> faults s SysLstat (state_path d) \<Longrightarrow> \<not> faults s SysRead (state_path d) \<Longrightarrow> state_doc d s data
   \<Longrightarrow> fst (read_state d s) = state_of_json data"
  by (cases "files s (state_path d)") (auto simp: read_state_def lstat_def read_bytes_def state_doc_def)

lemma read_state_no_doc:
  assumes "faults s SysLstat (state_path d) \<or> faults s SysRead (state_path d)"
  shows "fst (read_state d s) = Inr None"
  using assms by (auto simp: read_state_def lstat_def read_bytes_def split: option.split)

lemma read_state_some: "fst (read_state d s) = Inr (Some st) \<longleftrightarrow> publishes d s st"
proof -
  have "fst (read_state d s) = Inr (Some st) \<longleftrightarrow>
      \<not> faults s SysLstat (state_path d) \<and> \<not> faults s SysRead (state_path d)
      \<and> (\<exists>data. state_doc d s data \<and> state_of_json data = Inr (Some st))"
    using read_state_of_doc [of s d] read_state_no_doc [of s d] read_state_doc [of d s]
    by (metis option.distinct(1) sum.inject(2))
  then show ?thesis unfolding state_of_json_some publishes_def by blast
qed

text \<open>
  C36. The reader fails closed: unless the file is an object of the five keys whose \<open>last_reason\<close> is no string, \<open>read_state\<close>
  changes nothing and raises nothing; it returns a state exactly when the file publishes it (\<open>publishes\<close>), and
  \<open>None\<close> in every other case. On a \<open>last_reason\<close> that is not a string the code raises a \<open>TypeError\<close> instead of
  reading \<open>None\<close> as its documentation says: \<open>null_reason_raises\<close>.
\<close>

theorem read_state_fail_closed:
  assumes "\<forall>m. state_doc d s (JObj m) \<longrightarrow> set (map fst m) = set expected_keys
             \<longrightarrow> is_JStr (get_key m (lit ''last_reason''))"
  shows "snd (read_state d s) = s
         \<and> (\<forall>st. fst (read_state d s) = Inr (Some st) \<longleftrightarrow> publishes d s st)
         \<and> (fst (read_state d s) = Inr None \<longleftrightarrow> (\<nexists>st. publishes d s st))"
proof -
  have "fst (read_state d s) \<noteq> Inl e" for e
  proof
    assume e: "fst (read_state d s) = Inl e"
    then obtain data where "state_doc d s data" "state_of_json data = Inl e" using read_state_doc [of d s] by auto
    then show False using state_of_json_errors assms by blast
  qed
  then have "fst (read_state d s) = Inr None \<longleftrightarrow> (\<nexists>st. fst (read_state d s) = Inr (Some st))"
    by (metis option.exhaust old.sum.exhaust sum.inject(2) option.distinct(1))
  then show ?thesis by (simp add: read_state_pure read_state_some)
qed

text \<open>A file that publishes a state is read; a missing one is not.\<close>

theorem read_state_fail_closed_witness:
  "(\<exists>s. publishes PROD_RUNTIME_DIR s sample_state \<and> fst (read_state PROD_RUNTIME_DIR s) = Inr (Some sample_state))
   \<and> fst (read_state PROD_RUNTIME_DIR sample_os) = Inr None \<and> (\<nexists>st. publishes PROD_RUNTIME_DIR sample_os st)"
proof -
  obtain s where r: "read_state PROD_RUNTIME_DIR s = (Inr (Some sample_state), s)"
    using rstate.wr_rd [OF sample_os_ready sample_state_valid] by blast
  then have p: "publishes PROD_RUNTIME_DIR s sample_state" using read_state_some [of PROD_RUNTIME_DIR s sample_state] by simp
  then obtain k where k: "state_doc PROD_RUNTIME_DIR s (JObj k)" "last_reason sample_state = get_key k (lit ''last_reason'')"
    unfolding publishes_def by blast
  have "is_JStr (last_reason sample_state)" by (simp add: sample_state_def)
  then have "\<forall>m. state_doc PROD_RUNTIME_DIR s (JObj m) \<longrightarrow> set (map fst m) = set expected_keys \<longrightarrow> is_JStr (get_key m (lit ''last_reason''))"
    using k state_doc_unique [OF k(1)] by fastforce
  note 1 = read_state_fail_closed [OF this]
  have n: "\<not> state_doc PROD_RUNTIME_DIR sample_os data" for data
    by (simp add: state_doc_def sample_os_def os_of_def)
  then have 2: "\<nexists>st. publishes PROD_RUNTIME_DIR sample_os st" by (simp add: publishes_def)
  show ?thesis using 1 2 p read_state_fail_closed [of PROD_RUNTIME_DIR sample_os] n by blast
qed

text \<open>A published document whose \<open>last_reason\<close> is \<open>null\<close>.\<close>

definition null_reason_items :: "(pystr \<times> jscalar) list" where
  "null_reason_items =
     [(lit ''active_route'', SStr ROUTE_ONLINE), (lit ''connection_in_progress'', SBool False),
      (lit ''last_reason'', SNull), (lit ''schema_version'', SInt 1), (lit ''time_sync_required'', SBool False)]"

definition null_reason_os :: os where
  "null_reason_os = os_of [(state_path PROD_RUNTIME_DIR,
     \<lparr>n_type = Regular, n_mode = 420, n_uid = 0,
      n_data = bytes_of (json_dumps True True null_reason_items)\<rparr>)]"

lemma null_reason_loads: "json_loads (json_dumps True True null_reason_items) = Inr (JObj (of_items null_reason_items))"
  by (rule json_loads_dumps)
     (simp add: items_ok_def null_reason_items_def show_int_1 max_str_digits_def lit_def encodable_def
       valid_cp_def is_surrogate_def ROUTE_ONLINE_def)

lemma null_reason_decode:
  "ascii_decode (bytes_of (json_dumps True True kvs)) = Inr (json_dumps True True kvs)
   \<and> universal_newlines (json_dumps True True kvs) = json_dumps True True kvs"
  using printable_json_dumps [of True kvs]
  by (auto intro!: ascii_roundtrip universal_newlines_id
      simp: ascii_encode_def printable_isascii printable_def list_all_iff)

lemma null_reason_small: "length (json_dumps True True null_reason_items) \<le> 4096"
proof -
  have l: "length (dump_str True (lit k)) \<le> 12 * length k + 2" for k
    using length_dump_str [of True "lit k"] by simp
  show ?thesis
    using l [of "''active_route''"] l [of "''connection_in_progress''"] l [of "''last_reason''"]
      l [of "''schema_version''"] l [of "''time_sync_required''"] l [of "''online''"]
    by (simp add: json_dumps_def null_reason_items_def dump_item_def item_sep_def key_sep_def
        ROUTE_ONLINE_def show_int_1)
qed

lemma null_reason_raises: "fst (read_state PROD_RUNTIME_DIR null_reason_os) = Inl TypeError"
proof -
  have "fst (read_state PROD_RUNTIME_DIR null_reason_os) = state_of_json (JObj (of_items null_reason_items))"
    using null_reason_small
    by (simp add: read_state_def lstat_def read_bytes_def null_reason_os_def os_of_def st_size_def
        MAX_STATE_BYTES_def null_reason_decode null_reason_loads)
  also have "\<dots> = Inl TypeError"
    by (simp add: state_of_json_def of_items_def null_reason_items_def expected_keys_def get_key_def
        validate_def is_route_def ROUTES_def is_ValueError_def insert_commute)
  finally show ?thesis .
qed

text \<open>
  The read-modify-write modes of the command line change one field only: with a state
  published and nothing failing, \<open>--set-connection-in-progress\<close> and \<open>--clear-time-sync\<close> exit 0 and
  leave a file that reads back as the old state with just that field changed.
\<close>

theorem state_main_updates:
  assumes "state_ready (path_norm v) sfx s" and "read_state (path_norm v) s = (Inr (Some st), s)"
    and "test_mode \<or> path_norm v = PROD_RUNTIME_DIR" and "parse_bool_flag b = Some p"
  shows "(\<exists>s'. state_main test_mode sfx
             [lit ''--directory'', v, lit ''--set-connection-in-progress'', b] s = (Inr (0, None), s')
           \<and> read_state (path_norm v) s' = (Inr (Some (st\<lparr>connection_in_progress := JBool p\<rparr>)), s'))
         \<and> (\<exists>s'. state_main test_mode sfx
             [lit ''--directory'', v, lit ''--clear-time-sync''] s = (Inr (0, None), s')
           \<and> read_state (path_norm v) s' = (Inr (Some (st\<lparr>time_sync_required := JBool False\<rparr>)), s'))"
proof
  have m1: "state_main test_mode sfx [lit ''--directory'', v, lit ''--set-connection-in-progress'', b]
      = state_run sfx (path_norm v)
          (StateFlags_init\<lparr>sf_directory := Some (path_norm v), sf_set_progress := Some p\<rparr>)"
    by (rule state_main_run, simp only: state_argv_parse assms(4) option.map)
       (use assms(3) in \<open>simp_all add: mode_count_def StateFlags_init_def\<close>)
  have m2: "state_main test_mode sfx [lit ''--directory'', v, lit ''--clear-time-sync'']
      = state_run sfx (path_norm v)
          (StateFlags_init\<lparr>sf_directory := Some (path_norm v), sf_clear_time_sync := True\<rparr>)"
    by (rule state_main_run, simp only: state_argv_parse)
       (use assms(3) in \<open>simp_all add: mode_count_def StateFlags_init_def\<close>)
  note main = m1 m2 StateFlags_init_def state_run_def io_bind_def assms(2)
  show "\<exists>s'. state_main test_mode sfx
           [lit ''--directory'', v, lit ''--set-connection-in-progress'', b] s = (Inr (0, None), s')
         \<and> read_state (path_norm v) s' = (Inr (Some (st\<lparr>connection_in_progress := JBool p\<rparr>)), s')"
  proof (cases "connection_in_progress st = JBool p")
    case True
    then have "st\<lparr>connection_in_progress := JBool p\<rparr> = st" by (cases st) simp
    then show ?thesis using True assms(2) by (simp add: main io_return_def)
  next
    case False
    then show ?thesis
      using state_run_set(1) [OF assms(1,2), of p] by (simp add: main)
  qed
  show "\<exists>s'. state_main test_mode sfx
           [lit ''--directory'', v, lit ''--clear-time-sync''] s = (Inr (0, None), s')
         \<and> read_state (path_norm v) s' = (Inr (Some (st\<lparr>time_sync_required := JBool False\<rparr>)), s')"
    using state_run_set(2) [OF assms(1,2), of False]
    by (simp add: main)
qed

lemma path_norm_PROD: "path_norm PROD_RUNTIME_DIR = PROD_RUNTIME_DIR"
  by (simp add: PROD_RUNTIME_DIR_def path_norm_def split_on_def starts_with_def lit_def Let_def)

theorem state_main_updates_witness:
  "\<exists>s0 s'. state_main False (lit ''7.ab'')
       [lit ''--directory'', PROD_RUNTIME_DIR, lit ''--clear-time-sync''] s0 = (Inr (0, None), s')
     \<and> read_state PROD_RUNTIME_DIR s'
         = (Inr (Some (sample_state\<lparr>time_sync_required := JBool False\<rparr>)), s')"
proof -
  obtain s0 where s0: "state_ready PROD_RUNTIME_DIR (lit ''7.ab'') s0"
    "read_state PROD_RUNTIME_DIR s0 = (Inr (Some sample_state), s0)"
    using rstate.wr_rd [OF sample_os_ready sample_state_valid] by blast
  have "parse_bool_flag (lit ''1'') = Some True" by (simp add: parse_bool_flag_def)
  then show ?thesis
    using state_main_updates [of PROD_RUNTIME_DIR, unfolded path_norm_PROD, OF s0, of False] by blast
qed

lemma write_status_codes: "fst (write_status m s) \<noteq> Inr (2, x)"
  by (auto simp: write_status_def split: prod.splits sum.splits)

lemma state_run_codes: "fst (state_run sfx d f s) \<noteq> Inr (2, x)"
  using write_status_codes
  by (auto simp: state_run_def io_bind_def io_return_def read_state_def split: option.splits sum.splits)

text \<open>
  C37. The override gate: outside test mode, whatever the flags, the command line changes no file
  but the production state file and its temporary; and whenever it exits 2 it changed nothing.
\<close>

theorem state_main_gate:
  "(\<forall>p. p \<notin> {state_path PROD_RUNTIME_DIR, state_temp PROD_RUNTIME_DIR sfx} \<longrightarrow>
      files (snd (state_main False sfx argv s)) p = files s p)
   \<and> (fst (state_main t sfx argv s) = Inr (2, x) \<longrightarrow> snd (state_main t sfx argv s) = s)"
proof
  have "frame {state_path PROD_RUNTIME_DIR, state_temp PROD_RUNTIME_DIR sfx} (files s)
          (snd (state_run sfx PROD_RUNTIME_DIR f s))" for f
    using keepsD [OF state_run_frame frame_refl prod.collapse [symmetric]] .
  then show "\<forall>p. p \<notin> {state_path PROD_RUNTIME_DIR, state_temp PROD_RUNTIME_DIR sfx} \<longrightarrow>
      files (snd (state_main False sfx argv s)) p = files s p"
    by (auto simp: state_main_def io_return_def frame_def split: option.splits)
  show "fst (state_main t sfx argv s) = Inr (2, x) \<longrightarrow> snd (state_main t sfx argv s) = s"
    using state_run_codes [of sfx _ _ s x]
    by (auto simp: state_main_def io_return_def split: option.splits)
qed

theorem state_main_gate_witness:
  "files (snd (state_main False [55]
     [lit ''--directory'', lit ''/tmp/x'', lit ''--route'', lit ''online''] sample_os)) (lit ''/tmp/x'')
   = files sample_os (lit ''/tmp/x'')"
  using state_main_gate [of "[55]" "[lit ''--directory'', lit ''/tmp/x'', lit ''--route'', lit ''online'']"
      sample_os]
  by (simp add: state_path_def state_temp_def path_join_def PROD_RUNTIME_DIR_def STATE_BASENAME_def lit_def
      del: parse_state_flags.simps)

end
