(* ===== verification/Config.thy ===== *)
theory Config
  imports Os_Model
begin

text \<open>
  The parser and validator of \<open>/etc/sushida-os/config.env\<close>, \<open>sushida_os/config.py\<close>: the table of
  accepted settings, the line parser, the value checks, the reader and the exit statuses of the
  command line.  \<open>ConfigError\<close> carries its message; an exception of another class that leaves a
  function is \<open>Uncaught\<close>.
\<close>

section \<open>The settings\<close>

datatype config_error = ConfigError pystr | Uncaught exn

record Setting =
  s_key :: pystr
  s_minimum :: int
  s_maximum :: int
  s_default :: "int option"
  s_optional :: bool
  s_url :: bool

definition CONFIG_FILE :: path where "CONFIG_FILE = lit ''/etc/sushida-os/config.env''"
definition SUSHIDA_ORIGIN :: pystr where "SUSHIDA_ORIGIN = lit ''https://sushida.net''"

definition int_setting :: "pystr \<Rightarrow> int \<Rightarrow> int \<Rightarrow> int option \<Rightarrow> bool \<Rightarrow> Setting" where
  "int_setting k lo hi d opt =
     \<lparr>s_key = k, s_minimum = lo, s_maximum = hi, s_default = d, s_optional = opt, s_url = False\<rparr>"

definition SETTINGS :: "Setting list" where
  "SETTINGS =
     [\<lparr>s_key = lit ''SUSHIDA_URL'', s_minimum = 0, s_maximum = 0, s_default = None,
       s_optional = False, s_url = True\<rparr>,
      int_setting (lit ''NETWORK_CHECK_INTERVAL_SECONDS'') 30 3600 (Some 30) False,
      int_setting (lit ''NETWORK_SETUP_GRACE_SECONDS'') 0 60 (Some 15) False,
      int_setting (lit ''AUDIO_VOLUME_PERCENT'') 0 100 None True,
      int_setting (lit ''SCREEN_BRIGHTNESS_PERCENT'') 5 100 (Some 80) False,
      int_setting (lit ''SCREEN_ZOOM_PERCENT'') 50 300 None True]"

definition lookup_setting :: "pystr \<Rightarrow> Setting option" where
  "lookup_setting k = find (\<lambda>s. s_key s = k) SETTINGS"

definition known_key :: "pystr \<Rightarrow> bool" where
  "known_key k \<longleftrightarrow> k \<in> set (map s_key SETTINGS)"

section \<open>Parsing\<close>

type_synonym raw_config = "(pystr \<times> pystr) list"

definition strip_cr :: "pystr \<Rightarrow> pystr" where
  "strip_cr line = (if line \<noteq> [] \<and> last line = 13 then butlast line else line)"

definition ignored_line :: "pystr \<Rightarrow> bool" where
  "ignored_line line \<longleftrightarrow> line = [] \<or> starts_with [35] line"

fun parse_lines :: "int \<Rightarrow> raw_config \<Rightarrow> pystr list \<Rightarrow> config_error + raw_config" where
  "parse_lines number raw [] = Inr raw"
| "parse_lines number raw (l # ls) =
     (let line = strip_cr l in
      if ignored_line line then parse_lines (number + 1) raw ls
      else (case partition_at 61 line of (key, found, v) \<Rightarrow>
        if \<not> found then
          Inl (ConfigError (lit ''Invalid config line (missing '=') at line '' @ show_int number))
        else if \<not> known_key key then
          Inl (ConfigError (lit ''Unknown config key at line '' @ show_int number))
        else if key \<in> set (map fst raw) then Inl (ConfigError (lit ''Duplicate '' @ key))
        else parse_lines (number + 1) (raw @ [(key, v)]) ls))"

definition config_parse :: "pystr \<Rightarrow> config_error + raw_config" where
  "config_parse text = parse_lines 1 [] (split_on 10 text)"

section \<open>Values\<close>

definition url_allowed :: "pystr \<Rightarrow> bool" where
  "url_allowed url \<longleftrightarrow>
     url = SUSHIDA_ORIGIN \<or> url = SUSHIDA_ORIGIN @ lit ''/'' \<or> starts_with (SUSHIDA_ORIGIN @ lit ''/'') url"

datatype setting_value = VUrl pystr | VInt int | VNone

definition default_value :: "int option \<Rightarrow> setting_value" where
  "default_value d = (case d of None \<Rightarrow> VNone | Some n \<Rightarrow> VInt n)"

definition range_message :: "Setting \<Rightarrow> pystr" where
  "range_message s = s_key s @ lit '' must be between '' @ show_int (s_minimum s) @ lit '' and ''
     @ show_int (s_maximum s)"

definition config_value :: "raw_config \<Rightarrow> pystr \<Rightarrow> config_error + setting_value" where
  "config_value raw key =
     (case lookup_setting key of
        None \<Rightarrow> Inl (Uncaught KeyError)
      | Some setting \<Rightarrow>
          if s_url setting then
            (let url = (case map_of raw key of None \<Rightarrow> [] | Some u \<Rightarrow> u) in
             if url = [] then Inl (ConfigError (key @ lit '' not set''))
             else if \<not> url_allowed url then
               Inl (ConfigError (lit ''Invalid or disallowed URL: '' @ url))
             else Inr (VUrl url))
          else
            (case map_of raw key of
               None \<Rightarrow> Inr (default_value (s_default setting))
             | Some text \<Rightarrow>
                 if text = [] \<and> s_optional setting then Inr VNone
                 else if \<not> (py_isascii text \<and> py_isdigit text) then
                   Inl (ConfigError (key @ lit '' must be an integer''))
                 else (case py_int text of
                         Inl e \<Rightarrow> Inl (Uncaught e)
                       | Inr number \<Rightarrow>
                           if \<not> (s_minimum setting \<le> number \<and> number \<le> s_maximum setting) then
                             Inl (ConfigError (range_message setting))
                           else Inr (VInt number))))"

section \<open>Reading and the command line\<close>

definition config_read :: "path \<Rightarrow> os \<Rightarrow> config_error + raw_config" where
  "config_read p s =
     (case fst (read_bytes p s) of
        Inl e \<Rightarrow> Inl (ConfigError (if e = FileNotFoundError then lit ''Config file not found: '' @ p
                                   else lit ''Config file unreadable: '' @ p))
      | Inr bs \<Rightarrow>
          (case utf8_decode SurrogateEscape bs of
             Inl e \<Rightarrow> Inl (Uncaught e)
           | Inr text \<Rightarrow> config_parse text))"

definition config_load :: "pystr \<Rightarrow> path \<Rightarrow> os \<Rightarrow> config_error + setting_value" where
  "config_load key p s = res_bind (config_read p s) (\<lambda>raw. config_value raw key)"

text \<open>
  \<open>main\<close> after \<open>argparse\<close> accepted a known key and a file: the exit status, standard output and the
  message on standard error.
\<close>

definition value_text :: "setting_value \<Rightarrow> pystr" where
  "value_text v = (case v of VUrl u \<Rightarrow> u | VInt n \<Rightarrow> show_int n | VNone \<Rightarrow> [])"

definition config_main :: "pystr \<Rightarrow> path \<Rightarrow> os \<Rightarrow> exn + int \<times> bytes \<times> pystr option" where
  "config_main key p s =
     (case config_load key p s of
        Inl (ConfigError msg) \<Rightarrow> Inr (1, [], Some (lit ''ERROR: '' @ msg))
      | Inl (Uncaught e) \<Rightarrow> Inl e
      | Inr v \<Rightarrow> res_bind (utf8_encode_se (value_text v)) (\<lambda>bs. Inr (0, bs @ [10], None)))"

lemmas config_defs = CONFIG_FILE_def SUSHIDA_ORIGIN_def int_setting_def SETTINGS_def lookup_setting_def
  known_key_def strip_cr_def ignored_line_def config_parse_def url_allowed_def default_value_def
  range_message_def config_value_def config_read_def config_load_def value_text_def config_main_def
declare config_defs [py_eval]

section \<open>The parser against a declarative reading\<close>

text \<open>The lines that count, each cut at its first \<open>=\<close>.\<close>

definition setting_lines :: "pystr list \<Rightarrow> pystr list" where
  "setting_lines ls = filter (\<lambda>l. \<not> ignored_line l) (map strip_cr ls)"

definition cut_line :: "pystr \<Rightarrow> pystr \<times> pystr" where
  "cut_line l = (case partition_at 61 l of (k, _, v) \<Rightarrow> (k, v))"

lemma parse_lines_spec:
  assumes "distinct (map fst raw)"
  shows "parse_lines n raw ls = Inr r \<longleftrightarrow>
     r = raw @ map cut_line (setting_lines ls)
     \<and> (\<forall>l \<in> set (setting_lines ls). 61 \<in> set l \<and> known_key (fst (cut_line l)))
     \<and> distinct (map fst (raw @ map cut_line (setting_lines ls)))"
  using assms
proof (induction n raw ls rule: parse_lines.induct)
  case (1 n raw)
  then show ?case by (auto simp: setting_lines_def)
next
  case (2 n raw l ls)
  obtain k f v where p: "partition_at 61 (strip_cr l) = (k, f, v)" by (cases "partition_at 61 (strip_cr l)")
  show ?case
  proof (cases "ignored_line (strip_cr l)")
    case True
    then show ?thesis using 2 by (simp add: setting_lines_def)
  next
    case False
    have sl: "setting_lines (l # ls) = strip_cr l # setting_lines ls"
      using False by (simp add: setting_lines_def)
    have cl: "cut_line (strip_cr l) = (k, v)" and ff: "f \<longleftrightarrow> 61 \<in> set (strip_cr l)"
      using p by (auto simp: cut_line_def dest: partition_at_found)
    show ?thesis
    proof (cases "f \<and> known_key k \<and> k \<notin> set (map fst raw)")
      case True
      then have "parse_lines n raw (l # ls) = parse_lines (n + 1) (raw @ [(k, v)]) ls"
        using False p by (simp add: Let_def)
      moreover have "distinct (map fst (raw @ [(k, v)]))" using True 2(3) by auto
      ultimately show ?thesis
        using 2(2) [OF refl False p [symmetric]] True sl cl ff by simp
    next
      case c: False
      then have "\<nexists>r. parse_lines n raw (l # ls) = Inr r" using False p by (auto simp: Let_def)
      moreover have "\<not> (61 \<in> set (strip_cr l) \<and> known_key k \<and> k \<notin> set (map fst raw))"
        using c ff by simp
      ultimately show ?thesis using sl cl by auto
    qed
  qed
qed

lemma parse_lines_config_error: "parse_lines n raw ls = Inl e \<Longrightarrow> \<exists>m. e = ConfigError m"
  by (induction n raw ls rule: parse_lines.induct) (auto simp: Let_def split: if_splits prod.splits)

lemma strip_cr_id: "line = [] \<or> last line \<noteq> 13 \<Longrightarrow> strip_cr line = line"
  by (auto simp: strip_cr_def)

section \<open>Values\<close>

lemma lookup_setting_Some: "lookup_setting k = Some s \<Longrightarrow> s \<in> set SETTINGS \<and> s_key s = k"
  by (auto simp: lookup_setting_def find_Some_iff)

lemma lookup_known: "known_key k \<longleftrightarrow> (\<exists>s. lookup_setting k = Some s)"
  by (cases "lookup_setting k")
     (auto simp: known_key_def lookup_setting_def find_None_iff dest: lookup_setting_Some [unfolded lookup_setting_def])

lemma settings_defaults:
  "s \<in> set SETTINGS \<Longrightarrow> s_default s = Some d \<Longrightarrow> s_minimum s \<le> d \<and> d \<le> s_maximum s"
  by (auto simp: SETTINGS_def int_setting_def)

lemma settings_nonneg: "s \<in> set SETTINGS \<Longrightarrow> 0 \<le> s_minimum s \<and> s_maximum s \<le> 3600"
  by (auto simp: SETTINGS_def int_setting_def)

text \<open>A numeral as the checks accept it, and the number it denotes.\<close>

definition ascii_numeral :: "pystr \<Rightarrow> bool" where
  "ascii_numeral t \<longleftrightarrow> t \<noteq> [] \<and> list_all ascii_digit t"

definition numeral_value :: "pystr \<Rightarrow> int" where
  "numeral_value t = foldl (\<lambda>n c. 10 * n + (c - 48)) 0 t"

lemma ascii_numeral_iff: "py_isascii t \<and> py_isdigit t \<longleftrightarrow> ascii_numeral t"
  by (auto simp: ascii_numeral_def py_isascii_def py_isdigit_def list_all_iff digit_cp_ascii ascii_digit_def)

lemma py_int_numeral:
  assumes "ascii_numeral t"
  shows "py_int t = (if length t > max_str_digits then Inl ValueError else Inr (numeral_value t))"
proof -
  have d: "list_all ascii_digit t" and ne: "t \<noteq> []" using assms by (auto simp: ascii_numeral_def)
  have "py_strip t = t" using d by (intro py_strip_id) (auto simp: list_all_iff ascii_digit_not_space)
  moreover have "hd t \<noteq> 45" "hd t \<noteq> 43" using d ne by (cases t; auto simp: ascii_digit_def)+
  moreover have "digit_count t = length t"
    using d by (induction t) (auto simp: digit_count_def)
  ultimately show ?thesis
    using d ne by (simp add: py_int_def parse_digits_ascii numeral_value_def)
qed

lemma config_value_int:
  assumes "lookup_setting key = Some s" and "\<not> s_url s"
  shows "config_value raw key = Inr (VInt n) \<longleftrightarrow>
     (case map_of raw key of
        None \<Rightarrow> s_default s = Some n
      | Some t \<Rightarrow> ascii_numeral t \<and> length t \<le> max_str_digits \<and> numeral_value t = n
                  \<and> s_minimum s \<le> n \<and> n \<le> s_maximum s)"
proof (cases "map_of raw key")
  case None
  then show ?thesis
    using assms by (auto simp: config_value_def default_value_def split: option.splits)
next
  case (Some t)
  show ?thesis
  proof (cases "ascii_numeral t")
    case True
    then have "t \<noteq> []" by (simp add: ascii_numeral_def)
    then show ?thesis
      using assms Some True by (auto simp: config_value_def ascii_numeral_iff py_int_numeral)
  next
    case False
    then show ?thesis using assms Some by (auto simp: config_value_def ascii_numeral_iff)
  qed
qed

lemma config_value_uncaught:
  assumes "lookup_setting key = Some s" and "config_value raw key = Inl (Uncaught e)"
  shows "e = ValueError \<and> (\<exists>t. map_of raw key = Some t \<and> ascii_numeral t \<and> length t > max_str_digits)"
  using assms
  by (auto simp: config_value_def ascii_numeral_iff py_int_numeral Let_def split: if_splits option.splits)

section \<open>Rendering\<close>

text \<open>How a configuration is written down, one \<open>KEY=value\<close> line per setting.\<close>

definition render_line :: "pystr \<times> pystr \<Rightarrow> pystr" where
  "render_line = (\<lambda>(k, v). k @ 61 # v)"

definition plain_value :: "pystr \<Rightarrow> bool" where
  "plain_value v \<longleftrightarrow> 10 \<notin> set v \<and> (v = [] \<or> last v \<noteq> 13)"

lemma known_key_chars:
  assumes "known_key k"
  shows "61 \<notin> set k" "10 \<notin> set k" "k \<noteq> []" "hd k \<noteq> 35"
  using assms by (auto simp: known_key_def SETTINGS_def int_setting_def lit_def)

lemma render_line_facts:
  assumes "known_key k" and "plain_value v"
  shows "strip_cr (render_line (k, v)) = render_line (k, v)" "\<not> ignored_line (render_line (k, v))"
    "cut_line (render_line (k, v)) = (k, v)" "10 \<notin> set (render_line (k, v))"
  using assms(2) known_key_chars [OF assms(1)]
  by (auto simp: render_line_def strip_cr_def plain_value_def ignored_line_def starts_with_def
      cut_line_def partition_at_append neq_Nil_conv)

lemma parse_rendered:
  assumes "\<forall>(k, v) \<in> set raw. known_key k \<and> plain_value v" and "distinct (map fst raw)" and "raw \<noteq> []"
  shows "config_parse (join [10] (map render_line raw)) = Inr raw"
proof -
  have f: "\<And>kv. kv \<in> set raw \<Longrightarrow> strip_cr (render_line kv) = render_line kv
      \<and> \<not> ignored_line (render_line kv) \<and> cut_line (render_line kv) = kv
      \<and> 10 \<notin> set (render_line kv) \<and> known_key (fst kv)"
    using assms(1) render_line_facts by fastforce
  have "split_on 10 (join [10] (map render_line raw)) = map render_line raw"
    using assms(3) f by (intro split_on_join) auto
  moreover have "setting_lines (map render_line raw) = map render_line raw"
    using f by (auto simp: setting_lines_def o_def intro!: filter_True)
  moreover have "map cut_line (map render_line raw) = raw"
    using f by (auto intro: map_idI)
  moreover have "61 \<in> set (render_line kv)" for kv by (cases kv) (simp add: render_line_def)
  ultimately show ?thesis
    using f assms(2) by (simp add: config_parse_def parse_lines_spec)
qed

section \<open>Bytes through the reader\<close>

lemma config_value_url:
  assumes "map_of raw (lit ''SUSHIDA_URL'') = Some u"
  shows "config_value raw (lit ''SUSHIDA_URL'') = Inr (VUrl u) \<longleftrightarrow> url_allowed u"
  using assms
  by (auto simp: config_value_def lookup_setting_def SETTINGS_def url_allowed_def SUSHIDA_ORIGIN_def starts_with_def)

definition url_prefix :: pystr where
  "url_prefix = lit ''SUSHIDA_URL=''"

definition origin_slash :: pystr where
  "origin_slash = SUSHIDA_ORIGIN @ lit ''/''"

lemma url_prefix_ascii: "encodable (url_prefix @ origin_slash)" "py_isascii (url_prefix @ origin_slash)"
  by (simp_all add: url_prefix_def origin_slash_def SUSHIDA_ORIGIN_def lit_def encodable_def valid_cp_def
      is_surrogate_def py_isascii_def)

lemma decode_url_line:
  assumes "utf8_decode SurrogateEscape tail = Inr t"
  shows "utf8_decode SurrogateEscape (bytes_of (url_prefix @ origin_slash) @ tail)
         = Inr (url_prefix @ origin_slash @ t)"
proof -
  have "list_all byte_value (url_prefix @ origin_slash)"
    using url_prefix_ascii(2) unfolding py_isascii_def by (rule list.pred_mono_strong) (simp add: byte_value_def)
  then have "ints_of (bytes_of (url_prefix @ origin_slash) @ tail)
      = utf8_ints (url_prefix @ origin_slash) @ ints_of tail"
    using url_prefix_ascii(2) by (simp only: ints_of_append ints_of_bytes_of utf8_ints_ascii)
  then show ?thesis
    using assms url_prefix_ascii(1) by (simp add: utf8_decode_def utf8_decode_ints_prefix)
qed

text \<open>The bytes of a file, decoded line by line.\<close>

lemma decode_line_between:
  assumes "utf8_decode SurrogateEscape line = Inr l" and "before = [] \<or> last before = 10" and "after = [] \<or> hd after = 10"
  shows "\<exists>a c. utf8_decode SurrogateEscape (before @ line @ after) = Inr (a @ l @ c)
           \<and> (a = [] \<or> last a = 10) \<and> (c = [] \<or> hd c = 10)"
proof -
  have c: "\<exists>c. utf8_decode SurrogateEscape (line @ after) = Inr (l @ c) \<and> (c = [] \<or> hd c = 10)"
  proof (cases after)
    case (Cons x y)
    with assms(3) have "x = 10" by simp
    then show ?thesis using decode_break [of 10 line y] assms(1) Cons surrogateescape_roundtrip [of y] by auto
  qed (use assms(1) in simp)
  show ?thesis
  proof (cases "before = []")
    case False
    then have "before = butlast before @ [10]" using assms(2) append_butlast_last_id by metis
    then have e: "before @ line @ after = butlast before @ 10 # line @ after" by (metis append.assoc append_Cons append_Nil)
    obtain a where "utf8_decode SurrogateEscape (butlast before) = Inr a" using surrogateescape_roundtrip by blast
    moreover obtain c where "utf8_decode SurrogateEscape (line @ after) = Inr (l @ c)" "c = [] \<or> hd c = 10" using c by blast
    ultimately show ?thesis unfolding e using decode_break [of 10 "butlast before" "line @ after"]
      by (intro exI [of _ "a @ [10]"] exI [of _ c]) simp
  next
    case True
    then show ?thesis using c by (metis append_Nil)
  qed
qed

lemma split_on_between:
  assumes "10 \<notin> set l" and "a = [] \<or> last a = 10" and "c = [] \<or> hd c = 10"
  shows "l \<in> set (split_on 10 (a @ l @ c))"
proof -
  have l: "l \<in> set (split_on 10 (l @ c))"
  proof (cases c)
    case Nil
    have "split_by (\<lambda>x. x = 10) l = [l]" by (rule split_by_no_sep) (use assms(1) in blast)
    then show ?thesis using Nil by (simp add: split_on_def)
  next
    case (Cons x y)
    then have "split_by (\<lambda>x. x = 10) (l @ x # y) = l # split_by (\<lambda>x. x = 10) y"
      by (intro split_by_append) (use assms(1,3) in auto)
    then show ?thesis using Cons by (simp add: split_on_def)
  qed
  have "set (split_on 10 y) \<subseteq> set (tl (split_on 10 (x @ 10 # y)))" for x y :: pystr
  proof (induction x)
    case (Cons z x)
    obtain w ws where "split_by (\<lambda>x. x = 10) (x @ 10 # y) = w # ws" by (meson list.exhaust split_by_not_Nil)
    with Cons show ?case by (auto simp: split_on_def)
  qed (simp add: split_on_def)
  then have later: "set (split_on 10 y) \<subseteq> set (split_on 10 (x @ 10 # y))" for x y :: pystr
    using split_by_not_Nil [of "\<lambda>x. x = 10" "x @ 10 # y"] by (fastforce simp: split_on_def dest: list.set_sel(2))
  show ?thesis
  proof (cases "a = []")
    case False
    then have "a @ l @ c = butlast a @ 10 # l @ c"
      using assms(2) by (metis append.assoc append_Cons append_Nil append_butlast_last_id)
    then show ?thesis using l later [of "l @ c" "butlast a"] by (simp only: subset_iff)
  qed (use l in simp)
qed

lemma encode_url:
  assumes "utf8_encode_se t = Inr tail"
  shows "utf8_encode_se (origin_slash @ t) = Inr (bytes_of origin_slash @ tail)"
proof -
  have "concat (map utf8_cp_se origin_slash) = origin_slash"
    and "\<not> list_ex (\<lambda>c. is_surrogate c \<and> \<not> escaped_byte c) origin_slash"
    by (simp_all add: origin_slash_def SUSHIDA_ORIGIN_def lit_def utf8_cp_se_def utf8_cp_def
        escaped_byte_def is_surrogate_def)
  with assms show ?thesis
    by (auto simp: utf8_encode_se_def bytes_of_append split: if_splits)
qed

lemma encoded_no_lf:
  assumes "utf8_encode_se t = Inr tail" and "10 \<notin> set tail"
  shows "10 \<notin> set t"
proof
  have tail: "tail = bytes_of (concat (map utf8_cp_se t))"
    using assms(1) by (auto simp: utf8_encode_se_def split: if_splits)
  assume "10 \<in> set t"
  then have "10 \<in> set (concat (map utf8_cp_se t))" by (intro utf8_cp_se_mem) simp_all
  then have "word_of_int 10 \<in> set tail" unfolding tail bytes_of_def set_map by (rule imageI)
  with assms(2) show False by simp
qed

lemma plain_url:
  assumes "utf8_encode_se t = Inr tail" and "10 \<notin> set tail" and "tail = [] \<or> last tail \<noteq> 13"
  shows "plain_value (origin_slash @ t)"
proof -
  have tail: "tail = bytes_of (concat (map utf8_cp_se t))"
    using assms(1) by (auto simp: utf8_encode_se_def split: if_splits)
  have "10 \<notin> set t" using encoded_no_lf assms(1,2) .
  moreover have "last t \<noteq> 13" if ne: "t \<noteq> []"
  proof
    assume "last t = 13"
    then have l: "last (concat (map utf8_cp_se t)) = 13" using ne by (intro utf8_cp_se_last) simp_all
    have c: "concat (map utf8_cp_se t) \<noteq> []" using ne by (cases t) (simp_all add: utf8_cp_se_small)
    then have "last tail = word_of_int 13" "tail \<noteq> []" using l by (simp_all add: tail bytes_of_def last_map)
    with assms(3) show False by simp
  qed
  ultimately show ?thesis
    by (auto simp: plain_value_def origin_slash_def SUSHIDA_ORIGIN_def lit_def)
qed

text \<open>The CR that the parser drops at the end of a line, in bytes and in the decoded text.\<close>

definition drop_cr :: "bytes \<Rightarrow> bytes" where
  "drop_cr b = (if b \<noteq> [] \<and> last b = 13 then butlast b else b)"

lemma url_line_stripped:
  assumes "10 \<notin> set tail"
  obtains t u where "utf8_decode SurrogateEscape tail = Inr t" "10 \<notin> set t" "utf8_encode_se u = Inr (drop_cr tail)"
    "strip_cr (url_prefix @ origin_slash @ t) = url_prefix @ origin_slash @ u"
proof (cases "tail \<noteq> [] \<and> last tail = 13")
  case True
  then have tl: "tail = butlast tail @ [13]" using append_butlast_last_id by metis
  obtain u where u: "utf8_decode SurrogateEscape (butlast tail) = Inr u" "utf8_encode_se u = Inr (butlast tail)"
    using surrogateescape_roundtrip by blast
  have "utf8_decode SurrogateEscape tail = Inr (u @ [13])"
    using decode_break [of 13 "butlast tail" "[]"] tl u(1) by (simp add: utf8_decode_def ints_of_def)
  moreover have "10 \<notin> set u" using encoded_no_lf [OF u(2)] assms in_set_butlastD by fast
  ultimately show ?thesis using that [of "u @ [13]" u] u(2) True by (simp add: drop_cr_def strip_cr_def butlast_append)
next
  case False
  obtain t where t: "utf8_decode SurrogateEscape tail = Inr t" "utf8_encode_se t = Inr tail"
    using surrogateescape_roundtrip [of tail] by blast
  have p: "plain_value (origin_slash @ t)" using plain_url [OF t(2) assms] False by blast
  moreover have "origin_slash \<noteq> []" by (simp add: origin_slash_def lit_def)
  ultimately have "strip_cr (url_prefix @ origin_slash @ t) = url_prefix @ origin_slash @ t"
    by (intro strip_cr_id) (simp add: plain_value_def)
  moreover have "drop_cr tail = tail" using False by (auto simp: drop_cr_def)
  ultimately show ?thesis using that [of t t] t p by (simp add: plain_value_def)
qed

section \<open>Properties\<close>

text \<open>
  C32. The parser is exact: a text is accepted exactly when every line that is neither blank nor a
  comment (after one trailing CR is dropped) has an \<open>=\<close> and a known key, and no key occurs twice;
  the result is then these lines, in order, cut at their first \<open>=\<close>.  Every other text is refused
  with a \<open>ConfigError\<close>, never with another exception.
\<close>

theorem config_parse_exact:
  "(config_parse text = Inr raw \<longleftrightarrow>
      raw = map cut_line (setting_lines (split_on 10 text))
      \<and> list_all (\<lambda>l. 61 \<in> set l \<and> known_key (fst (cut_line l))) (setting_lines (split_on 10 text))
      \<and> distinct (map fst raw))
   \<and> config_parse text \<noteq> Inl (Uncaught e)"
  using parse_lines_spec [of "[]" 1 "split_on 10 text" raw] parse_lines_config_error
  by (auto simp: config_parse_def list_all_iff)

text \<open>
  Written and parsed back: any settings with distinct known keys and values without newline
  (and not ending in CR, which the parser drops) survive the file verbatim: quotes, blanks, further \<open>=\<close> signs included.
\<close>

theorem config_parse_render:
  assumes "\<forall>(k, v) \<in> set raw. known_key k \<and> plain_value v" and "distinct (map fst raw)" and "raw \<noteq> []"
  shows "config_parse (join [10] (map render_line raw)) = Inr raw"
  using assms by (rule parse_rendered)

theorem config_parse_render_witness:
  "config_parse (join [10] (map render_line
     [(lit ''AUDIO_VOLUME_PERCENT'', lit '' 4=0 # ''), (lit ''SCREEN_ZOOM_PERCENT'', [])]))
   = Inr [(lit ''AUDIO_VOLUME_PERCENT'', lit '' 4=0 # ''), (lit ''SCREEN_ZOOM_PERCENT'', [])]"
  by (rule config_parse_render)
     (simp_all add: known_key_def SETTINGS_def int_setting_def plain_value_def lit_def)

text \<open>
  Integer settings: \<open>value\<close> returns a number exactly when the key is absent and the number is
  the default, or the text is a plain ASCII numeral of at most 4300 digits whose number lies in
  the setting's range; so a returned number is always in range.  The one exception that is not a
  \<open>ConfigError\<close> is the interpreter's refusal of longer numerals.
\<close>

theorem config_value_exact:
  assumes "lookup_setting key = Some s" and "\<not> s_url s"
  shows "(config_value raw key = Inr (VInt n) \<longleftrightarrow>
       (case map_of raw key of
          None \<Rightarrow> s_default s = Some n
        | Some t \<Rightarrow> ascii_numeral t \<and> length t \<le> max_str_digits \<and> numeral_value t = n
                    \<and> s_minimum s \<le> n \<and> n \<le> s_maximum s))
     \<and> (config_value raw key = Inr (VInt n) \<longrightarrow> s_minimum s \<le> n \<and> n \<le> s_maximum s)
     \<and> (config_value raw key = Inl (Uncaught e) \<longrightarrow>
          e = ValueError \<and> (\<exists>t. map_of raw key = Some t \<and> ascii_numeral t \<and> length t > max_str_digits))"
  using config_value_int [OF assms, of raw n] config_value_uncaught [OF assms(1), of raw e]
    settings_defaults lookup_setting_Some [OF assms(1)]
  by (auto split: option.splits)

theorem config_value_exact_witness:
  "config_value [(lit ''SCREEN_BRIGHTNESS_PERCENT'', lit ''05'')] (lit ''SCREEN_BRIGHTNESS_PERCENT'')
     = Inr (VInt 5)
   \<and> (\<exists>s. lookup_setting (lit ''SCREEN_BRIGHTNESS_PERCENT'') = Some s \<and> s_minimum s \<le> 5)"
proof -
  let ?k = "lit ''SCREEN_BRIGHTNESS_PERCENT''"
  let ?s = "int_setting ?k 5 100 (Some 80) False"
  have "lookup_setting ?k = Some ?s" "\<not> s_url ?s"
    by (simp_all add: lookup_setting_def SETTINGS_def int_setting_def)
  note config_value_exact [OF this, of "[(?k, lit ''05'')]" 5]
  moreover have "ascii_numeral (lit ''05'')" "numeral_value (lit ''05'') = 5"
    by (simp_all add: ascii_numeral_def numeral_value_def ascii_digit_def lit_def)
  ultimately show ?thesis
    using \<open>lookup_setting ?k = Some ?s\<close> by (simp add: max_str_digits_def int_setting_def)
qed

text \<open>
  C33. The URL reaches the shell caller byte for byte: in every file that the parser accepts, whatever comments
  and other settings it holds, a line \<open>SUSHIDA_URL=https://sushida.net/\<close> followed by any bytes, valid UTF-8 or
  not, makes the command line exit 0 and print exactly the bytes of that line after the \<open>=\<close>, less one CR at
  its end, and a newline.
\<close>

theorem config_main_url_bytes:
  assumes "files s p = Some n" and "n_type n = Regular" and "\<not> faults s SysRead p"
    and "n_data n = before @ bytes_of (url_prefix @ origin_slash) @ tail @ after"
    and "before = [] \<or> last before = 10" and "10 \<notin> set tail" and "after = [] \<or> hd after = 10"
    and "config_read p s = Inr raw"
  shows "config_main (lit ''SUSHIDA_URL'') p s = Inr (0, bytes_of origin_slash @ drop_cr tail @ [10], None)"
proof -
  let ?k = "lit ''SUSHIDA_URL''"
  obtain t u where t: "utf8_decode SurrogateEscape tail = Inr t" "10 \<notin> set t"
    and u: "utf8_encode_se u = Inr (drop_cr tail)" "strip_cr (url_prefix @ origin_slash @ t) = url_prefix @ origin_slash @ u"
    using url_line_stripped [OF assms(6)] .
  obtain a c where d: "utf8_decode SurrogateEscape (n_data n) = Inr (a @ (url_prefix @ origin_slash @ t) @ c)"
    "a = [] \<or> last a = 10" "c = [] \<or> hd c = 10"
    using decode_line_between [OF decode_url_line [OF t(1)] assms(5,7)] assms(4) by auto
  have "10 \<notin> set (url_prefix @ origin_slash @ t)"
    using t(2) by (simp add: url_prefix_def origin_slash_def SUSHIDA_ORIGIN_def lit_def)
  then have "url_prefix @ origin_slash @ t \<in> set (split_on 10 (a @ (url_prefix @ origin_slash @ t) @ c))"
    using d(2,3) by (rule split_on_between)
  then have "url_prefix @ origin_slash @ u \<in> set (setting_lines (split_on 10 (a @ (url_prefix @ origin_slash @ t) @ c)))"
    unfolding setting_lines_def using u(2) by (force simp: ignored_line_def url_prefix_def starts_with_def lit_def)
  moreover have "config_parse (a @ (url_prefix @ origin_slash @ t) @ c) = Inr raw"
    using assms(1-3,8) d(1) by (simp add: config_read_def read_bytes_def)
  ultimately have "cut_line (url_prefix @ origin_slash @ u) \<in> set raw" "distinct (map fst raw)"
    using parse_lines_spec [of "[]" 1 "split_on 10 (a @ (url_prefix @ origin_slash @ t) @ c)" raw]
    by (auto simp: config_parse_def)
  moreover have "cut_line (url_prefix @ origin_slash @ u) = (?k, origin_slash @ u)"
    using partition_at_append [of 61 ?k "origin_slash @ u"] by (simp add: cut_line_def url_prefix_def lit_def)
  ultimately have m: "map_of raw ?k = Some (origin_slash @ u)" by simp
  moreover have "url_allowed (origin_slash @ u)"
    unfolding url_allowed_def origin_slash_def by (simp only: starts_with_append) simp
  ultimately have "config_load ?k p s = Inr (VUrl (origin_slash @ u))"
    using config_value_url [OF m] assms(8) by (simp add: config_load_def)
  then show ?thesis
    using encode_url [OF u(1)] by (simp add: config_main_def value_text_def)
qed

text \<open>A file with a comment, a blank line, CRLF after the URL, and another setting.\<close>

definition sample_env_file :: "bytes \<times> bytes \<times> bytes" where
  "sample_env_file = (bytes_of (lit ''# sushida'' @ [10, 10]), [255, 61, 32, 13],
     10 # bytes_of (lit ''NETWORK_SETUP_GRACE_SECONDS=15'' @ [10]))"

theorem config_main_url_bytes_witness:
  "config_main (lit ''SUSHIDA_URL'') CONFIG_FILE
     (os_of [(CONFIG_FILE, \<lparr>n_type = Regular, n_mode = 420, n_uid = 0,
        n_data = fst sample_env_file @ bytes_of (url_prefix @ origin_slash) @ fst (snd sample_env_file) @ snd (snd sample_env_file)\<rparr>)])
   = Inr (0, bytes_of origin_slash @ [255, 61, 32] @ [10], None)"
proof -
  let ?s = "os_of [(CONFIG_FILE, \<lparr>n_type = Regular, n_mode = 420, n_uid = 0,
        n_data = fst sample_env_file @ bytes_of (url_prefix @ origin_slash) @ fst (snd sample_env_file) @ snd (snd sample_env_file)\<rparr>)]"
  have "config_read CONFIG_FILE ?s = Inr [(lit ''SUSHIDA_URL'', origin_slash @ [56575, 61, 32]),
      (lit ''NETWORK_SETUP_GRACE_SECONDS'', lit ''15'')]"
    by code_simp
  from config_main_url_bytes [OF _ _ _ _ _ _ _ this, where before = "fst sample_env_file" and tail = "fst (snd sample_env_file)"
      and after = "snd (snd sample_env_file)"]
  show ?thesis by (simp add: os_of_def sample_env_file_def drop_cr_def bytes_of_def lit_def)
qed

end
