(* ===== verification/Wifi_Types.thy ===== *)
theory Wifi_Types
  imports Py_Codec
begin

text \<open>
  The connection states and the credential validation of \<open>sushida_os/wifi/types.py\<close>.  A message of
  the source that is not ASCII is written as its code points.  A validator returns the message
  of the problem or \<open>None\<close>; measuring a string that holds a lone surrogate raises
  \<open>UnicodeEncodeError\<close>, which is the \<open>Inl\<close> of the result.
\<close>

section \<open>Constants\<close>

definition CONNECTION_NAME :: pystr where "CONNECTION_NAME = lit ''sushida-os-wifi''"

datatype conn_state = CONNECT_IDLE | CONNECT_WORKING | CONNECT_SUCCEEDED | CONNECT_FAILED

fun state_name :: "conn_state \<Rightarrow> pystr" where
  "state_name CONNECT_IDLE = lit ''idle''"
| "state_name CONNECT_WORKING = lit ''connecting''"
| "state_name CONNECT_SUCCEEDED = lit ''succeeded''"
| "state_name CONNECT_FAILED = lit ''failed''"

lemma state_name_inj: "state_name a = state_name b \<longleftrightarrow> a = b"
  by (cases a; cases b) simp_all

definition MSG_SSID_INVALID :: pystr where
  \<open>MSG_SSID_INVALID = lit ''SSID'' @ [12364, 19981, 27491, 12391, 12377, 12290]\<close>

definition MSG_SSID_CONTROL :: pystr where
  \<open>MSG_SSID_CONTROL = [21046, 24481, 25991, 23383, 12434, 21547, 12416] @ lit ''SSID'' @ [
     12395, 12399, 23550, 24540, 12375, 12390, 12356, 12414, 12379, 12435, 12290]\<close>

definition MSG_PASSWORD_CHARS :: pystr where
  \<open>MSG_PASSWORD_CHARS = [
     12497, 12473, 12527, 12540, 12489, 12395, 20351, 29992, 12391, 12365, 12394, 12356,
     25991, 23383, 12364, 21547, 12414, 12428, 12390, 12356, 12414, 12377, 12290]\<close>

definition MSG_PASSWORD_LENGTH :: pystr where
  \<open>MSG_PASSWORD_LENGTH = lit ''Wi-Fi'' @ [12497, 12473, 12527, 12540, 12489, 12399]
     @ lit ''8'' @ [12316] @ lit ''63'' @ [12496, 12452, 12488, 12289, 12414, 12383, 12399]
     @ lit ''64'' @ [26689, 12398] @ lit ''16'' @ [
     36914, 25968, 12391, 20837, 21147, 12375, 12390, 12367, 12384, 12373, 12356, 12290]\<close>

section \<open>Validation\<close>

definition control_char :: "codepoint \<Rightarrow> bool" where
  "control_char c \<longleftrightarrow> c < 32 \<or> c = 127"

definition validate_ssid :: "pystr \<Rightarrow> pystr option res" where
  "validate_ssid ssid =
     (if ssid = [] \<or> 0xFFFD \<in> set ssid then Inr (Some MSG_SSID_INVALID)
      else res_bind (utf8_encode ssid) (\<lambda>bs.
        if length bs > 32 then Inr (Some MSG_SSID_INVALID)
        else if list_ex control_char ssid then Inr (Some MSG_SSID_CONTROL)
        else Inr None))"

definition validate_password_shape :: "pystr \<Rightarrow> pystr option" where
  "validate_password_shape password =
     (if 0 \<in> set password \<or> 10 \<in> set password \<or> 13 \<in> set password then Some MSG_PASSWORD_CHARS
      else None)"

definition hex_char :: "codepoint \<Rightarrow> bool" where
  "hex_char c \<longleftrightarrow> c \<in> set (lit ''0123456789abcdefABCDEF'')"

definition validate_credentials :: "pystr \<Rightarrow> pystr \<Rightarrow> pystr option res" where
  "validate_credentials ssid password =
     res_bind (validate_ssid ssid) (\<lambda>ssid_error.
     case ssid_error of
       Some m \<Rightarrow> Inr (Some m)
     | None \<Rightarrow>
         (case validate_password_shape password of
            Some m \<Rightarrow> Inr (Some m)
          | None \<Rightarrow>
              res_bind (utf8_encode password) (\<lambda>password_bytes.
                let raw_psk = (length password = 64 \<and> list_all hex_char password)
                in if password \<noteq> []
                      \<and> \<not> (8 \<le> length password_bytes \<and> length password_bytes \<le> 63 \<or> raw_psk)
                   then Inr (Some MSG_PASSWORD_LENGTH)
                   else Inr None)))"

declare CONNECTION_NAME_def [py_eval] control_char_def [py_eval] hex_char_def [py_eval]
  validate_ssid_def [py_eval] validate_password_shape_def [py_eval] validate_credentials_def [py_eval]

section \<open>What the validators accept\<close>

text \<open>A text that can be measured: no lone surrogate.\<close>

definition no_surrogate :: "pystr \<Rightarrow> bool" where
  "no_surrogate s \<longleftrightarrow> \<not> list_ex is_surrogate s"

definition ssid_ok :: "pystr \<Rightarrow> bool" where
  "ssid_ok ssid \<longleftrightarrow>
     no_surrogate ssid \<and> ssid \<noteq> [] \<and> 0xFFFD \<notin> set ssid \<and> length (utf8_ints ssid) \<le> 32
     \<and> \<not> list_ex control_char ssid"

definition psk_ok :: "pystr \<Rightarrow> bool" where
  "psk_ok password \<longleftrightarrow>
     no_surrogate password \<and> set password \<inter> {0, 10, 13} = {}
     \<and> (8 \<le> length (utf8_ints password) \<and> length (utf8_ints password) \<le> 63
        \<or> length password = 64 \<and> list_all hex_char password)"

definition creds_ok :: "pystr \<times> pystr \<Rightarrow> bool" where
  "creds_ok = (\<lambda>(ssid, password). ssid_ok ssid \<and> (password = [] \<or> psk_ok password))"

declare no_surrogate_def [py_eval] ssid_ok_def [py_eval] psk_ok_def [py_eval] creds_ok_def [py_eval]

lemma utf8_encode_cases:
  "utf8_encode s = (if no_surrogate s then Inr (bytes_of (utf8_ints s)) else Inl UnicodeError)"
  by (simp add: utf8_encode_def no_surrogate_def)

lemma validate_ssid_ok: "validate_ssid ssid = Inr None \<longleftrightarrow> ssid_ok ssid"
  by (auto simp: validate_ssid_def ssid_ok_def utf8_encode_cases)

lemma validate_ssid_raises:
  "validate_ssid ssid = Inl e \<longleftrightarrow>
     e = UnicodeError \<and> ssid \<noteq> [] \<and> 0xFFFD \<notin> set ssid \<and> \<not> no_surrogate ssid"
  by (auto simp: validate_ssid_def utf8_encode_cases)

lemma validate_shape_ok: "validate_password_shape p = None \<longleftrightarrow> set p \<inter> {0, 10, 13} = {}"
  by (auto simp: validate_password_shape_def)

lemma validate_credentials_ok: "validate_credentials ssid password = Inr None \<longleftrightarrow> creds_ok (ssid, password)"
proof -
  have "validate_credentials ssid password = Inr None \<longleftrightarrow>
     validate_ssid ssid = Inr None \<and> validate_password_shape password = None
     \<and> no_surrogate password
     \<and> (password = [] \<or> 8 \<le> length (utf8_ints password) \<and> length (utf8_ints password) \<le> 63
        \<or> length password = 64 \<and> list_all hex_char password)"
    by (cases "validate_ssid ssid"; cases "validate_password_shape password")
       (auto simp: validate_credentials_def utf8_encode_cases Let_def split: option.splits)
  then show ?thesis
    by (auto simp: validate_ssid_ok validate_shape_ok creds_ok_def psk_ok_def no_surrogate_def)
qed

text \<open>Every accepted password fits one line of the \<open>passwd-file\<close> and every SSID one argument.\<close>

lemma creds_ok_encodable:
  assumes "creds_ok (ssid, password)" and "\<forall>c \<in> set ssid \<union> set password. valid_cp c"
  shows "encodable ssid" "encodable password"
  using assms by (auto simp: creds_ok_def ssid_ok_def psk_ok_def no_surrogate_def encodable_def
      list_all_iff list_ex_iff)

end
