(* ===== verification/Storage.thy ===== *)
theory Storage
  imports Wifi_Types Py_Json Os_Model
begin

text \<open>
  Credential and CSRF token storage, \<open>sushida_os/wifi/storage.py\<close>.  The environment variables,
  the mount table and the links that lead to directories are arguments (\<open>env\<close>); the random parts of file names and the token of
  \<open>secrets\<close> are arguments too.  Modes are decimal: 384 is \<open>0o600\<close>, 420 is \<open>0o644\<close>, 448 is \<open>0o700\<close>.
\<close>

section \<open>Paths\<close>

record env =
  environ :: "pystr \<Rightarrow> pystr option"
  is_mount :: "path \<Rightarrow> bool"
  link_dir :: "path \<Rightarrow> bool"

definition CONFIG_MOUNT :: path where "CONFIG_MOUNT = lit ''/var/lib/sushida-config''"
definition STORAGE_STATUS :: path where "STORAGE_STATUS = lit ''/run/sushida-config/config-storage''"
definition CSRF_TOKEN_FILE :: path where "CSRF_TOKEN_FILE = lit ''/run/sushida-wifi-setup/csrf-token''"
definition CONNECTION_MARKER_FILE :: path where
  "CONNECTION_MARKER_FILE = lit ''/run/sushida-wifi-status/connection-in-progress''"
definition MAX_CONFIG_BYTES :: int where "MAX_CONFIG_BYTES = 8192"

definition wifi_test_mode :: "env \<Rightarrow> bool" where
  "wifi_test_mode e \<longleftrightarrow> environ e (lit ''SUSHIDA_WIFI_SETUP_TEST_MODE'') = Some (lit ''1'')"

definition test_path :: "env \<Rightarrow> pystr \<Rightarrow> path \<Rightarrow> path res" where
  "test_path e name production =
     (if \<not> wifi_test_mode e then Inr production
      else (case environ e name of
              None \<Rightarrow> Inl RuntimeError
            | Some v \<Rightarrow> if v = [] \<or> \<not> starts_with (lit ''/tmp/'') v then Inl RuntimeError
                        else Inr (path_norm v)))"

definition config_mount :: "env \<Rightarrow> path res" where
  "config_mount e = test_path e (lit ''SUSHIDA_WIFI_SETUP_CONFIG_MOUNT'') CONFIG_MOUNT"

definition config_dir :: "env \<Rightarrow> path res" where
  "config_dir e = res_bind (config_mount e) (\<lambda>m. Inr (path_join m (lit ''network'')))"

definition config_file :: "env \<Rightarrow> path res" where
  "config_file e = res_bind (config_dir e) (\<lambda>d. Inr (path_join d (lit ''setup.json'')))"

definition storage_status :: "env \<Rightarrow> path res" where
  "storage_status e = test_path e (lit ''SUSHIDA_WIFI_SETUP_STORAGE_STATUS'') STORAGE_STATUS"

definition csrf_token_file :: "env \<Rightarrow> path res" where
  "csrf_token_file e = test_path e (lit ''SUSHIDA_WIFI_SETUP_CSRF_TOKEN_FILE'') CSRF_TOKEN_FILE"

section \<open>The connection marker\<close>

definition connection_marker_file :: "env \<Rightarrow> path option res" where
  "connection_marker_file e =
     (if wifi_test_mode e then
        (case environ e (lit ''SUSHIDA_WIFI_SETUP_CONNECTION_MARKER'') of
           None \<Rightarrow> Inr None
         | Some v \<Rightarrow>
             if v = [] then Inr None
             else if \<not> starts_with (lit ''/tmp/'') v then Inl RuntimeError
             else Inr (Some (path_norm v)))
      else Inr (Some CONNECTION_MARKER_FILE))"

text \<open>\<open>try: m except OSError: return\<close>\<close>

definition swallow_OSError :: "unit io \<Rightarrow> unit io" where
  "swallow_OSError m =
     (\<lambda>s. case m s of
            (Inl e, s') \<Rightarrow> (if is_OSError e then Inr () else Inl e, s')
          | (Inr u, s') \<Rightarrow> (Inr u, s'))"

definition set_connection_marker :: "env \<Rightarrow> bool \<Rightarrow> unit io" where
  "set_connection_marker e active =
     io_bind (io_lift (connection_marker_file e)) (\<lambda>p.
       case p of
         None \<Rightarrow> io_return ()
       | Some path \<Rightarrow> swallow_OSError (if active then touch path 420 else unlink path))"

section \<open>The CSRF token\<close>

definition token_char :: "codepoint \<Rightarrow> bool" where
  "token_char c \<longleftrightarrow>
     c \<in> set (lit ''ABCDEFGHIJKLMNOPQRSTUVWXYZabcdefghijklmnopqrstuvwxyz0123456789-_'')"

definition token_text_ok :: "pystr \<Rightarrow> bool" where
  "token_text_ok t \<longleftrightarrow> 32 \<le> length t \<and> length t \<le> 128 \<and> list_all token_char t"

definition read_csrf_token :: "path \<Rightarrow> pystr io" where
  "read_csrf_token path =
     io_bind (lstat path) (\<lambda>info s.
       (if n_type info \<noteq> Regular \<or> n_mode info \<noteq> 384 then Inl RuntimeError
        else if n_uid info \<noteq> my_uid s \<or> \<not> (32 \<le> st_size info \<and> st_size info \<le> 128) then Inl RuntimeError
        else (case fst (read_bytes path s) of
                Inl e \<Rightarrow> Inl RuntimeError
              | Inr bs \<Rightarrow>
                  (case ascii_decode bs of
                     Inl e \<Rightarrow> Inl RuntimeError
                   | Inr text \<Rightarrow>
                       (let token = py_strip (universal_newlines text) in
                        if \<not> token_text_ok token then Inl RuntimeError else Inr token))), s))"

text \<open>
  The creation branch, after \<open>FileNotFoundError\<close>: \<open>fresh\<close> is \<open>secrets.token_urlsafe(32)\<close>, \<open>sfx\<close> the
  process id and random part of the temporary's name.
\<close>

definition csrf_temp :: "path \<Rightarrow> pystr \<Rightarrow> path" where
  "csrf_temp path sfx = path_join (path_parent path) (lit ''.csrf-token.'' @ sfx)"

definition create_csrf_token :: "path \<Rightarrow> pystr \<Rightarrow> pystr \<Rightarrow> pystr io" where
  "create_csrf_token path sfx fresh =
     (\<lambda>s. if \<not> real_dir (path_parent path) s then (Inl RuntimeError, s)
          else io_seq (open_excl (csrf_temp path sfx) 384)
            (io_seq
              (io_finally
                (io_bind (io_lift (ascii_encode (fresh @ [10]))) (\<lambda>bs.
                  io_seq (write_flush_sync (csrf_temp path sfx) bs) (replace (csrf_temp path sfx) path)))
                (unlink_missing_ok (csrf_temp path sfx)))
              (read_csrf_token path)) s)"

text \<open>\<open>try: m except FileNotFoundError: h\<close>\<close>

definition except_not_found :: "'a io \<Rightarrow> 'a io \<Rightarrow> 'a io" where
  "except_not_found m h =
     (\<lambda>s. case m s of
            (Inl e, s') \<Rightarrow> if e = FileNotFoundError then h s' else (Inl e, s')
          | (Inr x, s') \<Rightarrow> (Inr x, s'))"

text \<open>\<open>cache\<close> is the module's \<open>_csrf_token_cache\<close>; the result carries its new value.\<close>

definition csrf_token :: "env \<Rightarrow> pystr \<Rightarrow> pystr \<Rightarrow> pystr option \<Rightarrow> (pystr \<times> pystr option) io" where
  "csrf_token e sfx fresh cache =
     (case cache of
        Some t \<Rightarrow> io_return (t, cache)
      | None \<Rightarrow>
          io_bind (io_lift (csrf_token_file e)) (\<lambda>path.
          io_bind (except_not_found (read_csrf_token path) (create_csrf_token path sfx fresh))
            (\<lambda>token. io_return (token, Some token))))"

section \<open>Persistent credentials\<close>

text \<open>
  \<open>persistent_storage_ready\<close>: the checks in the order of the source, because reading the status
  file may raise a \<open>UnicodeDecodeError\<close>, which is not an \<open>OSError\<close>.
\<close>

definition status_ready :: "path \<Rightarrow> inode \<Rightarrow> int \<Rightarrow> os \<Rightarrow> bool res" where
  "status_ready p info uid s =
     (if n_type info \<noteq> Regular \<or> n_uid info \<noteq> uid \<or> n_mode info \<noteq> 420 then Inr False
      else res_bind (fst (read_bytes p s)) (\<lambda>bs.
           res_bind (utf8_decode Strict bs) (\<lambda>text.
             Inr (py_strip (universal_newlines text) = lit ''ready''))))"

text \<open>\<open>p.is_dir()\<close> follows links; where one leads is the environment's.\<close>

definition is_dir :: "env \<Rightarrow> path \<Rightarrow> os \<Rightarrow> bool" where
  "is_dir e p s \<longleftrightarrow>
     \<not> faults s SysLstat p
     \<and> (case files s p of None \<Rightarrow> False | Some n \<Rightarrow> n_type n = Directory \<or> n_type n = Symlink \<and> link_dir e p)"

declare is_dir_def [py_eval]

definition storage_checks :: "env \<Rightarrow> os \<Rightarrow> bool res" where
  "storage_checks e s =
     res_bind (config_mount e) (\<lambda>mount.
     res_bind (storage_status e) (\<lambda>status.
     res_bind (fst (lstat status s)) (\<lambda>status_info.
     res_bind (config_dir e) (\<lambda>directory.
     res_bind (fst (lstat directory s)) (\<lambda>directory_info.
     let mounted = (if wifi_test_mode e then is_dir e mount s else is_mount e mount) in
     res_bind (status_ready status status_info (if wifi_test_mode e then my_uid s else 0) s) (\<lambda>ok.
     Inr (ok \<and> mounted \<and> n_type directory_info = Directory \<and> n_uid directory_info = my_uid s
          \<and> n_mode directory_info = 448)))))))"

definition persistent_storage_ready :: "env \<Rightarrow> os \<Rightarrow> bool res" where
  "persistent_storage_ready e s =
     (case storage_checks e s of
        Inl x \<Rightarrow> if is_OSError x then Inr False else Inl x
      | Inr b \<Rightarrow> Inr b)"

definition creds_items :: "pystr \<times> pystr \<Rightarrow> (pystr \<times> jscalar) list" where
  "creds_items = (\<lambda>(ssid, password).
     [(lit ''version'', SInt 1), (lit ''ssid'', SStr ssid), (lit ''password'', SStr password)])"

definition creds_payload :: "pystr \<times> pystr \<Rightarrow> bytes res" where
  "creds_payload cr =
     res_bind (utf8_encode (json_dumps False True (creds_items cr))) (\<lambda>b. Inr (b @ [10]))"

definition creds_temp :: "path \<Rightarrow> pystr \<Rightarrow> path" where
  "creds_temp directory sfx = path_join directory (lit ''.setup.'' @ sfx)"

definition persist_credentials :: "env \<Rightarrow> pystr \<Rightarrow> pystr \<times> pystr \<Rightarrow> unit io" where
  "persist_credentials e sfx cr =
     io_bind (io_lift (config_dir e)) (\<lambda>directory.
     io_bind (\<lambda>s. (persistent_storage_ready e s, s)) (\<lambda>ready.
     if \<not> ready then io_raise OSError
     else io_bind (io_lift (creds_payload cr)) (\<lambda>payload.
       if int (length payload) > MAX_CONFIG_BYTES then io_raise OSError
       else io_seq (open_excl (creds_temp directory sfx) 384)
         (io_finally
           (io_seq (write_flush_sync (creds_temp directory sfx) payload)
             (io_bind (io_lift (config_file e)) (\<lambda>file.
               io_seq (replace (creds_temp directory sfx) file) (fsync_dir directory))))
           (unlink_missing_ok (creds_temp directory sfx))))))"

text \<open>From the parsed document to the credentials; \<open>data.get\<close> of an absent key is \<open>None\<close>.\<close>

definition creds_of_json :: "json \<Rightarrow> (pystr \<times> pystr) option res" where
  "creds_of_json data =
     (case data of
        JObj m \<Rightarrow>
          (case map_of m (lit ''version'') of
             None \<Rightarrow> Inr None
           | Some v \<Rightarrow>
               if \<not> py_eq_one v then Inr None
               else (case (map_of m (lit ''ssid''), map_of m (lit ''password'')) of
                       (Some (JStr ssid), Some (JStr password)) \<Rightarrow>
                         res_bind (validate_credentials ssid password) (\<lambda>problem.
                           Inr (if problem = None then Some (ssid, password) else None))
                     | _ \<Rightarrow> Inr None))
      | _ \<Rightarrow> Inr None)"

definition load_credentials :: "env \<Rightarrow> (pystr \<times> pystr) option io" where
  "load_credentials e =
     io_bind (io_lift (config_file e)) (\<lambda>path s.
       (case fst (lstat path s) of
          Inl x \<Rightarrow> Inr None
        | Inr info \<Rightarrow>
            if n_type info \<noteq> Regular \<or> st_size info > MAX_CONFIG_BYTES then Inr None
            else if n_mode info \<noteq> 384 \<or> n_uid info \<noteq> my_uid s then Inr None
            else (case fst (read_bytes path s) of
                    Inl x \<Rightarrow> Inr None
                  | Inr bs \<Rightarrow>
                      (case utf8_decode Strict bs of
                         Inl x \<Rightarrow> Inr None
                       | Inr text \<Rightarrow>
                           (case json_loads (universal_newlines text) of
                              Inl x \<Rightarrow> if x = JSONDecodeError then Inr None else Inl x
                            | Inr data \<Rightarrow> creds_of_json data))), s))"

lemmas storage_consts = CONFIG_MOUNT_def STORAGE_STATUS_def CSRF_TOKEN_FILE_def CONNECTION_MARKER_FILE_def
  MAX_CONFIG_BYTES_def
lemmas storage_paths = wifi_test_mode_def test_path_def config_mount_def config_dir_def config_file_def
  storage_status_def csrf_token_file_def connection_marker_file_def
lemmas storage_defs = swallow_OSError_def set_connection_marker_def token_char_def token_text_ok_def
  read_csrf_token_def csrf_temp_def create_csrf_token_def except_not_found_def csrf_token_def status_ready_def
  storage_checks_def persistent_storage_ready_def creds_items_def creds_payload_def creds_temp_def
  persist_credentials_def creds_of_json_def load_credentials_def
declare storage_consts [py_eval] storage_paths [py_eval] storage_defs [py_eval]

section \<open>The stored document\<close>

definition creds_writable :: "pystr \<times> pystr \<Rightarrow> bool" where
  "creds_writable cr \<longleftrightarrow> creds_ok cr \<and> encodable (fst cr) \<and> encodable (snd cr)"

definition creds_text :: "pystr \<times> pystr \<Rightarrow> pystr" where
  "creds_text cr = json_dumps False True (creds_items cr)"

definition creds_bytes :: "pystr \<times> pystr \<Rightarrow> bytes" where
  "creds_bytes cr = bytes_of (utf8_ints (creds_text cr)) @ [10]"

lemma show_int_one: "show_int 1 = [49]"
  by (simp add: show_int_def show_pos.simps)

lemma creds_items_ok: "creds_writable cr \<Longrightarrow> items_ok (creds_items cr)"
  by (cases cr) (auto simp: creds_writable_def items_ok_def creds_items_def show_int_one max_str_digits_def
      lit_def encodable_def valid_cp_def is_surrogate_def)

lemma creds_text_visible: "creds_writable cr \<Longrightarrow> visible (creds_text cr)"
  unfolding creds_text_def by (intro visible_json_dumps creds_items_ok)

lemma creds_payload_eq: "creds_writable cr \<Longrightarrow> creds_payload cr = Inr (creds_bytes cr)"
  using visible_encodable [OF creds_text_visible, THEN utf8_encode_encodable]
  by (simp add: creds_payload_def creds_bytes_def creds_text_def)

lemma ssid_ok_length: "ssid_ok s \<Longrightarrow> length (utf8_ints s) \<le> 32"
  by (simp add: ssid_ok_def)

lemma hex_isascii: "list_all hex_char p \<Longrightarrow> py_isascii p"
  unfolding py_isascii_def list_all_iff by (auto simp: hex_char_def lit_def)

lemma psk_ok_length: "psk_ok p \<Longrightarrow> length (utf8_ints p) \<le> 64"
  by (auto simp: psk_ok_def utf8_ints_ascii hex_isascii)

lemma creds_bytes_small:
  assumes "creds_writable cr"
  shows "length (creds_bytes cr) \<le> 8192"
proof -
  obtain ssid pw where cr: "cr = (ssid, pw)" by (cases cr)
  have "length (utf8_ints ssid) \<le> 32"
    using assms cr by (simp add: creds_writable_def creds_ok_def ssid_ok_length)
  moreover have "length (utf8_ints pw) \<le> 64"
    using assms cr psk_ok_length by (auto simp: creds_writable_def creds_ok_def utf8_ints_def)
  ultimately have "length (utf8_ints (dump_str False ssid)) \<le> 194" "length (utf8_ints (dump_str False pw)) \<le> 386"
    using length_dump_str_raw [of ssid] length_dump_str_raw [of pw] by linarith+
  moreover have "length (utf8_ints (dump_str False (lit k))) \<le> 6 * length k + 2" if "py_isascii (lit k)" for k
    using length_dump_str_raw [of "lit k"] that by (simp add: utf8_ints_ascii)
  note this [of "''version''"] this [of "''ssid''"] this [of "''password''"]
  moreover have "py_isascii (lit ''version'')" "py_isascii (lit ''ssid'')" "py_isascii (lit ''password'')"
    by (simp_all add: py_isascii_def lit_def)
  moreover have "creds_text cr = [123] @ dump_str False (lit ''version'') @ [58] @ [49] @ [44]
      @ dump_str False (lit ''ssid'') @ [58] @ dump_str False ssid @ [44]
      @ dump_str False (lit ''password'') @ [58] @ dump_str False pw @ [125]"
    by (simp add: creds_text_def cr creds_items_def json_dumps_def dump_item_def item_sep_def key_sep_def show_int_one)
  moreover have "length (utf8_ints [c]) = 1" if "c < 128" for c
    using that by (simp add: utf8_ints_def utf8_cp_def)
  note this [of 123] this [of 58] this [of 49] this [of 44] this [of 125]
  ultimately show ?thesis by (simp add: creds_bytes_def utf8_ints_append del: append_Cons)
qed

lemma creds_decode:
  assumes "creds_writable cr"
  shows "utf8_decode Strict (creds_bytes cr) = Inr (creds_text cr @ [10])"
proof -
  have e: "encodable (creds_text cr @ [10])"
    using visible_encodable [OF creds_text_visible [OF assms]]
    by (simp add: encodable_def valid_cp_def is_surrogate_def)
  have "bytes_of (utf8_ints (creds_text cr @ [10])) = creds_bytes cr"
    by (simp add: creds_bytes_def utf8_ints_append bytes_of_append) (simp add: utf8_ints_def utf8_cp_def bytes_of_def)
  then show ?thesis
    using utf8_decode_ints_roundtrip [OF e] ints_of_bytes_of [OF utf8_ints_byte_values [OF e]]
    by (simp add: utf8_decode_def)
qed

lemma creds_loads:
  assumes "creds_writable cr"
  shows "json_loads (universal_newlines (creds_text cr @ [10])) = Inr (JObj (of_items (creds_items cr)))"
proof -
  have "13 \<notin> set (creds_text cr @ [10])" using visible_no_cr [OF creds_text_visible [OF assms]] by simp
  then show ?thesis
    using json_loads_dumps_ws [OF creds_items_ok [OF assms], of "[10]" False True]
    by (simp add: universal_newlines_id creds_text_def json_ws_def)
qed

lemma creds_of_payload:
  assumes "creds_writable cr"
  shows "creds_of_json (JObj (of_items (creds_items cr))) = Inr (Some cr)"
proof -
  obtain ssid pw where cr: "cr = (ssid, pw)" by (cases cr)
  have "validate_credentials ssid pw = Inr None"
    using assms cr by (simp add: validate_credentials_ok creds_writable_def)
  then show ?thesis by (simp add: cr creds_of_json_def of_items_def creds_items_def)
qed

lemma creds_of_json_ok: "creds_of_json data = Inr (Some cr) \<Longrightarrow> creds_ok cr"
  by (auto simp: creds_of_json_def res_bind_Inr_conv validate_credentials_ok
      split: json.splits option.splits if_splits)

section \<open>Writing and reading the credentials\<close>

definition creds_file :: "path \<Rightarrow> path" where
  "creds_file d = path_join d (lit ''setup.json'')"

definition creds_inode :: "int \<Rightarrow> int \<Rightarrow> pystr \<times> pystr \<Rightarrow> inode" where
  "creds_inode m u cr = \<lparr>n_type = Regular, n_mode = m, n_uid = u, n_data = creds_bytes cr\<rparr>"

text \<open>
  Where credentials can be saved: nothing fails, the storage passes \<open>persistent_storage_ready\<close>, the
  umask leaves \<open>0600\<close> as it is, and the names involved do not collide.
\<close>

definition creds_ready :: "env \<Rightarrow> path \<Rightarrow> pystr \<Rightarrow> os \<Rightarrow> bool" where
  "creds_ready e d sfx s \<longleftrightarrow>
     no_faults s \<and> config_dir e = Inr d \<and> persistent_storage_ready e s = Inr True
     \<and> 384 AND NOT (umask s) = 384
     \<and> (\<forall>n. files s (creds_file d) = Some n \<longrightarrow> n_type n = Regular)
     \<and> files s (creds_temp d sfx) = None
     \<and> (\<forall>p \<in> {config_mount e, storage_status e}. p \<noteq> Inr (creds_file d) \<and> p \<noteq> Inr (creds_temp d sfx))"

lemma creds_paths_distinct [simp]:
  "creds_temp d sfx \<noteq> creds_file d" "creds_file d \<noteq> creds_temp d sfx" "creds_file d \<noteq> d" "d \<noteq> creds_file d"
  "creds_temp d sfx \<noteq> d" "d \<noteq> creds_temp d sfx"
  by (simp_all add: creds_temp_def creds_file_def lit_def path_join_not_self)

lemma config_file_dir: "config_dir e = Inr d \<Longrightarrow> config_file e = Inr (creds_file d)"
  by (simp add: config_file_def creds_file_def)

lemma storage_ready_cong:
  assumes "frame {creds_file d, creds_temp d sfx} (files s) t" and "faults t = faults s" and "my_uid t = my_uid s"
    and "config_dir e = Inr d"
    and "\<forall>p \<in> {config_mount e, storage_status e}. p \<noteq> Inr (creds_file d) \<and> p \<noteq> Inr (creds_temp d sfx)"
  shows "persistent_storage_ready e t = persistent_storage_ready e s"
proof -
  have same: "lstat p t = (fst (lstat p s), t)" "read_bytes p t = (fst (read_bytes p s), t)"
    "is_dir e p t = is_dir e p s" if "p \<notin> {creds_file d, creds_temp d sfx}" for p
    using assms(1,2) that by (simp_all add: frame_def syscall_defs is_dir_def)
  have "storage_checks e t = storage_checks e s"
    using assms(3,4,5)
    by (cases "config_mount e"; cases "storage_status e")
       (auto simp: storage_checks_def status_ready_def same intro!: arg_cong2 [of _ _ _ _ res_bind])
  then show ?thesis by (simp add: persistent_storage_ready_def)
qed

lemma load_ok:
  assumes "creds_writable cr" and "no_faults s" and "config_dir e = Inr d"
    and "files s (creds_file d) = Some (creds_inode 384 (my_uid s) cr)"
  shows "load_credentials e s = (Inr (Some cr), s)"
  using assms creds_bytes_small [OF assms(1)]
  by (simp add: load_credentials_def io_defs config_file_dir lstat_def read_bytes_def no_faults_def
      creds_inode_def st_size_def MAX_CONFIG_BYTES_def creds_decode creds_loads creds_of_payload)

lemma persist_ok:
  assumes w: "creds_writable cr" and r: "creds_ready e d sfx s"
  shows "\<exists>s'. persist_credentials e sfx cr s = (Inr (), s') \<and> faults s' = faults s \<and> my_uid s' = my_uid s
           \<and> umask s' = umask s
           \<and> files s' = (files s)(creds_file d \<mapsto> creds_inode 384 (my_uid s) cr, creds_temp d sfx := None)"
proof -
  have nf: "\<not> faults s c p" for c p using r by (simp add: creds_ready_def no_faults_def)
  have dir: "config_dir e = Inr d" and ready: "persistent_storage_ready e s = Inr True"
    and um: "384 AND NOT (umask s) = 384" and tmp: "files s (creds_temp d sfx) = None"
    using r by (simp_all add: creds_ready_def)
  have "\<exists>n. files s d = Some n \<and> n_type n = Directory"
    using ready dir nf
    by (auto simp: persistent_storage_ready_def storage_checks_def lstat_def Let_def res_bind_Inr_conv
        split: sum.splits option.splits if_splits)
  then obtain n where n: "files s d = Some n" "n_type n = Directory" by blast
  have dst: "\<not> (\<exists>m. files s (creds_file d) = Some m \<and> n_type m = Directory)"
    using r by (auto simp: creds_ready_def)
  have len: "\<not> int (length (creds_bytes cr)) > MAX_CONFIG_BYTES"
    using creds_bytes_small [OF w] by (simp add: MAX_CONFIG_BYTES_def)
  show ?thesis
    using n tmp dst len
    by (simp add: persist_credentials_def io_defs dir ready config_file_dir creds_payload_eq [OF w]
        write_flush_sync_def syscall_defs nf creds_inode_def um fun_eq_iff)
qed

lemma persist_load:
  assumes "creds_writable cr" and "creds_ready e d sfx s"
  shows "\<exists>s'. persist_credentials e sfx cr s = (Inr (), s') \<and> creds_ready e d sfx s'
           \<and> load_credentials e s' = (Inr (Some cr), s')"
proof -
  obtain s' where w: "persist_credentials e sfx cr s = (Inr (), s')"
    and e: "faults s' = faults s" "my_uid s' = my_uid s" "umask s' = umask s"
    and f: "files s' = (files s)(creds_file d \<mapsto> creds_inode 384 (my_uid s) cr, creds_temp d sfx := None)"
    using persist_ok [OF assms] by blast
  have nf: "no_faults s'" using assms(2) e(1) by (simp add: creds_ready_def no_faults_def)
  have "frame {creds_file d, creds_temp d sfx} (files s) s'" using f by (simp add: frame_def)
  then have "persistent_storage_ready e s' = persistent_storage_ready e s"
    using e assms(2) by (intro storage_ready_cong [where d = d and sfx = sfx]) (simp_all add: creds_ready_def)
  then have "creds_ready e d sfx s'"
    using assms(2) nf f e by (auto simp: creds_ready_def creds_inode_def)
  moreover have "load_credentials e s' = (Inr (Some cr), s')"
    using load_ok [OF assms(1) nf, of e d] assms(2) f e by (simp add: creds_ready_def)
  ultimately show ?thesis using w by blast
qed

lemma load_pure: "snd (load_credentials e s) = s"
  by (cases "config_file e") (simp_all add: load_credentials_def io_defs)

lemma load_valid: "fst (load_credentials e s) = Inr (Some cr) \<Longrightarrow> creds_ok cr"
  by (cases "config_file e")
     (auto simp: load_credentials_def io_defs creds_of_json_ok split: sum.splits if_splits)

interpretation saved: published "load_credentials e" "persist_credentials e sfx" creds_ok creds_writable "creds_ready e d sfx"
  for e sfx d
  by unfold_locales (auto simp: load_pure intro: load_valid persist_load)

section \<open>Saving under failures\<close>

lemma io_lift_bind [simp]: "io_bind (io_lift (Inr x)) f = f x"
  by (simp add: io_defs)

lemma persist_cases:
  assumes "persist_credentials e sfx cr s = (r, s')"
  obtains x where "r = Inl x" "s' = s"
  | d b s1 where "config_dir e = Inr d" "creds_payload cr = Inr b"
      "open_excl (creds_temp d sfx) 384 s = (Inr (), s1)"
      "io_finally (io_seq (write_flush_sync (creds_temp d sfx) b)
           (io_seq (replace (creds_temp d sfx) (creds_file d)) (fsync_dir d)))
         (unlink_missing_ok (creds_temp d sfx)) s1 = (r, s')"
proof -
  note unf = persist_credentials_def io_bind_def io_seq_def io_lift_def io_raise_def
  consider x where "config_dir e = Inl x" | d x where "config_dir e = Inr d" "persistent_storage_ready e s = Inl x"
    | d where "config_dir e = Inr d" "persistent_storage_ready e s = Inr False"
    | d x where "config_dir e = Inr d" "persistent_storage_ready e s = Inr True" "creds_payload cr = Inl x"
    | d b where "config_dir e = Inr d" "persistent_storage_ready e s = Inr True" "creds_payload cr = Inr b"
    by (metis sum.exhaust)
  then show ?thesis
  proof cases
    case (5 d b)
    obtain y s1 where op: "open_excl (creds_temp d sfx) 384 s = (y, s1)" by fastforce
    have "s1 = s" if "y = Inl x" for x using op that by (auto simp: open_excl_def split: if_splits)
    with assms op 5 that show ?thesis
      by (cases y) (auto simp: unf config_file_dir split: if_splits)
  qed (use assms that in \<open>auto simp: unf\<close>)
qed

lemma open_creds_temp:
  assumes "open_excl (creds_temp d sfx) 384 s = (Inr (), s1)"
  obtains n where "files s1 = (files s)(creds_temp d sfx \<mapsto> n)" "history s1 = files s1 # history s"
    "n\<lparr>n_data := b\<rparr> = \<lparr>n_type = Regular, n_mode = 384 AND NOT (umask s), n_uid = my_uid s, n_data = b\<rparr>"
  using assms by (fastforce simp: open_excl_def set_files_def split: if_splits)

definition saved_inode :: "os \<Rightarrow> bytes \<Rightarrow> inode" where
  "saved_inode s b = \<lparr>n_type = Regular, n_mode = 384 AND NOT (umask s), n_uid = my_uid s, n_data = b\<rparr>"

lemma persist_only:
  assumes "persist_credentials e sfx cr s = (r, s')" and "history s = []" and "config_dir e = Inr d"
  shows "only (creds_file d) (insert (files s (creds_file d)) {Some (saved_inode s b) | b. creds_payload cr = Inr b}) s'"
  using assms(1)
proof (cases rule: persist_cases)
  case (1 x)
  then show ?thesis using assms(2) by (simp add: only_def)
next
  case (2 d' b s1)
  then have d: "d' = d" using assms(3) by simp
  let ?A = "insert (files s (creds_file d)) {Some (saved_inode s b) | b. creds_payload cr = Inr b}"
  obtain n where n: "files s1 = (files s)(creds_temp d sfx \<mapsto> n)" "history s1 = files s1 # history s"
    "n\<lparr>n_data := b\<rparr> = saved_inode s b"
    unfolding saved_inode_def using open_creds_temp [OF 2(3)] d by blast
  have o1: "only (creds_file d) ?A s1" using n assms(2) by (simp add: only_def)
  have a: "Some (n\<lparr>n_data := b\<rparr>) \<in> ?A" using n(3) 2(2) by simp
  have body: "only (creds_file d) ?A s2"
    if "io_seq (write_flush_sync (creds_temp d sfx) b)
         (io_seq (replace (creds_temp d sfx) (creds_file d)) (fsync_dir d)) s1 = (x, s2)" for x s2
    using publish_sync_keeps_only [OF o1 _ _ a that] n(1) by simp
  from 2(4) [unfolded d] show ?thesis
    by (cases rule: io_finally_cases) (auto dest!: body elim: keepsD [OF keeps_only_other(5), rotated])
qed

lemma persist_success:
  assumes "persist_credentials e sfx cr s = (Inr (), s')" and "config_dir e = Inr d"
  shows "\<exists>b. creds_payload cr = Inr b \<and> files s' (creds_file d) = Some (saved_inode s b)"
  using assms(1)
proof (cases rule: persist_cases)
  case (2 d' b s1)
  then have d: "d' = d" using assms(2) by simp
  obtain n where n: "files s1 = (files s)(creds_temp d sfx \<mapsto> n)" "n\<lparr>n_data := b\<rparr> = saved_inode s b"
    unfolding saved_inode_def using open_creds_temp [OF 2(3)] d by blast
  from 2(4) [unfolded d] show ?thesis
  proof (cases rule: io_finally_cases)
    case u: (2 s2)
    have "files s2 (creds_file d) = Some (saved_inode s b)"
      using publish_sync_ok [OF _ _ u(1)] n by simp
    then show ?thesis using unlink_missing_ok_files [OF u(2)] 2(2) by simp
  qed simp
qed simp

text \<open>The temporary is created private to the service, like the file, and goes away unless its removal fails.\<close>

lemma persist_temp:
  assumes "persist_credentials e sfx cr s = (r, s')" and "history s = []" and "config_dir e = Inr d"
  shows "only (creds_temp d sfx) (insert (files s (creds_temp d sfx)) {Some (saved_inode s b) | b. True}) s'"
    and "\<not> faults s SysUnlink (creds_temp d sfx) \<Longrightarrow> files s' (creds_temp d sfx) = files s (creds_temp d sfx)"
proof -
  let ?T = "creds_temp d sfx"
  let ?A = "insert (files s ?T) {Some (saved_inode s b) | b. True}"
  have "only ?T ?A s' \<and> (\<not> faults s SysUnlink ?T \<longrightarrow> files s' ?T = files s ?T)"
    using assms(1)
  proof (cases rule: persist_cases)
    case (1 x)
    then show ?thesis using assms(2) by (simp add: only_def)
  next
    case (2 d' b s1)
    then have d: "d' = d" using assms(3) by simp
    have f: "files s ?T = None" "temp_ok (faults s) ?T ?A s1"
      using 2(3) assms(2) unfolding d
      by (auto simp: open_excl_def temp_ok_def only_def set_files_def saved_inode_def split: if_splits)
    have c: "\<And>n b. Some n \<in> ?A \<Longrightarrow> Some (n\<lparr>n_data := b\<rparr>) \<in> ?A" "None \<in> ?A" "\<And>n. Some n \<in> ?A \<Longrightarrow> n_type n \<noteq> Directory"
      using f(1) by (auto simp: saved_inode_def)
    have k: "keeps (temp_ok (faults s) ?T ?A) (io_seq (write_flush_sync ?T b) (io_seq (replace ?T (creds_file d)) (fsync_dir d)))"
      using c(1,2) by (intro keeps_seq keeps_temp_ok) auto
    have "temp_ok (faults s) ?T ?A s'"
      using keepsD [OF keeps_finally [OF k keeps_temp_ok(2) [OF c(2,1)]] f(2)] 2(4) d by blast
    moreover have "files s' ?T = None" if "\<not> faults s SysUnlink ?T"
      using temp_removed [OF k f(2) that c(3)] 2(4) d by blast
    ultimately show ?thesis using f(1) by (simp add: temp_ok_def)
  qed
  then show "only ?T ?A s'" and "\<not> faults s SysUnlink ?T \<Longrightarrow> files s' ?T = files s ?T" by blast+
qed

lemma keeps_reader: "keeps P (\<lambda>s. (f s, s))"
  by (simp add: keeps_def)

lemma persist_frame:
  assumes "config_dir e = Inr d"
  shows "keeps (frame {creds_file d, creds_temp d sfx} g) (persist_credentials e sfx cr)"
  unfolding persist_credentials_def assms config_file_dir [OF assms] io_lift_bind
  by (intro keeps_bind keeps_reader keeps_if keeps_simple keeps_seq keeps_finally keeps_frame keeps_frame_sync)
     simp_all

section \<open>The token and the marker\<close>

lemma read_csrf_token_pure: "read_csrf_token p s = (r, s') \<Longrightarrow> s' = s"
  by (auto simp: read_csrf_token_def io_bind_def lstat_def split: sum.splits option.splits)

lemma read_csrf_token_ok: "read_csrf_token p s = (Inr t, s') \<Longrightarrow> token_text_ok t"
  by (auto simp: read_csrf_token_def io_bind_def Let_def split: prod.splits sum.splits if_splits)

lemma create_csrf_token_read:
  assumes "create_csrf_token p sfx fresh s = (Inr t, s')"
  shows "read_csrf_token p s' = (Inr t, s')"
proof -
  from assms obtain s1 where "read_csrf_token p s1 = (Inr t, s')"
    by (auto simp: create_csrf_token_def split: if_splits elim!: io_seq_cases)
  with read_csrf_token_pure show ?thesis by metis
qed

lemma csrf_token_read:
  assumes "csrf_token e sfx fresh None s = (Inr (t, c), s')"
  obtains p where "csrf_token_file e = Inr p" "read_csrf_token p s' = (Inr t, s')" "c = Some t"
proof (cases "csrf_token_file e")
  case (Inl x)
  then show ?thesis using assms by (simp add: csrf_token_def io_defs)
next
  case (Inr p)
  then have m: "except_not_found (read_csrf_token p) (create_csrf_token p sfx fresh) s = (Inr t, s')" "c = Some t"
    using assms by (auto simp: csrf_token_def io_bind_def io_return_def io_lift_def split: prod.splits sum.splits)
  obtain x s1 where x: "read_csrf_token p s = (x, s1)" by fastforce
  then have s1: "s1 = s" by (rule read_csrf_token_pure)
  have "read_csrf_token p s' = (Inr t, s')"
  proof (cases "x = Inl FileNotFoundError")
    case True
    then have "create_csrf_token p sfx fresh s = (Inr t, s')" using m x s1 by (simp add: except_not_found_def)
    then show ?thesis by (rule create_csrf_token_read)
  next
    case False
    then have "x = Inr t" "s' = s" using m x s1 by (auto simp: except_not_found_def split: sum.splits if_splits)
    then show ?thesis using x s1 by simp
  qed
  then show ?thesis using that [of p] Inr m(2) by simp
qed

text \<open>A first start: the fresh token is written, read back and returned.\<close>

lemma token_char_facts:
  assumes "token_char c"
  shows "0 \<le> c \<and> c < 128 \<and> \<not> py_isspace c \<and> c \<noteq> 13"
proof -
  have "list_all (\<lambda>c. 0 \<le> c \<and> c < 128 \<and> \<not> py_isspace c \<and> c \<noteq> 13)
      (lit ''ABCDEFGHIJKLMNOPQRSTUVWXYZabcdefghijklmnopqrstuvwxyz0123456789-_'')"
    by (simp add: py_isspace_def lit_def)
  then show ?thesis using assms unfolding token_char_def list_all_iff by (rule bspec)
qed

lemma read_token_back:
  assumes "token_text_ok fresh" and "length fresh \<le> 127" and "no_faults s"
    and "files s p = Some \<lparr>n_type = Regular, n_mode = 384, n_uid = my_uid s, n_data = bytes_of (fresh @ [10])\<rparr>"
  shows "read_csrf_token p s = (Inr fresh, s)"
proof -
  have c: "\<forall>c \<in> set fresh. 0 \<le> c \<and> c < 128 \<and> \<not> py_isspace c \<and> c \<noteq> 13"
    using assms(1) token_char_facts by (auto simp: token_text_ok_def list_all_iff)
  then have "ascii_decode (bytes_of (fresh @ [10])) = Inr (fresh @ [10])"
    by (intro ascii_roundtrip) (auto simp: ascii_encode_def py_isascii_def list_all_iff)
  moreover have "universal_newlines (fresh @ [10]) = fresh @ [10]" using c by (intro universal_newlines_id) auto
  moreover have "py_strip (fresh @ [10]) = fresh"
    using c assms(1) by (intro py_strip_newline) (auto simp: token_text_ok_def)
  ultimately show ?thesis
    using assms by (simp add: read_csrf_token_def io_bind_def lstat_def read_bytes_def no_faults_def st_size_def
        token_text_ok_def Let_def)
qed

lemma create_token_ok:
  assumes t: "token_text_ok fresh" "length fresh \<le> 127" and nf: "no_faults s" and d: "real_dir (path_parent p) s"
    and f: "files s p = None" "files s (csrf_temp p sfx) = None" "csrf_temp p sfx \<noteq> p"
    and um: "384 AND NOT (umask s) = 384"
  shows "\<exists>s'. create_csrf_token p sfx fresh s = (Inr fresh, s')"
proof -
  have a: "ascii_encode (fresh @ [10]) = Inr (bytes_of (fresh @ [10]))"
    using t(1) token_char_facts by (auto simp: ascii_encode_def py_isascii_def token_text_ok_def list_all_iff)
  have n: "\<not> faults s c q" for c q using nf by (simp add: no_faults_def)
  let ?n = "\<lparr>n_type = Regular, n_mode = 384, n_uid = my_uid s, n_data = bytes_of (fresh @ [10])\<rparr>"
  obtain s1 where s1: "io_seq (open_excl (csrf_temp p sfx) 384)
      (io_finally (io_bind (io_lift (ascii_encode (fresh @ [10]))) (\<lambda>bs.
         io_seq (write_flush_sync (csrf_temp p sfx) bs) (replace (csrf_temp p sfx) p)))
       (unlink_missing_ok (csrf_temp p sfx))) s = (Inr (), s1)"
    "files s1 p = Some ?n" "faults s1 = faults s" "my_uid s1 = my_uid s"
    using f f(3) [symmetric] um
    by (auto simp: a io_defs write_flush_sync_def syscall_defs n simp del: bytes_of_append)
  have "read_csrf_token p s1 = (Inr fresh, s1)"
    using t nf s1 by (intro read_token_back) (simp_all add: no_faults_def)
  with s1(1) d show ?thesis
    by (auto simp: create_csrf_token_def io_seq_def io_bind_def split: prod.splits sum.splits)
qed

section \<open>Properties\<close>

text \<open>
  C13. Save and restore: valid credentials saved where the storage is ready are exactly what
  \<open>load_credentials\<close> returns, at this boot and after any further saves of valid credentials
  followed by them; no temporary remains.
\<close>

theorem credentials_roundtrip:
  assumes "creds_ready e d sfx s" and "\<forall>c \<in> set older. creds_writable c" and "creds_writable cr"
  shows "\<exists>s'. foldr (\<lambda>c m. io_seq (persist_credentials e sfx c) m) (older @ [cr]) (io_return ()) s = (Inr (), s')
           \<and> load_credentials e s' = (Inr (Some cr), s') \<and> files s' (creds_temp d sfx) = None"
  using saved.last_write_wins [OF assms(1), of "older @ [cr]"] assms(2,3)
  by (auto simp: creds_ready_def simp del: foldr_append)

definition prod_env :: env where
  "prod_env = \<lparr>environ = (\<lambda>_. None), is_mount = (\<lambda>p. p = CONFIG_MOUNT), link_dir = (\<lambda>_. False)\<rparr>"

definition saved_os :: os where
  "saved_os = os_of [(STORAGE_STATUS, \<lparr>n_type = Regular, n_mode = 420, n_uid = 0, n_data = [114, 101, 97, 100, 121, 10]\<rparr>),
     (path_join CONFIG_MOUNT (lit ''network''), \<lparr>n_type = Directory, n_mode = 448, n_uid = 0, n_data = []\<rparr>)]"

lemma saved_os_ready: "creds_ready prod_env (path_join CONFIG_MOUNT (lit ''network'')) [55] saved_os"
proof -
  let ?d = "path_join CONFIG_MOUNT (lit ''network'')"
  have p: "\<not> wifi_test_mode prod_env" "config_dir prod_env = Inr ?d" "storage_status prod_env = Inr STORAGE_STATUS"
    "config_mount prod_env = Inr CONFIG_MOUNT"
    by (simp_all add: storage_paths prod_env_def)
  have ne: "STORAGE_STATUS \<noteq> ?d" "creds_file ?d \<noteq> STORAGE_STATUS" "creds_temp ?d [55] \<noteq> STORAGE_STATUS"
    "creds_file ?d \<noteq> CONFIG_MOUNT" "creds_temp ?d [55] \<noteq> CONFIG_MOUNT"
    by (simp_all add: storage_consts creds_file_def creds_temp_def path_join_def lit_def)
  have "utf8_decode Strict [114, 101, 97, 100, 121, 10] = Inr [114, 101, 97, 100, 121, 10]"
    by (simp add: utf8_decode_def ints_of_def utf8_step_def)
  then have "persistent_storage_ready prod_env saved_os = Inr True"
    using ne p
    by (simp add: persistent_storage_ready_def storage_checks_def status_ready_def lstat_def read_bytes_def
        saved_os_def os_of_def py_strip_def py_isspace_def lit_def) (simp add: prod_env_def)
  then show ?thesis
    using p ne by (simp add: creds_ready_def saved_os_def os_of_def no_faults_def)
qed

lemma sample_creds_writable: "creds_writable (lit ''cafe'', lit ''password1'')"
  by (simp add: creds_writable_def creds_ok_def ssid_ok_def psk_ok_def no_surrogate_def is_surrogate_def
      control_char_def utf8_ints_def utf8_cp_def lit_def encodable_def valid_cp_def)

theorem credentials_roundtrip_witness:
  "\<exists>s'. persist_credentials prod_env [55] (lit ''cafe'', lit ''password1'') saved_os = (Inr (), s')
     \<and> load_credentials prod_env s' = (Inr (Some (lit ''cafe'', lit ''password1'')), s')"
  using credentials_roundtrip [OF saved_os_ready, of "[]" "(lit ''cafe'', lit ''password1'')"] sample_creds_writable
  by (auto simp: io_seq_def io_bind_def io_return_def split: prod.splits sum.splits)

text \<open>
  C14. Saving is atomic under any failures: whichever system calls fail, at every instant the credential file
  holds its old contents or the complete new document, created private to the service (mode 0600 less the
  umask); a normal return means the new document is there. Besides it only the temporary is written: it is
  private in the same way at every instant, and at the end it is as it was before, so gone, unless its removal
  failed (then it stays behind, with the password in it). No other path changes.
\<close>

theorem persist_credentials_atomic:
  assumes "persist_credentials e sfx cr s = (r, s')" and "history s = []" and "config_dir e = Inr d"
  shows "(\<forall>f \<in> set (files s' # history s'). f (creds_file d) = files s (creds_file d)
            \<or> (\<exists>b. creds_payload cr = Inr b \<and> f (creds_file d) = Some (saved_inode s b)))
         \<and> (r = Inr () \<longrightarrow> (\<exists>b. creds_payload cr = Inr b \<and> files s' (creds_file d) = Some (saved_inode s b)))
         \<and> (\<forall>f \<in> set (files s' # history s'). f (creds_temp d sfx) = files s (creds_temp d sfx)
              \<or> (\<exists>b. f (creds_temp d sfx) = Some (saved_inode s b)))
         \<and> (\<forall>p. p \<noteq> creds_file d \<longrightarrow> p \<noteq> creds_temp d sfx \<or> \<not> faults s SysUnlink (creds_temp d sfx)
              \<longrightarrow> files s' p = files s p)"
proof (intro conjI impI)
  show "\<forall>f \<in> set (files s' # history s'). f (creds_file d) = files s (creds_file d)
            \<or> (\<exists>b. creds_payload cr = Inr b \<and> f (creds_file d) = Some (saved_inode s b))"
    using persist_only [OF assms] by (auto simp: only_def)
  show "\<exists>b. creds_payload cr = Inr b \<and> files s' (creds_file d) = Some (saved_inode s b)" if "r = Inr ()"
    using persist_success assms that by blast
  show "\<forall>f \<in> set (files s' # history s'). f (creds_temp d sfx) = files s (creds_temp d sfx)
      \<or> (\<exists>b. f (creds_temp d sfx) = Some (saved_inode s b))"
    using persist_temp(1) [OF assms] by (auto simp: only_def)
  show "\<forall>p. p \<noteq> creds_file d \<longrightarrow> p \<noteq> creds_temp d sfx \<or> \<not> faults s SysUnlink (creds_temp d sfx) \<longrightarrow> files s' p = files s p"
    using keepsD [OF persist_frame [OF assms(3)] frame_refl assms(1)] persist_temp(2) [OF assms] by (auto simp: frame_def)
qed

text \<open>The rename fails over an older file: that one is still there, and nothing is left beside it.\<close>

definition old_creds :: inode where
  "old_creds = \<lparr>n_type = Regular, n_mode = 384, n_uid = 0, n_data = [1, 2, 3]\<rparr>"

definition resaved_os :: os where
  "resaved_os = saved_os\<lparr>files := (files saved_os)(creds_file (path_join CONFIG_MOUNT (lit ''network'')) \<mapsto> old_creds),
     faults := (\<lambda>c p. c = SysReplace)\<rparr>"

theorem persist_credentials_atomic_witness:
  "\<exists>r s'. persist_credentials prod_env [55] (lit ''cafe'', lit ''password1'') resaved_os = (r, s')
     \<and> (files s' (creds_file (path_join CONFIG_MOUNT (lit ''network''))) = Some old_creds
        \<or> (\<exists>b. creds_payload (lit ''cafe'', lit ''password1'') = Inr b
             \<and> files s' (creds_file (path_join CONFIG_MOUNT (lit ''network''))) = Some (saved_inode resaved_os b)))
     \<and> files s' (creds_temp (path_join CONFIG_MOUNT (lit ''network'')) [55]) = None
     \<and> files s' STORAGE_STATUS = files saved_os STORAGE_STATUS"
proof -
  let ?d = "path_join CONFIG_MOUNT (lit ''network'')"
  have d: "config_dir prod_env = Inr ?d" by (simp add: storage_paths prod_env_def)
  have h: "history resaved_os = []" "\<not> faults resaved_os SysUnlink (creds_temp ?d [55])"
    by (simp_all add: resaved_os_def saved_os_def os_of_def)
  have n: "STORAGE_STATUS \<noteq> creds_file ?d" "STORAGE_STATUS \<noteq> ?d" "creds_temp ?d [55] \<noteq> STORAGE_STATUS"
    by (simp_all add: storage_consts creds_file_def creds_temp_def path_join_def lit_def)
  then have f: "files resaved_os (creds_file ?d) = Some old_creds" "files resaved_os STORAGE_STATUS = files saved_os STORAGE_STATUS"
    "files resaved_os (creds_temp ?d [55]) = None"
    by (simp_all add: resaved_os_def saved_os_def os_of_def)
  obtain r s' where w: "persist_credentials prod_env [55] (lit ''cafe'', lit ''password1'') resaved_os = (r, s')"
    by fastforce
  then show ?thesis using persist_credentials_atomic [OF w h(1) d] h(2) f n(1) by auto
qed

text \<open>
  C15. What is loaded can be trusted: loading changes nothing, and credentials it returns satisfy
  every rule of \<open>validate_credentials\<close> and come from a regular file of at most 8192 bytes that the
  service owns with mode 0600.
\<close>

theorem load_credentials_trusted:
  assumes "load_credentials e s = (Inr (Some cr), s')"
  shows "s' = s \<and> validate_credentials (fst cr) (snd cr) = Inr None
         \<and> (\<exists>p n. config_file e = Inr p \<and> files s p = Some n \<and> n_type n = Regular \<and> n_mode n = 384
              \<and> n_uid n = my_uid s \<and> st_size n \<le> MAX_CONFIG_BYTES)"
proof -
  have "creds_ok cr" using load_valid [of e s] assms by simp
  moreover have "s' = s" using load_pure [of e s] assms by simp
  moreover have "\<exists>p n. config_file e = Inr p \<and> files s p = Some n \<and> n_type n = Regular \<and> n_mode n = 384
              \<and> n_uid n = my_uid s \<and> st_size n \<le> MAX_CONFIG_BYTES"
    using assms
    by (cases "config_file e")
       (auto simp: load_credentials_def io_defs lstat_def split: sum.splits if_splits option.splits)
  ultimately show ?thesis by (simp add: validate_credentials_ok)
qed

theorem load_credentials_trusted_witness:
  "\<exists>s'. validate_credentials (lit ''cafe'') (lit ''password1'') = Inr None
     \<and> load_credentials prod_env s' = (Inr (Some (lit ''cafe'', lit ''password1'')), s')"
proof -
  obtain s' where l: "load_credentials prod_env s' = (Inr (Some (lit ''cafe'', lit ''password1'')), s')"
    using saved.wr_rd [OF saved_os_ready sample_creds_writable] by blast
  then show ?thesis using load_credentials_trusted [OF l] by auto
qed

text \<open>
  C16. The CSRF token is boot-stable: whatever way \<open>csrf_token\<close> gets a token, it is 32 to 128 URL-safe
  characters, the cache then answers every later call with it, and a restarted service (empty
  cache, other random values) on the files left behind gets the same token.
\<close>

theorem csrf_token_stable:
  assumes "csrf_token e sfx fresh None s = (Inr (t, c), s')"
  shows "token_text_ok t \<and> c = Some t
         \<and> csrf_token e sfx' fresh' c s'' = (Inr (t, c), s'')
         \<and> csrf_token e sfx' fresh' None s' = (Inr (t, Some t), s')"
proof -
  obtain p where p: "csrf_token_file e = Inr p" "read_csrf_token p s' = (Inr t, s')" "c = Some t"
    using csrf_token_read [OF assms] .
  have "csrf_token e sfx' fresh' None s' = (Inr (t, Some t), s')"
    using p by (simp add: csrf_token_def io_defs except_not_found_def)
  then show ?thesis
    using p read_csrf_token_ok [OF p(2)] by (simp add: csrf_token_def io_return_def)
qed

definition boot_os :: os where
  "boot_os = os_of [(lit ''/run/sushida-wifi-setup'', dir_inode)]"

theorem csrf_token_stable_witness:
  "\<exists>s'. csrf_token prod_env [55] (replicate 43 65) None boot_os = (Inr (replicate 43 65, Some (replicate 43 65)), s')
     \<and> csrf_token prod_env [56] (replicate 43 66) None s' = (Inr (replicate 43 65, Some (replicate 43 65)), s')"
proof -
  let ?t = "replicate 43 65 :: pystr"
  have p: "csrf_token_file prod_env = Inr CSRF_TOKEN_FILE" by (simp add: storage_paths prod_env_def)
  have par: "path_parent CSRF_TOKEN_FILE = lit ''/run/sushida-wifi-setup''"
    by (simp add: path_parent_def CSRF_TOKEN_FILE_def lit_def)
  have f: "files boot_os CSRF_TOKEN_FILE = None" "files boot_os (csrf_temp CSRF_TOKEN_FILE [55]) = None"
    "csrf_temp CSRF_TOKEN_FILE [55] \<noteq> CSRF_TOKEN_FILE"
    by (simp_all add: boot_os_def os_of_def csrf_temp_def par path_join_def CSRF_TOKEN_FILE_def lit_def)
  have "token_text_ok ?t" by (simp add: token_text_ok_def token_char_def lit_def list_all_iff)
  then obtain s' where "create_csrf_token CSRF_TOKEN_FILE [55] ?t boot_os = (Inr ?t, s')"
    using create_token_ok [of ?t boot_os CSRF_TOKEN_FILE "[55]"] f par
    by (auto simp: boot_os_def os_of_def no_faults_def real_dir_def dir_inode_def)
  moreover have "read_csrf_token CSRF_TOKEN_FILE boot_os = (Inl FileNotFoundError, boot_os)"
    using f(1) by (simp add: read_csrf_token_def io_bind_def lstat_def boot_os_def os_of_def)
  ultimately have c: "csrf_token prod_env [55] ?t None boot_os = (Inr (?t, Some ?t), s')"
    by (simp add: csrf_token_def p io_defs except_not_found_def)
  show ?thesis using c csrf_token_stable [OF c] by blast
qed

text \<open>
  The connection marker is best effort and content-free: outside test mode publishing it never
  raises, touches no path but the marker, and a marker it creates is an empty file; where
  nothing fails and the path is free or a regular file, the marker exists exactly when it was
  set active.
\<close>

theorem connection_marker_effect:
  assumes "\<not> wifi_test_mode e"
  shows "fst (set_connection_marker e active s) = Inr ()
         \<and> (\<forall>p. p \<noteq> CONNECTION_MARKER_FILE \<longrightarrow> files (snd (set_connection_marker e active s)) p = files s p)
         \<and> (files s CONNECTION_MARKER_FILE = None \<longrightarrow>
              (\<forall>n. files (snd (set_connection_marker e active s)) CONNECTION_MARKER_FILE = Some n \<longrightarrow> n_data n = []))
         \<and> (no_faults s \<and> (\<forall>n. files s CONNECTION_MARKER_FILE = Some n \<longrightarrow> n_type n = Regular) \<longrightarrow>
              (files (snd (set_connection_marker e active s)) CONNECTION_MARKER_FILE \<noteq> None \<longleftrightarrow> active))"
proof -
  have m: "set_connection_marker e active
      = swallow_OSError (if active then touch CONNECTION_MARKER_FILE 420 else unlink CONNECTION_MARKER_FILE)"
    using assms by (simp add: set_connection_marker_def connection_marker_file_def)
  show ?thesis
    unfolding m
    by (cases active; cases "files s CONNECTION_MARKER_FILE")
       (auto simp: swallow_OSError_def touch_def unlink_def set_files_def is_OSError_def no_faults_def)
qed

theorem connection_marker_effect_witness:
  "files (snd (set_connection_marker prod_env True boot_os)) CONNECTION_MARKER_FILE \<noteq> None"
proof -
  have "\<not> wifi_test_mode prod_env" by (simp add: wifi_test_mode_def prod_env_def)
  note connection_marker_effect [OF this, of True boot_os]
  moreover have "files boot_os CONNECTION_MARKER_FILE = None"
    by (simp add: boot_os_def os_of_def CONNECTION_MARKER_FILE_def)
  moreover have "no_faults boot_os" by (simp add: boot_os_def os_of_def no_faults_def)
  ultimately show ?thesis by simp
qed

end
