(* ===== verification/Py_Unicode.thy ===== *)
theory Py_Unicode
  imports Prelude
begin

text \<open>
  The case mappings of the language's string type: \<open>str.upper\<close> and \<open>str.casefold\<close>, character by
  character, from the Unicode data of the interpreter.  A table row \<open>(a, b, k, d)\<close> maps every \<open>k\<close>-th
  code point from \<open>a\<close> to \<open>b\<close> to itself plus \<open>d\<close>; the special rows are the mappings to several
  characters.
\<close>

section \<open>The tables\<close>

definition upper_ranges :: "(int \<times> int \<times> int \<times> int) list" where
  "upper_ranges = [
     (97, 122, 1, - 32), (181, 181, 1, 743), (224, 246, 1, - 32), (248, 254, 1, - 32),
     (255, 255, 1, 121), (257, 303, 2, - 1), (305, 305, 1, - 232), (307, 311, 2, - 1),
     (314, 328, 2, - 1), (331, 375, 2, - 1), (378, 382, 2, - 1), (383, 383, 1, - 300),
     (384, 384, 1, 195), (387, 389, 2, - 1), (392, 392, 1, - 1), (396, 396, 1, - 1),
     (402, 402, 1, - 1), (405, 405, 1, 97), (409, 409, 1, - 1), (410, 410, 1, 163),
     (414, 414, 1, 130), (417, 421, 2, - 1), (424, 424, 1, - 1), (429, 429, 1, - 1),
     (432, 432, 1, - 1), (436, 438, 2, - 1), (441, 441, 1, - 1), (445, 445, 1, - 1),
     (447, 447, 1, 56), (453, 453, 1, - 1), (454, 454, 1, - 2), (456, 456, 1, - 1),
     (457, 457, 1, - 2), (459, 459, 1, - 1), (460, 460, 1, - 2), (462, 476, 2, - 1),
     (477, 477, 1, - 79), (479, 495, 2, - 1), (498, 498, 1, - 1), (499, 499, 1, - 2),
     (501, 501, 1, - 1), (505, 543, 2, - 1), (547, 563, 2, - 1), (572, 572, 1, - 1),
     (575, 576, 1, 10815), (578, 578, 1, - 1), (583, 591, 2, - 1), (592, 592, 1, 10783),
     (593, 593, 1, 10780), (594, 594, 1, 10782), (595, 595, 1, - 210), (596, 596, 1, - 206),
     (598, 599, 1, - 205), (601, 601, 1, - 202), (603, 603, 1, - 203), (604, 604, 1, 42319),
     (608, 608, 1, - 205), (609, 609, 1, 42315), (611, 611, 1, - 207), (613, 613, 1, 42280),
     (614, 614, 1, 42308), (616, 616, 1, - 209), (617, 617, 1, - 211), (618, 618, 1, 42308),
     (619, 619, 1, 10743), (620, 620, 1, 42305), (623, 623, 1, - 211), (625, 625, 1, 10749),
     (626, 626, 1, - 213), (629, 629, 1, - 214), (637, 637, 1, 10727), (640, 640, 1, - 218),
     (642, 642, 1, 42307), (643, 643, 1, - 218), (647, 647, 1, 42282), (648, 648, 1, - 218),
     (649, 649, 1, - 69), (650, 651, 1, - 217), (652, 652, 1, - 71), (658, 658, 1, - 219),
     (669, 669, 1, 42261), (670, 670, 1, 42258), (837, 837, 1, 84), (881, 883, 2, - 1),
     (887, 887, 1, - 1), (891, 893, 1, 130), (940, 940, 1, - 38), (941, 943, 1, - 37),
     (945, 961, 1, - 32), (962, 962, 1, - 31), (963, 971, 1, - 32), (972, 972, 1, - 64),
     (973, 974, 1, - 63), (976, 976, 1, - 62), (977, 977, 1, - 57), (981, 981, 1, - 47),
     (982, 982, 1, - 54), (983, 983, 1, - 8), (985, 1007, 2, - 1), (1008, 1008, 1, - 86),
     (1009, 1009, 1, - 80), (1010, 1010, 1, 7), (1011, 1011, 1, - 116), (1013, 1013, 1, - 96),
     (1016, 1016, 1, - 1), (1019, 1019, 1, - 1), (1072, 1103, 1, - 32), (1104, 1119, 1, - 80),
     (1121, 1153, 2, - 1), (1163, 1215, 2, - 1), (1218, 1230, 2, - 1), (1231, 1231, 1, - 15),
     (1233, 1327, 2, - 1), (1377, 1414, 1, - 48), (4304, 4346, 1, 3008), (4349, 4351, 1, 3008),
     (5112, 5117, 1, - 8), (7296, 7296, 1, - 6254), (7297, 7297, 1, - 6253),
     (7298, 7298, 1, - 6244), (7299, 7300, 1, - 6242), (7301, 7301, 1, - 6243),
     (7302, 7302, 1, - 6236), (7303, 7303, 1, - 6181), (7304, 7304, 1, 35266),
     (7545, 7545, 1, 35332), (7549, 7549, 1, 3814), (7566, 7566, 1, 35384),
     (7681, 7829, 2, - 1), (7835, 7835, 1, - 59), (7841, 7935, 2, - 1), (7936, 7943, 1, 8),
     (7952, 7957, 1, 8), (7968, 7975, 1, 8), (7984, 7991, 1, 8), (8000, 8005, 1, 8),
     (8017, 8023, 2, 8), (8032, 8039, 1, 8), (8048, 8049, 1, 74), (8050, 8053, 1, 86),
     (8054, 8055, 1, 100), (8056, 8057, 1, 128), (8058, 8059, 1, 112), (8060, 8061, 1, 126),
     (8112, 8113, 1, 8), (8126, 8126, 1, - 7205), (8144, 8145, 1, 8), (8160, 8161, 1, 8),
     (8165, 8165, 1, 7), (8526, 8526, 1, - 28), (8560, 8575, 1, - 16), (8580, 8580, 1, - 1),
     (9424, 9449, 1, - 26), (11312, 11359, 1, - 48), (11361, 11361, 1, - 1),
     (11365, 11365, 1, - 10795), (11366, 11366, 1, - 10792), (11368, 11372, 2, - 1),
     (11379, 11379, 1, - 1), (11382, 11382, 1, - 1), (11393, 11491, 2, - 1),
     (11500, 11502, 2, - 1), (11507, 11507, 1, - 1), (11520, 11557, 1, - 7264),
     (11559, 11559, 1, - 7264), (11565, 11565, 1, - 7264), (42561, 42605, 2, - 1),
     (42625, 42651, 2, - 1), (42787, 42799, 2, - 1), (42803, 42863, 2, - 1),
     (42874, 42876, 2, - 1), (42879, 42887, 2, - 1), (42892, 42892, 1, - 1),
     (42897, 42899, 2, - 1), (42900, 42900, 1, 48), (42903, 42921, 2, - 1),
     (42933, 42947, 2, - 1), (42952, 42954, 2, - 1), (42961, 42961, 1, - 1),
     (42967, 42969, 2, - 1), (42998, 42998, 1, - 1), (43859, 43859, 1, - 928),
     (43888, 43967, 1, - 38864), (65345, 65370, 1, - 32), (66600, 66639, 1, - 40),
     (66776, 66811, 1, - 40), (66967, 66977, 1, - 39), (66979, 66993, 1, - 39),
     (66995, 67001, 1, - 39), (67003, 67004, 1, - 39), (68800, 68850, 1, - 64),
     (71872, 71903, 1, - 32), (93792, 93823, 1, - 32), (125218, 125251, 1, - 34)]"

definition upper_special :: "(codepoint \<times> pystr) list" where
  "upper_special = [
     (223, [83, 83]), (329, [700, 78]), (496, [74, 780]), (912, [921, 776, 769]),
     (944, [933, 776, 769]), (1415, [1333, 1362]), (7830, [72, 817]), (7831, [84, 776]),
     (7832, [87, 778]), (7833, [89, 778]), (7834, [65, 702]), (8016, [933, 787]),
     (8018, [933, 787, 768]), (8020, [933, 787, 769]), (8022, [933, 787, 834]),
     (8064, [7944, 921]), (8065, [7945, 921]), (8066, [7946, 921]), (8067, [7947, 921]),
     (8068, [7948, 921]), (8069, [7949, 921]), (8070, [7950, 921]), (8071, [7951, 921]),
     (8072, [7944, 921]), (8073, [7945, 921]), (8074, [7946, 921]), (8075, [7947, 921]),
     (8076, [7948, 921]), (8077, [7949, 921]), (8078, [7950, 921]), (8079, [7951, 921]),
     (8080, [7976, 921]), (8081, [7977, 921]), (8082, [7978, 921]), (8083, [7979, 921]),
     (8084, [7980, 921]), (8085, [7981, 921]), (8086, [7982, 921]), (8087, [7983, 921]),
     (8088, [7976, 921]), (8089, [7977, 921]), (8090, [7978, 921]), (8091, [7979, 921]),
     (8092, [7980, 921]), (8093, [7981, 921]), (8094, [7982, 921]), (8095, [7983, 921]),
     (8096, [8040, 921]), (8097, [8041, 921]), (8098, [8042, 921]), (8099, [8043, 921]),
     (8100, [8044, 921]), (8101, [8045, 921]), (8102, [8046, 921]), (8103, [8047, 921]),
     (8104, [8040, 921]), (8105, [8041, 921]), (8106, [8042, 921]), (8107, [8043, 921]),
     (8108, [8044, 921]), (8109, [8045, 921]), (8110, [8046, 921]), (8111, [8047, 921]),
     (8114, [8122, 921]), (8115, [913, 921]), (8116, [902, 921]), (8118, [913, 834]),
     (8119, [913, 834, 921]), (8124, [913, 921]), (8130, [8138, 921]), (8131, [919, 921]),
     (8132, [905, 921]), (8134, [919, 834]), (8135, [919, 834, 921]), (8140, [919, 921]),
     (8146, [921, 776, 768]), (8147, [921, 776, 769]), (8150, [921, 834]),
     (8151, [921, 776, 834]), (8162, [933, 776, 768]), (8163, [933, 776, 769]),
     (8164, [929, 787]), (8166, [933, 834]), (8167, [933, 776, 834]), (8178, [8186, 921]),
     (8179, [937, 921]), (8180, [911, 921]), (8182, [937, 834]), (8183, [937, 834, 921]),
     (8188, [937, 921]), (64256, [70, 70]), (64257, [70, 73]), (64258, [70, 76]),
     (64259, [70, 70, 73]), (64260, [70, 70, 76]), (64261, [83, 84]), (64262, [83, 84]),
     (64275, [1348, 1350]), (64276, [1348, 1333]), (64277, [1348, 1339]), (64278, [1358, 1350]),
     (64279, [1348, 1341])]"

definition fold_ranges :: "(int \<times> int \<times> int \<times> int) list" where
  "fold_ranges = [
     (65, 90, 1, 32), (181, 181, 1, 775), (192, 214, 1, 32), (216, 222, 1, 32),
     (256, 302, 2, 1), (306, 310, 2, 1), (313, 327, 2, 1), (330, 374, 2, 1),
     (376, 376, 1, - 121), (377, 381, 2, 1), (383, 383, 1, - 268), (385, 385, 1, 210),
     (386, 388, 2, 1), (390, 390, 1, 206), (391, 391, 1, 1), (393, 394, 1, 205),
     (395, 395, 1, 1), (398, 398, 1, 79), (399, 399, 1, 202), (400, 400, 1, 203),
     (401, 401, 1, 1), (403, 403, 1, 205), (404, 404, 1, 207), (406, 406, 1, 211),
     (407, 407, 1, 209), (408, 408, 1, 1), (412, 412, 1, 211), (413, 413, 1, 213),
     (415, 415, 1, 214), (416, 420, 2, 1), (422, 422, 1, 218), (423, 423, 1, 1),
     (425, 425, 1, 218), (428, 428, 1, 1), (430, 430, 1, 218), (431, 431, 1, 1),
     (433, 434, 1, 217), (435, 437, 2, 1), (439, 439, 1, 219), (440, 440, 1, 1),
     (444, 444, 1, 1), (452, 452, 1, 2), (453, 453, 1, 1), (455, 455, 1, 2), (456, 456, 1, 1),
     (458, 458, 1, 2), (459, 475, 2, 1), (478, 494, 2, 1), (497, 497, 1, 2), (498, 500, 2, 1),
     (502, 502, 1, - 97), (503, 503, 1, - 56), (504, 542, 2, 1), (544, 544, 1, - 130),
     (546, 562, 2, 1), (570, 570, 1, 10795), (571, 571, 1, 1), (573, 573, 1, - 163),
     (574, 574, 1, 10792), (577, 577, 1, 1), (579, 579, 1, - 195), (580, 580, 1, 69),
     (581, 581, 1, 71), (582, 590, 2, 1), (837, 837, 1, 116), (880, 882, 2, 1),
     (886, 886, 1, 1), (895, 895, 1, 116), (902, 902, 1, 38), (904, 906, 1, 37),
     (908, 908, 1, 64), (910, 911, 1, 63), (913, 929, 1, 32), (931, 939, 1, 32),
     (962, 962, 1, 1), (975, 975, 1, 8), (976, 976, 1, - 30), (977, 977, 1, - 25),
     (981, 981, 1, - 15), (982, 982, 1, - 22), (984, 1006, 2, 1), (1008, 1008, 1, - 54),
     (1009, 1009, 1, - 48), (1012, 1012, 1, - 60), (1013, 1013, 1, - 64), (1015, 1015, 1, 1),
     (1017, 1017, 1, - 7), (1018, 1018, 1, 1), (1021, 1023, 1, - 130), (1024, 1039, 1, 80),
     (1040, 1071, 1, 32), (1120, 1152, 2, 1), (1162, 1214, 2, 1), (1216, 1216, 1, 15),
     (1217, 1229, 2, 1), (1232, 1326, 2, 1), (1329, 1366, 1, 48), (4256, 4293, 1, 7264),
     (4295, 4295, 1, 7264), (4301, 4301, 1, 7264), (5112, 5117, 1, - 8),
     (7296, 7296, 1, - 6222), (7297, 7297, 1, - 6221), (7298, 7298, 1, - 6212),
     (7299, 7300, 1, - 6210), (7301, 7301, 1, - 6211), (7302, 7302, 1, - 6204),
     (7303, 7303, 1, - 6180), (7304, 7304, 1, 35267), (7312, 7354, 1, - 3008),
     (7357, 7359, 1, - 3008), (7680, 7828, 2, 1), (7835, 7835, 1, - 58), (7840, 7934, 2, 1),
     (7944, 7951, 1, - 8), (7960, 7965, 1, - 8), (7976, 7983, 1, - 8), (7992, 7999, 1, - 8),
     (8008, 8013, 1, - 8), (8025, 8031, 2, - 8), (8040, 8047, 1, - 8), (8120, 8121, 1, - 8),
     (8122, 8123, 1, - 74), (8126, 8126, 1, - 7173), (8136, 8139, 1, - 86),
     (8152, 8153, 1, - 8), (8154, 8155, 1, - 100), (8168, 8169, 1, - 8), (8170, 8171, 1, - 112),
     (8172, 8172, 1, - 7), (8184, 8185, 1, - 128), (8186, 8187, 1, - 126),
     (8486, 8486, 1, - 7517), (8490, 8490, 1, - 8383), (8491, 8491, 1, - 8262),
     (8498, 8498, 1, 28), (8544, 8559, 1, 16), (8579, 8579, 1, 1), (9398, 9423, 1, 26),
     (11264, 11311, 1, 48), (11360, 11360, 1, 1), (11362, 11362, 1, - 10743),
     (11363, 11363, 1, - 3814), (11364, 11364, 1, - 10727), (11367, 11371, 2, 1),
     (11373, 11373, 1, - 10780), (11374, 11374, 1, - 10749), (11375, 11375, 1, - 10783),
     (11376, 11376, 1, - 10782), (11378, 11378, 1, 1), (11381, 11381, 1, 1),
     (11390, 11391, 1, - 10815), (11392, 11490, 2, 1), (11499, 11501, 2, 1),
     (11506, 11506, 1, 1), (42560, 42604, 2, 1), (42624, 42650, 2, 1), (42786, 42798, 2, 1),
     (42802, 42862, 2, 1), (42873, 42875, 2, 1), (42877, 42877, 1, - 35332),
     (42878, 42886, 2, 1), (42891, 42891, 1, 1), (42893, 42893, 1, - 42280),
     (42896, 42898, 2, 1), (42902, 42920, 2, 1), (42922, 42922, 1, - 42308),
     (42923, 42923, 1, - 42319), (42924, 42924, 1, - 42315), (42925, 42925, 1, - 42305),
     (42926, 42926, 1, - 42308), (42928, 42928, 1, - 42258), (42929, 42929, 1, - 42282),
     (42930, 42930, 1, - 42261), (42931, 42931, 1, 928), (42932, 42946, 2, 1),
     (42948, 42948, 1, - 48), (42949, 42949, 1, - 42307), (42950, 42950, 1, - 35384),
     (42951, 42953, 2, 1), (42960, 42960, 1, 1), (42966, 42968, 2, 1), (42997, 42997, 1, 1),
     (43888, 43967, 1, - 38864), (65313, 65338, 1, 32), (66560, 66599, 1, 40),
     (66736, 66771, 1, 40), (66928, 66938, 1, 39), (66940, 66954, 1, 39), (66956, 66962, 1, 39),
     (66964, 66965, 1, 39), (68736, 68786, 1, 64), (71840, 71871, 1, 32), (93760, 93791, 1, 32),
     (125184, 125217, 1, 34)]"

definition fold_special :: "(codepoint \<times> pystr) list" where
  "fold_special = [
     (223, [115, 115]), (304, [105, 775]), (329, [700, 110]), (496, [106, 780]),
     (912, [953, 776, 769]), (944, [965, 776, 769]), (1415, [1381, 1410]), (7830, [104, 817]),
     (7831, [116, 776]), (7832, [119, 778]), (7833, [121, 778]), (7834, [97, 702]),
     (7838, [115, 115]), (8016, [965, 787]), (8018, [965, 787, 768]), (8020, [965, 787, 769]),
     (8022, [965, 787, 834]), (8064, [7936, 953]), (8065, [7937, 953]), (8066, [7938, 953]),
     (8067, [7939, 953]), (8068, [7940, 953]), (8069, [7941, 953]), (8070, [7942, 953]),
     (8071, [7943, 953]), (8072, [7936, 953]), (8073, [7937, 953]), (8074, [7938, 953]),
     (8075, [7939, 953]), (8076, [7940, 953]), (8077, [7941, 953]), (8078, [7942, 953]),
     (8079, [7943, 953]), (8080, [7968, 953]), (8081, [7969, 953]), (8082, [7970, 953]),
     (8083, [7971, 953]), (8084, [7972, 953]), (8085, [7973, 953]), (8086, [7974, 953]),
     (8087, [7975, 953]), (8088, [7968, 953]), (8089, [7969, 953]), (8090, [7970, 953]),
     (8091, [7971, 953]), (8092, [7972, 953]), (8093, [7973, 953]), (8094, [7974, 953]),
     (8095, [7975, 953]), (8096, [8032, 953]), (8097, [8033, 953]), (8098, [8034, 953]),
     (8099, [8035, 953]), (8100, [8036, 953]), (8101, [8037, 953]), (8102, [8038, 953]),
     (8103, [8039, 953]), (8104, [8032, 953]), (8105, [8033, 953]), (8106, [8034, 953]),
     (8107, [8035, 953]), (8108, [8036, 953]), (8109, [8037, 953]), (8110, [8038, 953]),
     (8111, [8039, 953]), (8114, [8048, 953]), (8115, [945, 953]), (8116, [940, 953]),
     (8118, [945, 834]), (8119, [945, 834, 953]), (8124, [945, 953]), (8130, [8052, 953]),
     (8131, [951, 953]), (8132, [942, 953]), (8134, [951, 834]), (8135, [951, 834, 953]),
     (8140, [951, 953]), (8146, [953, 776, 768]), (8147, [953, 776, 769]), (8150, [953, 834]),
     (8151, [953, 776, 834]), (8162, [965, 776, 768]), (8163, [965, 776, 769]),
     (8164, [961, 787]), (8166, [965, 834]), (8167, [965, 776, 834]), (8178, [8060, 953]),
     (8179, [969, 953]), (8180, [974, 953]), (8182, [969, 834]), (8183, [969, 834, 953]),
     (8188, [969, 953]), (64256, [102, 102]), (64257, [102, 105]), (64258, [102, 108]),
     (64259, [102, 102, 105]), (64260, [102, 102, 108]), (64261, [115, 116]),
     (64262, [115, 116]), (64275, [1396, 1398]), (64276, [1396, 1381]), (64277, [1396, 1387]),
     (64278, [1406, 1398]), (64279, [1396, 1389])]"

section \<open>The mappings\<close>

definition map_case :: "(int \<times> int \<times> int \<times> int) list \<Rightarrow> (codepoint \<times> pystr) list \<Rightarrow> codepoint \<Rightarrow> pystr" where
  "map_case ranges special c =
     (case map_of special c of
        Some s \<Rightarrow> s
      | None \<Rightarrow>
          (case find (\<lambda>(a, b, k, d). a \<le> c \<and> c \<le> b \<and> (c - a) mod k = 0) ranges of
             Some (a, b, k, d) \<Rightarrow> [c + d]
           | None \<Rightarrow> [c]))"

definition py_upper :: "pystr \<Rightarrow> pystr" where
  "py_upper s = concat (map (map_case upper_ranges upper_special) s)"

definition py_casefold :: "pystr \<Rightarrow> pystr" where
  "py_casefold s = concat (map (map_case fold_ranges fold_special) s)"

declare map_case_def [py_eval] py_upper_def [py_eval] py_casefold_def [py_eval]

text \<open>On ASCII the tables are the usual ones.\<close>

definition ascii_upper :: "codepoint \<Rightarrow> codepoint" where
  "ascii_upper c = (if 97 \<le> c \<and> c \<le> 122 then c - 32 else c)"

lemma map_case_beyond:
  assumes "list_all (\<lambda>(a, b, k, d). 128 \<le> a) rs" and "list_all (\<lambda>(a, s). 128 \<le> a) sp" and "c < 128"
  shows "map_case rs sp c = [c]"
proof -
  have "map_of sp c = None" using assms(2,3) by (auto simp: list_all_iff map_of_eq_None_iff)
  moreover have "find (\<lambda>(a, b, k, d). a \<le> c \<and> c \<le> b \<and> (c - a) mod k = 0) rs = None"
    using assms(1,3) by (auto simp: list_all_iff find_None_iff)
  ultimately show ?thesis by (simp add: map_case_def)
qed

lemma upper_cp_ascii: "c < 128 \<Longrightarrow> map_case upper_ranges upper_special c = [ascii_upper c]"
proof -
  assume c: "c < 128"
  have r: "upper_ranges = (97, 122, 1, - 32) # tl upper_ranges" by (simp add: upper_ranges_def)
  have "list_all (\<lambda>(a, b, k, d). 128 \<le> a) (tl upper_ranges)" "list_all (\<lambda>(a, s). 128 \<le> a) upper_special"
    by (simp_all add: upper_ranges_def upper_special_def)
  note b = map_case_beyond [OF this c]
  have "map_of upper_special c = None"
    using \<open>list_all (\<lambda>(a, s). 128 \<le> a) upper_special\<close> c by (auto simp: list_all_iff map_of_eq_None_iff)
  then show ?thesis
    using b by (subst r) (simp add: map_case_def ascii_upper_def)
qed

lemma py_upper_ascii: "(\<forall>c \<in> set s. c < 128) \<Longrightarrow> py_upper s = map ascii_upper s"
  by (induction s) (auto simp: py_upper_def upper_cp_ascii)

end
