(* ===== verification/Nmcli.thy ===== *)
theory Nmcli
  imports Storage Py_Unicode "HOL-Library.List_Lexorder" "HOL-Library.Product_Lexorder"
begin

text \<open>
  The NetworkManager adapter, \<open>sushida_os/wifi/nmcli.py\<close>.  The \<open>nmcli\<close> program is not part of the
  repository: it is the parameter \<open>nm\<close>, an arbitrary function from the calls made so far (newest
  first, each with its arguments, timeout and the contents of an inherited descriptor) to the
  exception or the exit status and output of the newest call.  The adapter's state \<open>nmst\<close> records
  the calls and the log lines.
\<close>

section \<open>Messages\<close>

definition MSG_TIMEOUT :: pystr where
  \<open>MSG_TIMEOUT = lit ''Wi-Fi'' @ [
     25509, 32154, 12364, 12479, 12452, 12512, 12450, 12454, 12488, 12375, 12414, 12375,
     12383, 12290, 12375, 12400, 12425, 12367, 24453, 12387, 12390, 12363, 12425, 20877,
     35430, 34892, 12375, 12390, 12367, 12384, 12373, 12356, 12290]\<close>

definition MSG_NM_STOPPED :: pystr where
  \<open>MSG_NM_STOPPED = lit ''NetworkManager'' @ [
     12364, 20572, 27490, 12375, 12390, 12356, 12414, 12377, 12290, 31649, 29702, 32773,
     12395, 29366, 24907, 12434, 30906, 35469, 12375, 12390, 12418, 12425, 12387, 12390,
     12367, 12384, 12373, 12356, 12290]\<close>

definition MSG_NO_ADDRESS :: pystr where
  \<open>MSG_NO_ADDRESS = lit ''IP'' @ [
     12450, 12489, 12524, 12473, 12434, 21462, 24471, 12391, 12365, 12414, 12379, 12435,
     12391, 12375, 12383, 12290, 12450, 12463, 12475, 12473, 12509, 12452, 12531, 12488, 12398]
     @ lit ''DHCP'' @ [
     35373, 23450, 12434, 30906, 35469, 12375, 12390, 12367, 12384, 12373, 12356, 12290]\<close>

definition MSG_NO_SECRETS :: pystr where
  \<open>MSG_NO_SECRETS = [
     25509, 32154, 24773, 22577, 12434, 25552, 20379, 12391, 12365, 12394, 12356, 20869,
     37096, 27083, 25104, 12456, 12521, 12540, 12391, 12377, 12290, 12418, 12358, 19968,
     24230, 25509, 32154, 12434, 35430, 12375, 12390, 12367, 12384, 12373, 12356, 12290]\<close>

definition MSG_AUTH_FAILED :: pystr where
  \<open>MSG_AUTH_FAILED = [
     35469, 35388, 12395, 22833, 25943, 12375, 12414, 12375, 12383, 12290, 12497, 12473,
     12527, 12540, 12489, 12414, 12383, 12399, 12450, 12463, 12475, 12473, 12509, 12452,
     12531, 12488, 35373, 23450, 12434, 30906, 35469, 12375, 12390, 12367, 12384, 12373,
     12356, 12290]\<close>

definition MSG_FIRMWARE :: pystr where
  \<open>MSG_FIRMWARE = lit ''Wi-Fi'' @ [
     12501, 12449, 12540, 12512, 12454, 12455, 12450, 12364, 19981, 36275, 12375, 12390,
     12356, 12414, 12377, 12290, 31649, 29702, 32773, 12395, 30906, 35469, 12375, 12390,
     12367, 12384, 12373, 12356, 12290]\<close>

definition MSG_SSID_GONE :: pystr where
  \<open>MSG_SSID_GONE = lit ''SSID'' @ [
     12364, 35211, 12388, 12363, 12426, 12414, 12379, 12435, 12290, 20877, 12473, 12461,
     12515, 12531, 12375, 12390, 36984, 12403, 30452, 12375, 12390, 12367, 12384, 12373,
     12356, 12290]\<close>

definition MSG_CONNECT_FAILED :: pystr where
  \<open>MSG_CONNECT_FAILED = lit ''Wi-Fi'' @ [
     25509, 32154, 12395, 22833, 25943, 12375, 12414, 12375, 12383, 12290, 12450, 12463,
     12475, 12473, 12509, 12452, 12531, 12488, 35373, 23450, 12434, 30906, 35469, 12375,
     12390, 12367, 12384, 12373, 12356, 12290]\<close>

definition MSG_NO_AUTOCONNECT :: pystr where
  \<open>MSG_NO_AUTOCONNECT = lit ''NetworkManager'' @ [
     12398, 33258, 21205, 20877, 25509, 32154, 12434, 30906, 35469, 12391, 12365, 12414,
     12379, 12435, 12391, 12375, 12383, 12290, 12418, 12358, 19968, 24230, 25509, 32154,
     12375, 12390, 12367, 12384, 12373, 12356, 12290]\<close>

definition MSG_NO_PSK :: pystr where
  \<open>MSG_NO_PSK = [
     29694, 22312, 12398, 36215, 21205, 20013, 12395, 33258, 21205, 20877, 25509, 32154,
     29992, 12398] @ lit ''Wi-Fi'' @ [
     31192, 23494, 24773, 22577, 12434, 20445, 25345, 12391, 12365, 12414, 12379, 12435,
     12391, 12375, 12383, 12290, 12418, 12358, 19968, 24230, 25509, 32154, 12375, 12390,
     12367, 12384, 12373, 12356, 12290]\<close>

definition MSG_SSID_UNKNOWN :: pystr where
  \<open>MSG_SSID_UNKNOWN = [25351, 23450, 12375, 12383] @ lit ''SSID'' @ [
     12364, 35211, 12388, 12363, 12426, 12414, 12379, 12435, 12290, 38560, 12375] @ lit ''SSID''
     @ [12420, 31684, 22258, 22806, 12398] @ lit ''SSID'' @ [
     12395, 12399, 23550, 24540, 12375, 12390, 12356, 12414, 12379, 12435, 12290, 20877,
     12473, 12461, 12515, 12531, 12375, 12390, 36984, 12403, 30452, 12375, 12390, 12367,
     12384, 12373, 12356, 12290]\<close>

definition MSG_WEP :: pystr where
  \<open>MSG_WEP = [12371, 12398] @ lit ''Wi-Fi'' @ [12399] @ lit ''WEP'' @ [
     26041, 24335, 12398, 12383, 12417, 23550, 24540, 12375, 12390, 12356, 12414, 12379,
     12435, 12290] @ lit ''WPA Personal'' @ [12414, 12383, 12399, 12458, 12540, 12503, 12531]
     @ lit ''SSID'' @ [12434, 20351, 29992, 12375, 12390, 12367, 12384, 12373, 12356, 12290]\<close>

definition MSG_ENTERPRISE :: pystr where
  \<open>MSG_ENTERPRISE = [12371, 12398] @ lit ''Wi-Fi'' @ [12399] @ lit ''802.1X/Enterprise'' @ [
     26041, 24335, 12398, 12383, 12417, 23550, 24540, 12375, 12390, 12356, 12414, 12379,
     12435, 12290] @ lit ''WPA Personal'' @ [12414, 12383, 12399, 12458, 12540, 12503, 12531]
     @ lit ''SSID'' @ [12434, 20351, 29992, 12375, 12390, 12367, 12384, 12373, 12356, 12290]\<close>

definition MSG_OWE :: pystr where
  \<open>MSG_OWE = [12371, 12398] @ lit ''Wi-Fi'' @ [12399] @ lit ''OWE'' @ [
     26041, 24335, 12398, 12383, 12417, 23550, 24540, 12375, 12390, 12356, 12414, 12379,
     12435, 12290] @ lit ''WPA Personal'' @ [12414, 12383, 12399, 12458, 12540, 12503, 12531]
     @ lit ''SSID'' @ [12434, 20351, 29992, 12375, 12390, 12367, 12384, 12373, 12356, 12290]\<close>

definition MSG_UNSUPPORTED :: pystr where
  \<open>MSG_UNSUPPORTED = [12371, 12398] @ lit ''Wi-Fi'' @ [
     12398, 26263, 21495, 26041, 24335, 12395, 12399, 23550, 24540, 12375, 12390, 12356,
     12414, 12379, 12435, 12290] @ lit ''WPA Personal''
     @ [12414, 12383, 12399, 12458, 12540, 12503, 12531] @ lit ''SSID'' @ [
     12434, 20351, 29992, 12375, 12390, 12367, 12384, 12373, 12356, 12290]\<close>

definition MSG_OPEN_PASSWORD :: pystr where
  \<open>MSG_OPEN_PASSWORD = [12458, 12540, 12503, 12531] @ lit ''SSID'' @ [
     12391, 12399, 12497, 12473, 12527, 12540, 12489, 12434, 31354, 27396, 12395, 12375,
     12390, 12367, 12384, 12373, 12356, 12290]\<close>

definition MSG_PASSWORD_NEEDED :: pystr where
  \<open>MSG_PASSWORD_NEEDED = lit ''WPA Personal'' @ [
     12395, 12399, 12497, 12473, 12527, 12540, 12489, 12364, 24517, 35201, 12391, 12377, 12290]\<close>

definition MSG_STEP_TIMEOUT :: pystr where
  \<open>MSG_STEP_TIMEOUT = lit ''Wi-Fi'' @ [
     25509, 32154, 20966, 29702, 12364, 12479, 12452, 12512, 12450, 12454, 12488, 12375,
     12414, 12375, 12383, 12290]\<close>

definition MSG_NOT_SAVED :: pystr where
  \<open>MSG_NOT_SAVED = [
     25509, 32154, 12375, 12414, 12375, 12383, 12290, 12371, 12398, 25509, 32154, 12399,
     20877, 36215, 21205, 24460, 12395, 12399, 20445, 23384, 12373, 12428, 12414, 12379,
     12435, 12290]\<close>

definition MSG_SAVE_FAILED :: pystr where
  \<open>MSG_SAVE_FAILED = [
     25509, 32154, 12375, 12414, 12375, 12383, 12364, 12289, 20877, 36215, 21205, 24460,
     12395, 20351, 12358, 35373, 23450, 12399, 20445, 23384, 12391, 12365, 12414, 12379,
     12435, 12391, 12375, 12383, 12290]\<close>

definition MSG_CONNECTED :: pystr where
  \<open>MSG_CONNECTED = [
     25509, 32154, 12375, 12414, 12375, 12383, 12290, 23551, 21496, 25171, 30011, 38754,
     12408, 20999, 12426, 26367, 12360, 12414, 12377, 12290]\<close>

lemmas nm_messages =
  MSG_TIMEOUT_def MSG_NM_STOPPED_def MSG_NO_ADDRESS_def MSG_NO_SECRETS_def
  MSG_AUTH_FAILED_def MSG_FIRMWARE_def MSG_SSID_GONE_def MSG_CONNECT_FAILED_def
  MSG_NO_AUTOCONNECT_def MSG_NO_PSK_def MSG_SSID_UNKNOWN_def MSG_WEP_def
  MSG_ENTERPRISE_def MSG_OWE_def MSG_UNSUPPORTED_def MSG_OPEN_PASSWORD_def
  MSG_PASSWORD_NEEDED_def MSG_STEP_TIMEOUT_def MSG_NOT_SAVED_def MSG_SAVE_FAILED_def
  MSG_CONNECTED_def

section \<open>Calling nmcli\<close>

record nmcall =
  nc_args :: "pystr list"
  nc_timeout :: int
  nc_secret :: "bytes option"

text \<open>
  The environment of the adapter: what \<open>nmcli\<close> answers, and the descriptor number an anonymous
  temporary file gets (or the \<open>OSError\<close> of making it).
\<close>

record nm =
  nm_answer :: "nmcall list \<Rightarrow> (int \<times> pystr) res"
  nm_fd :: "int res"

record nmst =
  nm_calls :: "nmcall list"
  nm_logs :: "pystr list"

definition nmst_init :: nmst where "nmst_init = \<lparr>nm_calls = [], nm_logs = []\<rparr>"

type_synonym 'a nio = "nmst \<Rightarrow> 'a res \<times> nmst"

definition n_return :: "'a \<Rightarrow> 'a nio" where "n_return x = (\<lambda>st. (Inr x, st))"
definition n_lift :: "'a res \<Rightarrow> 'a nio" where "n_lift r = (\<lambda>st. (r, st))"
definition n_bind :: "'a nio \<Rightarrow> ('a \<Rightarrow> 'b nio) \<Rightarrow> 'b nio" where
  "n_bind m f = (\<lambda>st. case m st of (Inl e, st') \<Rightarrow> (Inl e, st') | (Inr x, st') \<Rightarrow> f x st')"
definition n_seq :: "'a nio \<Rightarrow> 'b nio \<Rightarrow> 'b nio" where "n_seq m k = n_bind m (\<lambda>_. k)"

text \<open>\<open>try: m except ...\<close>: the handler is chosen by the exception; \<open>None\<close> lets it through.\<close>

definition n_catch :: "'a nio \<Rightarrow> (exn \<Rightarrow> 'a nio option) \<Rightarrow> 'a nio" where
  "n_catch m h =
     (\<lambda>st. case m st of
             (Inl e, st') \<Rightarrow> (case h e of None \<Rightarrow> (Inl e, st') | Some k \<Rightarrow> k st')
           | (Inr x, st') \<Rightarrow> (Inr x, st'))"

definition except_run :: "'a nio \<Rightarrow> exn \<Rightarrow> 'a nio option" where
  "except_run k e = (if is_OSError e \<or> e = TimeoutExpired then Some k else None)"

lemmas nio_defs = n_return_def n_lift_def n_bind_def n_seq_def n_catch_def except_run_def
declare nio_defs [py_eval]

definition NMCLI :: pystr where "NMCLI = lit ''/usr/bin/nmcli''"

definition nmcli_path :: "env \<Rightarrow> pystr res" where
  "nmcli_path e =
     (if wifi_test_mode e then
        (case environ e (lit ''SUSHIDA_WIFI_SETUP_NMCLI'') of
           None \<Rightarrow> Inl RuntimeError
         | Some v \<Rightarrow> if v = [] \<or> \<not> starts_with (lit ''/tmp/'') v then Inl RuntimeError else Inr v)
      else Inr NMCLI)"

definition run_nmcli :: "env \<Rightarrow> nm \<Rightarrow> pystr list \<Rightarrow> int \<Rightarrow> bytes option \<Rightarrow> (int \<times> pystr) nio" where
  "run_nmcli e nm args t secret =
     (\<lambda>st. case nmcli_path e of
             Inl x \<Rightarrow> (Inl x, st)
           | Inr path \<Rightarrow>
               (let st' = st\<lparr>nm_calls := \<lparr>nc_args = path # args, nc_timeout = t, nc_secret = secret\<rparr> # nm_calls st\<rparr>
                in (nm_answer nm (nm_calls st'), st')))"

section \<open>Queries\<close>

text \<open>The state \<open>(fields, current, escaped)\<close> of the character loop of \<open>_split_escaped\<close>.\<close>

fun split_esc :: "pystr list \<Rightarrow> pystr \<Rightarrow> bool \<Rightarrow> pystr \<Rightarrow> pystr list" where
  "split_esc flds current escaped [] =
     flds @ [if escaped then current @ [92] else current]"
| "split_esc flds current escaped (c # cs) =
     (if escaped then split_esc flds (current @ [c]) False cs
      else if c = 92 then split_esc flds current True cs
      else if c = 58 then split_esc (flds @ [current]) [] False cs
      else split_esc flds (current @ [c]) False cs)"

definition split_escaped :: "pystr \<Rightarrow> pystr list" where
  "split_escaped line = split_esc [] [] False (rev (dropWhile (\<lambda>c. c = 10) (rev line)))"

definition wifi_type :: "pystr \<Rightarrow> bool" where
  "wifi_type t \<longleftrightarrow> t = lit ''wifi'' \<or> t = lit ''802-11-wireless''"

definition network_connected :: "env \<Rightarrow> nm \<Rightarrow> bool nio" where
  "network_connected e nm =
     n_catch
       (n_bind (run_nmcli e nm [lit ''-t'', lit ''-f'', lit ''STATE,CONNECTIVITY'', lit ''general''] 5 None)
         (\<lambda>(code, out).
           if code \<noteq> 0 then n_return False
           else (case partition_at 58 (py_strip out) of (state, sep, connectivity) \<Rightarrow>
             n_return (sep \<and> state = lit ''connected'' \<and> connectivity = lit ''full''))))
       (except_run (n_return False))"

definition managed_wifi_active :: "env \<Rightarrow> nm \<Rightarrow> bool nio" where
  "managed_wifi_active e nm =
     n_catch
       (n_bind (run_nmcli e nm [lit ''-t'', lit ''--escape'', lit ''yes'', lit ''-f'', lit ''NAME,TYPE'',
            lit ''connection'', lit ''show'', lit ''--active''] 5 None)
         (\<lambda>(code, out).
           if code \<noteq> 0 then n_return False
           else n_return (list_ex (\<lambda>line.
             case split_escaped line of
               [name, ty] \<Rightarrow> name = CONNECTION_NAME \<and> wifi_type ty
             | _ \<Rightarrow> False) (py_splitlines out))))
       (except_run (n_return False))"

definition wifi_device_waiting :: "env \<Rightarrow> nm \<Rightarrow> bool nio" where
  "wifi_device_waiting e nm =
     n_catch
       (n_bind (run_nmcli e nm [lit ''-t'', lit ''--escape'', lit ''yes'', lit ''-f'', lit ''DEVICE,TYPE,STATE'',
            lit ''device'', lit ''status''] 8 None)
         (\<lambda>(code, out).
           if code \<noteq> 0 then n_return False
           else (case find (\<lambda>f. length f = 3 \<and> wifi_type (f ! 1)) (map split_escaped (py_splitlines out)) of
                   None \<Rightarrow> n_return False
                 | Some f \<Rightarrow> n_return (f ! 2 = lit ''unmanaged'' \<or> f ! 2 = lit ''unavailable''))))
       (except_run (n_return False))"

section \<open>Scanning\<close>

type_synonym network = "pystr \<times> int \<times> pystr"
type_synonym strongest = "(pystr \<times> (int \<times> pystr)) list"

text \<open>One line of the scan; measuring the SSID can only raise on a lone surrogate.\<close>

definition scan_line :: "strongest \<Rightarrow> pystr \<Rightarrow> strongest res" where
  "scan_line strongest line =
     (case split_escaped line of
        [ssid, raw_signal, security] \<Rightarrow>
          if ssid = [] \<or> 0xFFFD \<in> set ssid then Inr strongest
          else res_bind (utf8_encode ssid) (\<lambda>bs.
            if length bs > 32 then Inr strongest
            else if list_ex control_char ssid then Inr strongest
            else (case py_int raw_signal of
                    Inl _ \<Rightarrow> Inr strongest
                  | Inr n \<Rightarrow>
                      (let signal = max 0 (min 100 n) in
                       case map_of strongest ssid of
                         None \<Rightarrow> Inr (AList.update ssid (signal, security) strongest)
                       | Some (best, _) \<Rightarrow>
                           Inr (if signal > best then AList.update ssid (signal, security) strongest
                                else strongest))))
      | _ \<Rightarrow> Inr strongest)"

fun scan_lines :: "strongest \<Rightarrow> pystr list \<Rightarrow> strongest res" where
  "scan_lines strongest [] = Inr strongest"
| "scan_lines strongest (l # ls) = res_bind (scan_line strongest l) (\<lambda>s. scan_lines s ls)"

definition network_key :: "network \<Rightarrow> int \<times> pystr" where
  "network_key = (\<lambda>(ssid, signal, security). (- signal, py_casefold ssid))"

definition sort_networks :: "strongest \<Rightarrow> network list" where
  "sort_networks strongest = sort_key network_key (map (\<lambda>(ssid, signal, security). (ssid, signal, security)) strongest)"

definition scan_networks :: "env \<Rightarrow> nm \<Rightarrow> network list nio" where
  "scan_networks e nm =
     n_bind
       (n_catch (n_bind (run_nmcli e nm [lit ''-t'', lit ''--escape'', lit ''yes'', lit ''-f'', lit ''SSID,SIGNAL,SECURITY'',
            lit ''device'', lit ''wifi'', lit ''list'', lit ''--rescan'', lit ''yes''] 15 None)
          (\<lambda>r. n_return (Some r)))
         (except_run (n_return None)))
       (\<lambda>r. case r of
              None \<Rightarrow> n_return []
            | Some (code, out) \<Rightarrow>
                if code \<noteq> 0 then n_return []
                else n_bind (n_lift (scan_lines [] (py_splitlines out))) (\<lambda>s. n_return (sort_networks s)))"

datatype security_mode = SecOpen | SecWep | SecEnterprise | SecOwe | SecUnsupported | SecWpaPersonal

definition classify_security :: "pystr \<Rightarrow> security_mode" where
  "classify_security security =
     (let normalized = join [32] (py_words (py_upper security));
          tokens = set (py_words normalized);
          wpa = {lit ''WPA'', lit ''WPA1'', lit ''WPA2''}
      in if normalized = [] \<or> normalized = lit ''--'' then SecOpen
         else if contains (lit ''WEP'') normalized then SecWep
         else if contains (lit ''802.1X'') normalized \<or> contains (lit ''802-1X'') normalized
              \<or> contains (lit ''EAP'') normalized \<or> contains (lit ''ENTERPRISE'') normalized then SecEnterprise
         else if contains (lit ''OWE'') normalized then SecOwe
         else if lit ''SAE'' \<in> tokens \<and> tokens \<inter> wpa = {} then SecUnsupported
         else if tokens \<inter> wpa \<noteq> {} then SecWpaPersonal
         else SecUnsupported)"

section \<open>Logging and failure reasons\<close>

definition log_line :: "pystr \<Rightarrow> int \<Rightarrow> int \<Rightarrow> pystr" where
  "log_line stage code reason =
     lit ''wifi-setup: stage='' @ stage @ lit '' nmcli_exit='' @ show_int code @ lit '' reason='' @ show_int reason"

definition log_stage :: "pystr \<Rightarrow> int \<Rightarrow> int option \<Rightarrow> unit nio" where
  "log_stage stage code reason =
     (\<lambda>st. (Inr (), st\<lparr>nm_logs := log_line stage code (case reason of None \<Rightarrow> 0 | Some r \<Rightarrow> r) # nm_logs st\<rparr>))"

text \<open>\<open>re.search(r"GENERAL\.REASON:(\d+)", line)\<close>: the digits after the first match.\<close>

fun search_reason :: "pystr \<Rightarrow> pystr option" where
  "search_reason [] = None"
| "search_reason (c # cs) =
     (let tag = lit ''GENERAL.REASON:'';
          digits = takeWhile (\<lambda>x. decimal_value x \<noteq> None) (drop (length tag) (c # cs))
      in if starts_with tag (c # cs) \<and> digits \<noteq> [] then Some digits else search_reason cs)"

fun first_reason :: "pystr list \<Rightarrow> int option res" where
  "first_reason [] = Inr None"
| "first_reason (l # ls) =
     (case search_reason l of
        None \<Rightarrow> first_reason ls
      | Some digits \<Rightarrow> res_bind (py_int digits) (\<lambda>n. Inr (Some n)))"

definition except_reason :: "'a nio \<Rightarrow> exn \<Rightarrow> 'a nio option" where
  "except_reason k x = (if is_OSError x \<or> x = TimeoutExpired \<or> is_ValueError x then Some k else None)"

definition wifi_reason :: "env \<Rightarrow> nm \<Rightarrow> int option nio" where
  "wifi_reason e nm =
     n_catch
       (n_bind (run_nmcli e nm [lit ''-t'', lit ''--escape'', lit ''yes'', lit ''-f'', lit ''DEVICE,TYPE'',
            lit ''device'', lit ''status''] 5 None)
         (\<lambda>(code, out).
           if code \<noteq> 0 then n_return None
           else (case find (\<lambda>f. length f = 2 \<and> wifi_type (f ! 1)) (map split_escaped (py_splitlines out)) of
                   None \<Rightarrow> n_return None
                 | Some f \<Rightarrow>
                     if f ! 0 = [] then n_return None
                     else n_bind (run_nmcli e nm [lit ''-t'', lit ''-f'', lit ''GENERAL.REASON'', lit ''device'',
                              lit ''show'', f ! 0] 5 None)
                            (\<lambda>(code2, out2).
                              if code2 \<noteq> 0 then n_return None
                              else n_lift (first_reason (py_splitlines out2))))))
       (except_reason (n_return None))"

definition failure_message :: "int \<Rightarrow> int option \<Rightarrow> pystr" where
  "failure_message code reason =
     (if code = 3 then MSG_TIMEOUT
      else if code = 8 then MSG_NM_STOPPED
      else if reason \<in> {Some 5, Some 15, Some 16, Some 17} then MSG_NO_ADDRESS
      else if reason = Some 7 then MSG_NO_SECRETS
      else if reason \<in> {Some 8, Some 9, Some 10, Some 11} then MSG_AUTH_FAILED
      else if reason = Some 35 then MSG_FIRMWARE
      else if reason = Some 53 then MSG_SSID_GONE
      else MSG_CONNECT_FAILED)"

section \<open>Stages\<close>

text \<open>\<open>except TimeoutExpired\<close> and \<open>except OSError\<close> of a stage: log 3 or 8 and give the result \<open>k\<close> of it.\<close>

definition except_stage :: "pystr \<Rightarrow> (int \<Rightarrow> 'a) \<Rightarrow> exn \<Rightarrow> 'a nio option" where
  "except_stage stage k x =
     (if x = TimeoutExpired then Some (n_seq (log_stage stage 3 None) (n_return (k 3)))
      else if is_OSError x then Some (n_seq (log_stage stage 8 None) (n_return (k 8)))
      else None)"

text \<open>\<open>try: result = run_nmcli(...)\<close>, with the handlers of a stage: \<open>Inl\<close> is the early return.\<close>

definition stage_run ::
    "env \<Rightarrow> nm \<Rightarrow> pystr \<Rightarrow> pystr list \<Rightarrow> int \<Rightarrow> bytes option \<Rightarrow> (int \<Rightarrow> 'a) \<Rightarrow> ('a + int \<times> pystr) nio" where
  "stage_run e nm stage args t secret k =
     n_catch (n_bind (run_nmcli e nm args t secret) (\<lambda>r. n_return (Inr r)))
       (except_stage stage (\<lambda>c. Inl (k c)))"

definition fail_with_reason :: "env \<Rightarrow> nm \<Rightarrow> pystr \<Rightarrow> int \<Rightarrow> pystr option nio" where
  "fail_with_reason e nm stage code =
     n_bind (wifi_reason e nm) (\<lambda>reason.
     n_seq (log_stage stage code reason) (n_return (Some (failure_message code reason))))"

definition run_nmcli_stage :: "env \<Rightarrow> nm \<Rightarrow> pystr \<Rightarrow> pystr list \<Rightarrow> int \<Rightarrow> bytes option \<Rightarrow> pystr option nio" where
  "run_nmcli_stage e nm stage args t secret =
     n_bind (stage_run e nm stage args t secret (\<lambda>c. Some (failure_message c None))) (\<lambda>r.
       case r of
         Inl m \<Rightarrow> n_return m
       | Inr (code, out) \<Rightarrow> if code = 0 then n_return None else fail_with_reason e nm stage code)"

definition profile_exists :: "env \<Rightarrow> nm \<Rightarrow> bool option nio" where
  "profile_exists e nm =
     n_catch
       (n_bind (run_nmcli e nm [lit ''-t'', lit ''--escape'', lit ''yes'', lit ''-f'', lit ''NAME'',
            lit ''connection'', lit ''show''] 8 None)
         (\<lambda>(code, out).
           if code \<noteq> 0 then n_return None
           else n_return (Some (list_ex (\<lambda>l. split_escaped l = [CONNECTION_NAME]) (py_splitlines out)))))
       (except_run (n_return None))"

definition delete_args :: "pystr list" where
  "delete_args = [lit ''--wait'', lit ''5'', lit ''connection'', lit ''delete'', lit ''id'', CONNECTION_NAME]"

definition delete_old_profile :: "env \<Rightarrow> nm \<Rightarrow> pystr option nio" where
  "delete_old_profile e nm =
     n_bind (stage_run e nm (lit ''profile-delete'') delete_args 8 None (\<lambda>c. Some (failure_message c None))) (\<lambda>r.
       case r of
         Inl m \<Rightarrow> n_return m
       | Inr (code, out) \<Rightarrow>
           if code = 0 then n_return None
           else n_bind (profile_exists e nm) (\<lambda>ex.
             if ex = Some False then n_return None
             else fail_with_reason e nm (lit ''profile-delete'') code))"

definition cleanup_profile :: "env \<Rightarrow> nm \<Rightarrow> unit nio" where
  "cleanup_profile e nm =
     n_bind (stage_run e nm (lit ''profile-cleanup'') delete_args 8 None (\<lambda>c. ())) (\<lambda>r.
       case r of
         Inl _ \<Rightarrow> n_return ()
       | Inr (code, out) \<Rightarrow>
           if code = 0 then n_return ()
           else n_bind (profile_exists e nm) (\<lambda>ex.
             if ex = Some False then n_return ()
             else n_bind (wifi_reason e nm) (\<lambda>reason. log_stage (lit ''profile-cleanup'') code reason)))"

text \<open>The \<open>KEY:value\<close> lines of \<open>nmcli\<close> as a dictionary.\<close>

definition parse_values :: "pystr list \<Rightarrow> (pystr \<times> pystr) list" where
  "parse_values ls =
     fold (\<lambda>line m. case partition_at 58 line of (key, sep, v) \<Rightarrow>
             if sep then AList.update key (py_strip v) m else m) ls []"

definition AUTOCONNECT :: pystr where "AUTOCONNECT = lit ''connection.autoconnect''"
definition PSK_FLAGS :: pystr where "PSK_FLAGS = lit ''802-11-wireless-security.psk-flags''"

definition verify_autoconnect :: "env \<Rightarrow> nm \<Rightarrow> security_mode \<Rightarrow> pystr option nio" where
  "verify_autoconnect e nm mode =
     (let wanted = join [44] (AUTOCONNECT # (if mode = SecWpaPersonal then [PSK_FLAGS] else []));
          stage = lit ''autoconnect-check''
      in n_bind (stage_run e nm stage [lit ''-t'', lit ''--escape'', lit ''yes'', lit ''-f'', wanted,
             lit ''connection'', lit ''show'', lit ''id'', CONNECTION_NAME] 8 None (\<lambda>c. Some (failure_message c None))) (\<lambda>r.
         case r of
           Inl m \<Rightarrow> n_return m
         | Inr (code, out) \<Rightarrow>
             if code \<noteq> 0 then fail_with_reason e nm stage code
             else (let vs = parse_values (py_splitlines out) in
               if map_of vs AUTOCONNECT \<noteq> Some (lit ''yes'') then
                 n_seq (log_stage stage 0 None) (n_return (Some MSG_NO_AUTOCONNECT))
               else if mode = SecWpaPersonal \<and> map_of vs PSK_FLAGS \<noteq> Some (lit ''0'') then
                 n_seq (log_stage stage 0 None) (n_return (Some MSG_NO_PSK))
               else n_return None)))"

section \<open>The connect chain\<close>

text \<open>The checks before anything changes: the network must be in a fresh scan and provisionable.\<close>

fun mode_message :: "security_mode \<Rightarrow> pystr option" where
  "mode_message SecWep = Some MSG_WEP"
| "mode_message SecEnterprise = Some MSG_ENTERPRISE"
| "mode_message SecOwe = Some MSG_OWE"
| "mode_message SecUnsupported = Some MSG_UNSUPPORTED"
| "mode_message _ = None"

definition check_network :: "pystr \<Rightarrow> pystr \<Rightarrow> network list \<Rightarrow> (pystr + security_mode) res" where
  "check_network ssid password networks =
     (case find (\<lambda>n. fst n = ssid) networks of
        None \<Rightarrow> Inr (Inl MSG_SSID_UNKNOWN)
      | Some (_, _, security) \<Rightarrow>
          (let mode = classify_security security in
           case mode_message mode of
             Some m \<Rightarrow> Inr (Inl m)
           | None \<Rightarrow>
               if mode = SecOpen \<and> password \<noteq> [] then Inr (Inl MSG_OPEN_PASSWORD)
               else if mode = SecWpaPersonal then
                 (if password = [] then Inr (Inl MSG_PASSWORD_NEEDED)
                  else res_bind (validate_credentials ssid password) (\<lambda>problem.
                    case problem of Some m \<Rightarrow> Inr (Inl m) | None \<Rightarrow> Inr (Inr mode)))
               else Inr (Inr mode)))"

definition modify_args :: "security_mode \<Rightarrow> pystr list" where
  "modify_args mode =
     [lit ''connection'', lit ''modify'', CONNECTION_NAME, AUTOCONNECT, lit ''yes'']
     @ (if mode = SecWpaPersonal
        then [lit ''802-11-wireless-security.key-mgmt'', lit ''wpa-psk'', PSK_FLAGS, lit ''0''] else [])"

definition psk_payload :: "pystr \<Rightarrow> bytes res" where
  "psk_payload password = utf8_encode (lit ''802-11-wireless-security.psk:'' @ password @ [10])"

text \<open>Before the profile exists: radio on, delete the old profile, create the new one.\<close>

definition create_profile :: "env \<Rightarrow> nm \<Rightarrow> pystr \<Rightarrow> pystr option nio" where
  "create_profile e nm ssid =
     n_bind (run_nmcli_stage e nm (lit ''radio-on'') [lit ''radio'', lit ''wifi'', lit ''on''] 5 None) (\<lambda>radio.
     if radio \<noteq> None then n_return radio
     else n_bind (delete_old_profile e nm) (\<lambda>deleted.
       if deleted \<noteq> None then n_return deleted
       else run_nmcli_stage e nm (lit ''profile-create'')
         [lit ''connection'', lit ''add'', lit ''type'', lit ''wifi'', lit ''ifname'', lit ''*'',
          lit ''con-name'', CONNECTION_NAME, lit ''ssid'', ssid] 10 None))"

definition up_args :: "pystr list" where
  "up_args = [lit ''--wait'', lit ''30'', lit ''connection'', lit ''up'', lit ''id'', CONNECTION_NAME]"

text \<open>
  \<open>_temporary_fd\<close>: an anonymous file that only its owner may open, filled with the payload and rewound. The child process
  inherits the descriptor with its position, so it reads what \<open>stream_rest\<close> says.
\<close>

record stream =
  sm_mode :: nat
  sm_data :: bytes
  sm_pos :: nat

definition stream_new :: stream where
  "stream_new = \<lparr>sm_mode = 384, sm_data = [], sm_pos = 0\<rparr>"

definition stream_fchmod :: "nat \<Rightarrow> stream \<Rightarrow> stream" where
  "stream_fchmod m f = f\<lparr>sm_mode := m\<rparr>"

definition stream_write :: "bytes \<Rightarrow> stream \<Rightarrow> stream" where
  "stream_write bs f = f\<lparr>sm_data := take (sm_pos f) (sm_data f) @ bs @ drop (sm_pos f + length bs) (sm_data f),
     sm_pos := sm_pos f + length bs\<rparr>"

definition stream_seek :: "nat \<Rightarrow> stream \<Rightarrow> stream" where
  "stream_seek n f = f\<lparr>sm_pos := n\<rparr>"

definition stream_rest :: "stream \<Rightarrow> bytes" where
  "stream_rest f = drop (sm_pos f) (sm_data f)"

definition temporary_fd :: "nm \<Rightarrow> bytes \<Rightarrow> (pystr \<times> stream) res" where
  "temporary_fd nm payload =
     res_bind (nm_fd nm) (\<lambda>fd.
       Inr (lit ''/proc/self/fd/'' @ show_int fd, stream_seek 0 (stream_write payload (stream_fchmod 384 stream_new))))"

lemma temporary_fd_eq:
  "temporary_fd nm payload =
     res_bind (nm_fd nm) (\<lambda>fd. Inr (lit ''/proc/self/fd/'' @ show_int fd, \<lparr>sm_mode = 384, sm_data = payload, sm_pos = 0\<rparr>))"
  by (simp add: temporary_fd_def stream_new_def stream_fchmod_def stream_write_def stream_seek_def)

definition activate :: "env \<Rightarrow> nm \<Rightarrow> security_mode \<Rightarrow> pystr \<Rightarrow> pystr option nio" where
  "activate e nm mode password =
     (if mode = SecWpaPersonal then
        n_bind (n_lift (psk_payload password)) (\<lambda>payload.
        n_bind (n_lift (temporary_fd nm payload)) (\<lambda>(passwd_path, passwd_file).
        run_nmcli_stage e nm (lit ''activation'')
          (up_args @ [lit ''passwd-file'', passwd_path]) 35 (Some (stream_rest passwd_file))))
      else run_nmcli_stage e nm (lit ''activation'') up_args 35 None)"

text \<open>The command gets the path of the descriptor and reads the whole payload from it.\<close>

lemma activate_eq:
  "activate e nm mode password =
     (if mode = SecWpaPersonal then
        n_bind (n_lift (psk_payload password)) (\<lambda>payload.
        n_bind (n_lift (nm_fd nm)) (\<lambda>fd.
        run_nmcli_stage e nm (lit ''activation'')
          (up_args @ [lit ''passwd-file'', lit ''/proc/self/fd/'' @ show_int fd]) 35 (Some payload)))
      else run_nmcli_stage e nm (lit ''activation'') up_args 35 None)"
  by (cases "nm_fd nm") (simp_all add: activate_def temporary_fd_eq stream_rest_def n_bind_def n_lift_def)

text \<open>Once it exists: configure, activate, verify; the first failure stops the chain.\<close>

definition configure_profile :: "env \<Rightarrow> nm \<Rightarrow> security_mode \<Rightarrow> pystr \<Rightarrow> pystr option nio" where
  "configure_profile e nm mode password =
     n_bind (run_nmcli_stage e nm (lit ''profile-configure'') (modify_args mode) 10 None) (\<lambda>modified.
     if modified \<noteq> None then n_return modified
     else n_bind (activate e nm mode password) (\<lambda>activated.
       if activated \<noteq> None then n_return activated
       else verify_autoconnect e nm mode))"

text \<open>\<open>except (OSError, subprocess.TimeoutExpired)\<close> around the whole chain.\<close>

definition except_internal :: "exn \<Rightarrow> pystr option nio option" where
  "except_internal =
     except_run (n_seq (log_stage (lit ''internal'') 3 None) (n_return (Some MSG_STEP_TIMEOUT)))"

definition provision :: "env \<Rightarrow> nm \<Rightarrow> pystr \<Rightarrow> pystr \<Rightarrow> security_mode \<Rightarrow> pystr option nio" where
  "provision e nm ssid password mode =
     n_bind (n_catch (create_profile e nm ssid) except_internal) (\<lambda>not_created.
     if not_created \<noteq> None then n_return not_created
     else n_bind (n_catch (configure_profile e nm mode password) except_internal) (\<lambda>failure.
       if failure \<noteq> None then n_seq (cleanup_profile e nm) (n_return failure)
       else n_return None))"

text \<open>\<open>Some message\<close> is a refusal or failure, \<open>None\<close> an established connection.\<close>

definition connect_stages :: "env \<Rightarrow> nm \<Rightarrow> pystr \<Rightarrow> pystr \<Rightarrow> pystr option nio" where
  "connect_stages e nm ssid password =
     n_bind (scan_networks e nm) (\<lambda>networks.
     n_bind (n_lift (check_network ssid password networks)) (\<lambda>checked.
     case checked of
       Inl m \<Rightarrow> n_return (Some m)
     | Inr mode \<Rightarrow> provision e nm ssid password mode))"

text \<open>After success the credentials are saved where possible; the connection stands either way.\<close>

definition save_connection :: "env \<Rightarrow> pystr \<Rightarrow> pystr \<Rightarrow> pystr \<Rightarrow> (bool \<times> pystr) io" where
  "save_connection e sfx ssid password =
     (\<lambda>s. case persistent_storage_ready e s of
            Inl x \<Rightarrow> (Inl x, s)
          | Inr False \<Rightarrow> (Inr (True, MSG_NOT_SAVED), s)
          | Inr True \<Rightarrow>
              (case persist_credentials e sfx (ssid, password) s of
                 (Inr _, s') \<Rightarrow> (Inr (True, MSG_CONNECTED), s')
               | (Inl x, s') \<Rightarrow> (if is_OSError x then Inr (True, MSG_SAVE_FAILED) else Inl x, s')))"

text \<open>\<open>connect_wifi\<close> with \<open>_connect_wifi\<close>; the state is the adapter's and the file system.\<close>

definition connect_wifi ::
    "env \<Rightarrow> nm \<Rightarrow> pystr \<Rightarrow> pystr \<Rightarrow> pystr \<Rightarrow> nmst \<times> os \<Rightarrow> (bool \<times> pystr) res \<times> nmst \<times> os" where
  "connect_wifi e nm sfx ssid password =
     (\<lambda>(st, s).
        case validate_ssid ssid of
          Inl x \<Rightarrow> (Inl x, st, s)
        | Inr (Some m) \<Rightarrow> (Inr (False, m), st, s)
        | Inr None \<Rightarrow>
            (case validate_password_shape password of
               Some m \<Rightarrow> (Inr (False, m), st, s)
             | None \<Rightarrow>
                 (case connect_stages e nm ssid password st of
                    (Inl x, st') \<Rightarrow> (Inl x, st', s)
                  | (Inr (Some m), st') \<Rightarrow> (Inr (False, m), st', s)
                  | (Inr None, st') \<Rightarrow>
                      (case save_connection e sfx ssid password s of (r, s') \<Rightarrow> (r, st', s')))))"

lemmas nmcli_defs = NMCLI_def nmcli_path_def run_nmcli_def split_escaped_def wifi_type_def network_connected_def
  managed_wifi_active_def wifi_device_waiting_def scan_line_def network_key_def sort_networks_def
  scan_networks_def classify_security_def log_line_def log_stage_def except_reason_def wifi_reason_def
  failure_message_def except_stage_def stage_run_def fail_with_reason_def run_nmcli_stage_def
  profile_exists_def delete_args_def delete_old_profile_def cleanup_profile_def parse_values_def
  AUTOCONNECT_def PSK_FLAGS_def verify_autoconnect_def check_network_def modify_args_def psk_payload_def
  create_profile_def up_args_def activate_eq configure_profile_def except_internal_def provision_def
  connect_stages_def save_connection_def connect_wifi_def
declare nmcli_defs [py_eval]

end
