(* ===== verification/Nmcli_Scan.thy ===== *)
theory Nmcli_Scan
  imports Nmcli
begin

text \<open>
  What the scan of \<open>sushida_os/wifi/nmcli.py\<close> guarantees: the terse output is split back into the
  fields \<open>nmcli\<close> escaped, and the list offered to the user is bounded, free of duplicates, sorted,
  and holds for every admissible SSID its strongest reading.
\<close>

section \<open>Escaped fields\<close>

text \<open>How \<open>nmcli -t --escape yes\<close> writes a record: \<open>:\<close> and \<open>\\<close> are escaped inside a field.\<close>

definition nm_escape :: "pystr \<Rightarrow> pystr" where
  "nm_escape f = concat (map (\<lambda>c. if c = 92 \<or> c = 58 then [92, c] else [c]) f)"

definition nm_record :: "pystr list \<Rightarrow> pystr" where
  "nm_record flds = join [58] (map nm_escape flds)"

lemma split_esc_field: "split_esc flds cur False (nm_escape f @ r) = split_esc flds (cur @ f) False r"
  by (induction f arbitrary: cur) (auto simp: nm_escape_def)

lemma split_esc_record:
  assumes "fs \<noteq> []"
  shows "split_esc flds [] False (nm_record fs) = flds @ fs"
  using assms
proof (induction fs arbitrary: flds)
  case (Cons f fs)
  show ?case
  proof (cases "fs = []")
    case True
    then show ?thesis using split_esc_field [of flds "[]" f "[]"] by (simp add: nm_record_def)
  next
    case False
    then have "nm_record (f # fs) = nm_escape f @ 58 # nm_record fs"
      by (cases fs) (auto simp: nm_record_def)
    then show ?thesis using Cons.IH [OF False] by (simp add: split_esc_field)
  qed
qed simp

lemma rstrip_newlines: "s = [] \<or> last s \<noteq> 10 \<Longrightarrow> rev (dropWhile (\<lambda>c. c = 10) (rev s)) = s"
  by (cases s rule: rev_cases) auto

section \<open>One pass over the lines\<close>

text \<open>The reading a line stands for, when it is admissible.\<close>

definition reading :: "pystr \<Rightarrow> network option" where
  "reading line =
     (case split_escaped line of
        [ssid, raw, security] \<Rightarrow>
          if ssid_ok ssid then (case py_int raw of Inl _ \<Rightarrow> None | Inr n \<Rightarrow> Some (ssid, max 0 (min 100 n), security))
          else None
      | _ \<Rightarrow> None)"

definition measurable :: "pystr \<Rightarrow> bool" where
  "measurable line \<longleftrightarrow> no_surrogate line"

definition readings :: "pystr list \<Rightarrow> network list" where
  "readings ls = List.map_filter reading ls"

lemma readings_simps [simp]:
  "readings [] = []"
  "readings (l # ls) = (case reading l of None \<Rightarrow> readings ls | Some n \<Rightarrow> n # readings ls)"
  by (simp_all add: readings_def map_filter_simps split: option.split)

lemma split_esc_chars:
  "w \<in> set (split_esc flds cur esc s) \<Longrightarrow> set w \<subseteq> insert 92 (set s \<union> set cur \<union> \<Union> (set ` set flds))"
proof (induction flds cur esc s arbitrary: w rule: split_esc.induct)
  case (1 flds cur esc)
  then show ?case by (auto split: if_splits)
next
  case (2 flds cur esc c cs)
  show ?case
  proof (cases esc)
    case True
    then show ?thesis using 2(1) [OF True, of w] 2(5) by auto
  next
    case esc: False
    show ?thesis
    proof (cases "c = 92")
      case True
      then show ?thesis using 2(2) [OF esc True, of w] 2(5) esc by auto
    next
      case bs: False
      show ?thesis
      proof (cases "c = 58")
        case True
        then show ?thesis using 2(3) [OF esc bs True, of w] 2(5) esc bs by auto
      next
        case False
        then show ?thesis using 2(4) [OF esc bs False, of w] 2(5) esc bs by auto
      qed
    qed
  qed
qed

lemma split_escaped_measurable:
  assumes "measurable line" and "w \<in> set (split_escaped line)"
  shows "no_surrogate w"
proof -
  have "set w \<subseteq> insert 92 (set line)"
    using split_esc_chars [of w "[]" "[]" False] assms(2) set_dropWhileD
    by (fastforce simp: split_escaped_def)
  then show ?thesis
    using assms(1) by (auto simp: measurable_def no_surrogate_def list_ex_iff is_surrogate_def)
qed

definition better :: "strongest \<Rightarrow> network \<Rightarrow> bool" where
  "better m = (\<lambda>(ssid, signal, security). case map_of m ssid of None \<Rightarrow> True | Some (best, _) \<Rightarrow> signal > best)"

lemma scan_line_eq:
  assumes "measurable line"
  shows "scan_line m line = Inr (case reading line of
           None \<Rightarrow> m
         | Some (ssid, signal, security) \<Rightarrow>
             if better m (ssid, signal, security) then AList.update ssid (signal, security) m else m)"
proof (cases "\<exists>a b c. split_escaped line = [a, b, c]")
  case True
  then obtain a b c where sp: "split_escaped line = [a, b, c]" by blast
  then have "no_surrogate a" using split_escaped_measurable [OF assms] by simp
  then show ?thesis
    by (cases "py_int b")
       (auto simp: scan_line_def reading_def sp ssid_ok_def utf8_encode_cases better_def Let_def split: option.splits)
next
  case False
  then have "reading line = None" "scan_line m line = Inr m"
    by (auto simp: reading_def scan_line_def split: list.splits)
  then show ?thesis by simp
qed

lemma reading_ok: "reading l = Some (ssid, signal, security) \<Longrightarrow> ssid_ok ssid \<and> 0 \<le> signal \<and> signal \<le> 100"
  by (auto simp: reading_def split: list.splits if_splits sum.splits)

section \<open>The invariant of the scan\<close>

text \<open>\<open>m\<close> holds, for exactly the SSIDs among the readings \<open>rs\<close>, a strongest one.\<close>

definition best_fn :: "(pystr \<Rightarrow> (int \<times> pystr) option) \<Rightarrow> network set \<Rightarrow> bool" where
  "best_fn f R \<longleftrightarrow>
     (\<forall>ssid signal security. f ssid = Some (signal, security) \<longrightarrow>
        (ssid, signal, security) \<in> R \<and> (\<forall>s' sec'. (ssid, s', sec') \<in> R \<longrightarrow> s' \<le> signal))
     \<and> (\<forall>ssid s' sec'. (ssid, s', sec') \<in> R \<longrightarrow> f ssid \<noteq> None)"

definition best_of :: "strongest \<Rightarrow> network list \<Rightarrow> bool" where
  "best_of m rs \<longleftrightarrow> distinct (map fst m) \<and> best_fn (map_of m) (set rs)"

lemma best_fnI:
  assumes "\<And>ssid signal security. f ssid = Some (signal, security) \<Longrightarrow> (ssid, signal, security) \<in> R"
    and "\<And>ssid signal security s' sec'. f ssid = Some (signal, security) \<Longrightarrow> (ssid, s', sec') \<in> R \<Longrightarrow> s' \<le> signal"
    and "\<And>ssid s' sec'. (ssid, s', sec') \<in> R \<Longrightarrow> f ssid \<noteq> None"
  shows "best_fn f R"
  unfolding best_fn_def using assms by blast

lemma best_fnD:
  assumes "best_fn f R"
  shows "f s = Some (g, c) \<Longrightarrow> (s, g, c) \<in> R" "f s = Some (g, c) \<Longrightarrow> (s, s', c') \<in> R \<Longrightarrow> s' \<le> g"
    "(s, s', c') \<in> R \<Longrightarrow> \<exists>g c. f s = Some (g, c)"
  using assms unfolding best_fn_def by (blast, blast, fastforce)

lemma best_fn_keep:
  assumes b: "best_fn f R" and "f ssid = Some (best, x)" and "signal \<le> best"
  shows "best_fn f (insert (ssid, signal, security) R)"
proof (rule best_fnI)
  show "f s = Some (g, c) \<Longrightarrow> (s, g, c) \<in> insert (ssid, signal, security) R" for s g c
    using b by (simp add: best_fn_def)
  show "s' \<le> g" if "f s = Some (g, c)" "(s, s', sec') \<in> insert (ssid, signal, security) R" for s g c s' sec'
    using assms(2,3) that best_fnD(2) [OF b that(1), of s' sec'] by auto
  show "f s \<noteq> None" if "(s, s', sec') \<in> insert (ssid, signal, security) R" for s s' sec'
    using assms(2) that best_fnD(3) [OF b, of s s' sec'] by auto
qed

lemma best_fn_update:
  assumes b: "best_fn f R" and new: "\<And>best x. f ssid = Some (best, x) \<Longrightarrow> best < signal"
  shows "best_fn (f(ssid \<mapsto> (signal, security))) (insert (ssid, signal, security) R)"
proof (rule best_fnI)
  show "(f(ssid \<mapsto> (signal, security))) s = Some (g, c) \<Longrightarrow> (s, g, c) \<in> insert (ssid, signal, security) R" for s g c
    using b by (auto simp: best_fn_def split: if_splits)
  show "s' \<le> g" if f: "(f(ssid \<mapsto> (signal, security))) s = Some (g, c)"
    "(s, s', sec') \<in> insert (ssid, signal, security) R" for s g c s' sec'
  proof (cases "s = ssid \<and> (s, s', sec') \<in> R")
    case True
    then obtain best x where "f ssid = Some (best, x)" using b unfolding best_fn_def by fastforce
    then have "s' \<le> best" using True b unfolding best_fn_def by blast
    then show ?thesis using new [OF \<open>f ssid = Some (best, x)\<close>] f True by simp
  next
    case False
    then show ?thesis using f best_fnD(2) [OF b, of s g c s' sec'] by (auto split: if_splits)
  qed
  show "(f(ssid \<mapsto> (signal, security))) s \<noteq> None" if "(s, s', sec') \<in> insert (ssid, signal, security) R" for s s' sec'
    using that best_fnD(3) [OF b, of s s' sec'] by auto
qed

lemma best_of_step:
  assumes "best_of m rs"
  shows "best_of (if better m (ssid, signal, security) then AList.update ssid (signal, security) m else m)
           (rs @ [(ssid, signal, security)])"
proof (cases "better m (ssid, signal, security)")
  case True
  then have "best < signal" if "map_of m ssid = Some (best, x)" for best x
    using that by (simp add: better_def)
  then show ?thesis
    using assms True best_fn_update [of "map_of m" "set rs" ssid signal security]
    by (simp add: best_of_def update_conv' distinct_update)
next
  case False
  then obtain best x where "map_of m ssid = Some (best, x)" "signal \<le> best"
    by (auto simp: better_def split: option.splits)
  then show ?thesis
    using assms False best_fn_keep [of "map_of m" "set rs" ssid best x signal security] by (simp add: best_of_def)
qed

lemma scan_lines_best:
  assumes "\<forall>l \<in> set ls. measurable l" and "best_of m rs"
  shows "\<exists>m'. scan_lines m ls = Inr m' \<and> best_of m' (rs @ readings ls)"
  using assms
proof (induction ls arbitrary: m rs)
  case (Cons l ls)
  have l: "measurable l" using Cons.prems by simp
  show ?case
  proof (cases "reading l")
    case None
    then show ?thesis using Cons scan_line_eq [OF l, of m] by simp
  next
    case (Some n)
    obtain ssid signal security where n: "n = (ssid, signal, security)" by (cases n)
    let ?m = "if better m n then AList.update ssid (signal, security) m else m"
    have "scan_line m l = Inr ?m" using scan_line_eq [OF l, of m] Some n by simp
    moreover have "best_of ?m (rs @ [n])" using best_of_step [OF Cons.prems(2)] n by simp
    ultimately show ?thesis
      using Cons.IH [of ?m "rs @ [n]"] Cons.prems(1) Some by simp
  qed
qed simp

lemma best_of_empty: "best_of [] []"
  by (simp add: best_of_def best_fn_def)

definition scan_args :: "pystr list" where
  "scan_args = [lit ''-t'', lit ''--escape'', lit ''yes'', lit ''-f'', lit ''SSID,SIGNAL,SECURITY'',
     lit ''device'', lit ''wifi'', lit ''list'', lit ''--rescan'', lit ''yes'']"

section \<open>Properties\<close>

text \<open>
  Splitting inverts the escaping of \<open>nmcli -t --escape yes\<close>: any non-empty record of fields,
  colons, backslashes and all, comes back as it was, unless its last field ends in a newline.
\<close>

theorem split_escaped_record:
  assumes "flds \<noteq> []" and "nm_record flds = [] \<or> last (nm_record flds) \<noteq> 10"
  shows "split_escaped (nm_record flds) = flds"
  using split_esc_record [OF assms(1), of "[]"] assms(2) by (simp add: split_escaped_def rstrip_newlines)

theorem split_escaped_record_witness:
  "split_escaped (nm_record [[58, 92], lit ''80'', []]) = [[58, 92], lit ''80'', []]"
  by (rule split_escaped_record) (simp_all add: nm_record_def nm_escape_def lit_def)

text \<open>The names that have a best reading are the names that were read.\<close>

lemma best_fn_names:
  assumes "best_fn f R"
  shows "dom f = fst ` R"
proof (intro set_eqI iffI)
  fix x
  assume "x \<in> dom f"
  then obtain g c where "f x = Some (g, c)" by auto
  from best_fnD(1) [OF assms this] show "x \<in> fst ` R" by force
next
  fix x
  assume "x \<in> fst ` R"
  then obtain g c where "(x, g, c) \<in> R" by force
  from best_fnD(3) [OF assms this] show "x \<in> dom f" by auto
qed

text \<open>
  C21. The network list: when \<open>nmcli\<close> answers 0 with decoded text, \<open>scan_networks\<close> returns the SSIDs
  of the admissible lines, each once, with an admissible SSID, a signal between 0 and 100 that no
  other reading of the same SSID exceeds, and the security printed beside that signal, sorted by
  falling signal and then by case-folded name.
\<close>

theorem scan_networks_exact:
  assumes "nmcli_path e = Inr path"
    and "nm_answer nm (\<lparr>nc_args = path # scan_args, nc_timeout = 15, nc_secret = None\<rparr> # nm_calls st) = Inr (0, out)"
    and "\<forall>l \<in> set (py_splitlines out). measurable l"
  shows "\<exists>nets st'. scan_networks e nm st = (Inr nets, st')
     \<and> sorted (map network_key nets) \<and> distinct (map fst nets)
     \<and> fst ` set nets = fst ` set (readings (py_splitlines out))
     \<and> (\<forall>(ssid, signal, security) \<in> set nets.
          ssid_ok ssid \<and> 0 \<le> signal \<and> signal \<le> 100 \<and> (ssid, signal, security) \<in> set (readings (py_splitlines out))
          \<and> (\<forall>s' sec'. (ssid, s', sec') \<in> set (readings (py_splitlines out)) \<longrightarrow> s' \<le> signal))"
proof -
  let ?rs = "readings (py_splitlines out)"
  obtain m where m: "scan_lines [] (py_splitlines out) = Inr m" "best_of m ?rs"
    using scan_lines_best [OF assms(3) best_of_empty] by auto
  let ?nets = "sort_networks m"
  have set: "set ?nets = set m"
    by (auto simp: sort_networks_def)
  have d: "distinct (map fst m)" "best_fn (map_of m) (set ?rs)" using m(2) by (simp_all add: best_of_def)
  have mem: "(ssid, signal, security) \<in> set ?nets \<longleftrightarrow> map_of m ssid = Some (signal, security)" for ssid signal security
    using d(1) set by simp
  have ok: "ssid_ok ssid \<and> 0 \<le> signal \<and> signal \<le> 100" if "(ssid, signal, security) \<in> set ?rs" for ssid signal security
    using that reading_ok by (auto simp: readings_def map_filter_def)
  have "\<exists>st'. scan_networks e nm st = (Inr ?nets, st')"
    using assms(1,2) m(1)
    by (simp add: scan_networks_def scan_args_def n_bind_def n_catch_def n_return_def n_lift_def run_nmcli_def Let_def)
  moreover have "sorted (map network_key ?nets)" by (simp add: sort_networks_def)
  moreover have "distinct (map fst ?nets)"
    using d(1) by (simp add: sort_networks_def distinct_map inj_on_def)
  moreover have "fst ` set ?nets = fst ` set ?rs" using best_fn_names [OF d(2)] set by (simp add: dom_map_of_conv_image_fst)
  moreover have "\<forall>(ssid, signal, security) \<in> set ?nets.
          ssid_ok ssid \<and> 0 \<le> signal \<and> signal \<le> 100 \<and> (ssid, signal, security) \<in> set ?rs
          \<and> (\<forall>s' sec'. (ssid, s', sec') \<in> set ?rs \<longrightarrow> s' \<le> signal)"
  proof (clarify)
    fix ssid signal security
    assume "(ssid, signal, security) \<in> set ?nets"
    then have f: "map_of m ssid = Some (signal, security)" using mem by blast
    note r = best_fnD(1) [OF d(2) f]
    show "ssid_ok ssid \<and> 0 \<le> signal \<and> signal \<le> 100 \<and> (ssid, signal, security) \<in> set ?rs
        \<and> (\<forall>s' sec'. (ssid, s', sec') \<in> set ?rs \<longrightarrow> s' \<le> signal)"
      using ok [OF r] r best_fnD(2) [OF d(2) f] by blast
  qed
  ultimately show ?thesis by blast
qed

definition sample_nm :: "pystr \<Rightarrow> nm" where
  "sample_nm out = \<lparr>nm_answer = (\<lambda>_. Inr (0, out)), nm_fd = Inr 7\<rparr>"

theorem scan_networks_exact_witness:
  "\<exists>nets st'. scan_networks prod_env (sample_nm (lit ''cafe:140:WPA2'')) nmst_init = (Inr nets, st')
     \<and> distinct (map fst nets) \<and> fst ` set nets = {lit ''cafe''}"
proof -
  have out: "py_splitlines (lit ''cafe:140:WPA2'') = [lit ''cafe:140:WPA2'']"
    by (simp add: py_splitlines_def is_linebreak_def lit_def)
  have m: "measurable (lit ''cafe:140:WPA2'')"
    by (simp add: measurable_def no_surrogate_def is_surrogate_def lit_def)
  have r: "reading (lit ''cafe:140:WPA2'') = Some (lit ''cafe'', 100, lit ''WPA2'')"
    by (simp add: reading_def split_escaped_def ssid_ok_def no_surrogate_def is_surrogate_def utf8_ints_def utf8_cp_def
        control_char_def py_int_def py_strip_def py_isspace_def digit_count_def decimal_value_def ascii_digit_def
        max_str_digits_def lit_def)
  have "nmcli_path prod_env = Inr NMCLI" by (simp add: nmcli_path_def wifi_test_mode_def prod_env_def)
  moreover have "nm_answer (sample_nm (lit ''cafe:140:WPA2''))
      (\<lparr>nc_args = NMCLI # scan_args, nc_timeout = 15, nc_secret = None\<rparr> # nm_calls nmst_init) = Inr (0, lit ''cafe:140:WPA2'')"
    by (simp add: sample_nm_def)
  moreover have "\<forall>l \<in> set (py_splitlines (lit ''cafe:140:WPA2'')). measurable l" using out m by simp
  ultimately show ?thesis
    using scan_networks_exact [of prod_env NMCLI "sample_nm (lit ''cafe:140:WPA2'')" nmst_init "lit ''cafe:140:WPA2''"]
    unfolding out readings_simps r by auto
qed

end
