(* ===== verification/Nmcli_Connect.thy ===== *)
theory Nmcli_Connect
  imports Nmcli_Scan
begin

text \<open>
  What the connect chain of \<open>sushida_os/wifi/nmcli.py\<close> guarantees whatever \<open>nmcli\<close> answers: which
  command lines it can ever issue and what it logs, that neither depends on the password, that
  a failed attempt removes the profile it made, and what a success has verified.
\<close>

section \<open>The trace of a program\<close>

text \<open>
  \<open>news Q old cs\<close>: each of the calls \<open>cs\<close>, newest first, made after \<open>old\<close> satisfies \<open>Q\<close> with the calls before it.
  \<open>emits Q L m\<close>: the program \<open>m\<close> only adds calls that satisfy \<open>Q\<close> and log lines that satisfy \<open>L\<close> to
  the adapter's state.
\<close>

fun news :: "(nmcall list \<Rightarrow> nmcall \<Rightarrow> bool) \<Rightarrow> nmcall list \<Rightarrow> nmcall list \<Rightarrow> bool" where
  "news Q old [] \<longleftrightarrow> True"
| "news Q old (c # cs) \<longleftrightarrow> Q (cs @ old) c \<and> news Q old cs"

lemma news_append: "news Q old (cs' @ cs) \<longleftrightarrow> news Q (cs @ old) cs' \<and> news Q old cs"
  by (induction cs') auto

lemma news_const: "news (\<lambda>_. P) old cs \<longleftrightarrow> list_all P cs"
  by (induction cs) auto

definition emits :: "(nmcall list \<Rightarrow> nmcall \<Rightarrow> bool) \<Rightarrow> (pystr \<Rightarrow> bool) \<Rightarrow> 'a nio \<Rightarrow> bool" where
  "emits Q L m \<longleftrightarrow>
     (\<forall>st r st'. m st = (r, st') \<longrightarrow>
        (\<exists>cs ls. nm_calls st' = cs @ nm_calls st \<and> nm_logs st' = ls @ nm_logs st \<and> news Q (nm_calls st) cs \<and> list_all L ls))"

named_theorems emit_intros \<open>rules for \<open>emits\<close>\<close>

lemma emitsI:
  assumes "\<And>st r st'. m st = (r, st') \<Longrightarrow>
      \<exists>cs ls. nm_calls st' = cs @ nm_calls st \<and> nm_logs st' = ls @ nm_logs st \<and> news Q (nm_calls st) cs \<and> list_all L ls"
  shows "emits Q L m"
  using assms by (auto simp: emits_def)

lemma emitsE:
  assumes "emits Q L m" and "m st = (r, st')"
  obtains cs ls where "nm_calls st' = cs @ nm_calls st" "nm_logs st' = ls @ nm_logs st" "news Q (nm_calls st) cs" "list_all L ls"
  using assms unfolding emits_def by blast

lemma emits_simple [emit_intros]: "emits Q L (n_return x)" "emits Q L (n_lift r)"
  by (auto simp: emits_def nio_defs)

lemma emits_chain:
  assumes "emits Q L m" and "m st = (r, st1)" and "emits Q L k" and "k st1 = (r', st')"
  shows "\<exists>cs ls. nm_calls st' = cs @ nm_calls st \<and> nm_logs st' = ls @ nm_logs st \<and> news Q (nm_calls st) cs \<and> list_all L ls"
proof -
  obtain c1 l1 where 1: "nm_calls st1 = c1 @ nm_calls st" "nm_logs st1 = l1 @ nm_logs st" "news Q (nm_calls st) c1" "list_all L l1"
    using emitsE [OF assms(1,2)] .
  obtain c2 l2 where 2: "nm_calls st' = c2 @ nm_calls st1" "nm_logs st' = l2 @ nm_logs st1" "news Q (nm_calls st1) c2" "list_all L l2"
    using emitsE [OF assms(3,4)] .
  show ?thesis using 1 2 by (intro exI [of _ "c2 @ c1"] exI [of _ "l2 @ l1"]) (simp add: news_append)
qed

lemma emits_bind [emit_intros]:
  assumes m: "emits Q L m" and f: "\<And>x. emits Q L (f x)"
  shows "emits Q L (n_bind m f)"
proof (rule emitsI)
  fix st r st'
  assume e: "n_bind m f st = (r, st')"
  obtain x st1 where x: "m st = (x, st1)" by fastforce
  show "\<exists>cs ls. nm_calls st' = cs @ nm_calls st \<and> nm_logs st' = ls @ nm_logs st \<and> news Q (nm_calls st) cs \<and> list_all L ls"
  proof (cases x)
    case (Inl y)
    then have "st' = st1" using e x by (simp add: n_bind_def)
    then show ?thesis using emitsE [OF m x] by metis
  next
    case (Inr y)
    then show ?thesis using e x emits_chain [OF m x f, of y] by (simp add: n_bind_def)
  qed
qed

lemma emits_seq [emit_intros]: "emits Q L m \<Longrightarrow> emits Q L k \<Longrightarrow> emits Q L (n_seq m k)"
  unfolding n_seq_def by (rule emits_bind)

lemma emits_catch:
  assumes m: "emits Q L m" and h: "\<And>x k. h x = Some k \<Longrightarrow> emits Q L k"
  shows "emits Q L (n_catch m h)"
proof (rule emitsI)
  fix st r st'
  assume e: "n_catch m h st = (r, st')"
  obtain x st1 where x: "m st = (x, st1)" by fastforce
  show "\<exists>cs ls. nm_calls st' = cs @ nm_calls st \<and> nm_logs st' = ls @ nm_logs st \<and> news Q (nm_calls st) cs \<and> list_all L ls"
  proof (cases "\<exists>y k. x = Inl y \<and> h y = Some k")
    case True
    then obtain y k where k: "x = Inl y" "h y = Some k" by blast
    then have "k st1 = (r, st')" using e x by (simp add: n_catch_def)
    then show ?thesis by (rule emits_chain [OF m x h [OF k(2)]])
  next
    case False
    then have "st' = st1" using e x by (auto simp: n_catch_def split: sum.splits option.splits)
    then show ?thesis using emitsE [OF m x] by metis
  qed
qed

lemma emits_if [emit_intros]: "(c \<Longrightarrow> emits Q L a) \<Longrightarrow> (\<not> c \<Longrightarrow> emits Q L b) \<Longrightarrow> emits Q L (if c then a else b)"
  by simp

lemma emits_cases [emit_intros]:
  "emits Q L a \<Longrightarrow> (\<And>x. emits Q L (f x)) \<Longrightarrow> emits Q L (case opt of None \<Rightarrow> a | Some x \<Rightarrow> f x)"
  "(\<And>x y. emits Q L (g x y)) \<Longrightarrow> emits Q L (case p of (x, y) \<Rightarrow> g x y)"
  "(\<And>x. emits Q L (h x)) \<Longrightarrow> (\<And>x. emits Q L (k x)) \<Longrightarrow> emits Q L (case s of Inl x \<Rightarrow> h x | Inr x \<Rightarrow> k x)"
  by (auto split: option.split prod.split sum.split)

lemma emits_run [emit_intros]:
  assumes "\<And>path old. nmcli_path e = Inr path \<Longrightarrow> Q old \<lparr>nc_args = path # args, nc_timeout = t, nc_secret = secret\<rparr>"
  shows "emits Q L (run_nmcli e nm args t secret)"
proof (rule emitsI)
  fix st r st'
  assume "run_nmcli e nm args t secret st = (r, st')"
  then show "\<exists>cs ls. nm_calls st' = cs @ nm_calls st \<and> nm_logs st' = ls @ nm_logs st \<and> news Q (nm_calls st) cs \<and> list_all L ls"
    using assms by (cases "nmcli_path e") (auto simp: run_nmcli_def Let_def)
qed

lemma emits_log [emit_intros]:
  "(\<And>n. L (log_line stage code n)) \<Longrightarrow> emits Q L (log_stage stage code reason)"
  by (auto simp: emits_def log_stage_def)

lemma except_handlers:
  "except_run k x = Some k' \<Longrightarrow> k' = k"
  "except_reason k x = Some k' \<Longrightarrow> k' = k"
  "except_stage stage g x = Some h \<Longrightarrow>
     h = n_seq (log_stage stage 3 None) (n_return (g 3)) \<or> h = n_seq (log_stage stage 8 None) (n_return (g 8))"
  by (auto simp: except_run_def except_reason_def except_stage_def split: if_splits)

lemma emits_catch_run [emit_intros]: "emits Q L m \<Longrightarrow> emits Q L k \<Longrightarrow> emits Q L (n_catch m (except_run k))"
  by (rule emits_catch) (auto dest: except_handlers)

lemma emits_catch_reason [emit_intros]: "emits Q L m \<Longrightarrow> emits Q L k \<Longrightarrow> emits Q L (n_catch m (except_reason k))"
  by (rule emits_catch) (auto dest: except_handlers)

lemma emits_catch_stage [emit_intros]:
  "emits Q L m \<Longrightarrow> (\<And>c n. L (log_line stage c n)) \<Longrightarrow> emits Q L (n_catch m (except_stage stage g))"
  by (rule emits_catch) (auto dest!: except_handlers(3) intro: emits_seq emits_log emits_simple)

section \<open>The command lines and the log\<close>

text \<open>The log lines: a stage name and two numbers.\<close>

definition STAGES :: "pystr set" where
  "STAGES = {lit ''radio-on'', lit ''profile-delete'', lit ''profile-create'', lit ''profile-configure'', lit ''activation'',
     lit ''autoconnect-check'', lit ''profile-cleanup'', lit ''internal''}"

definition stage_log :: "pystr \<Rightarrow> bool" where
  "stage_log l \<longleftrightarrow> (\<exists>stage \<in> STAGES. \<exists>code reason. l = log_line stage code reason)"

text \<open>The words a command line of the chain consists of: fixed ones, or the SSID, or the descriptor's path.\<close>

definition FIXED_WORDS :: "pystr set" where
  "FIXED_WORDS = lit ` {''-t'', ''--escape'', ''yes'', ''-f'', ''SSID,SIGNAL,SECURITY'', ''device'', ''wifi'', ''list'',
     ''--rescan'', ''radio'', ''on'', ''--wait'', ''5'', ''30'', ''connection'', ''delete'', ''id'', ''NAME'', ''show'',
     ''DEVICE,TYPE'', ''status'', ''GENERAL.REASON'', ''add'', ''type'', ''ifname'', ''*'', ''con-name'', ''ssid'',
     ''modify'', ''connection.autoconnect'', ''802-11-wireless-security.key-mgmt'', ''wpa-psk'',
     ''802-11-wireless-security.psk-flags'', ''0'', ''up'', ''passwd-file'', ''sushida-os-wifi'',
     ''connection.autoconnect,802-11-wireless-security.psk-flags''}"

definition word_ok :: "pystr \<Rightarrow> pystr \<Rightarrow> bool" where
  "word_ok ssid w \<longleftrightarrow> w \<in> FIXED_WORDS \<or> w = ssid \<or> (\<exists>n. w = lit ''/proc/self/fd/'' @ show_int n)"

definition device_show :: "pystr \<Rightarrow> pystr list" where
  "device_show dev = [lit ''-t'', lit ''-f'', lit ''GENERAL.REASON'', lit ''device'', lit ''show'', dev]"

definition device_status :: "pystr list" where
  "device_status = [lit ''-t'', lit ''--escape'', lit ''yes'', lit ''-f'', lit ''DEVICE,TYPE'', lit ''device'', lit ''status'']"

text \<open>The newest of the calls \<open>old\<close> asked for the devices, and \<open>nmcli\<close> answered with a Wi-Fi device of this name.\<close>

definition reported :: "nm \<Rightarrow> nmcall list \<Rightarrow> pystr \<Rightarrow> bool" where
  "reported nm old dev \<longleftrightarrow>
     old \<noteq> [] \<and> tl (nc_args (hd old)) = device_status
     \<and> (\<exists>out. nm_answer nm old = Inr (0, out)
          \<and> (\<exists>line \<in> set (py_splitlines out). \<exists>ty. split_escaped line = [dev, ty] \<and> wifi_type ty))"

text \<open>
  A command line of the chain, made after the calls \<open>old\<close>: fixed words, or the query of a device that \<open>nmcli\<close> just
  reported; only the activation inherits a descriptor, and it holds the PSK line.
\<close>

definition call_ok :: "nm \<Rightarrow> pystr \<Rightarrow> pystr \<Rightarrow> nmcall list \<Rightarrow> nmcall \<Rightarrow> bool" where
  "call_ok nm ssid password old c \<longleftrightarrow>
     (list_all (word_ok ssid) (tl (nc_args c)) \<or> (\<exists>dev. tl (nc_args c) = device_show dev \<and> reported nm old dev))
     \<and> (nc_secret c = None
        \<or> (\<exists>n. tl (nc_args c) = up_args @ [lit ''passwd-file'', lit ''/proc/self/fd/'' @ show_int n])
          \<and> psk_payload password = Inr (the (nc_secret c)))"

lemma call_ok_fixed:
  "list_all (word_ok ssid) args \<Longrightarrow> call_ok nm ssid password old \<lparr>nc_args = path # args, nc_timeout = t, nc_secret = None\<rparr>"
  by (simp add: call_ok_def)

lemma call_ok_device:
  "reported nm old dev \<Longrightarrow> call_ok nm ssid password old \<lparr>nc_args = path # device_show dev, nc_timeout = t, nc_secret = None\<rparr>"
  by (auto simp: call_ok_def)

lemma stage_logI: "stage \<in> STAGES \<Longrightarrow> stage_log (log_line stage c n)"
  by (auto simp: stage_log_def)

abbreviation emitting :: "nm \<Rightarrow> pystr \<Rightarrow> pystr \<Rightarrow> 'a nio \<Rightarrow> bool" where
  "emitting nm ssid password \<equiv> emits (call_ok nm ssid password) stage_log"

lemma word_ok_fixed [simp]: "w \<in> FIXED_WORDS \<Longrightarrow> word_ok ssid w" "word_ok ssid ssid"
  "word_ok ssid (lit ''/proc/self/fd/'' @ show_int n)"
  by (auto simp: word_ok_def)

lemma fixed_lit [simp]: "lit w \<in> FIXED_WORDS \<longleftrightarrow> w \<in> {''-t'', ''--escape'', ''yes'', ''-f'', ''SSID,SIGNAL,SECURITY'', ''device'', ''wifi'', ''list'',
     ''--rescan'', ''radio'', ''on'', ''--wait'', ''5'', ''30'', ''connection'', ''delete'', ''id'', ''NAME'', ''show'',
     ''DEVICE,TYPE'', ''status'', ''GENERAL.REASON'', ''add'', ''type'', ''ifname'', ''*'', ''con-name'', ''ssid'',
     ''modify'', ''connection.autoconnect'', ''802-11-wireless-security.key-mgmt'', ''wpa-psk'',
     ''802-11-wireless-security.psk-flags'', ''0'', ''up'', ''passwd-file'', ''sushida-os-wifi'',
     ''connection.autoconnect,802-11-wireless-security.psk-flags''}"
  by (simp only: FIXED_WORDS_def inj_image_mem_iff [OF injI [of lit, OF lit_eq_iff [THEN iffD1]]])

lemma emitting_run:
  "list_all (word_ok ssid) args \<Longrightarrow> emitting nm ssid password (run_nmcli e nm args t None)"
  by (intro emits_run call_ok_fixed)

lemma emitting_scan: "emitting nm ssid password (scan_networks e nm)"
  unfolding scan_networks_def
  by (intro emit_intros emitting_run) simp_all

lemma found_reported:
  assumes "find (\<lambda>f. length f = 2 \<and> wifi_type (f ! 1)) (map split_escaped (py_splitlines out)) = Some f"
    and "nm_answer nm (c # old) = Inr (0, out)" and "tl (nc_args c) = device_status"
  shows "reported nm (c # old) (f ! 0)"
proof -
  have "f \<in> set (map split_escaped (py_splitlines out))" "length f = 2" "wifi_type (f ! 1)"
    using assms(1) by (auto simp: find_Some_iff)
  moreover from this have "f = [f ! 0, f ! 1]" by (auto simp: length_Suc_conv numeral_2_eq_2)
  ultimately obtain line where "line \<in> set (py_splitlines out)" "split_escaped line = [f ! 0, f ! 1]" by auto
  with \<open>wifi_type (f ! 1)\<close> show ?thesis using assms(2,3) unfolding reported_def by auto
qed

lemma emitting_reason: "emitting nm ssid password (wifi_reason e nm)"
  unfolding wifi_reason_def
proof (rule emits_catch_reason [OF emitsI emits_simple(1)], goal_cases)
  case (1 st r st')
  show ?case
  proof (cases "nmcli_path e")
    case (Inl x)
    then show ?thesis using 1 by (simp add: n_bind_def run_nmcli_def)
  next
    case (Inr path)
    let ?c = "\<lparr>nc_args = path # device_status, nc_timeout = 5, nc_secret = None\<rparr>"
    have c: "call_ok nm ssid password old ?c" for old
      by (rule call_ok_fixed) (simp add: device_status_def)
    have one: "\<exists>cs ls. nm_calls st' = cs @ nm_calls st \<and> nm_logs st' = ls @ nm_logs st
        \<and> news (call_ok nm ssid password) (nm_calls st) cs \<and> list_all stage_log ls"
      if "st' = st\<lparr>nm_calls := ?c # nm_calls st\<rparr>"
      using that c by (intro exI [of _ "[?c]"] exI [of _ "[]"]) simp
    have two: "\<exists>cs ls. nm_calls st' = cs @ nm_calls st \<and> nm_logs st' = ls @ nm_logs st
        \<and> news (call_ok nm ssid password) (nm_calls st) cs \<and> list_all stage_log ls"
      if "st' = st\<lparr>nm_calls := \<lparr>nc_args = path # device_show (f ! 0), nc_timeout = 5, nc_secret = None\<rparr> # ?c # nm_calls st\<rparr>"
        and "find (\<lambda>f. length f = 2 \<and> wifi_type (f ! 1)) (map split_escaped (py_splitlines out)) = Some f"
        and "nm_answer nm (?c # nm_calls st) = Inr (0, out)" for f out
      using that(1) c call_ok_device [OF found_reported [OF that(2,3)]]
      by (intro exI [of _ "[\<lparr>nc_args = path # device_show (f ! 0), nc_timeout = 5, nc_secret = None\<rparr>, ?c]"] exI [of _ "[]"]) simp
    have "st' = st\<lparr>nm_calls := ?c # nm_calls st\<rparr>
      \<or> (\<exists>f out. st' = st\<lparr>nm_calls := \<lparr>nc_args = path # device_show (f ! 0), nc_timeout = 5, nc_secret = None\<rparr> # ?c # nm_calls st\<rparr>
           \<and> find (\<lambda>f. length f = 2 \<and> wifi_type (f ! 1)) (map split_escaped (py_splitlines out)) = Some f
           \<and> nm_answer nm (?c # nm_calls st) = Inr (0, out))"
      using 1 Inr
      by (auto simp: n_bind_def run_nmcli_def n_return_def n_lift_def Let_def
          device_status_def [symmetric] device_show_def [symmetric] split: sum.splits prod.splits option.splits if_splits)
    then show ?thesis using one two by blast
  qed
qed

lemma emitting_fail: "stage \<in> STAGES \<Longrightarrow> emitting nm ssid password (fail_with_reason e nm stage code)"
  unfolding fail_with_reason_def by (intro emits_bind emits_seq emits_log emits_simple emitting_reason stage_logI)

lemma emitting_stage_run:
  assumes "stage \<in> STAGES" and "\<And>path old. call_ok nm ssid password old \<lparr>nc_args = path # args, nc_timeout = t, nc_secret = secret\<rparr>"
  shows "emitting nm ssid password (stage_run e nm stage args t secret k)"
  unfolding stage_run_def
  by (intro emits_catch_stage emits_bind emits_run emits_simple assms(2) stage_logI assms(1))

lemma emitting_stage:
  assumes "stage \<in> STAGES" and "\<And>path old. call_ok nm ssid password old \<lparr>nc_args = path # args, nc_timeout = t, nc_secret = secret\<rparr>"
  shows "emitting nm ssid password (run_nmcli_stage e nm stage args t secret)"
  unfolding run_nmcli_stage_def
  by (rule emits_bind [OF emitting_stage_run [OF assms]])
     (auto intro: emits_simple emitting_fail assms(1) split: sum.split)

lemma emitting_exists: "emitting nm ssid password (profile_exists e nm)"
  unfolding profile_exists_def
  by (auto intro!: emit_intros emitting_run)

lemma call_ok_delete: "call_ok nm ssid password old \<lparr>nc_args = path # delete_args, nc_timeout = t, nc_secret = None\<rparr>"
  by (rule call_ok_fixed) (simp add: delete_args_def CONNECTION_NAME_def)

lemma emitting_delete: "emitting nm ssid password (delete_old_profile e nm)"
  unfolding delete_old_profile_def
  by (rule emits_bind [OF emitting_stage_run])
     (auto simp: STAGES_def call_ok_delete intro!: emits_simple emits_bind emits_if emitting_exists emitting_fail split: sum.split)

lemma emitting_cleanup: "emitting nm ssid password (cleanup_profile e nm)"
  unfolding cleanup_profile_def
  by (rule emits_bind [OF emitting_stage_run])
     (auto simp: STAGES_def call_ok_delete intro!: emits_simple emits_bind emits_if emitting_exists emitting_reason
       emits_log stage_logI split: sum.split)

lemma wanted_word: "join [44] [AUTOCONNECT, PSK_FLAGS] = lit ''connection.autoconnect,802-11-wireless-security.psk-flags''"
  by (simp add: AUTOCONNECT_def PSK_FLAGS_def lit_def)

lemma emitting_verify: "emitting nm ssid password (verify_autoconnect e nm mode)"
proof -
  have w: "word_ok ssid (join [44] (AUTOCONNECT # (if mode = SecWpaPersonal then [PSK_FLAGS] else [])))"
    using wanted_word by (simp add: AUTOCONNECT_def)
  show ?thesis
    unfolding verify_autoconnect_def Let_def
    by (intro emits_bind emitting_stage_run emits_cases emits_if emits_simple emits_seq emits_log stage_logI emitting_fail
        call_ok_fixed) (use w in \<open>simp_all add: STAGES_def CONNECTION_NAME_def\<close>)
qed

lemma emitting_create: "emitting nm ssid password (create_profile e nm ssid)"
  unfolding create_profile_def
  by (intro emits_bind emits_if emits_simple emitting_stage emitting_delete call_ok_fixed)
     (simp_all add: STAGES_def CONNECTION_NAME_def)

lemma emitting_activate: "emitting nm ssid password (activate e nm mode password)"
proof -
  have "emitting nm ssid password (n_bind (n_lift (psk_payload password)) (\<lambda>payload.
        n_bind (n_lift (nm_fd nm)) (\<lambda>fd. run_nmcli_stage e nm (lit ''activation'')
          (up_args @ [lit ''passwd-file'', lit ''/proc/self/fd/'' @ show_int fd]) 35 (Some payload))))"
  proof (cases "psk_payload password")
    case (Inl x)
    then show ?thesis by (auto simp: emits_def nio_defs)
  next
    case (Inr payload)
    have "call_ok nm ssid password old \<lparr>nc_args = path # up_args @ [lit ''passwd-file'', lit ''/proc/self/fd/'' @ show_int fd],
        nc_timeout = 35, nc_secret = Some payload\<rparr>" for path fd old
      using Inr by (auto simp: call_ok_def up_args_def CONNECTION_NAME_def)
    then have "emitting nm ssid password (n_bind (n_lift (nm_fd nm)) (\<lambda>fd. run_nmcli_stage e nm (lit ''activation'')
          (up_args @ [lit ''passwd-file'', lit ''/proc/self/fd/'' @ show_int fd]) 35 (Some payload)))"
      by (intro emits_bind emits_simple emitting_stage) (simp_all add: STAGES_def)
    then show ?thesis using Inr by (simp add: n_bind_def n_lift_def)
  qed
  moreover have "emitting nm ssid password (run_nmcli_stage e nm (lit ''activation'') up_args 35 None)"
    by (intro emitting_stage call_ok_fixed) (simp_all add: STAGES_def up_args_def CONNECTION_NAME_def)
  ultimately show ?thesis by (simp add: activate_eq)
qed

lemma emitting_configure: "emitting nm ssid password (configure_profile e nm mode password)"
  unfolding configure_profile_def
  by (intro emits_bind emits_if emits_simple emitting_stage emitting_activate emitting_verify call_ok_fixed)
     (simp_all add: STAGES_def modify_args_def AUTOCONNECT_def PSK_FLAGS_def CONNECTION_NAME_def)

lemma emitting_internal: "emitting nm ssid password m \<Longrightarrow> emitting nm ssid password (n_catch m except_internal)"
  unfolding except_internal_def
  by (intro emits_catch_run emits_seq emits_log emits_simple stage_logI) (simp_all add: STAGES_def)

lemma emitting_connect: "emitting nm ssid password (connect_stages e nm ssid password)"
  unfolding connect_stages_def provision_def
  by (intro emits_bind emits_cases emits_if emits_simple emits_seq emitting_scan emitting_internal emitting_create
      emitting_configure emitting_cleanup)

section \<open>The password stays out of sight\<close>

text \<open>
  Two runs whose states agree on everything but the contents of inherited descriptors: \<open>same m m'\<close>
  says that from such states \<open>m\<close> and \<open>m'\<close> give the same result and end in such states.
\<close>

definition hide :: "nmcall \<Rightarrow> nmcall" where
  "hide c = c\<lparr>nc_secret := None\<rparr>"

definition alike :: "nmst \<Rightarrow> nmst \<Rightarrow> bool" where
  "alike st st' \<longleftrightarrow> nm_logs st = nm_logs st' \<and> map hide (nm_calls st) = map hide (nm_calls st')"

definition same :: "'a nio \<Rightarrow> 'a nio \<Rightarrow> bool" where
  "same m m' \<longleftrightarrow> (\<forall>st st'. alike st st' \<longrightarrow> fst (m st) = fst (m' st') \<and> alike (snd (m st)) (snd (m' st')))"

text \<open>What \<open>nmcli\<close> answers does not depend on the contents of the descriptor.\<close>

definition blind :: "nm \<Rightarrow> bool" where
  "blind nm \<longleftrightarrow> (\<forall>cs cs'. map hide cs = map hide cs' \<longrightarrow> nm_answer nm cs = nm_answer nm cs')"

lemma sameD: "same m m' \<Longrightarrow> alike st st' \<Longrightarrow> fst (m st) = fst (m' st')"
  "same m m' \<Longrightarrow> alike st st' \<Longrightarrow> alike (snd (m st)) (snd (m' st'))"
  by (auto simp: same_def)

lemma same_simple: "same (n_return x) (n_return x)" "same (n_lift r) (n_lift r)"
  by (auto simp: same_def nio_defs)

lemma same_bind:
  assumes m: "same m m'" and f: "\<And>x. same (f x) (f' x)"
  shows "same (n_bind m f) (n_bind m' f')"
  unfolding same_def
proof (intro allI impI)
  fix st st'
  assume a: "alike st st'"
  obtain x u where x: "m st = (x, u)" by fastforce
  obtain u' where x': "m' st' = (x, u')" and u: "alike u u'"
    using sameD [OF m a] x by (cases "m' st'") simp
  show "fst (n_bind m f st) = fst (n_bind m' f' st') \<and> alike (snd (n_bind m f st)) (snd (n_bind m' f' st'))"
    using x x' u sameD [OF f u] by (cases x) (simp_all add: n_bind_def)
qed

lemma same_seq: "same m m' \<Longrightarrow> same k k' \<Longrightarrow> same (n_seq m k) (n_seq m' k')"
  unfolding n_seq_def by (rule same_bind)

lemma same_catch:
  assumes m: "same m m'" and h: "\<And>x k. h x = Some k \<Longrightarrow> same k k"
  shows "same (n_catch m h) (n_catch m' h)"
  unfolding same_def
proof (intro allI impI)
  fix st st'
  assume a: "alike st st'"
  obtain x u where x: "m st = (x, u)" by fastforce
  obtain u' where x': "m' st' = (x, u')" and u: "alike u u'"
    using sameD [OF m a] x by (cases "m' st'") simp
  show "fst (n_catch m h st) = fst (n_catch m' h st') \<and> alike (snd (n_catch m h st)) (snd (n_catch m' h st'))"
    using x x' u sameD [OF h u] by (cases x) (simp_all add: n_catch_def split: option.split)
qed

lemma same_catch_run: "same m m' \<Longrightarrow> same k k \<Longrightarrow> same (n_catch m (except_run k)) (n_catch m' (except_run k))"
  by (rule same_catch) (auto dest: except_handlers)

lemma same_catch_reason: "same m m' \<Longrightarrow> same k k \<Longrightarrow> same (n_catch m (except_reason k)) (n_catch m' (except_reason k))"
  by (rule same_catch) (auto dest: except_handlers)

lemma same_log: "same (log_stage stage code reason) (log_stage stage code reason)"
  by (auto simp: same_def alike_def log_stage_def)

lemma same_catch_stage:
  "same m m' \<Longrightarrow> same (n_catch m (except_stage stage g)) (n_catch m' (except_stage stage g))"
  by (rule same_catch) (auto dest!: except_handlers(3) intro: same_seq same_log same_simple)

lemma blindD: "blind nm \<Longrightarrow> map hide cs = map hide cs' \<Longrightarrow> nm_answer nm cs = nm_answer nm cs'"
  unfolding blind_def by blast

lemma same_run:
  assumes b: "blind nm"
  shows "same (run_nmcli e nm args t s) (run_nmcli e nm args t s')"
  unfolding same_def
proof (intro allI impI)
  fix st st'
  assume a: "alike st st'"
  show "fst (run_nmcli e nm args t s st) = fst (run_nmcli e nm args t s' st')
      \<and> alike (snd (run_nmcli e nm args t s st)) (snd (run_nmcli e nm args t s' st'))"
  proof (cases "nmcli_path e")
    case (Inl x)
    then show ?thesis using a by (simp add: run_nmcli_def)
  next
    case (Inr path)
    let ?c = "\<lambda>s. \<lparr>nc_args = path # args, nc_timeout = t, nc_secret = s\<rparr>"
    have h: "map hide (?c s # nm_calls st) = map hide (?c s' # nm_calls st')"
      using a by (simp add: alike_def hide_def)
    show ?thesis
      using a h blindD [OF b h] by (simp add: run_nmcli_def Inr Let_def alike_def)
  qed
qed

lemma same_if: "same a a' \<Longrightarrow> same b b' \<Longrightarrow> same (if c then a else b) (if c then a' else b')"
  by simp

lemma same_cases:
  "same a a' \<Longrightarrow> (\<And>x. same (f x) (f' x)) \<Longrightarrow>
     same (case opt of None \<Rightarrow> a | Some x \<Rightarrow> f x) (case opt of None \<Rightarrow> a' | Some x \<Rightarrow> f' x)"
  "(\<And>x y. same (g x y) (g' x y)) \<Longrightarrow> same (case p of (x, y) \<Rightarrow> g x y) (case p of (x, y) \<Rightarrow> g' x y)"
  "(\<And>x. same (h x) (h' x)) \<Longrightarrow> (\<And>x. same (k x) (k' x)) \<Longrightarrow>
     same (case s of Inl x \<Rightarrow> h x | Inr x \<Rightarrow> k x) (case s of Inl x \<Rightarrow> h' x | Inr x \<Rightarrow> k' x)"
  by (auto split: option.split prod.split sum.split)

lemmas same_intros = same_bind same_seq same_simple same_if same_cases same_log same_catch_run same_catch_reason
  same_catch_stage

lemma same_helpers:
  assumes "blind nm"
  shows "same (scan_networks e nm) (scan_networks e nm)"
    and "same (wifi_reason e nm) (wifi_reason e nm)"
    and "same (profile_exists e nm) (profile_exists e nm)"
  unfolding scan_networks_def wifi_reason_def profile_exists_def
  by (intro same_intros same_run [OF assms])+

lemma same_fail: "blind nm \<Longrightarrow> same (fail_with_reason e nm stage code) (fail_with_reason e nm stage code)"
  unfolding fail_with_reason_def by (intro same_intros same_helpers)

lemma same_stage_run: "blind nm \<Longrightarrow> same (stage_run e nm stage args t s k) (stage_run e nm stage args t s' k)"
  unfolding stage_run_def by (intro same_intros same_run)

lemma same_stage: "blind nm \<Longrightarrow> same (run_nmcli_stage e nm stage args t s) (run_nmcli_stage e nm stage args t s')"
  unfolding run_nmcli_stage_def by (intro same_intros same_stage_run same_fail)

lemma same_steps:
  assumes "blind nm"
  shows "same (delete_old_profile e nm) (delete_old_profile e nm)"
    and "same (cleanup_profile e nm) (cleanup_profile e nm)"
    and "same (verify_autoconnect e nm mode) (verify_autoconnect e nm mode)"
    and "same (create_profile e nm ssid) (create_profile e nm ssid)"
  unfolding delete_old_profile_def cleanup_profile_def verify_autoconnect_def create_profile_def Let_def
  by (intro same_intros same_stage_run same_stage same_fail same_helpers assms)+

lemma psk_payload_ok: "psk_ok p \<Longrightarrow> \<exists>b. psk_payload p = Inr b"
  by (auto simp: psk_payload_def utf8_encode_cases psk_ok_def no_surrogate_def is_surrogate_def lit_def)

lemma same_activate:
  assumes "blind nm" and "psk_ok p" "psk_ok p'"
  shows "same (activate e nm mode p) (activate e nm mode p')"
proof -
  obtain b b' where "psk_payload p = Inr b" "psk_payload p' = Inr b'" using psk_payload_ok assms by blast
  then have l: "n_bind (n_lift (psk_payload p)) f = f b" "n_bind (n_lift (psk_payload p')) f' = f' b'"
    for f f' :: "bytes \<Rightarrow> pystr option nio"
    by (simp_all add: n_bind_def n_lift_def)
  show ?thesis
    unfolding activate_eq l by (intro same_intros same_stage assms(1))
qed

lemma same_provision:
  assumes "blind nm" and "psk_ok p" "psk_ok p'"
  shows "same (provision e nm ssid p mode) (provision e nm ssid p' mode)"
  unfolding provision_def configure_profile_def except_internal_def
  by (intro same_intros same_steps same_activate same_stage assms)

lemma check_network_psk:
  assumes "psk_ok p" "psk_ok p'"
  shows "check_network ssid p nets = check_network ssid p' nets"
proof -
  have ne: "p \<noteq> []" "p' \<noteq> []" using assms by (auto simp: psk_ok_def utf8_ints_def)
  have "validate_password_shape p = None" "validate_password_shape p' = None" "no_surrogate p" "no_surrogate p'"
    using assms by (auto simp: psk_ok_def validate_shape_ok)
  then have "validate_credentials ssid p = validate_credentials ssid p'"
    using assms by (cases "validate_ssid ssid")
      (auto simp: validate_credentials_def utf8_encode_cases psk_ok_def Let_def split: option.split)
  with ne show ?thesis by (simp add: check_network_def Let_def split: option.split)
qed

lemma same_connect:
  assumes "blind nm" and "psk_ok p" "psk_ok p'"
  shows "same (connect_stages e nm ssid p) (connect_stages e nm ssid p')"
  unfolding connect_stages_def check_network_psk [OF assms(2,3)]
  by (intro same_intros same_helpers same_provision assms)

section \<open>Cleaning up\<close>

text \<open>The call that creates the profile, and the one that deletes it.\<close>

definition add_args :: "pystr \<Rightarrow> pystr list" where
  "add_args ssid = [lit ''connection'', lit ''add'', lit ''type'', lit ''wifi'', lit ''ifname'', lit ''*'',
     lit ''con-name'', CONNECTION_NAME, lit ''ssid'', ssid]"

definition is_add :: "nmcall \<Rightarrow> bool" where
  "is_add c \<longleftrightarrow> (\<exists>ssid. tl (nc_args c) = add_args ssid)"

definition is_delete :: "nmcall \<Rightarrow> bool" where
  "is_delete c \<longleftrightarrow> tl (nc_args c) = delete_args"

text \<open>A program that creates no profile.\<close>

abbreviation adds_none :: "'a nio \<Rightarrow> bool" where
  "adds_none m \<equiv> emits (\<lambda>_ c. \<not> is_add c) (\<lambda>_. True) m"

lemma not_add:
  "hd args \<noteq> lit ''connection'' \<or> tl args = [] \<or> hd (tl args) \<noteq> lit ''add'' \<Longrightarrow>
   \<not> is_add \<lparr>nc_args = path # args, nc_timeout = t, nc_secret = s\<rparr>"
  by (auto simp: is_add_def add_args_def)

lemma adds_none_helpers:
  "adds_none (wifi_reason e nm)" "adds_none (profile_exists e nm)"
  unfolding wifi_reason_def profile_exists_def
  by (intro emits_catch_reason emits_catch_run emits_bind emits_cases emits_if emits_simple emits_run not_add;
      simp add: lit_def)+

lemma adds_none_fail: "adds_none (fail_with_reason e nm stage code)"
  unfolding fail_with_reason_def by (intro emits_bind emits_seq emits_log emits_simple adds_none_helpers TrueI)

lemma adds_none_stage_run:
  "hd args \<noteq> lit ''connection'' \<or> tl args = [] \<or> hd (tl args) \<noteq> lit ''add'' \<Longrightarrow> adds_none (stage_run e nm stage args t s k)"
  unfolding stage_run_def by (intro emits_catch_stage emits_bind emits_run emits_simple not_add TrueI)

lemma adds_none_stage:
  "hd args \<noteq> lit ''connection'' \<or> tl args = [] \<or> hd (tl args) \<noteq> lit ''add'' \<Longrightarrow> adds_none (run_nmcli_stage e nm stage args t s)"
  unfolding run_nmcli_stage_def
  by (intro emits_bind emits_cases emits_if emits_simple adds_none_stage_run adds_none_fail)

lemma adds_none_cleanup: "adds_none (cleanup_profile e nm)"
  unfolding cleanup_profile_def
  by (intro emits_bind emits_cases emits_if emits_simple adds_none_stage_run adds_none_helpers emits_log TrueI)
     (simp add: delete_args_def)

lemma adds_none_delete: "adds_none (delete_old_profile e nm)"
  unfolding delete_old_profile_def
  by (intro emits_bind emits_cases emits_if emits_simple adds_none_stage_run adds_none_helpers adds_none_fail)
     (simp add: delete_args_def)

lemma adds_none_scan: "adds_none (scan_networks e nm)"
  unfolding scan_networks_def
  by (intro emits_catch_run emits_bind emits_cases emits_if emits_simple emits_run not_add) simp_all

lemma adds_none_configure: "adds_none (n_catch (configure_profile e nm mode p) except_internal)"
  unfolding configure_profile_def activate_eq verify_autoconnect_def except_internal_def Let_def
  by (intro emits_catch_run emits_bind emits_cases emits_if emits_simple emits_seq emits_log adds_none_stage
      adds_none_stage_run adds_none_fail TrueI) (simp_all add: modify_args_def up_args_def)

text \<open>The newest call of the history created the profile.\<close>

definition made :: "nm \<Rightarrow> nmcall list \<Rightarrow> bool" where
  "made nm cs \<longleftrightarrow> cs \<noteq> [] \<and> is_add (hd cs) \<and> (\<exists>out. nm_answer nm cs = Inr (0, out))"

lemma n_bind_cases:
  assumes "n_bind m f st = (r, st')"
  obtains x where "m st = (Inl x, st')" "r = Inl x"
  | x st1 where "m st = (Inr x, st1)" "f x st1 = (r, st')"
  using assms by (auto simp: n_bind_def split: prod.splits sum.splits)

lemma adds_noneE:
  assumes "adds_none m" and "m st = (r, st')"
  obtains n where "nm_calls st' = n @ nm_calls st" "\<forall>c \<in> set n. \<not> is_add c"
  using emitsE [OF assms] by (metis list_all_iff news_const)

lemma stage_run_cases:
  assumes "stage_run e nm stage args t s k st = (r, st')" and "nmcli_path e = Inr path"
  obtains out where "r = Inr (Inr out)" "nm_answer nm (nm_calls st') = Inr out"
    "nm_calls st' = \<lparr>nc_args = path # args, nc_timeout = t, nc_secret = s\<rparr> # nm_calls st"
  | x where "nm_answer nm (nm_calls st') = Inl x" "\<And>y. r \<noteq> Inr (Inr y)"
    "nm_calls st' = \<lparr>nc_args = path # args, nc_timeout = t, nc_secret = s\<rparr> # nm_calls st"
proof -
  let ?c = "\<lparr>nc_args = path # args, nc_timeout = t, nc_secret = s\<rparr> # nm_calls st"
  show ?thesis
  proof (cases "nm_answer nm ?c")
    case (Inl x)
    then show ?thesis
      using assms that(2) [of x]
      by (auto simp: stage_run_def run_nmcli_def n_catch_def n_bind_def except_stage_def n_seq_def log_stage_def
          n_return_def Let_def split: if_splits)
  next
    case (Inr out)
    then show ?thesis
      using assms that(1) [of out]
      by (auto simp: stage_run_def run_nmcli_def n_catch_def n_bind_def n_return_def Let_def)
  qed
qed

lemma stage_run_no_path: "nmcli_path e = Inl x \<Longrightarrow> nm_calls (snd (stage_run e nm stage args t s k st)) = nm_calls st"
  by (auto simp: stage_run_def run_nmcli_def n_catch_def n_bind_def except_stage_def n_seq_def log_stage_def n_return_def)

text \<open>A stage makes its call first; a result \<open>None\<close> is exit status 0.\<close>

lemma run_stage_trace:
  assumes "run_nmcli_stage e nm stage args t s st = (r, st')" and "nmcli_path e = Inr path"
  obtains n where "nm_calls st' = n @ \<lparr>nc_args = path # args, nc_timeout = t, nc_secret = s\<rparr> # nm_calls st"
    "\<forall>c \<in> set n. \<not> is_add c"
    "(\<exists>out. nm_answer nm (\<lparr>nc_args = path # args, nc_timeout = t, nc_secret = s\<rparr> # nm_calls st) = Inr (0, out))
       \<longleftrightarrow> r = Inr None"
  using assms(1) unfolding run_nmcli_stage_def
proof (cases rule: n_bind_cases)
  case (1 x)
  show ?thesis
    by (rule stage_run_cases [OF 1(1) assms(2)]) (use 1 that [of "[]"] in auto)
next
  case (2 x st1)
  show ?thesis
  proof (rule stage_run_cases [OF 2(1) assms(2)])
    fix out
    assume o: "Inr x = Inr (Inr out)" "nm_answer nm (nm_calls st1) = Inr out"
      "nm_calls st1 = \<lparr>nc_args = path # args, nc_timeout = t, nc_secret = s\<rparr> # nm_calls st"
    obtain code tx where out: "out = (code, tx)" by (cases out)
    show ?thesis
    proof (cases "code = 0")
      case True
      then show ?thesis using o out 2(2) that [of "[]"] by (auto simp: n_return_def)
    next
      case False
      then have f: "fail_with_reason e nm stage code st1 = (r, st')" using 2(2) o out by simp
      obtain n where n: "nm_calls st' = n @ nm_calls st1" "\<forall>c \<in> set n. \<not> is_add c"
        using adds_noneE [OF adds_none_fail f] .
      have "r \<noteq> Inr None" using f by (auto simp: fail_with_reason_def n_bind_def n_seq_def n_return_def split: prod.splits sum.splits)
      then show ?thesis using that [of n] n o out False by auto
    qed
  next
    fix y
    assume y: "nm_answer nm (nm_calls st1) = Inl y" "\<And>z. Inr x \<noteq> Inr (Inr z)"
      "nm_calls st1 = \<lparr>nc_args = path # args, nc_timeout = t, nc_secret = s\<rparr> # nm_calls st"
    then obtain m where "x = Inl m" by (cases x) auto
    then have "st' = st1" "r = Inr m" using 2(2) by (auto simp: n_return_def)
    moreover have "m \<noteq> None"
      using 2(1) \<open>x = Inl m\<close> assms(2) y(1,3)
      by (auto simp: stage_run_def run_nmcli_def n_catch_def n_bind_def except_stage_def n_seq_def log_stage_def
          n_return_def Let_def split: if_splits sum.splits)
    ultimately show ?thesis using that [of "[]"] y by auto
  qed
qed

text \<open>In the calls \<open>n\<close> made since \<open>old\<close>, the creation at some point implies \<open>P\<close>.\<close>

definition made_implies :: "nm \<Rightarrow> nmcall list \<Rightarrow> nmcall list \<Rightarrow> bool \<Rightarrow> bool" where
  "made_implies nm old n P \<longleftrightarrow> (\<forall>l c k. n = l @ c # k \<longrightarrow> made nm (c # k @ old) \<longrightarrow> P)"

lemma made_implies_none: "(\<forall>c \<in> set n. \<not> is_add c) \<Longrightarrow> made_implies nm old n P"
  by (auto simp: made_implies_def made_def)

lemma create_profile_trace:
  assumes "create_profile e nm ssid st = (r, st')"
  shows "\<exists>n. nm_calls st' = n @ nm_calls st \<and> made_implies nm (nm_calls st) n (r = Inr None)"
proof (cases "nmcli_path e")
  case (Inl x)
  then have "r = Inl x" "st' = st"
    using assms by (auto simp: create_profile_def run_nmcli_stage_def stage_run_def run_nmcli_def n_catch_def n_bind_def
        except_stage_def n_seq_def log_stage_def n_return_def nmcli_path_def is_OSError_def split: if_splits option.splits)
  then show ?thesis by (simp add: made_implies_def)
next
  case (Inr path)
  have radio: "adds_none (run_nmcli_stage e nm (lit ''radio-on'') [lit ''radio'', lit ''wifi'', lit ''on''] 5 None)"
    by (rule adds_none_stage) simp
  from assms show ?thesis
    unfolding create_profile_def
  proof (cases rule: n_bind_cases)
    case (1 x)
    then show ?thesis using adds_noneE [OF radio 1(1)] made_implies_none by metis
  next
    case a: (2 x st1)
    obtain n1 where n1: "nm_calls st1 = n1 @ nm_calls st" "\<forall>c \<in> set n1. \<not> is_add c"
      using adds_noneE [OF radio a(1)] .
    show ?thesis
    proof (cases "x = None")
      case False
      then have "st' = st1" using a(2) by (simp add: n_return_def)
      then show ?thesis using n1 made_implies_none by blast
    next
      case True
      have "n_bind (delete_old_profile e nm) (\<lambda>deleted.
         if deleted \<noteq> None then n_return deleted
         else run_nmcli_stage e nm (lit ''profile-create'') (add_args ssid) 10 None) st1 = (r, st')"
        using a(2) True unfolding add_args_def by simp
      then show ?thesis
      proof (cases rule: n_bind_cases)
        case (1 y)
        obtain n2 where "nm_calls st' = n2 @ nm_calls st1" "\<forall>c \<in> set n2. \<not> is_add c"
          using adds_noneE [OF adds_none_delete 1(1)] .
        then show ?thesis using n1 by (intro exI [of _ "n2 @ n1"]) (auto intro!: made_implies_none)
      next
        case b: (2 y st2)
        obtain n2 where n2: "nm_calls st2 = n2 @ nm_calls st1" "\<forall>c \<in> set n2. \<not> is_add c"
          using adds_noneE [OF adds_none_delete b(1)] .
        show ?thesis
        proof (cases "y = None")
          case False
          then have "st' = st2" using b(2) by (simp add: n_return_def)
          then show ?thesis using n1 n2 by (intro exI [of _ "n2 @ n1"]) (auto intro!: made_implies_none)
        next
          case True
          with b(2) have run: "run_nmcli_stage e nm (lit ''profile-create'') (add_args ssid) 10 None st2 = (r, st')" by simp
          let ?a = "\<lparr>nc_args = path # add_args ssid, nc_timeout = 10, nc_secret = None\<rparr>"
          obtain n3 where n3: "nm_calls st' = n3 @ ?a # nm_calls st2" "\<forall>c \<in> set n3. \<not> is_add c"
            "(\<exists>out. nm_answer nm (?a # nm_calls st2) = Inr (0, out)) \<longleftrightarrow> r = Inr None"
            using run_stage_trace [OF run Inr] .
          have "made_implies nm (nm_calls st) (n3 @ ?a # n2 @ n1) (r = Inr None)"
            unfolding made_implies_def
          proof (intro allI impI)
            fix l c k
            assume eq: "n3 @ ?a # n2 @ n1 = l @ c # k" and m: "made nm (c # k @ nm_calls st)"
            then have "is_add c" by (simp add: made_def)
            then have "c \<notin> set n3" "c \<notin> set (n2 @ n1)" using n3(2) n1(2) n2(2) by auto
            then have "c # k = ?a # n2 @ n1"
              using eq by (auto simp: append_eq_append_conv2 append_eq_Cons_conv Cons_eq_append_conv)
            then show "r = Inr None" using m n3(3) n2(1) n1(1) by (simp add: made_def)
          qed
          then show ?thesis using n3(1) n2(1) n1(1) by (intro exI [of _ "n3 @ ?a # n2 @ n1"]) simp
        qed
      qed
    qed
  qed
qed

lemma cleanup_deletes:
  assumes "cleanup_profile e nm st = (r, st')" and "nmcli_path e = Inr path"
  shows "\<exists>n. nm_calls st' = n @ nm_calls st \<and> list_ex is_delete n"
  using assms(1) unfolding cleanup_profile_def
proof (cases rule: n_bind_cases)
  case (1 x)
  show ?thesis
    by (rule stage_run_cases [OF 1(1) assms(2)]) (simp_all add: is_delete_def)
next
  case (2 x st1)
  have c: "nm_calls st1 = \<lparr>nc_args = path # delete_args, nc_timeout = 8, nc_secret = None\<rparr> # nm_calls st"
    by (rule stage_run_cases [OF 2(1) assms(2)]) simp_all
  have rest: "adds_none (case x of Inl _ \<Rightarrow> n_return ()
       | Inr (code, out) \<Rightarrow> if code = 0 then n_return ()
           else n_bind (profile_exists e nm) (\<lambda>ex. if ex = Some False then n_return ()
             else n_bind (wifi_reason e nm) (\<lambda>reason. log_stage (lit ''profile-cleanup'') code reason)))"
    by (intro emits_bind emits_cases emits_if emits_simple adds_none_helpers emits_log TrueI)
  obtain n where "nm_calls st' = n @ nm_calls st1" using adds_noneE [OF rest 2(2)] .
  then show ?thesis using c by (intro exI [of _ "n @ [\<lparr>nc_args = path # delete_args, nc_timeout = 8, nc_secret = None\<rparr>]"])
      (simp add: is_delete_def)
qed

text \<open>Every creation among the calls \<open>n\<close> made since \<open>old\<close> is followed by a deletion.\<close>

definition cleaned :: "nm \<Rightarrow> nmcall list \<Rightarrow> nmcall list \<Rightarrow> bool" where
  "cleaned nm old n \<longleftrightarrow> (\<forall>l c k. n = l @ c # k \<longrightarrow> made nm (c # k @ old) \<longrightarrow> list_ex is_delete l)"

lemma cleaned_none: "(\<forall>c \<in> set n. \<not> is_add c) \<Longrightarrow> cleaned nm old n"
  by (auto simp: cleaned_def made_def)

lemma cleaned_unmade: "made_implies nm old n False \<Longrightarrow> cleaned nm old n"
  by (auto simp: cleaned_def made_implies_def)

lemma cleaned_append:
  assumes "cleaned nm old n" and "\<forall>c \<in> set n'. \<not> is_add c"
  shows "cleaned nm old (n' @ n)"
  unfolding cleaned_def
proof (intro allI impI)
  fix l c k
  assume eq: "n' @ n = l @ c # k" and m: "made nm (c # k @ old)"
  then have "c \<notin> set n'" using assms(2) by (auto simp: made_def)
  with eq obtain l' where "l = n' @ l'" "n = l' @ c # k" by (auto simp: append_eq_append_conv2 append_eq_Cons_conv Cons_eq_append_conv)
  then show "list_ex is_delete l" using assms(1) m by (auto simp: cleaned_def)
qed

lemma cleaned_shift: "cleaned nm (n' @ old) n \<Longrightarrow> \<forall>c \<in> set n'. \<not> is_add c \<Longrightarrow> cleaned nm old (n @ n')"
  unfolding cleaned_def
proof (intro allI impI)
  fix l c k
  assume a: "\<forall>l c k. n = l @ c # k \<longrightarrow> made nm (c # k @ n' @ old) \<longrightarrow> list_ex is_delete l"
    "\<forall>c \<in> set n'. \<not> is_add c" "n @ n' = l @ c # k" "made nm (c # k @ old)"
  then have "c \<notin> set n'" by (auto simp: made_def)
  with a(3) obtain k' where "n = l @ c # k'" "k = k' @ n'" by (auto simp: append_eq_append_conv2 append_eq_Cons_conv Cons_eq_append_conv)
  then show "list_ex is_delete l" using a(1,4) by simp
qed

lemma cleaned_deleted:
  assumes d: "list_ex is_delete n" and a: "\<forall>c \<in> set n. \<not> is_add c"
  shows "cleaned nm old (n @ n')"
  unfolding cleaned_def
proof (intro allI impI)
  fix l c k
  assume "n @ n' = l @ c # k" "made nm (c # k @ old)"
  moreover from this have "c \<notin> set n" using a by (auto simp: made_def)
  ultimately obtain l' where "l = n @ l'" by (auto simp: append_eq_append_conv2 append_eq_Cons_conv Cons_eq_append_conv)
  then show "list_ex is_delete l" using d by simp
qed

lemma create_profile_path:
  assumes "create_profile e nm ssid st = (Inr None, st')"
  shows "\<exists>path. nmcli_path e = Inr path"
  using assms by (cases "nmcli_path e")
    (auto simp: create_profile_def run_nmcli_stage_def stage_run_def run_nmcli_def n_catch_def n_bind_def
        except_stage_def n_seq_def log_stage_def n_return_def nmcli_path_def is_OSError_def split: if_splits option.splits)

text \<open>The handler around the chain changes neither the calls nor success.\<close>

lemma catch_internal_cases:
  assumes "n_catch m except_internal st = (r, st')"
  obtains r0 st0 where "m st = (r0, st0)" "nm_calls st' = nm_calls st0" "r = Inr None \<longleftrightarrow> r0 = Inr None"
  using assms by (auto simp: n_catch_def except_internal_def except_run_def n_seq_def n_bind_def log_stage_def n_return_def
      split: prod.splits sum.splits option.splits if_splits)

lemma cleanup_trace:
  assumes "cleanup_profile e nm st = (r, st')" and "nmcli_path e = Inr path"
  obtains n where "nm_calls st' = n @ nm_calls st" "list_ex is_delete n" "\<forall>c \<in> set n. \<not> is_add c"
proof -
  obtain n where n: "nm_calls st' = n @ nm_calls st" "list_ex is_delete n" using cleanup_deletes [OF assms] by blast
  obtain n' where "nm_calls st' = n' @ nm_calls st" "\<forall>c \<in> set n'. \<not> is_add c" using adds_noneE [OF adds_none_cleanup assms(1)] .
  with n that show ?thesis by simp
qed

lemma provision_cleans:
  assumes "provision e nm ssid password mode st = (Inr (Some m), st')"
  shows "\<exists>n. nm_calls st' = n @ nm_calls st \<and> cleaned nm (nm_calls st) n"
  using assms unfolding provision_def
proof (cases rule: n_bind_cases)
  case a: (2 x st1)
  obtain r0 st0 where c: "create_profile e nm ssid st = (r0, st0)" "nm_calls st1 = nm_calls st0" "x = None \<longleftrightarrow> r0 = Inr None"
    using catch_internal_cases [OF a(1)] by auto
  obtain n1 where n1: "nm_calls st1 = n1 @ nm_calls st" "made_implies nm (nm_calls st) n1 (x = None)"
    using create_profile_trace [OF c(1)] c(2,3) by auto
  show ?thesis
  proof (cases "x = None")
    case False
    then show ?thesis using a(2) n1 cleaned_unmade by (auto simp: n_return_def)
  next
    case True
    obtain path where path: "nmcli_path e = Inr path" using create_profile_path [of e nm ssid st st0] c True by auto
    from a(2) True have "n_bind (n_catch (configure_profile e nm mode password) except_internal) (\<lambda>failure.
       if failure \<noteq> None then n_seq (cleanup_profile e nm) (n_return failure) else n_return None) st1 = (Inr (Some m), st')"
      by simp
    then show ?thesis
    proof (cases rule: n_bind_cases)
      case b: (2 y st2)
      obtain n2 where n2: "nm_calls st2 = n2 @ nm_calls st1" "\<forall>c \<in> set n2. \<not> is_add c"
        using adds_noneE [OF adds_none_configure b(1)] .
      have "y \<noteq> None" using b(2) by (cases y) (simp_all add: n_return_def)
      then have "n_bind (cleanup_profile e nm) (\<lambda>_. n_return y) st2 = (Inr (Some m), st')" using b(2) by (simp add: n_seq_def)
      then obtain u st3 where "cleanup_profile e nm st2 = (Inr u, st3)" "st' = st3"
        by (cases rule: n_bind_cases) (auto simp: n_return_def)
      then obtain n3 where n3: "nm_calls st' = n3 @ nm_calls st2" "list_ex is_delete n3" "\<forall>c \<in> set n3. \<not> is_add c"
        using cleanup_trace path by metis
      have "cleaned nm (nm_calls st) (n3 @ n2 @ n1)" by (rule cleaned_deleted [OF n3(2,3)])
      then show ?thesis using n1(1) n2(1) n3(1) by (intro exI [of _ "n3 @ n2 @ n1"]) simp
    qed simp
  qed
qed simp

lemma connect_stages_cleans:
  assumes "connect_stages e nm ssid password st = (Inr (Some m), st')"
  shows "\<exists>n. nm_calls st' = n @ nm_calls st \<and> cleaned nm (nm_calls st) n"
  using assms unfolding connect_stages_def
proof (cases rule: n_bind_cases)
  case a: (2 nets st1)
  obtain n1 where n1: "nm_calls st1 = n1 @ nm_calls st" "\<forall>c \<in> set n1. \<not> is_add c"
    using adds_noneE [OF adds_none_scan a(1)] .
  show ?thesis
  proof (cases "\<exists>mode. check_network ssid password nets = Inr (Inr mode)")
    case False
    then have "st' = st1" using a(2)
      by (cases "check_network ssid password nets") (auto simp: n_bind_def n_lift_def n_return_def split: sum.splits)
    then show ?thesis using n1 cleaned_none by blast
  next
    case True
    then obtain mode where "provision e nm ssid password mode st1 = (Inr (Some m), st')"
      using a(2) by (auto simp: n_bind_def n_lift_def)
    from provision_cleans [OF this] obtain n2 where "nm_calls st' = n2 @ nm_calls st1" "cleaned nm (nm_calls st1) n2" by blast
    then show ?thesis using n1 cleaned_shift [of nm n1 "nm_calls st" n2] by (intro exI [of _ "n2 @ n1"]) simp
  qed
qed simp

section \<open>What success means\<close>

definition answered_ok :: "nm \<Rightarrow> nmcall list \<Rightarrow> bool" where
  "answered_ok nm cs \<longleftrightarrow> (\<exists>out. nm_answer nm cs = Inr (0, out))"

definition verify_args :: "security_mode \<Rightarrow> pystr list" where
  "verify_args mode = [lit ''-t'', lit ''--escape'', lit ''yes'', lit ''-f'',
     join [44] (AUTOCONNECT # (if mode = SecWpaPersonal then [PSK_FLAGS] else [])),
     lit ''connection'', lit ''show'', lit ''id'', CONNECTION_NAME]"

text \<open>The last answer reported a profile that reconnects, with the secret held where the security needs one.\<close>

definition reconnects :: "nm \<Rightarrow> security_mode \<Rightarrow> nmcall list \<Rightarrow> bool" where
  "reconnects nm mode cs \<longleftrightarrow>
     (\<exists>out. nm_answer nm cs = Inr (0, out)
        \<and> map_of (parse_values (py_splitlines out)) AUTOCONNECT = Some (lit ''yes'')
        \<and> (mode = SecWpaPersonal \<longrightarrow> map_of (parse_values (py_splitlines out)) PSK_FLAGS = Some (lit ''0'')))"

text \<open>The credentials fit the security mode the scan reported.\<close>

definition fits :: "security_mode \<Rightarrow> pystr \<Rightarrow> pystr \<Rightarrow> bool" where
  "fits mode ssid password \<longleftrightarrow>
     mode = SecOpen \<and> password = [] \<or> mode = SecWpaPersonal \<and> password \<noteq> [] \<and> creds_ok (ssid, password)"

lemma mode_message_none: "mode_message mode = None \<longleftrightarrow> mode = SecOpen \<or> mode = SecWpaPersonal"
  by (cases mode) auto

lemma check_network_fits: "check_network ssid password nets = Inr (Inr mode) \<Longrightarrow> fits mode ssid password"
  by (cases "validate_credentials ssid password")
     (auto simp: check_network_def fits_def Let_def mode_message_none validate_credentials_ok [symmetric]
      split: option.splits prod.splits if_splits sum.splits)

lemma check_network_found:
  assumes "check_network ssid password nets = Inr (Inr mode)"
  shows "\<exists>signal security. (ssid, signal, security) \<in> set nets \<and> mode = classify_security security"
proof -
  obtain n where n: "find (\<lambda>n. fst n = ssid) nets = Some n"
    using assms by (cases "find (\<lambda>n. fst n = ssid) nets") (simp_all add: check_network_def)
  then have "n \<in> set nets" "fst n = ssid" by (auto simp: find_Some_iff)
  moreover have "mode = classify_security (snd (snd n))"
    using assms n by (cases n) (auto simp: check_network_def Let_def res_bind_Inr_conv split: option.splits if_splits)
  ultimately show ?thesis by (metis prod.collapse)
qed

lemma run_stage_ok:
  assumes "run_nmcli_stage e nm stage args t s st = (Inr None, st')" and "nmcli_path e = Inr path"
  shows "nm_calls st' = \<lparr>nc_args = path # args, nc_timeout = t, nc_secret = s\<rparr> # nm_calls st \<and> answered_ok nm (nm_calls st')"
  using assms by (auto simp: run_nmcli_stage_def stage_run_def run_nmcli_def n_catch_def n_bind_def except_stage_def
      n_seq_def log_stage_def n_return_def fail_with_reason_def answered_ok_def Let_def
      split: if_splits sum.splits prod.splits option.splits)

text \<open>The activation of the profile; for WPA its inherited descriptor holds the key line of the password.\<close>

definition activation_of :: "pystr \<Rightarrow> security_mode \<Rightarrow> pystr \<Rightarrow> nmcall \<Rightarrow> bool" where
  "activation_of path mode password c \<longleftrightarrow>
     nc_timeout c = 35
     \<and> (if mode = SecWpaPersonal
        then (\<exists>fd payload. nc_args c = path # up_args @ [lit ''passwd-file'', lit ''/proc/self/fd/'' @ show_int fd]
                \<and> psk_payload password = Inr payload \<and> nc_secret c = Some payload)
        else nc_args c = path # up_args \<and> nc_secret c = None)"

lemma activate_ok:
  assumes "activate e nm mode password st = (Inr None, st')" and "nmcli_path e = Inr path"
  shows "\<exists>c. nm_calls st' = c # nm_calls st \<and> answered_ok nm (nm_calls st') \<and> activation_of path mode password c"
proof (cases "mode = SecWpaPersonal")
  case True
  then obtain fd payload where
    "run_nmcli_stage e nm (lit ''activation'') (up_args @ [lit ''passwd-file'', lit ''/proc/self/fd/'' @ show_int fd]) 35
       (Some payload) st = (Inr None, st')" and "psk_payload password = Inr payload"
    using assms(1) by (auto simp: activate_eq n_bind_def n_lift_def split: sum.splits prod.splits)
  with run_stage_ok [OF this(1) assms(2)] True show ?thesis by (auto simp: activation_of_def)
next
  case False
  then have "run_nmcli_stage e nm (lit ''activation'') up_args 35 None st = (Inr None, st')"
    using assms(1) by (simp add: activate_eq)
  from run_stage_ok [OF this assms(2)] False show ?thesis by (auto simp: activation_of_def)
qed

lemma fail_not_none: "fail_with_reason e nm stage code st \<noteq> (Inr None, st')"
  by (auto simp: fail_with_reason_def n_bind_def n_seq_def n_return_def split: prod.splits sum.splits)

lemma verify_ok:
  assumes "verify_autoconnect e nm mode st = (Inr None, st')" and "nmcli_path e = Inr path"
  shows "nm_calls st' = \<lparr>nc_args = path # verify_args mode, nc_timeout = 8, nc_secret = None\<rparr> # nm_calls st
    \<and> reconnects nm mode (nm_calls st')"
proof -
  let ?f = "\<lambda>r. case r of Inl m \<Rightarrow> n_return m
     | Inr (code, out) \<Rightarrow>
         if code \<noteq> 0 then fail_with_reason e nm (lit ''autoconnect-check'') code
         else (let vs = parse_values (py_splitlines out) in
           if map_of vs AUTOCONNECT \<noteq> Some (lit ''yes'') then
             n_seq (log_stage (lit ''autoconnect-check'') 0 None) (n_return (Some MSG_NO_AUTOCONNECT))
           else if mode = SecWpaPersonal \<and> map_of vs PSK_FLAGS \<noteq> Some (lit ''0'') then
             n_seq (log_stage (lit ''autoconnect-check'') 0 None) (n_return (Some MSG_NO_PSK))
           else n_return None)"
  have "n_bind (stage_run e nm (lit ''autoconnect-check'') (verify_args mode) 8 None (\<lambda>c. Some (failure_message c None))) ?f st
      = (Inr None, st')"
    using assms(1) unfolding verify_autoconnect_def verify_args_def Let_def .
  then show ?thesis
  proof (cases rule: n_bind_cases)
    case (2 x st1)
    show ?thesis
    proof (rule stage_run_cases [OF 2(1) assms(2)])
      fix out
      assume o: "Inr x = Inr (Inr out)" "nm_answer nm (nm_calls st1) = Inr out"
        "nm_calls st1 = \<lparr>nc_args = path # verify_args mode, nc_timeout = 8, nc_secret = None\<rparr> # nm_calls st"
      obtain code tx where "out = (code, tx)" by (cases out)
      then show ?thesis using o 2(2)
        by (auto simp: fail_not_none Let_def n_seq_def n_bind_def log_stage_def n_return_def reconnects_def split: if_splits)
    next
      fix y
      assume "nm_answer nm (nm_calls st1) = Inl y" "\<And>z. Inr x \<noteq> Inr (Inr z)"
        and "nm_calls st1 = \<lparr>nc_args = path # verify_args mode, nc_timeout = 8, nc_secret = None\<rparr> # nm_calls st"
      then obtain m where m: "x = Inl m" by (cases x) auto
      then have "m \<noteq> None" using 2(1)
        by (auto simp: stage_run_def n_catch_def n_bind_def except_stage_def n_seq_def log_stage_def
          n_return_def split: if_splits sum.splits prod.splits option.splits)
      then show ?thesis using 2(2) m by (simp add: n_return_def)
    qed
  qed simp
qed


text \<open>
  The old profile is out of the way after the calls \<open>d\<close>: its deletion succeeded, or \<open>nmcli\<close> refused it and then
  listed the profiles without this one.
\<close>

definition exists_args :: "pystr list" where
  "exists_args = [lit ''-t'', lit ''--escape'', lit ''yes'', lit ''-f'', lit ''NAME'', lit ''connection'', lit ''show'']"

definition old_removed :: "nm \<Rightarrow> pystr \<Rightarrow> nmcall list \<Rightarrow> nmcall list \<Rightarrow> bool" where
  "old_removed nm path old d \<longleftrightarrow>
     (let del = \<lparr>nc_args = path # delete_args, nc_timeout = 8, nc_secret = None\<rparr>;
          listing = \<lparr>nc_args = path # exists_args, nc_timeout = 8, nc_secret = None\<rparr>
      in d = [del] \<and> answered_ok nm (del # old)
         \<or> d = [listing, del] \<and> (\<exists>code out. nm_answer nm (del # old) = Inr (code, out) \<and> code \<noteq> 0)
           \<and> (\<exists>out. nm_answer nm (listing # del # old) = Inr (0, out)
                \<and> (\<forall>line \<in> set (py_splitlines out). split_escaped line \<noteq> [CONNECTION_NAME])))"

text \<open>
  The calls \<open>n\<close> of a successful attempt after the scan, newest first: radio on, the old profile removed, create,
  configure, activate, check. Each of radio, create, configure and activate was answered with exit status 0, and
  the check found a profile that reconnects.
\<close>

definition success_calls :: "nm \<Rightarrow> pystr \<Rightarrow> security_mode \<Rightarrow> pystr \<Rightarrow> pystr \<Rightarrow> nmcall list \<Rightarrow> nmcall list \<Rightarrow> bool" where
  "success_calls nm path mode ssid password old n \<longleftrightarrow>
     (\<exists>up d. let radio = \<lparr>nc_args = [path, lit ''radio'', lit ''wifi'', lit ''on''], nc_timeout = 5, nc_secret = None\<rparr>;
               add = \<lparr>nc_args = path # add_args ssid, nc_timeout = 10, nc_secret = None\<rparr>;
               modify = \<lparr>nc_args = path # modify_args mode, nc_timeout = 10, nc_secret = None\<rparr>;
               verify = \<lparr>nc_args = path # verify_args mode, nc_timeout = 8, nc_secret = None\<rparr>
           in n = [verify, up, modify, add] @ d @ [radio]
              \<and> answered_ok nm (radio # old) \<and> old_removed nm path (radio # old) d
              \<and> answered_ok nm (add # d @ radio # old)
              \<and> answered_ok nm (modify # add # d @ radio # old)
              \<and> answered_ok nm (up # modify # add # d @ radio # old) \<and> activation_of path mode password up
              \<and> reconnects nm mode (n @ old))"

lemma configure_ok:
  assumes "configure_profile e nm mode password st = (Inr None, st')" and path: "nmcli_path e = Inr path"
  obtains up where "nm_calls st' = \<lparr>nc_args = path # verify_args mode, nc_timeout = 8, nc_secret = None\<rparr> # up
      # \<lparr>nc_args = path # modify_args mode, nc_timeout = 10, nc_secret = None\<rparr> # nm_calls st"
    "activation_of path mode password up" "reconnects nm mode (nm_calls st')"
    "answered_ok nm (drop 1 (nm_calls st'))" "answered_ok nm (drop 2 (nm_calls st'))"
  using assms(1) unfolding configure_profile_def
proof (cases rule: n_bind_cases)
  case a: (2 x st1)
  have x: "x = None" using a(2) by (cases x) (simp_all add: n_return_def)
  note m = run_stage_ok [OF a(1) [unfolded x] path]
  from a(2) x have "n_bind (activate e nm mode password) (\<lambda>activated. if activated \<noteq> None then n_return activated
      else verify_autoconnect e nm mode) st1 = (Inr None, st')" by simp
  then show ?thesis
  proof (cases rule: n_bind_cases)
    case b: (2 y st2)
    have y: "y = None" using b(2) by (cases y) (simp_all add: n_return_def)
    obtain up where up: "nm_calls st2 = up # nm_calls st1" "answered_ok nm (nm_calls st2)" "activation_of path mode password up"
      using activate_ok [OF b(1) [unfolded y] path] by blast
    have v: "verify_autoconnect e nm mode st2 = (Inr None, st')" using b(2) y by simp
    show ?thesis using that [of up] m up verify_ok [OF v path] by auto
  qed simp
qed simp

lemma profile_absent:
  assumes "profile_exists e nm st = (Inr (Some False), st')" and "nmcli_path e = Inr path"
  shows "nm_calls st' = \<lparr>nc_args = path # exists_args, nc_timeout = 8, nc_secret = None\<rparr> # nm_calls st
    \<and> (\<exists>out. nm_answer nm (nm_calls st') = Inr (0, out) \<and> (\<forall>line \<in> set (py_splitlines out). split_escaped line \<noteq> [CONNECTION_NAME]))"
  using assms
  by (auto simp: profile_exists_def exists_args_def n_catch_def n_bind_def run_nmcli_def n_return_def except_run_def
      list_ex_iff Let_def split: sum.splits prod.splits option.splits if_splits)

lemma delete_old_ok:
  assumes "delete_old_profile e nm st = (Inr None, st')" and path: "nmcli_path e = Inr path"
  shows "\<exists>d. nm_calls st' = d @ nm_calls st \<and> old_removed nm path (nm_calls st) d"
proof -
  let ?del = "\<lparr>nc_args = path # delete_args, nc_timeout = 8, nc_secret = None\<rparr>"
  let ?f = "\<lambda>r. case r of Inl m \<Rightarrow> n_return m
     | Inr (code, out) \<Rightarrow> if code = 0 then n_return None
         else n_bind (profile_exists e nm) (\<lambda>ex. if ex = Some False then n_return None
           else fail_with_reason e nm (lit ''profile-delete'') code)"
  have "n_bind (stage_run e nm (lit ''profile-delete'') delete_args 8 None (\<lambda>c. Some (failure_message c None))) ?f st
      = (Inr None, st')"
    using assms(1) unfolding delete_old_profile_def .
  then show ?thesis
  proof (cases rule: n_bind_cases)
    case (2 x st1)
    show ?thesis
    proof (rule stage_run_cases [OF 2(1) path])
      fix out
      assume o: "Inr x = Inr (Inr out)" "nm_answer nm (nm_calls st1) = Inr out" "nm_calls st1 = ?del # nm_calls st"
      obtain code tx where out: "out = (code, tx)" by (cases out)
      show ?thesis
      proof (cases "code = 0")
        case True
        then have "nm_calls st' = [?del] @ nm_calls st" using 2(2) o out by (auto simp: n_return_def)
        moreover have "old_removed nm path (nm_calls st) [?del]"
          using o out True by (simp add: old_removed_def answered_ok_def)
        ultimately show ?thesis by blast
      next
        case False
        then have "n_bind (profile_exists e nm) (\<lambda>ex. if ex = Some False then n_return None
            else fail_with_reason e nm (lit ''profile-delete'') code) st1 = (Inr None, st')"
          using 2(2) o out by simp
        then show ?thesis
        proof (cases rule: n_bind_cases)
          case e: (2 ex st2)
          have ex: "ex = Some False" using e(2) fail_not_none by (auto split: if_splits)
          then have "st' = st2" using e(2) by (simp add: n_return_def)
          with profile_absent [OF e(1) [unfolded ex] path] o out False show ?thesis
            by (intro exI [of _ "[\<lparr>nc_args = path # exists_args, nc_timeout = 8, nc_secret = None\<rparr>, ?del]"])
               (auto simp: old_removed_def)
        qed simp
      qed
    next
      fix y
      assume "nm_answer nm (nm_calls st1) = Inl y" "\<And>z. Inr x \<noteq> Inr (Inr z)"
        and "nm_calls st1 = ?del # nm_calls st"
      then obtain m where m: "x = Inl m" by (cases x) auto
      then have "m \<noteq> None" using 2(1)
        by (auto simp: stage_run_def n_catch_def n_bind_def except_stage_def n_seq_def log_stage_def
          n_return_def split: if_splits sum.splits prod.splits option.splits)
      then show ?thesis using 2(2) m by (simp add: n_return_def)
    qed
  qed simp
qed

lemma create_ok:
  assumes "create_profile e nm ssid st = (Inr None, st')" and path: "nmcli_path e = Inr path"
    and radio: "radio = \<lparr>nc_args = [path, lit ''radio'', lit ''wifi'', lit ''on''], nc_timeout = 5, nc_secret = None\<rparr>"
  obtains d where "nm_calls st' = \<lparr>nc_args = path # add_args ssid, nc_timeout = 10, nc_secret = None\<rparr> # d @ radio # nm_calls st"
    "answered_ok nm (radio # nm_calls st)" "old_removed nm path (radio # nm_calls st) d" "answered_ok nm (nm_calls st')"
  using assms(1) unfolding create_profile_def
proof (cases rule: n_bind_cases)
  case a: (2 x st1)
  have x: "x = None" using a(2) by (cases x) (simp_all add: n_return_def)
  note m = run_stage_ok [OF a(1) [unfolded x] path, folded radio]
  have "n_bind (delete_old_profile e nm) (\<lambda>deleted. if deleted \<noteq> None then n_return deleted
      else run_nmcli_stage e nm (lit ''profile-create'') (add_args ssid) 10 None) st1 = (Inr None, st')"
    using a(2) x unfolding add_args_def by simp
  then show ?thesis
  proof (cases rule: n_bind_cases)
    case b: (2 y st2)
    have y: "y = None" using b(2) by (cases y) (simp_all add: n_return_def)
    obtain d where d: "nm_calls st2 = d @ nm_calls st1" "old_removed nm path (nm_calls st1) d"
      using delete_old_ok [OF b(1) [unfolded y] path] by blast
    have r: "run_nmcli_stage e nm (lit ''profile-create'') (add_args ssid) 10 None st2 = (Inr None, st')" using b(2) y by simp
    have m': "nm_calls st1 = radio # nm_calls st" "answered_ok nm (radio # nm_calls st)" using m by metis+
    have a: "nm_calls st' = \<lparr>nc_args = path # add_args ssid, nc_timeout = 10, nc_secret = None\<rparr> # nm_calls st2"
      "answered_ok nm (nm_calls st')" using run_stage_ok [OF r path] by blast+
    show ?thesis by (rule that [of d]) (use m' d a in \<open>simp_all only: append_Cons\<close>)
  qed simp
qed simp

lemma provision_ok:
  assumes "provision e nm ssid password mode st = (Inr None, st')"
  shows "\<exists>path n. nmcli_path e = Inr path \<and> nm_calls st' = n @ nm_calls st
    \<and> success_calls nm path mode ssid password (nm_calls st) n"
  using assms unfolding provision_def
proof (cases rule: n_bind_cases)
  case a: (2 x st1)
  have x: "x = None" using a(2) by (cases x) (simp_all add: n_return_def)
  obtain st0 where c: "create_profile e nm ssid st = (Inr None, st0)" "nm_calls st1 = nm_calls st0"
    using catch_internal_cases [OF a(1)] x by metis
  obtain path where path: "nmcli_path e = Inr path" using create_profile_path [OF c(1)] by blast
  let ?radio = "\<lparr>nc_args = [path, lit ''radio'', lit ''wifi'', lit ''on''], nc_timeout = 5, nc_secret = None\<rparr>"
  let ?add = "\<lparr>nc_args = path # add_args ssid, nc_timeout = 10, nc_secret = None\<rparr>"
  let ?modify = "\<lparr>nc_args = path # modify_args mode, nc_timeout = 10, nc_secret = None\<rparr>"
  let ?verify = "\<lparr>nc_args = path # verify_args mode, nc_timeout = 8, nc_secret = None\<rparr>"
  obtain d where d: "nm_calls st1 = ?add # d @ ?radio # nm_calls st" "answered_ok nm (?radio # nm_calls st)"
    "old_removed nm path (?radio # nm_calls st) d" "answered_ok nm (nm_calls st1)"
    using create_ok [OF c(1) path refl] c(2) by metis
  from a(2) x have "n_bind (n_catch (configure_profile e nm mode password) except_internal) (\<lambda>failure.
      if failure \<noteq> None then n_seq (cleanup_profile e nm) (n_return failure) else n_return None) st1 = (Inr None, st')" by simp
  then show ?thesis
  proof (cases rule: n_bind_cases)
    case b: (2 y st2)
    have y: "y = None" "st' = st2" using b(2)
      by (cases y; auto simp: n_return_def n_seq_def n_bind_def split: prod.splits sum.splits)+
    obtain st3 where f: "configure_profile e nm mode password st1 = (Inr None, st3)" "nm_calls st' = nm_calls st3"
      using catch_internal_cases [OF b(1)] y by metis
    obtain up where up: "nm_calls st3 = ?verify # up # ?modify # nm_calls st1"
      "activation_of path mode password up" "reconnects nm mode (nm_calls st3)"
      "answered_ok nm (drop 1 (nm_calls st3))" "answered_ok nm (drop 2 (nm_calls st3))"
      using configure_ok [OF f(1) path] .
    let ?n = "[?verify, up, ?modify, ?add] @ d @ [?radio]"
    have e: "nm_calls st' = ?n @ nm_calls st" using up(1) d(1) f(2) by simp
    have "success_calls nm path mode ssid password (nm_calls st) ?n"
      unfolding success_calls_def Let_def
      by (intro exI [of _ up] exI [of _ d]) (use up d e f(2) in \<open>simp add: numeral_2_eq_2\<close>)
    then show ?thesis using path e by blast
  qed simp
qed simp

lemma connect_stages_ok:
  assumes "connect_stages e nm ssid password st = (Inr None, st')"
  shows "\<exists>path nets st1 signal security n. nmcli_path e = Inr path \<and> scan_networks e nm st = (Inr nets, st1)
    \<and> (ssid, signal, security) \<in> set nets \<and> fits (classify_security security) ssid password
    \<and> nm_calls st' = n @ nm_calls st1
    \<and> success_calls nm path (classify_security security) ssid password (nm_calls st1) n"
  using assms unfolding connect_stages_def
proof (cases rule: n_bind_cases)
  case a: (2 nets st1)
  from a(2) obtain mode where mode: "check_network ssid password nets = Inr (Inr mode)"
    and p: "provision e nm ssid password mode st1 = (Inr None, st')"
    by (auto simp: n_bind_def n_lift_def n_return_def split: sum.splits)
  obtain signal security where "(ssid, signal, security) \<in> set nets" "mode = classify_security security"
    using check_network_found [OF mode] by blast
  then show ?thesis using provision_ok [OF p] check_network_fits [OF mode] a(1) by blast
qed simp

lemma connect_wifi_stages:
  assumes "connect_wifi e nm sfx ssid password (st, s) = (Inr (ok, m), st', s')"
  obtains "\<not> ok" "st' = st" "s' = s"
  | "\<not> ok" "connect_stages e nm ssid password st = (Inr (Some m), st')" "s' = s"
  | "ok" "connect_stages e nm ssid password st = (Inr None, st')" "save_connection e sfx ssid password s = (Inr (True, m), s')"
proof -
  have "save_connection e sfx ssid password s = (Inr (ok, m), s') \<Longrightarrow> ok"
    by (auto simp: save_connection_def split: sum.splits bool.splits prod.splits if_splits)
  then show ?thesis
    using assms that by (cases ok) (auto simp: connect_wifi_def split: sum.splits option.splits prod.splits)
qed


section \<open>The guarantees of \<open>connect_wifi\<close>\<close>

text \<open>Sample answers: an open network whose profile reconnects, and one whose profile does not.\<close>

definition good_nm :: nm where
  "good_nm = sample_nm (lit ''cafe:80:'' @ [10] @ lit ''connection.autoconnect:yes'')"

definition bad_nm :: nm where
  "bad_nm = sample_nm (lit ''cafe:80:'')"

lemma sample_runs:
  "fst (connect_wifi prod_env good_nm [55] (lit ''cafe'') [] (nmst_init, os_of [])) = Inr (True, MSG_NOT_SAVED)"
  "fst (connect_wifi prod_env bad_nm [55] (lit ''cafe'') [] (nmst_init, os_of [])) = Inr (False, MSG_NO_AUTOCONNECT)"
  "length (nm_calls (fst (snd (connect_wifi prod_env bad_nm [55] (lit ''cafe'') [] (nmst_init, os_of []))))) = 8"
  by code_simp+

lemma sample_blind: "blind (sample_nm out)"
  by (simp add: blind_def sample_nm_def)

text \<open>
  C22. A failed attempt leaves no half-configured profile behind: the attempt writes nothing to the
  persistent store, and every profile it created is followed by a deletion of that profile.
\<close>

theorem connect_failure_cleans:
  assumes "connect_wifi e nm sfx ssid password (st, s) = (Inr (False, m), st', s')"
  shows "s' = s \<and> (\<exists>n. nm_calls st' = n @ nm_calls st \<and> cleaned nm (nm_calls st) n)"
  using assms
proof (cases rule: connect_wifi_stages)
  case 1
  then show ?thesis by (auto simp: cleaned_def)
next
  case 2
  then show ?thesis using connect_stages_cleans by blast
qed simp

theorem connect_failure_cleans_witness:
  "\<exists>st' s' n. connect_wifi prod_env bad_nm [55] (lit ''cafe'') [] (nmst_init, os_of []) = (Inr (False, MSG_NO_AUTOCONNECT), st', s')
     \<and> s' = os_of [] \<and> length n = 8 \<and> nm_calls st' = n \<and> cleaned bad_nm [] n"
proof -
  obtain st' s' where r: "connect_wifi prod_env bad_nm [55] (lit ''cafe'') [] (nmst_init, os_of [])
      = (Inr (False, MSG_NO_AUTOCONNECT), st', s')"
    using sample_runs(2) by (metis prod.collapse)
  then show ?thesis using connect_failure_cleans [OF r] sample_runs(3) by (auto simp: nmst_init_def)
qed

text \<open>
  C23. A reported success is a verified one. The attempt scanned first; the network is in the list of that scan,
  and the credentials fit the security listed for it. Then, in this order: radio on, the old profile deleted (or,
  where \<open>nmcli\<close> refused the deletion, absent from the profiles it lists), create, configure for that security,
  activate (for WPA with the key line of the password in the inherited descriptor), check. Radio, create, configure,
  activate and check were answered with exit status 0, and the check found a profile that reconnects by itself
  and, for WPA, holds its key.
\<close>

theorem connect_success_verified:
  assumes "connect_wifi e nm sfx ssid password (st, s) = (Inr (True, m), st', s')"
  shows "\<exists>path nets st1 signal security n. nmcli_path e = Inr path \<and> scan_networks e nm st = (Inr nets, st1)
    \<and> (ssid, signal, security) \<in> set nets \<and> fits (classify_security security) ssid password
    \<and> nm_calls st' = n @ nm_calls st1
    \<and> success_calls nm path (classify_security security) ssid password (nm_calls st1) n"
  using assms
proof (cases rule: connect_wifi_stages)
  case 3
  show ?thesis by (rule connect_stages_ok [OF 3(2)])
qed simp_all

theorem connect_success_verified_witness:
  "\<exists>st' s' nets st1 signal security n.
     connect_wifi prod_env good_nm [55] (lit ''cafe'') [] (nmst_init, os_of []) = (Inr (True, MSG_NOT_SAVED), st', s')
     \<and> scan_networks prod_env good_nm nmst_init = (Inr nets, st1) \<and> (lit ''cafe'', signal, security) \<in> set nets
     \<and> nm_calls st' = n @ nm_calls st1
     \<and> success_calls good_nm NMCLI (classify_security security) (lit ''cafe'') [] (nm_calls st1) n"
proof -
  obtain st' s' where r: "connect_wifi prod_env good_nm [55] (lit ''cafe'') [] (nmst_init, os_of [])
      = (Inr (True, MSG_NOT_SAVED), st', s')"
    using sample_runs(1) by (metis prod.collapse)
  have p: "nmcli_path prod_env = Inr path \<Longrightarrow> path = NMCLI" for path
    by (simp add: nmcli_path_def wifi_test_mode_def prod_env_def)
  show ?thesis using connect_success_verified [OF r] r p by blast
qed

text \<open>
  C24. Whatever \<open>nmcli\<close> answers, an attempt only runs command lines made of fixed words, the SSID and a
  descriptor path, with one exception: the query for the failure reason of a device, whose name is that of a
  Wi-Fi device in \<open>nmcli\<close>'s own answer to the call just before. Only the activation inherits a descriptor
  (holding the key line), and nothing is logged but stage names with numbers.
\<close>

theorem connect_calls_fixed:
  assumes "connect_wifi e nm sfx ssid password (st, s) = (r, st', s')"
  shows "\<exists>cs ls. nm_calls st' = cs @ nm_calls st \<and> nm_logs st' = ls @ nm_logs st
    \<and> news (call_ok nm ssid password) (nm_calls st) cs \<and> list_all stage_log ls"
proof (cases "st' = st")
  case False
  then have "\<exists>r'. connect_stages e nm ssid password st = (r', st')"
    using assms by (auto simp: connect_wifi_def split: sum.splits option.splits prod.splits)
  then show ?thesis using emitsE [OF emitting_connect] by metis
qed (auto intro: exI [of _ "[]"])

text \<open>An attempt whose activation fails and asks the device for the reason.\<close>

definition refusing_nm :: nm where
  "refusing_nm = \<lparr>nm_answer = (\<lambda>cs. if tl (nc_args (hd cs)) = up_args then Inr (4, [])
     else Inr (0, lit ''cafe:80:'' @ [10] @ lit ''wlan0:wifi'')), nm_fd = Inr 3\<rparr>"

theorem connect_calls_fixed_witness:
  "\<exists>cs. nm_calls (fst (snd (connect_wifi prod_env refusing_nm [55] (lit ''cafe'') [] (nmst_init, os_of [])))) = cs
     \<and> news (call_ok refusing_nm (lit ''cafe'') []) [] cs \<and> list_ex (\<lambda>c. tl (nc_args c) = device_show (lit ''wlan0'')) cs"
proof -
  obtain r st' s' where r: "connect_wifi prod_env refusing_nm [55] (lit ''cafe'') [] (nmst_init, os_of []) = (r, st', s')"
    by (metis prod.collapse)
  have "list_ex (\<lambda>c. tl (nc_args c) = device_show (lit ''wlan0''))
      (nm_calls (fst (snd (connect_wifi prod_env refusing_nm [55] (lit ''cafe'') [] (nmst_init, os_of [])))))"
    by code_simp
  then show ?thesis using connect_calls_fixed [OF r] r by (auto simp: nmst_init_def)
qed

text \<open>
  C25. The command lines and the log of an attempt do not depend on the password: two attempts with
  different acceptable passwords leave states that differ at most in the contents of the
  inherited descriptors, as long as \<open>nmcli\<close> answers both alike.
\<close>

theorem connect_password_hidden:
  assumes "blind nm" and "psk_ok p" and "psk_ok p'"
  shows "alike (fst (snd (connect_wifi e nm sfx ssid p (st, s)))) (fst (snd (connect_wifi e nm sfx ssid p' (st, s))))"
proof -
  have "alike st st" by (simp add: alike_def)
  then have "alike (snd (connect_stages e nm ssid p st)) (snd (connect_stages e nm ssid p' st))"
    by (rule sameD(2) [OF same_connect [OF assms]])
  moreover have "validate_password_shape p = None" "validate_password_shape p' = None"
    using assms(2,3) by (auto simp: psk_ok_def validate_shape_ok)
  moreover have "fst (snd (connect_wifi e nm sfx ssid q (st, s))) =
      (if validate_ssid ssid = Inr None then snd (connect_stages e nm ssid q st) else st)"
    if "validate_password_shape q = None" for q
    using that by (auto simp: connect_wifi_def split: sum.splits option.splits prod.splits)
  ultimately show ?thesis using \<open>alike st st\<close> by simp
qed

theorem connect_password_hidden_witness:
  "alike (fst (snd (connect_wifi prod_env (sample_nm (lit ''cafe:80:WPA2'')) [55] (lit ''cafe'') (lit ''password1'') (nmst_init, os_of []))))
     (fst (snd (connect_wifi prod_env (sample_nm (lit ''cafe:80:WPA2'')) [55] (lit ''cafe'') (lit ''another one'') (nmst_init, os_of []))))"
proof (rule connect_password_hidden [OF sample_blind])
  show "psk_ok (lit ''password1'')" "psk_ok (lit ''another one'')" by code_simp+
qed

end
