(* ===== verification/Coordinator.thy ===== *)
theory Coordinator
  imports Wifi_Types
begin

text \<open>
  The connection coordinator, \<open>sushida_os/wifi/coordinator.py\<close>.  The first part has one definition
  per method of \<open>ConnectionCoordinator\<close>, each split where the source releases the lock: a
  \<open>_locked\<close> function is the body of one \<open>with self._state_lock\<close> block.  The second part interleaves
  the three threads of the service at exactly these blocks: the worker \<open>run_worker\<close>, the
  (single-threaded) HTTP handler and the restore supervisor.
\<close>

section \<open>The coordinator's state\<close>

type_synonym creds = "pystr \<times> pystr"

definition MSG_INTERNAL :: pystr where
  \<open>MSG_INTERNAL = lit ''Wi-Fi'' @ [
     25509, 32154, 20966, 29702, 12391, 20869, 37096, 12456, 12521, 12540, 12364, 30330,
     29983, 12375, 12414, 12375, 12383, 12290, 12418, 12358, 19968, 24230, 25509, 32154,
     12375, 12390, 12367, 12384, 12373, 12356, 12290]\<close>

text \<open>\<open>c_marker\<close> is whether the in-progress marker file exists.\<close>

record coord =
  c_state :: conn_state
  c_message :: pystr
  c_pending :: "creds option"
  c_interactive :: "creds option"
  c_event :: bool
  c_cancelled :: bool
  c_marker :: bool

definition coord_init :: coord where
  "coord_init = \<lparr>c_state = CONNECT_IDLE, c_message = [], c_pending = None, c_interactive = None,
     c_event = False, c_cancelled = False, c_marker = False\<rparr>"

section \<open>The methods\<close>

definition connect_status :: "coord \<Rightarrow> conn_state \<times> pystr" where
  "connect_status c = (c_state c, c_message c)"

text \<open>\<open>_mirror_progress\<close>: the flag is read under the lock, the marker is set after it is released.\<close>

definition mirror_read :: "coord \<Rightarrow> bool" where
  "mirror_read c \<longleftrightarrow> c_state c = CONNECT_WORKING"

definition set_marker :: "bool \<Rightarrow> coord \<Rightarrow> coord" where
  "set_marker active c = c\<lparr>c_marker := active\<rparr>"

definition mirror_progress :: "coord \<Rightarrow> coord" where
  "mirror_progress c = set_marker (mirror_read c) c"

definition queue_locked :: "creds \<Rightarrow> coord \<Rightarrow> bool \<times> coord" where
  "queue_locked cr c =
     (if c_state c \<noteq> CONNECT_IDLE then (False, c)
      else (True, c\<lparr>c_state := CONNECT_WORKING, c_message := [], c_pending := Some cr\<rparr>))"

definition queue_connection :: "creds \<Rightarrow> coord \<Rightarrow> bool \<times> coord" where
  "queue_connection cr c =
     (case queue_locked cr c of (ok, c') \<Rightarrow> if ok then (True, mirror_progress c') else (False, c'))"

definition cancel_restore :: "coord \<Rightarrow> coord" where
  "cancel_restore c = c\<lparr>c_cancelled := True\<rparr>"

definition enqueue_locked :: "creds \<Rightarrow> coord \<Rightarrow> bool \<times> coord" where
  "enqueue_locked cr c =
     (if c_state c = CONNECT_IDLE
      then (True, c\<lparr>c_state := CONNECT_WORKING, c_message := [], c_pending := Some cr, c_interactive := None\<rparr>)
      else (False, c\<lparr>c_interactive := Some cr\<rparr>))"

definition enqueue_interactive :: "creds \<Rightarrow> coord \<Rightarrow> bool \<times> coord" where
  "enqueue_interactive cr c =
     (case enqueue_locked cr (cancel_restore c) of (started, c') \<Rightarrow>
        (started, if started then mirror_progress c' else c'))"

definition start_after_response :: "coord \<Rightarrow> coord" where
  "start_after_response c = c\<lparr>c_event := True\<rparr>"

definition take_pending :: "coord \<Rightarrow> creds option \<times> coord" where
  "take_pending c = (c_pending c, c\<lparr>c_pending := None\<rparr>)"

definition publish_result :: "bool \<Rightarrow> pystr \<Rightarrow> coord \<Rightarrow> coord" where
  "publish_result success message c =
     mirror_progress (c\<lparr>c_state := (if success then CONNECT_SUCCEEDED else CONNECT_FAILED),
                        c_message := message\<rparr>)"

definition consume_locked :: "coord \<Rightarrow> pystr option \<times> coord" where
  "consume_locked c =
     (if c_state c \<noteq> CONNECT_FAILED then (None, c)
      else (Some (c_message c), c\<lparr>c_state := CONNECT_IDLE, c_message := []\<rparr>))"

definition consume_failure :: "coord \<Rightarrow> pystr option \<times> coord" where
  "consume_failure c =
     (case consume_locked c of (None, c') \<Rightarrow> (None, c') | (Some m, c') \<Rightarrow> (Some m, mirror_progress c'))"

definition reset_succeeded_locked :: "coord \<Rightarrow> coord" where
  "reset_succeeded_locked c =
     (if c_state c = CONNECT_SUCCEEDED then c\<lparr>c_state := CONNECT_IDLE, c_message := []\<rparr> else c)"

definition reset_succeeded :: "coord \<Rightarrow> coord" where
  "reset_succeeded c = mirror_progress (reset_succeeded_locked c)"

definition reset_failure :: "coord \<Rightarrow> coord" where
  "reset_failure c = (if c_state c = CONNECT_FAILED then c\<lparr>c_state := CONNECT_IDLE\<rparr> else c)"

definition interactive_pending :: "coord \<Rightarrow> bool" where
  "interactive_pending c \<longleftrightarrow> c_interactive c \<noteq> None"

definition restore_cancelled :: "coord \<Rightarrow> bool" where
  "restore_cancelled c \<longleftrightarrow> c_cancelled c"

text \<open>The two lock blocks of \<open>run_worker\<close>: the hand-over at the loop head and the publication.\<close>

definition worker_handover :: "coord \<Rightarrow> coord" where
  "worker_handover c =
     (case c_interactive c of
        None \<Rightarrow> c
      | Some cr \<Rightarrow>
          (let c1 = (if c_state c = CONNECT_FAILED \<or> c_state c = CONNECT_SUCCEEDED
                     then c\<lparr>c_state := CONNECT_IDLE, c_message := []\<rparr> else c)
           in if c_state c1 = CONNECT_IDLE
              then c1\<lparr>c_interactive := None, c_state := CONNECT_WORKING, c_pending := Some cr\<rparr>
              else c1))"

definition worker_publish :: "bool \<Rightarrow> pystr \<Rightarrow> coord \<Rightarrow> coord" where
  "worker_publish success message c =
     (case c_interactive c of
        Some cr \<Rightarrow> c\<lparr>c_interactive := None, c_state := CONNECT_WORKING, c_message := [],
                      c_pending := Some cr, c_event := True\<rparr>
      | None \<Rightarrow> c\<lparr>c_state := (if success then CONNECT_SUCCEEDED else CONNECT_FAILED),
                   c_message := message\<rparr>)"

text \<open>The outcome of \<open>self._connect(ssid, password)\<close>: any exception becomes a failure.\<close>

definition attempt_outcome :: "exn + bool \<times> pystr \<Rightarrow> bool \<times> pystr" where
  "attempt_outcome r = (case r of Inr out \<Rightarrow> out | Inl _ \<Rightarrow> (False, MSG_INTERNAL))"

lemmas coord_defs = connect_status_def mirror_read_def set_marker_def mirror_progress_def queue_locked_def
  queue_connection_def cancel_restore_def enqueue_locked_def enqueue_interactive_def
  start_after_response_def take_pending_def publish_result_def consume_locked_def consume_failure_def
  reset_succeeded_locked_def reset_succeeded_def reset_failure_def interactive_pending_def
  restore_cancelled_def worker_publish_def attempt_outcome_def
declare coord_defs [py_eval] coord_init_def [py_eval] worker_handover_def [py_eval]

text \<open>The hand-over, read off: only a running attempt keeps the interactive credential waiting.\<close>

lemma worker_handover_eq:
  "worker_handover c =
     (case c_interactive c of
        None \<Rightarrow> c
      | Some cr \<Rightarrow>
          if c_state c = CONNECT_WORKING then c
          else c\<lparr>c_interactive := None, c_state := CONNECT_WORKING, c_pending := Some cr,
                 c_message := (if c_state c = CONNECT_IDLE then c_message c else [])\<rparr>)"
  by (cases "c_state c") (auto simp: worker_handover_def Let_def split: option.split)

section \<open>The threads\<close>

text \<open>
  Where each thread stands.  \<open>WConnect\<close> is the worker inside \<open>self._connect\<close>; \<open>HReply\<close> is the handler
  writing and flushing the response of a POST, \<open>HWake\<close> about to call \<open>start_after_response\<close>. A response
  that cannot be written raises, so the handler goes on to the next request without the wake-up.
\<close>

datatype wpc = WTop | WTake | WWait | WClear | WConnect creds | WPublish bool pystr | WMirror | WMark bool
datatype hnext = NIdle | NReply
datatype hpc = HIdle | HEnqueue creds | HMirror hnext | HMark bool hnext | HReply | HWake
datatype rpc = RIdle | RMirror | RMark bool | RWake

text \<open>
  The whole service; the last three fields are ghosts: the credentials handed to \<open>_connect\<close>, newest
  first, the credential of the latest interactive request, and whether a response was lost since
  the last wake-up.
\<close>

record sys =
  co :: coord
  wpc :: wpc
  hpc :: hpc
  rpc :: rpc
  attempts :: "creds list"
  latest :: "creds option"
  reply_lost :: bool

definition sys_init :: sys where
  "sys_init = \<lparr>co = coord_init, wpc = WTop, hpc = HIdle, rpc = RIdle, attempts = [], latest = None, reply_lost = False\<rparr>"

text \<open>Publishing the marker is best effort: it may fail and leave the marker as it is.\<close>

definition try_marker :: "bool \<Rightarrow> bool \<Rightarrow> coord \<Rightarrow> coord" where
  "try_marker ok active c = (if ok then set_marker active c else c)"

definition hafter :: "hnext \<Rightarrow> hpc" where
  "hafter n = (case n of NIdle \<Rightarrow> HIdle | NReply \<Rightarrow> HReply)"

inductive worker :: "sys \<Rightarrow> sys \<Rightarrow> bool" where
  w_top: "wpc s = WTop \<Longrightarrow> worker s (s\<lparr>co := worker_handover (co s), wpc := WTake\<rparr>)"
| w_none: "wpc s = WTake \<Longrightarrow> take_pending (co s) = (None, c) \<Longrightarrow> worker s (s\<lparr>co := c, wpc := WWait\<rparr>)"
| w_some: "wpc s = WTake \<Longrightarrow> take_pending (co s) = (Some cr, c)
    \<Longrightarrow> worker s (s\<lparr>co := c, wpc := WConnect cr, attempts := cr # attempts s\<rparr>)"
| w_wait: "wpc s = WWait \<Longrightarrow> c_event (co s) \<Longrightarrow> worker s (s\<lparr>wpc := WClear\<rparr>)"
| w_clear: "wpc s = WClear \<Longrightarrow> worker s (s\<lparr>co := (co s)\<lparr>c_event := False\<rparr>, wpc := WTop\<rparr>)"
| w_connect: "wpc s = WConnect cr \<Longrightarrow> attempt_outcome r = (ok, m) \<Longrightarrow> worker s (s\<lparr>wpc := WPublish ok m\<rparr>)"
| w_publish: "wpc s = WPublish ok m \<Longrightarrow> worker s (s\<lparr>co := worker_publish ok m (co s), wpc := WMirror\<rparr>)"
| w_mirror: "wpc s = WMirror \<Longrightarrow> worker s (s\<lparr>wpc := WMark (mirror_read (co s))\<rparr>)"
| w_mark: "wpc s = WMark b \<Longrightarrow> worker s (s\<lparr>co := try_marker ok b (co s), wpc := WTop\<rparr>)"

inductive handler :: "sys \<Rightarrow> sys \<Rightarrow> bool" where
  h_post: "hpc s = HIdle \<Longrightarrow> handler s (s\<lparr>co := cancel_restore (co s), hpc := HEnqueue cr\<rparr>)"
| h_enqueue: "hpc s = HEnqueue cr \<Longrightarrow> enqueue_locked cr (co s) = (started, c)
    \<Longrightarrow> handler s (s\<lparr>co := c, hpc := (if started then HMirror NReply else HReply), latest := Some cr\<rparr>)"
| h_reply: "hpc s = HReply \<Longrightarrow> handler s (s\<lparr>hpc := HWake\<rparr>)"
| h_lost: "hpc s = HReply \<Longrightarrow> handler s (s\<lparr>hpc := HIdle, reply_lost := True\<rparr>)"
| h_wake: "hpc s = HWake \<Longrightarrow> handler s (s\<lparr>co := start_after_response (co s), hpc := HIdle, reply_lost := False\<rparr>)"
| h_consume: "hpc s = HIdle \<Longrightarrow> consume_locked (co s) = (r, c)
    \<Longrightarrow> handler s (s\<lparr>co := c, hpc := (if r = None then HIdle else HMirror NIdle)\<rparr>)"
| h_reset: "hpc s = HIdle \<Longrightarrow> handler s (s\<lparr>co := reset_succeeded_locked (co s), hpc := HMirror NIdle\<rparr>)"
| h_mirror: "hpc s = HMirror n \<Longrightarrow> handler s (s\<lparr>hpc := HMark (mirror_read (co s)) n\<rparr>)"
| h_mark: "hpc s = HMark b n \<Longrightarrow> handler s (s\<lparr>co := try_marker ok b (co s), hpc := hafter n\<rparr>)"

inductive restorer :: "sys \<Rightarrow> sys \<Rightarrow> bool" where
  r_reset: "rpc s = RIdle \<Longrightarrow> restorer s (s\<lparr>co := reset_failure (co s)\<rparr>)"
| r_queue: "rpc s = RIdle \<Longrightarrow> queue_locked cr (co s) = (ok, c)
    \<Longrightarrow> restorer s (s\<lparr>co := c, rpc := (if ok then RMirror else RIdle)\<rparr>)"
| r_mirror: "rpc s = RMirror \<Longrightarrow> restorer s (s\<lparr>rpc := RMark (mirror_read (co s))\<rparr>)"
| r_mark: "rpc s = RMark b \<Longrightarrow> restorer s (s\<lparr>co := try_marker ok b (co s), rpc := RWake\<rparr>)"
| r_wake: "rpc s = RWake \<Longrightarrow> restorer s (s\<lparr>co := start_after_response (co s), rpc := RIdle, reply_lost := False\<rparr>)"

inductive sys_step :: "sys \<Rightarrow> sys \<Rightarrow> bool" where
  by_worker: "worker s t \<Longrightarrow> sys_step s t"
| by_handler: "handler s t \<Longrightarrow> sys_step s t"
| by_restorer: "restorer s t \<Longrightarrow> sys_step s t"

inductive reachable :: "sys \<Rightarrow> bool" where
  reach_init: "reachable sys_init"
| reach_step: "reachable s \<Longrightarrow> sys_step s t \<Longrightarrow> reachable t"

inductive_cases sys_stepE [elim!]: "sys_step s t"
inductive_simps worker_wait_simps: "worker (s\<lparr>wpc := WWait\<rparr>) t"

section \<open>The invariant\<close>

text \<open>The worker runs an attempt: between taking a credential and publishing its outcome.\<close>

definition busy :: "wpc \<Rightarrow> bool" where
  "busy w \<longleftrightarrow> (case w of WConnect _ \<Rightarrow> True | WPublish _ _ \<Rightarrow> True | _ \<Rightarrow> False)"

text \<open>A thread that accepted a credential and has yet to wake the worker.\<close>

definition handler_will_wake :: "hpc \<Rightarrow> bool" where
  "handler_will_wake h \<longleftrightarrow>
     (case h of HMirror n \<Rightarrow> n = NReply | HMark _ n \<Rightarrow> n = NReply | HReply \<Rightarrow> True | HWake \<Rightarrow> True | _ \<Rightarrow> False)"

definition restorer_will_wake :: "rpc \<Rightarrow> bool" where
  "restorer_will_wake r \<longleftrightarrow> r \<noteq> RIdle"

definition wake_coming :: "sys \<Rightarrow> bool" where
  "wake_coming s \<longleftrightarrow> c_event (co s) \<or> handler_will_wake (hpc s) \<or> restorer_will_wake (rpc s) \<or> reply_lost s"

text \<open>A request is either waiting or being attempted, exactly while the state says so, never both.\<close>

definition slot_inv :: "sys \<Rightarrow> bool" where
  "slot_inv s \<longleftrightarrow>
     (c_state (co s) = CONNECT_WORKING \<longleftrightarrow> c_pending (co s) \<noteq> None \<or> busy (wpc s))
     \<and> \<not> (c_pending (co s) \<noteq> None \<and> busy (wpc s))"

text \<open>No lost wake-up: a worker that waits with work to do is about to be woken, unless a response was lost.\<close>

definition wake_inv :: "sys \<Rightarrow> bool" where
  "wake_inv s \<longleftrightarrow>
     (wpc s = WWait \<longrightarrow> c_pending (co s) \<noteq> None \<or> c_interactive (co s) \<noteq> None \<longrightarrow> wake_coming s)
     \<and> (wpc s = WTake \<longrightarrow> c_interactive (co s) \<noteq> None \<longrightarrow> c_pending (co s) \<noteq> None \<or> wake_coming s)"

text \<open>The latest interactive credential is waiting, about to run, or was run; it is never dropped.\<close>

definition latest_inv :: "sys \<Rightarrow> bool" where
  "latest_inv s \<longleftrightarrow>
     (\<forall>cr. latest s = Some cr \<longrightarrow>
        c_interactive (co s) = Some cr
        \<or> c_interactive (co s) = None \<and> (c_pending (co s) = Some cr \<or> cr \<in> set (attempts s)))
     \<and> (c_interactive (co s) \<noteq> None \<longrightarrow> c_interactive (co s) = latest s)"

text \<open>Once an interactive request was submitted, restoration is cancelled for good.\<close>

definition cancel_inv :: "sys \<Rightarrow> bool" where
  "cancel_inv s \<longleftrightarrow>
     (latest s \<noteq> None \<or> hpc s \<noteq> HIdle \<and> (\<exists>cr. hpc s = HEnqueue cr) \<longrightarrow> c_cancelled (co s))"

lemmas inv_defs = slot_inv_def wake_inv_def latest_inv_def cancel_inv_def busy_def wake_coming_def
  handler_will_wake_def restorer_will_wake_def

lemma init_invs: "slot_inv sys_init" "wake_inv sys_init" "latest_inv sys_init" "cancel_inv sys_init"
  by (simp_all add: inv_defs sys_init_def coord_init_def)

lemma slot_worker: "worker s t \<Longrightarrow> slot_inv s \<Longrightarrow> slot_inv t"
  by (induction rule: worker.induct)
     (auto simp: coord_defs worker_handover_eq slot_inv_def busy_def try_marker_def split: option.splits)

lemma slot_handler: "handler s t \<Longrightarrow> slot_inv s \<Longrightarrow> slot_inv t"
  by (induction rule: handler.induct)
     (auto simp: coord_defs slot_inv_def busy_def try_marker_def split: if_splits wpc.splits)

lemma slot_restorer: "restorer s t \<Longrightarrow> slot_inv s \<Longrightarrow> slot_inv t"
  by (induction rule: restorer.induct)
     (auto simp: coord_defs slot_inv_def busy_def try_marker_def split: if_splits wpc.splits)

lemma wake_worker: "worker s t \<Longrightarrow> slot_inv s \<Longrightarrow> wake_inv s \<Longrightarrow> wake_inv t"
  by (induction rule: worker.induct)
     (auto simp: coord_defs worker_handover_eq slot_inv_def wake_inv_def wake_coming_def busy_def try_marker_def Let_def
       split: option.splits conn_state.splits)

lemma wake_handler: "handler s t \<Longrightarrow> slot_inv s \<Longrightarrow> wake_inv s \<Longrightarrow> wake_inv t"
  by (induction rule: handler.induct)
     (auto simp: coord_defs wake_inv_def wake_coming_def handler_will_wake_def try_marker_def hafter_def
       split: if_splits hnext.splits)

lemma wake_restorer: "restorer s t \<Longrightarrow> slot_inv s \<Longrightarrow> wake_inv s \<Longrightarrow> wake_inv t"
  by (induction rule: restorer.induct)
     (auto simp: coord_defs wake_inv_def wake_coming_def restorer_will_wake_def try_marker_def
       split: if_splits)

lemma latest_worker: "worker s t \<Longrightarrow> slot_inv s \<Longrightarrow> latest_inv s \<Longrightarrow> latest_inv t"
  by (induction rule: worker.induct)
     (auto simp: coord_defs worker_handover_eq slot_inv_def latest_inv_def busy_def try_marker_def Let_def
       split: option.splits if_splits)

lemma latest_handler: "handler s t \<Longrightarrow> slot_inv s \<Longrightarrow> latest_inv s \<Longrightarrow> latest_inv t"
  by (induction rule: handler.induct)
     (auto simp: coord_defs latest_inv_def try_marker_def split: if_splits)

lemma latest_restorer: "restorer s t \<Longrightarrow> slot_inv s \<Longrightarrow> latest_inv s \<Longrightarrow> latest_inv t"
  by (induction rule: restorer.induct)
     (auto simp: coord_defs slot_inv_def latest_inv_def try_marker_def split: if_splits)

lemma cancel_step: "sys_step s t \<Longrightarrow> cancel_inv s \<Longrightarrow> cancel_inv t"
proof (induction rule: sys_step.induct)
  case (by_worker s t)
  then show ?case
    by (induction rule: worker.induct)
       (auto simp: coord_defs worker_handover_eq cancel_inv_def try_marker_def Let_def split: option.splits)
next
  case (by_handler s t)
  then show ?case
    by (induction rule: handler.induct)
       (auto simp: coord_defs cancel_inv_def try_marker_def hafter_def split: if_splits hnext.splits)
next
  case (by_restorer s t)
  then show ?case
    by (induction rule: restorer.induct)
       (auto simp: coord_defs cancel_inv_def try_marker_def split: if_splits)
qed

lemma reachable_invs: "reachable s \<Longrightarrow> slot_inv s \<and> wake_inv s \<and> latest_inv s \<and> cancel_inv s"
proof (induction rule: reachable.induct)
  case reach_init
  then show ?case by (simp add: init_invs)
next
  case (reach_step s t)
  have "slot_inv t" "wake_inv t" "latest_inv t"
    using reach_step slot_worker slot_handler slot_restorer wake_worker wake_handler wake_restorer
      latest_worker latest_handler latest_restorer
    by auto
  then show ?case using reach_step cancel_step [OF reach_step(2)] by simp
qed

section \<open>Progress of the worker\<close>

text \<open>
  A credential is stored when either slot holds it. \<open>pace cr s\<close> bounds the number of steps the
  worker still has to take before it hands a stored \<open>cr\<close> to \<open>_connect\<close>: it has to come round to
  \<open>take_pending\<close>, and once more when another attempt is ahead of it.
\<close>

definition stored :: "creds \<Rightarrow> sys \<Rightarrow> bool" where
  "stored cr s \<longleftrightarrow> c_interactive (co s) = Some cr \<or> c_pending (co s) = Some cr"

definition pace :: "creds \<Rightarrow> sys \<Rightarrow> nat" where
  "pace cr s =
     (if c_pending (co s) = Some cr
      then (case wpc s of WWait \<Rightarrow> 4 | WClear \<Rightarrow> 3 | WMirror \<Rightarrow> 4 | WMark _ \<Rightarrow> 3 | WTop \<Rightarrow> 2 | _ \<Rightarrow> 1)
      else (case wpc s of WTake \<Rightarrow> if c_pending (co s) = None then 12 else 8 | WWait \<Rightarrow> 11 | WClear \<Rightarrow> 10
              | WMirror \<Rightarrow> 11 | WMark _ \<Rightarrow> 10 | WTop \<Rightarrow> 9 | WConnect _ \<Rightarrow> 7 | WPublish _ _ \<Rightarrow> 6))"

lemma pace_bound: "pace cr s \<le> 12"
  by (simp add: pace_def split: wpc.split)

text \<open>Every step of the worker, whatever the attempts and the marker writes give, is progress.\<close>

lemma worker_paces:
  assumes "worker s t" and "slot_inv s" and "stored cr s" and "wpc t \<noteq> WConnect cr"
  shows "stored cr t \<and> pace cr t < pace cr s"
  using assms
  by (cases cr, induction rule: worker.induct)
     (auto simp: coord_defs worker_handover_eq slot_inv_def busy_def stored_def pace_def try_marker_def
        split: option.splits if_splits)

text \<open>The other threads neither lose a stored credential nor put it back, unless a newer request replaces it.\<close>

lemma pace_mono:
  assumes "wpc t = wpc s" and "c_pending (co t) = c_pending (co s) \<or> c_pending (co s) = None"
  shows "pace cr t \<le> pace cr s"
  using assms by (cases "wpc s") (auto simp: pace_def)

lemma handler_leaves:
  assumes "handler s t" and "slot_inv s"
  shows "wpc t = wpc s \<and> (c_pending (co t) = c_pending (co s) \<or> c_pending (co s) = None)
         \<and> (c_event (co s) \<longrightarrow> c_event (co t))"
  using assms
  by (induction rule: handler.induct) (auto simp: coord_defs slot_inv_def try_marker_def split: if_splits)

lemma handler_stores:
  assumes "handler s t" and "slot_inv s" and "stored cr s" and "latest t = latest s"
    and "c_interactive (co s) = None \<or> c_interactive (co s) = latest s"
  shows "stored cr t"
  using assms
  by (cases cr, induction rule: handler.induct)
     (auto simp: coord_defs slot_inv_def stored_def try_marker_def split: if_splits)

lemma restorer_leaves:
  assumes "restorer s t" and "slot_inv s"
  shows "wpc t = wpc s \<and> (c_pending (co t) = c_pending (co s) \<or> c_pending (co s) = None)
         \<and> (c_event (co s) \<longrightarrow> c_event (co t)) \<and> (stored cr s \<longrightarrow> stored cr t)"
  using assms
  by (cases cr, induction rule: restorer.induct)
     (auto simp: coord_defs slot_inv_def stored_def try_marker_def split: if_splits)

text \<open>
  A worker that is not waiting can always move; one that waits can move once the event is set. Its next
  step, with the attempts succeeding and the marker writable:
\<close>

definition worker_next :: "sys \<Rightarrow> sys" where
  "worker_next s =
     (case wpc s of
        WTop \<Rightarrow> s\<lparr>co := worker_handover (co s), wpc := WTake\<rparr>
      | WTake \<Rightarrow>
          (case take_pending (co s) of
             (None, c) \<Rightarrow> s\<lparr>co := c, wpc := WWait\<rparr>
           | (Some cr, c) \<Rightarrow> s\<lparr>co := c, wpc := WConnect cr, attempts := cr # attempts s\<rparr>)
      | WWait \<Rightarrow> if c_event (co s) then s\<lparr>wpc := WClear\<rparr> else s
      | WClear \<Rightarrow> s\<lparr>co := (co s)\<lparr>c_event := False\<rparr>, wpc := WTop\<rparr>
      | WConnect _ \<Rightarrow> s\<lparr>wpc := WPublish True []\<rparr>
      | WPublish ok m \<Rightarrow> s\<lparr>co := worker_publish ok m (co s), wpc := WMirror\<rparr>
      | WMirror \<Rightarrow> s\<lparr>wpc := WMark (mirror_read (co s))\<rparr>
      | WMark b \<Rightarrow> s\<lparr>co := try_marker True b (co s), wpc := WTop\<rparr>)"

lemma worker_enabled: "(wpc s = WWait \<longrightarrow> c_event (co s)) \<Longrightarrow> worker s (worker_next s)"
  by (auto simp: worker_next_def attempt_outcome_def split: wpc.split option.split prod.split
      intro: worker.intros w_connect [where r = "Inr (True, [])"])

lemma worker_blocked: "wpc s = WWait \<Longrightarrow> \<not> c_event (co s) \<Longrightarrow> worker_next s = s \<and> \<not> worker s t"
  by (auto simp: worker_next_def elim: worker.cases)

lemma worker_next_frame:
  "hpc (worker_next s) = hpc s" "rpc (worker_next s) = rpc s" "latest (worker_next s) = latest s"
  "reply_lost (worker_next s) = reply_lost s"
  by (simp_all add: worker_next_def split: wpc.split option.split prod.split)

text \<open>A wake-up under way ends with the event set or with its response lost; a loss is made good by a wake-up only.\<close>

lemma handler_wakes:
  "sys_step s t \<Longrightarrow> handler_will_wake (hpc s) \<Longrightarrow> \<not> handler_will_wake (hpc t) \<Longrightarrow> c_event (co t) \<or> reply_lost t"
  by (elim sys_stepE worker.cases handler.cases restorer.cases)
     (auto simp: handler_will_wake_def start_after_response_def hafter_def split: hnext.splits)

lemma restorer_wakes:
  "sys_step s t \<Longrightarrow> restorer_will_wake (rpc s) \<Longrightarrow> \<not> restorer_will_wake (rpc t) \<Longrightarrow> c_event (co t)"
  by (elim sys_stepE worker.cases handler.cases restorer.cases)
     (auto simp: restorer_will_wake_def start_after_response_def)

lemma loss_made_good: "sys_step s t \<Longrightarrow> reply_lost s \<Longrightarrow> \<not> reply_lost t \<Longrightarrow> c_event (co t)"
  by (elim sys_stepE worker.cases handler.cases restorer.cases) (auto simp: start_after_response_def)

lemma worker_changes_pc: "worker s t \<Longrightarrow> wpc t \<noteq> wpc s"
  by (induction rule: worker.induct) auto

section \<open>Fair runs\<close>

text \<open>
  An infinite run of the service from a reachable state: one thread moves, or nothing happens. It is
  fair when a worker that can move moves, and every request and every hand-over of the restore
  thread that is begun is finished.
\<close>

definition is_run :: "(nat \<Rightarrow> sys) \<Rightarrow> bool" where
  "is_run \<sigma> \<longleftrightarrow> reachable (\<sigma> 0) \<and> (\<forall>i. sys_step (\<sigma> i) (\<sigma> (Suc i)) \<or> \<sigma> (Suc i) = \<sigma> i)"

definition is_fair :: "(nat \<Rightarrow> sys) \<Rightarrow> bool" where
  "is_fair \<sigma> \<longleftrightarrow>
     (\<forall>i. (\<forall>j\<ge>i. \<exists>t. worker (\<sigma> j) t) \<longrightarrow> (\<exists>j\<ge>i. worker (\<sigma> j) (\<sigma> (Suc j))))
     \<and> (\<forall>i. \<exists>j\<ge>i. hpc (\<sigma> j) = HIdle) \<and> (\<forall>i. \<exists>j\<ge>i. rpc (\<sigma> j) = RIdle)"

lemma run_reachable: "is_run \<sigma> \<Longrightarrow> reachable (\<sigma> i)"
proof (induction i)
  case (Suc i)
  then show ?case using reach_step [of "\<sigma> i" "\<sigma> (Suc i)"] unfolding is_run_def by metis
qed (simp add: is_run_def)

lemma fairD:
  assumes "is_fair \<sigma>"
  shows "(\<And>j. j \<ge> i \<Longrightarrow> \<exists>t. worker (\<sigma> j) t) \<Longrightarrow> \<exists>j\<ge>i. worker (\<sigma> j) (\<sigma> (Suc j))"
    and "\<exists>j\<ge>i. hpc (\<sigma> j) = HIdle" and "\<exists>j\<ge>i. rpc (\<sigma> j) = RIdle"
  using assms unfolding is_fair_def by blast+

lemma run_step: "is_run \<sigma> \<Longrightarrow> \<sigma> (Suc i) \<noteq> \<sigma> i \<Longrightarrow> sys_step (\<sigma> i) (\<sigma> (Suc i))"
  by (auto simp: is_run_def)

lemma first_change: "i \<le> j \<Longrightarrow> P i \<Longrightarrow> \<not> P j \<Longrightarrow> \<exists>k\<ge>i. P k \<and> \<not> P (Suc k)" for i j :: nat
  by (induction rule: dec_induct) auto

text \<open>The worker alone, with the other threads at rest, is such a run.\<close>

lemma worker_alone:
  assumes "reachable s" and "hpc s = HIdle" and "rpc s = RIdle"
  shows "is_run (\<lambda>i. (worker_next ^^ i) s)" and "is_fair (\<lambda>i. (worker_next ^^ i) s)"
    and "latest ((worker_next ^^ i) s) = latest s" and "reply_lost ((worker_next ^^ i) s) = reply_lost s"
proof -
  have frame: "hpc ((worker_next ^^ i) s) = HIdle \<and> rpc ((worker_next ^^ i) s) = RIdle
      \<and> latest ((worker_next ^^ i) s) = latest s \<and> reply_lost ((worker_next ^^ i) s) = reply_lost s" for i
    by (induction i) (use assms in \<open>simp_all add: worker_next_frame\<close>)
  show "is_run (\<lambda>i. (worker_next ^^ i) s)"
    using assms(1) worker_enabled worker_blocked by (auto simp: is_run_def intro: by_worker)
  have "worker u (worker_next u)" if "worker u t" for u t
    using that worker_enabled [of u] worker_blocked [of u t] by blast
  then show "is_fair (\<lambda>i. (worker_next ^^ i) s)"
    using frame unfolding is_fair_def funpow.simps comp_def by blast
  show "latest ((worker_next ^^ i) s) = latest s" "reply_lost ((worker_next ^^ i) s) = reply_lost s"
    using frame by simp_all
qed

text \<open>What one step of a run does to a credential that is stored and not handed to the worker's attempt.\<close>

lemma run_paces:
  assumes run: "is_run \<sigma>" and newest: "latest (\<sigma> (Suc i)) = latest (\<sigma> i)"
    and st: "stored cr (\<sigma> i)" and no: "wpc (\<sigma> (Suc i)) \<noteq> WConnect cr"
  shows "stored cr (\<sigma> (Suc i))
         \<and> (worker (\<sigma> i) (\<sigma> (Suc i)) \<and> pace cr (\<sigma> (Suc i)) < pace cr (\<sigma> i)
            \<or> pace cr (\<sigma> (Suc i)) \<le> pace cr (\<sigma> i) \<and> wpc (\<sigma> (Suc i)) = wpc (\<sigma> i)
              \<and> (c_event (co (\<sigma> i)) \<longrightarrow> c_event (co (\<sigma> (Suc i)))))"
proof (cases "\<sigma> (Suc i) = \<sigma> i")
  case False
  have inv: "slot_inv (\<sigma> i)" "c_interactive (co (\<sigma> i)) = None \<or> c_interactive (co (\<sigma> i)) = latest (\<sigma> i)"
    using reachable_invs [OF run_reachable [OF run]] unfolding latest_inv_def by blast+
  from run_step [OF run False] show ?thesis
  proof cases
    case by_worker
    then show ?thesis using worker_paces [OF _ inv(1) st no] by blast
  next
    case by_handler
    then show ?thesis
      using handler_stores [OF _ inv(1) st newest inv(2)] handler_leaves [OF _ inv(1)] pace_mono by blast
  next
    case by_restorer
    then show ?thesis using restorer_leaves [OF _ inv(1), where cr = cr] st pace_mono by blast
  qed
qed (use st in simp)

text \<open>A worker that waits with a credential stored is woken: the event does not stay clear.\<close>

lemma event_set:
  assumes run: "is_run \<sigma>" and fair: "is_fair \<sigma>" and heard: "\<forall>i. \<exists>j\<ge>i. \<not> reply_lost (\<sigma> j)"
    and wait: "\<forall>j\<ge>i. wpc (\<sigma> j) = WWait \<and> stored cr (\<sigma> j)"
  shows "\<exists>j\<ge>i. c_event (co (\<sigma> j))"
proof (rule ccontr)
  assume "\<not> (\<exists>j\<ge>i. c_event (co (\<sigma> j)))"
  then have clear: "\<not> c_event (co (\<sigma> j))" if "j \<ge> i" for j using that by blast
  have step: "sys_step (\<sigma> k) (\<sigma> (Suc k))" if "P (\<sigma> k)" "\<not> P (\<sigma> (Suc k))" for P k
    using run_step [OF run, of k] that by metis
  have heard': "\<not> reply_lost (\<sigma> k)" if "k \<ge> i" for k
  proof
    assume lost: "reply_lost (\<sigma> k)"
    obtain j where "j \<ge> k" "\<not> reply_lost (\<sigma> j)" using heard by blast
    then obtain l where l: "l \<ge> k" "reply_lost (\<sigma> l)" "\<not> reply_lost (\<sigma> (Suc l))"
      using first_change [of k j "\<lambda>k. reply_lost (\<sigma> k)"] lost by blast
    then show False
      using loss_made_good [OF step [of reply_lost l]] clear [of "Suc l"] that by simp
  qed
  have "wake_coming (\<sigma> i)"
    using reachable_invs [OF run_reachable [OF run, of i]] wait
    by (auto simp: wake_inv_def stored_def)
  then consider "handler_will_wake (hpc (\<sigma> i))" | "restorer_will_wake (rpc (\<sigma> i))"
    using clear [of i] heard' [of i] by (auto simp: wake_coming_def)
  then show False
  proof cases
    case 1
    obtain j where "j \<ge> i" "hpc (\<sigma> j) = HIdle" using fairD(2) [OF fair] by blast
    then obtain k where k: "k \<ge> i" "handler_will_wake (hpc (\<sigma> k))" "\<not> handler_will_wake (hpc (\<sigma> (Suc k)))"
      using first_change [of i j "\<lambda>k. handler_will_wake (hpc (\<sigma> k))"] 1 by (auto simp: handler_will_wake_def)
    then show False
      using handler_wakes [OF step [of "\<lambda>s. handler_will_wake (hpc s)" k]] clear [of "Suc k"] heard' [of "Suc k"] by auto
  next
    case 2
    obtain j where "j \<ge> i" "rpc (\<sigma> j) = RIdle" using fairD(3) [OF fair] by blast
    then obtain k where k: "k \<ge> i" "restorer_will_wake (rpc (\<sigma> k))" "\<not> restorer_will_wake (rpc (\<sigma> (Suc k)))"
      using first_change [of i j "\<lambda>k. restorer_will_wake (rpc (\<sigma> k))"] 2 by (auto simp: restorer_will_wake_def)
    then show False
      using restorer_wakes [OF step [of "\<lambda>s. restorer_will_wake (rpc s)" k]] clear [of "Suc k"] by auto
  qed
qed

text \<open>So the worker of a fair run cannot stay where it is while a credential is stored.\<close>

lemma worker_moves_on:
  assumes run: "is_run \<sigma>" and fair: "is_fair \<sigma>" and heard: "\<forall>i. \<exists>j\<ge>i. \<not> reply_lost (\<sigma> j)"
    and st: "\<forall>j\<ge>i. stored cr (\<sigma> j)"
    and rest: "\<forall>j\<ge>i. wpc (\<sigma> (Suc j)) = wpc (\<sigma> j) \<and> (c_event (co (\<sigma> j)) \<longrightarrow> c_event (co (\<sigma> (Suc j))))"
  shows False
proof -
  have same: "wpc (\<sigma> (i + d)) = wpc (\<sigma> i)" for d using rest by (induction d) auto
  obtain k where k: "k \<ge> i" "wpc (\<sigma> i) = WWait \<longrightarrow> c_event (co (\<sigma> k))"
    using event_set [OF run fair heard, of i cr] st same by (metis le_Suc_ex order_refl)
  have "c_event (co (\<sigma> (k + d)))" if "c_event (co (\<sigma> k))" for d
    using that rest k(1) by (induction d) auto
  then have "\<exists>t. worker (\<sigma> j) t" if "j \<ge> k" for j
    using worker_enabled [of "\<sigma> j"] k same that by (metis le_Suc_ex le_trans)
  then obtain j where j: "j \<ge> k" "worker (\<sigma> j) (\<sigma> (Suc j))" using fairD(1) [OF fair, of k] by blast
  have "wpc (\<sigma> (Suc j)) \<noteq> wpc (\<sigma> j)" using j(2) by (rule worker_changes_pc)
  with rest j(1) k(1) show False by (meson le_trans)
qed

section \<open>A concrete run\<close>

definition sample_creds :: creds where
  "sample_creds = (lit ''home'', lit ''password1'')"

text \<open>The worker waits while a POST has just been accepted; and the same after the wake-up.\<close>

definition sample_accepted :: sys where
  "sample_accepted = \<lparr>co = coord_init\<lparr>c_state := CONNECT_WORKING, c_pending := Some sample_creds, c_cancelled := True\<rparr>,
     wpc = WWait, hpc = HMirror NReply, rpc = RIdle, attempts = [], latest = Some sample_creds, reply_lost = False\<rparr>"

definition sample_woken :: sys where
  "sample_woken = sample_accepted\<lparr>co := (co sample_accepted)\<lparr>c_marker := True, c_event := True\<rparr>, hpc := HIdle\<rparr>"

lemma reachable_by:
  "reachable s \<Longrightarrow> worker s t \<Longrightarrow> reachable t" "reachable s \<Longrightarrow> handler s t \<Longrightarrow> reachable t"
  by (blast intro: reach_step by_worker by_handler)+

lemma reachable_accepted: "reachable sample_accepted"
proof -
  let ?w = "sys_init\<lparr>co := worker_handover (co sys_init), wpc := WTake\<rparr>"
  let ?v = "?w\<lparr>co := snd (take_pending (co ?w)), wpc := WWait\<rparr>"
  let ?p = "?v\<lparr>co := cancel_restore (co ?v), hpc := HEnqueue sample_creds\<rparr>"
  let ?e = "enqueue_locked sample_creds (co ?p)"
  let ?h = "?p\<lparr>co := snd ?e, hpc := (if fst ?e then HMirror NReply else HReply), latest := Some sample_creds\<rparr>"
  have "reachable ?w" by (rule reachable_by(1) [OF reach_init w_top]) (simp add: sys_init_def)
  then have "reachable ?v"
    by (rule reachable_by(1), intro w_none)
       (simp_all add: sys_init_def coord_init_def worker_handover_def take_pending_def)
  then have "reachable ?p" by (rule reachable_by(2), intro h_post) (simp add: sys_init_def)
  then have "reachable ?h" by (rule reachable_by(2), intro h_enqueue) simp_all
  moreover have "?h = sample_accepted"
    by (simp add: sample_accepted_def sys_init_def coord_init_def worker_handover_def take_pending_def
        cancel_restore_def enqueue_locked_def)
  ultimately show ?thesis by simp
qed

lemma reachable_woken: "reachable sample_woken"
proof -
  let ?m = "sample_accepted\<lparr>hpc := HMark (mirror_read (co sample_accepted)) NReply\<rparr>"
  let ?k = "?m\<lparr>co := try_marker True (mirror_read (co sample_accepted)) (co ?m), hpc := hafter NReply\<rparr>"
  let ?r = "?k\<lparr>hpc := HWake\<rparr>"
  let ?t = "?r\<lparr>co := start_after_response (co ?r), hpc := HIdle, reply_lost := False\<rparr>"
  have "reachable ?m"
    by (rule reachable_by(2) [OF reachable_accepted h_mirror]) (simp add: sample_accepted_def)
  then have "reachable ?k" by (rule reachable_by(2), intro h_mark) simp
  then have "reachable ?r" by (rule reachable_by(2), intro h_reply) (simp add: hafter_def)
  then have "reachable ?t" by (rule reachable_by(2), intro h_wake) simp
  moreover have "?t = sample_woken"
    by (simp add: sample_woken_def sample_accepted_def mirror_read_def try_marker_def set_marker_def
        start_after_response_def hafter_def)
  ultimately show ?thesis by simp
qed

lemma woken_rest: "hpc sample_woken = HIdle" "rpc sample_woken = RIdle" "\<not> reply_lost sample_woken"
  by (simp_all add: sample_woken_def sample_accepted_def)

text \<open>A second request arrives while the attempt of the first one runs: it is deferred.\<close>

definition second_creds :: creds where
  "second_creds = (lit ''cafe'', lit ''password2'')"

definition sample_running :: sys where
  "sample_running = (worker_next ^^ 4) sample_woken"

definition sample_deferred :: sys where
  "sample_deferred = sample_running\<lparr>co := (co sample_running)\<lparr>c_interactive := Some second_creds\<rparr>, hpc := HReply,
     latest := Some second_creds\<rparr>"

lemma sample_running_eq:
  "sample_running = \<lparr>co = coord_init\<lparr>c_state := CONNECT_WORKING, c_cancelled := True, c_marker := True\<rparr>,
     wpc = WConnect sample_creds, hpc = HIdle, rpc = RIdle, attempts = [sample_creds], latest = Some sample_creds,
     reply_lost = False\<rparr>"
  by (simp add: sample_running_def sample_woken_def sample_accepted_def eval_nat_numeral worker_next_def coord_init_def
      worker_handover_eq take_pending_def)

lemma reachable_deferred: "reachable sample_deferred"
proof -
  have "reachable sample_running"
    unfolding sample_running_def by (rule run_reachable [OF worker_alone(1) [OF reachable_woken woken_rest(1,2)]])
  then have "reachable (sample_running\<lparr>co := cancel_restore (co sample_running), hpc := HEnqueue second_creds\<rparr>)"
    by (rule reachable_by(2), intro h_post) (simp add: sample_running_eq)
  from reachable_by(2) [OF this h_enqueue [of _ second_creds False "co sample_deferred"]]
  show ?thesis by (simp add: sample_deferred_def sample_running_eq cancel_restore_def enqueue_locked_def coord_init_def)
qed

text \<open>The deferred credential is not dropped: when the running attempt ends, it gets its own.\<close>

lemma duplicate_credential_attempted:
  "reachable sample_deferred \<and> fst (connect_status (co sample_deferred)) = CONNECT_WORKING
   \<and> wpc ((worker_next ^^ 6) sample_deferred) = WConnect second_creds"
  by (intro conjI reachable_deferred)
     (simp_all add: sample_deferred_def sample_running_eq eval_nat_numeral worker_next_def coord_init_def
      worker_handover_eq take_pending_def connect_status_def worker_publish_def mirror_read_def try_marker_def set_marker_def)

section \<open>Where the wake-up is lost\<close>

text \<open>
  The browser goes away before the response is written: the credential stays stored, the published state is
  \<open>connecting\<close>, every thread is at rest and the worker cannot move.
\<close>

definition sample_stranded :: sys where
  "sample_stranded = sample_accepted\<lparr>co := (co sample_accepted)\<lparr>c_marker := True\<rparr>, hpc := HIdle, reply_lost := True\<rparr>"

lemma reachable_stranded: "reachable sample_stranded"
proof -
  let ?m = "sample_accepted\<lparr>hpc := HMark (mirror_read (co sample_accepted)) NReply\<rparr>"
  let ?k = "?m\<lparr>co := try_marker True (mirror_read (co sample_accepted)) (co ?m), hpc := hafter NReply\<rparr>"
  let ?t = "?k\<lparr>hpc := HIdle, reply_lost := True\<rparr>"
  have "reachable ?m"
    by (rule reachable_by(2) [OF reachable_accepted h_mirror]) (simp add: sample_accepted_def)
  then have "reachable ?k" by (rule reachable_by(2), intro h_mark) simp
  then have "reachable ?t" by (rule reachable_by(2), intro h_lost) (simp add: hafter_def)
  moreover have "?t = sample_stranded"
    by (simp add: sample_stranded_def sample_accepted_def mirror_read_def try_marker_def set_marker_def hafter_def)
  ultimately show ?thesis by simp
qed

lemma stranded_worker_stuck:
  "c_state (co sample_stranded) = CONNECT_WORKING \<and> c_pending (co sample_stranded) = Some sample_creds \<and> \<not> worker sample_stranded t"
  by (auto simp: sample_stranded_def sample_accepted_def coord_init_def elim: worker.cases)

section \<open>Where the marker lags\<close>

text \<open>
  The hand-over at the loop head publishes no marker: after a failed restore attempt, with every
  publication succeeding, a POST submitted before the failure is read starts an attempt during
  which the in-progress marker is absent.
\<close>

definition lagging_marker :: "creds \<Rightarrow> creds \<Rightarrow> pystr \<Rightarrow> coord" where
  "lagging_marker saved typed m =
     (let c1 = snd (queue_connection saved coord_init);
          c2 = mirror_progress (worker_publish False m (snd (take_pending c1)));
          c3 = start_after_response (snd (enqueue_interactive typed c2))
      in snd (take_pending (worker_handover (c3\<lparr>c_event := False\<rparr>))))"

lemma marker_lags:
  "c_state (lagging_marker saved typed m) = CONNECT_WORKING \<and> \<not> c_marker (lagging_marker saved typed m)"
  by (simp add: lagging_marker_def coord_defs coord_init_def worker_handover_def)

text \<open>
  \<open>reset_failure\<close> keeps the old message, and the hand-over from \<open>idle\<close> does not clear it: the
  status of the next attempt can carry the message of the failed one.
\<close>

lemma stale_message:
  "connect_status (worker_handover (reset_failure
     (coord_init\<lparr>c_state := CONNECT_FAILED, c_message := m, c_interactive := Some cr\<rparr>)))
   = (CONNECT_WORKING, m)"
  by (simp add: coord_defs coord_init_def worker_handover_def)

section \<open>Properties\<close>

text \<open>
  C3. At most one request at a time, and the published state tells the truth: in every reachable
  state of the three interleaved threads, \<open>connecting\<close> is published exactly while one credential
  is waiting to be taken or one attempt is running, and never both at once.
\<close>

theorem coordinator_one_attempt:
  assumes "reachable s"
  shows "(fst (connect_status (co s)) = CONNECT_WORKING \<longleftrightarrow> c_pending (co s) \<noteq> None \<or> busy (wpc s))
         \<and> (c_pending (co s) = None \<or> \<not> busy (wpc s))"
  using reachable_invs [OF assms] by (auto simp: slot_inv_def connect_status_def)

theorem coordinator_one_attempt_witness:
  "fst (connect_status (co sample_accepted)) = CONNECT_WORKING \<and> \<not> busy (wpc sample_accepted)"
  using coordinator_one_attempt [OF reachable_accepted] by (auto simp: sample_accepted_def coord_defs)

text \<open>
  C4. No lost wake-up: whenever the worker sits in \<open>wait()\<close> with the event clear while a request or
  an interactive credential is stored, the handler or the restore thread is past accepting a
  credential and has its \<open>start_after_response\<close> still to come. The one exception is a response that
  could not be written since the last wake-up.
\<close>

theorem coordinator_no_lost_wakeup:
  assumes "reachable s" and "wpc s = WWait" and "\<not> c_event (co s)"
    and "c_pending (co s) \<noteq> None \<or> c_interactive (co s) \<noteq> None" and "\<not> reply_lost s"
  shows "handler_will_wake (hpc s) \<or> restorer_will_wake (rpc s)"
  using reachable_invs [OF assms(1)] assms(2-) by (auto simp: wake_inv_def wake_coming_def)

theorem coordinator_no_lost_wakeup_witness:
  "wpc sample_accepted = WWait \<and> handler_will_wake (hpc sample_accepted)"
  using coordinator_no_lost_wakeup [OF reachable_accepted]
  by (auto simp: sample_accepted_def coord_init_def restorer_will_wake_def)

text \<open>
  C5. Every stored credential gets its attempt, in every fair run of the three threads: take a run
  from a reachable state in which a worker that can move keeps moving (so every attempt returns),
  every begun request and restore hand-over is finished, no response stays lost for good (a lost
  one is followed by some later wake-up), and no newer interactive request arrives. Then a
  credential in either slot is handed to \<open>_connect\<close>. Without the condition on responses it fails:
  \<open>reachable_stranded\<close> and \<open>stranded_worker_stuck\<close>.
\<close>

theorem coordinator_latest_runs:
  assumes run: "is_run \<sigma>" and fair: "is_fair \<sigma>" and heard: "\<forall>i. \<exists>j\<ge>i. \<not> reply_lost (\<sigma> j)"
    and newest: "\<forall>i. latest (\<sigma> i) = latest (\<sigma> 0)"
    and st: "c_interactive (co (\<sigma> 0)) = Some cr \<or> c_pending (co (\<sigma> 0)) = Some cr"
  shows "\<exists>i. wpc (\<sigma> i) = WConnect cr"
proof (rule ccontr)
  assume "\<nexists>i. wpc (\<sigma> i) = WConnect cr"
  then have no: "wpc (\<sigma> i) \<noteq> WConnect cr" for i by blast
  have stored: "stored cr (\<sigma> i)" for i
  proof (induction i)
    case (Suc i)
    then show ?case using run_paces [OF run _ _ no] newest by metis
  qed (use st in \<open>simp add: stored_def\<close>)
  note step = run_paces [OF run _ stored no]
  obtain i where least: "pace cr (\<sigma> i) \<le> pace cr (\<sigma> j)" for j
    using ex_has_least_nat [of "\<lambda>_. True" 0 "\<lambda>i. pace cr (\<sigma> i)"] by blast
  have flat: "pace cr (\<sigma> (i + d)) = pace cr (\<sigma> i)" for d
  proof (induction d)
    case (Suc d)
    then show ?case using step [of "i + d"] newest least [of "Suc (i + d)"] by (metis add_Suc_right le_antisym less_or_eq_imp_le)
  qed simp
  have "wpc (\<sigma> (Suc j)) = wpc (\<sigma> j) \<and> (c_event (co (\<sigma> j)) \<longrightarrow> c_event (co (\<sigma> (Suc j))))" if "j \<ge> i" for j
    using step [of j] newest flat [of "j - i"] least [of "Suc j"] that by (metis le_add_diff_inverse not_le)
  then show False using worker_moves_on [OF run fair heard, of i cr] stored by blast
qed

theorem coordinator_latest_runs_witness:
  "\<exists>i. wpc ((worker_next ^^ i) sample_woken) = WConnect sample_creds"
proof -
  note alone = worker_alone [OF reachable_woken woken_rest(1,2)]
  show ?thesis
    by (rule coordinator_latest_runs [where \<sigma> = "\<lambda>i. (worker_next ^^ i) sample_woken", OF alone(1,2)])
       (simp_all add: alone(3,4) woken_rest, auto simp: sample_woken_def sample_accepted_def)
qed



end
