(* ===== verification/Rio.thy ===== *)
theory Rio
  imports Prelude
begin

text \<open>
  Programs that read and change a state and may raise: the exception monad over a state. What such a program did to
  its state before it raised stays done, as in the sources. The loops of the sources over a list are \<open>r_each\<close>; the
  congruence rules let a recursive program call itself on what a pure step returned or on the elements of a list.
\<close>

section \<open>Sequencing\<close>

type_synonym ('w, 'a) rio = "'w \<Rightarrow> 'a res \<times> 'w"

definition r_return :: "'a \<Rightarrow> ('w, 'a) rio" where "r_return x = (\<lambda>w. (Inr x, w))"

definition r_bind :: "('w, 'a) rio \<Rightarrow> ('a \<Rightarrow> ('w, 'b) rio) \<Rightarrow> ('w, 'b) rio" where
  "r_bind m f = (\<lambda>w. case m w of (Inl x, w') \<Rightarrow> (Inl x, w') | (Inr x, w') \<Rightarrow> f x w')"

definition r_seq :: "('w, 'a) rio \<Rightarrow> ('w, 'b) rio \<Rightarrow> ('w, 'b) rio" where "r_seq m k = r_bind m (\<lambda>_. k)"

definition r_lift :: "'a res \<Rightarrow> ('w, 'a) rio" where "r_lift r = (\<lambda>w. (r, w))"

lemmas rio_defs = r_return_def r_bind_def r_seq_def r_lift_def

lemma r_bind_cases:
  assumes "r_bind m f w = (r, w')"
  obtains x where "m w = (Inl x, w')" "r = Inl x"
  | x w1 where "m w = (Inr x, w1)" "f x w1 = (r, w')"
  using assms by (auto simp: r_bind_def split: prod.splits sum.splits)

text \<open>A pure step that may raise, with its continuation.\<close>

definition r_with :: "'a res \<Rightarrow> ('a \<Rightarrow> ('w, 'b) rio) \<Rightarrow> ('w, 'b) rio" where
  "r_with r f = (case r of Inl x \<Rightarrow> (\<lambda>w. (Inl x, w)) | Inr v \<Rightarrow> f v)"

lemma r_with_simps [simp]: "r_with (Inl x) f = (\<lambda>w. (Inl x, w))" "r_with (Inr v) f = f v"
  by (simp_all add: r_with_def)

lemma r_with_cong [fundef_cong]:
  "r = r' \<Longrightarrow> (\<And>v. r' = Inr v \<Longrightarrow> f v = g v) \<Longrightarrow> r_with r f = r_with r' g"
  by (cases r') simp_all

lemma r_with_cases:
  assumes "r_with r f w = (x, w')"
  obtains e where "r = Inl e" "x = Inl e" "w' = w"
  | v where "r = Inr v" "f v w = (x, w')"
  using assms by (cases r) auto

text \<open>The loop \<open>for x in xs\<close>.\<close>

primrec r_each :: "('a \<Rightarrow> ('w, unit) rio) \<Rightarrow> 'a list \<Rightarrow> ('w, unit) rio" where
  "r_each f [] = r_return ()"
| "r_each f (x # xs) = r_seq (f x) (r_each f xs)"

lemma r_each_cong [fundef_cong]:
  "xs = ys \<Longrightarrow> (\<And>x. x \<in> set ys \<Longrightarrow> f x = g x) \<Longrightarrow> r_each f xs = r_each g ys"
  by (induction ys arbitrary: xs) auto

text \<open>\<open>for i, x in enumerate(xs)\<close>\<close>

primrec r_each_from :: "nat \<Rightarrow> (nat \<Rightarrow> 'a \<Rightarrow> ('w, unit) rio) \<Rightarrow> 'a list \<Rightarrow> ('w, unit) rio" where
  "r_each_from n f [] = r_return ()"
| "r_each_from n f (x # xs) = r_seq (f n x) (r_each_from (Suc n) f xs)"

lemma r_each_from_cong [fundef_cong]:
  "n = m \<Longrightarrow> xs = ys \<Longrightarrow> (\<And>i x. x \<in> set ys \<Longrightarrow> f i x = g i x) \<Longrightarrow> r_each_from n f xs = r_each_from m g ys"
  by (induction ys arbitrary: xs n m) auto

definition r_when :: "bool \<Rightarrow> ('w, unit) rio \<Rightarrow> ('w, unit) rio" where
  "r_when b m = (if b then m else r_return ())"

lemma r_when_cong [fundef_cong]: "b = c \<Longrightarrow> (c \<Longrightarrow> m = k) \<Longrightarrow> r_when b m = r_when c k"
  by (simp add: r_when_def)

section \<open>Invariants of a program's state\<close>

definition r_keeps :: "('w \<Rightarrow> bool) \<Rightarrow> ('w, 'a) rio \<Rightarrow> bool" where
  "r_keeps I m \<longleftrightarrow> (\<forall>w. I w \<longrightarrow> I (snd (m w)))"

named_theorems keeps_intros

lemma r_keepsI: "(\<And>w. I w \<Longrightarrow> I (snd (m w))) \<Longrightarrow> r_keeps I m"
  by (simp add: r_keeps_def)

lemma r_keepsD: "r_keeps I m \<Longrightarrow> I w \<Longrightarrow> m w = (r, w') \<Longrightarrow> I w'"
  by (metis r_keeps_def snd_conv)

lemma r_keeps_return [keeps_intros]: "r_keeps I (r_return x)"
  by (simp add: r_keeps_def r_return_def)

lemma r_keeps_raise [keeps_intros]: "r_keeps I (\<lambda>w. (Inl x, w))"
  by (simp add: r_keeps_def)

lemma r_keeps_bind [keeps_intros]:
  assumes "r_keeps I m" and "\<And>x. r_keeps I (f x)"
  shows "r_keeps I (r_bind m f)"
  using assms unfolding r_keeps_def r_bind_def by (auto split: prod.splits sum.splits)

lemma r_keeps_seq [keeps_intros]: "r_keeps I m \<Longrightarrow> r_keeps I k \<Longrightarrow> r_keeps I (r_seq m k)"
  unfolding r_seq_def by (rule r_keeps_bind)

lemma r_keeps_with [keeps_intros]: "(\<And>v. r = Inr v \<Longrightarrow> r_keeps I (f v)) \<Longrightarrow> r_keeps I (r_with r f)"
  by (cases r) (simp_all add: r_keeps_raise)

lemma r_keeps_when [keeps_intros]: "(b \<Longrightarrow> r_keeps I m) \<Longrightarrow> r_keeps I (r_when b m)"
  by (simp add: r_when_def r_keeps_return)

lemma r_keeps_if [keeps_intros]: "(b \<Longrightarrow> r_keeps I m) \<Longrightarrow> (\<not> b \<Longrightarrow> r_keeps I k) \<Longrightarrow> r_keeps I (if b then m else k)"
  by simp

lemma r_keeps_each [keeps_intros]: "(\<And>x. x \<in> set xs \<Longrightarrow> r_keeps I (f x)) \<Longrightarrow> r_keeps I (r_each f xs)"
  by (induction xs) (simp_all add: r_keeps_return r_keeps_seq)

end
