(* ===== verification/Service.thy ===== *)
theory Service
  imports Complex_Main Coordinator Nmcli Rio
begin

text \<open>
  The running service as one thread sees it: a state monad over what the threads share (the
  coordinator object, the \<open>nmcli\<close> adapter, the file system, the clock), in which the other threads
  may change all of it before every atomic step. The module-level functions of
  \<open>sushida_os/wifi/coordinator.py\<close> are the coordinator's methods run in this world, one atomic
  step for each lock block and one for each publication of the marker file. Both
  the restore thread and the HTTP handler are written over it.
\<close>

section \<open>The shared world\<close>

record shared =
  w_co :: coord
  w_nm :: nmst
  w_os :: os
  w_now :: rat
  w_tick :: nat

text \<open>The other threads: what they do to the shared objects before the \<open>n\<close>-th step, and how long it takes (in ns).\<close>

record others =
  oth :: "nat \<Rightarrow> coord \<times> nmst \<times> os \<Rightarrow> coord \<times> nmst \<times> os"
  adv :: "nat \<Rightarrow> nat"

definition turn :: "others \<Rightarrow> 'z shared_scheme \<Rightarrow> 'z shared_scheme" where
  "turn ot w = (case oth ot (w_tick w) (w_co w, w_nm w, w_os w) of (c, st, s) \<Rightarrow>
     w\<lparr>w_co := c, w_nm := st, w_os := s, w_now := w_now w + of_nat (adv ot (w_tick w)) / 1000000000, w_tick := Suc (w_tick w)\<rparr>)"

definition on_co :: "others \<Rightarrow> (coord \<Rightarrow> 'a \<times> coord) \<Rightarrow> ('z shared_scheme, 'a) rio" where
  "on_co ot f = (\<lambda>w. let w' = turn ot w in case f (w_co w') of (x, c) \<Rightarrow> (Inr x, w'\<lparr>w_co := c\<rparr>))"

definition on_nm :: "others \<Rightarrow> 'a nio \<Rightarrow> ('z shared_scheme, 'a) rio" where
  "on_nm ot f = (\<lambda>w. let w' = turn ot w in case f (w_nm w') of (r, st) \<Rightarrow> (r, w'\<lparr>w_nm := st\<rparr>))"

definition on_os :: "others \<Rightarrow> 'a io \<Rightarrow> ('z shared_scheme, 'a) rio" where
  "on_os ot f = (\<lambda>w. let w' = turn ot w in case f (w_os w') of (r, s) \<Rightarrow> (r, w'\<lparr>w_os := s\<rparr>))"

section \<open>The coordinator's functions\<close>

text \<open>\<open>_mirror_progress\<close>: the flag is read under the lock, the marker file is set after it is released.\<close>

definition svc_mirror :: "env \<Rightarrow> others \<Rightarrow> ('z shared_scheme, unit) rio" where
  "svc_mirror e ot =
     r_bind (on_co ot (\<lambda>c. (mirror_read c, c))) (\<lambda>active. on_os ot (set_connection_marker e active))"

definition svc_connect_status :: "others \<Rightarrow> ('z shared_scheme, conn_state \<times> pystr) rio" where
  "svc_connect_status ot = on_co ot (\<lambda>c. (connect_status c, c))"

definition svc_queue_connection :: "env \<Rightarrow> others \<Rightarrow> creds \<Rightarrow> ('z shared_scheme, bool) rio" where
  "svc_queue_connection e ot cr =
     r_bind (on_co ot (queue_locked cr)) (\<lambda>ok.
     if \<not> ok then r_return False else r_seq (svc_mirror e ot) (r_return True))"

definition svc_enqueue_interactive :: "env \<Rightarrow> others \<Rightarrow> creds \<Rightarrow> ('z shared_scheme, bool) rio" where
  "svc_enqueue_interactive e ot cr =
     r_seq (on_co ot (\<lambda>c. ((), cancel_restore c)))
    (r_bind (on_co ot (enqueue_locked cr)) (\<lambda>started.
     if started then r_seq (svc_mirror e ot) (r_return True) else r_return False))"

definition svc_start_queued_connection :: "others \<Rightarrow> ('z shared_scheme, unit) rio" where
  "svc_start_queued_connection ot = on_co ot (\<lambda>c. ((), start_after_response c))"

definition svc_consume_failure :: "env \<Rightarrow> others \<Rightarrow> ('z shared_scheme, pystr option) rio" where
  "svc_consume_failure e ot =
     r_bind (on_co ot consume_locked) (\<lambda>message.
     case message of None \<Rightarrow> r_return None | Some m \<Rightarrow> r_seq (svc_mirror e ot) (r_return (Some m)))"

definition svc_reset_succeeded :: "env \<Rightarrow> others \<Rightarrow> ('z shared_scheme, unit) rio" where
  "svc_reset_succeeded e ot = r_seq (on_co ot (\<lambda>c. ((), reset_succeeded_locked c))) (svc_mirror e ot)"

definition svc_reset_failure :: "others \<Rightarrow> ('z shared_scheme, unit) rio" where
  "svc_reset_failure ot = on_co ot (\<lambda>c. ((), reset_failure c))"

definition svc_interactive_pending :: "others \<Rightarrow> ('z shared_scheme, bool) rio" where
  "svc_interactive_pending ot = on_co ot (\<lambda>c. (interactive_pending c, c))"

definition svc_restore_cancelled :: "others \<Rightarrow> ('z shared_scheme, bool) rio" where
  "svc_restore_cancelled ot = on_co ot (\<lambda>c. (restore_cancelled c, c))"

lemmas svc_defs = svc_connect_status_def svc_start_queued_connection_def svc_reset_failure_def
  svc_interactive_pending_def svc_restore_cancelled_def

text \<open>What one turn of the other threads may do to the coordinator.\<close>

definition others_move :: "others \<Rightarrow> coord \<Rightarrow> coord \<Rightarrow> bool" where
  "others_move ot c c' \<longleftrightarrow> (\<exists>n st s. c' = fst (oth ot n (c, st, s)))"

lemma turn_moves: "others_move ot (w_co w) (w_co (turn ot w))"
  unfolding others_move_def
  by (rule exI [of _ "w_tick w"], rule exI [of _ "w_nm w"], rule exI [of _ "w_os w"])
     (simp add: turn_def split: prod.split)

text \<open>Nobody else acts.\<close>

definition idle_others :: others where
  "idle_others = \<lparr>oth = (\<lambda>_ x. x), adv = (\<lambda>_. 1000)\<rparr>"

end
