(* ===== verification/Restore.thy ===== *)
theory Restore
  imports Service Nmcli_Scan
begin

text \<open>
  \<open>sushida_os/wifi/restore.py\<close>: the thread that retries the saved credential after boot. The loop is
  written over the record of the operations it calls (\<open>restore_ops\<close>); the locale \<open>restore_env\<close> states what
  it relies on (the clock, and what the other calls leave alone) and bounds its run; the
  interpretation takes the operations of the coordinator, the \<open>nmcli\<close> adapter and the storage,
  with the other threads free to act before every one of them. Times are rational numbers of
  seconds: every constant and every backoff is exact in binary floating point too.
\<close>

section \<open>The loop\<close>

record 'w restore_ops =
  op_monotonic :: "('w, rat) rio"
  op_sleep :: "rat \<Rightarrow> ('w, unit) rio"
  op_cancelled :: "('w, bool) rio"
  op_active :: "('w, bool) rio"
  op_interactive :: "('w, bool) rio"
  op_waiting :: "('w, bool) rio"
  op_load :: "('w, creds option) rio"
  op_reset :: "('w, unit) rio"
  op_queue :: "creds \<Rightarrow> ('w, bool) rio"
  op_status :: "('w, conn_state \<times> pystr) rio"
  op_start :: "('w, unit) rio"

definition BACKOFF_MIN :: rat where "BACKOFF_MIN = 2"
definition BACKOFF_MAX :: rat where "BACKOFF_MAX = 16"
definition MAX_RETRIES :: nat where "MAX_RETRIES = 8"

text \<open>How a pass of a loop ends: \<open>return\<close>, \<open>continue\<close>, or the code after it.\<close>

datatype verdict = VReturn | VContinue | VProceed

definition await_checks :: "'w restore_ops \<Rightarrow> ('w, verdict) rio" where
  "await_checks ops =
     r_bind (op_cancelled ops) (\<lambda>cancelled. if cancelled then r_return VReturn else
     r_bind (op_active ops) (\<lambda>active. if active then r_return VReturn else
     r_bind (op_interactive ops) (\<lambda>pending. if pending then r_return VReturn else
     r_bind (op_status ops) (\<lambda>status.
       if fst status = CONNECT_WORKING then r_return VContinue
       else if fst status = CONNECT_SUCCEEDED then r_return VReturn
       else r_return VProceed))))"

definition await_body :: "'w restore_ops \<Rightarrow> ('w, verdict) rio" where
  "await_body ops = r_bind (op_sleep ops 1) (\<lambda>_. await_checks ops)"

partial_function (option) await_attempt :: "'w restore_ops \<Rightarrow> rat \<Rightarrow> 'w \<Rightarrow> (verdict res \<times> 'w) option" where
  "await_attempt ops deadline w =
     (case op_monotonic ops w of
        (Inl x, w1) \<Rightarrow> Some (Inl x, w1)
      | (Inr t, w1) \<Rightarrow>
          if \<not> t < deadline then Some (Inr VProceed, w1)
          else (case await_body ops w1 of
                  (Inr VContinue, w2) \<Rightarrow> await_attempt ops deadline w2
                | (r, w2) \<Rightarrow> Some (r, w2)))"

text \<open>After \<open>queue_connection\<close>: another request is in flight, or the worker is woken.\<close>

definition after_queue :: "'w restore_ops \<Rightarrow> bool \<Rightarrow> ('w, verdict) rio" where
  "after_queue ops accepted =
     (if \<not> accepted then
        r_bind (op_status ops) (\<lambda>status.
          if fst status = CONNECT_SUCCEEDED then r_return VReturn
          else r_bind (op_sleep ops 1) (\<lambda>_. r_return VContinue))
      else r_bind (op_start ops) (\<lambda>_. r_return VProceed))"

text \<open>The outer pass up to \<open>start_queued_connection\<close>.\<close>

definition restore_body :: "'w restore_ops \<Rightarrow> ('w, verdict) rio" where
  "restore_body ops =
     r_bind (op_cancelled ops) (\<lambda>cancelled. if cancelled then r_return VReturn else
     r_bind (op_active ops) (\<lambda>active. if active then r_return VReturn else
     r_bind (op_interactive ops) (\<lambda>pending. if pending then r_return VReturn else
     r_bind (op_waiting ops) (\<lambda>waiting.
     if waiting then r_bind (op_sleep ops 2) (\<lambda>_. r_return VContinue) else
     r_bind (op_load ops) (\<lambda>saved.
     case saved of
       None \<Rightarrow> r_return VReturn
     | Some cr \<Rightarrow>
         r_bind (op_reset ops) (\<lambda>_.
         r_bind (op_queue ops cr) (after_queue ops)))))))"

partial_function (option) restore_loop ::
    "'w restore_ops \<Rightarrow> rat \<Rightarrow> rat \<Rightarrow> nat \<Rightarrow> 'w \<Rightarrow> (unit res \<times> 'w) option" where
  "restore_loop ops deadline backoff retries w =
     (case op_monotonic ops w of
        (Inl x, w1) \<Rightarrow> Some (Inl x, w1)
      | (Inr t, w1) \<Rightarrow>
          if \<not> (t < deadline \<and> retries < MAX_RETRIES) then Some (Inr (), w1)
          else (case restore_body ops w1 of
                  (Inl x, w2) \<Rightarrow> Some (Inl x, w2)
                | (Inr VReturn, w2) \<Rightarrow> Some (Inr (), w2)
                | (Inr VContinue, w2) \<Rightarrow> restore_loop ops deadline backoff retries w2
                | (Inr VProceed, w2) \<Rightarrow>
                    (case await_attempt ops deadline w2 of
                       None \<Rightarrow> None
                     | Some (Inl x, w3) \<Rightarrow> Some (Inl x, w3)
                     | Some (Inr VReturn, w3) \<Rightarrow> Some (Inr (), w3)
                     | Some (Inr _, w3) \<Rightarrow>
                         (case op_sleep ops backoff w3 of
                            (Inl x, w4) \<Rightarrow> Some (Inl x, w4)
                          | (Inr _, w4) \<Rightarrow>
                              restore_loop ops deadline (min (backoff * (3/2)) BACKOFF_MAX) (Suc retries) w4))))"

definition restore_saved_connection :: "'w restore_ops \<Rightarrow> 'w \<Rightarrow> (unit res \<times> 'w) option" where
  "restore_saved_connection ops w =
     (case op_monotonic ops w of
        (Inl x, w1) \<Rightarrow> Some (Inl x, w1)
      | (Inr t, w1) \<Rightarrow> restore_loop ops (t + 120) BACKOFF_MIN 0 w1)"

section \<open>What the loop relies on\<close>

text \<open>
  The clock \<open>now\<close>, the naps taken (newest first) and the credentials handed to the coordinator are
  observations of the world. A call that is \<open>calm\<close> takes time at most.
\<close>

definition calm :: "('w \<Rightarrow> rat) \<Rightarrow> ('w \<Rightarrow> rat list) \<Rightarrow> ('w \<Rightarrow> creds list) \<Rightarrow> ('w, 'a) rio \<Rightarrow> bool" where
  "calm now naps tried m \<longleftrightarrow>
     (\<forall>w. now w \<le> now (snd (m w)) \<and> naps (snd (m w)) = naps w \<and> tried (snd (m w)) = tried w)"

lemma calmD:
  assumes "calm now naps tried m" and "m w = (r, w')"
  shows "now w \<le> now w'" "naps w' = naps w" "tried w' = tried w"
proof -
  have "now w \<le> now (snd (m w)) \<and> naps (snd (m w)) = naps w \<and> tried (snd (m w)) = tried w"
    using assms(1) unfolding calm_def by (rule spec)
  then show "now w \<le> now w'" "naps w' = naps w" "tried w' = tried w" using assms(2) by simp_all
qed

lemma calm_bind:
  assumes m: "calm now naps tried m" and f: "\<And>x. calm now naps tried (f x)"
  shows "calm now naps tried (r_bind m f)"
  unfolding calm_def
proof
  fix w
  obtain r w1 where e: "m w = (r, w1)" by fastforce
  note a = calmD [OF m e]
  show "now w \<le> now (snd (r_bind m f w)) \<and> naps (snd (r_bind m f w)) = naps w \<and> tried (snd (r_bind m f w)) = tried w"
  proof (cases r)
    case (Inl x)
    then show ?thesis using e a by (simp add: r_bind_def)
  next
    case (Inr x)
    obtain r' w2 where e': "f x w1 = (r', w2)" by fastforce
    show ?thesis using e e' a calmD [OF f e'] Inr by (simp add: r_bind_def)
  qed
qed

lemma calm_return: "calm now naps tried (r_return x)"
  by (simp add: calm_def r_return_def)

lemma calm_if: "calm now naps tried a \<Longrightarrow> calm now naps tried b \<Longrightarrow> calm now naps tried (if c then a else b)"
  by simp

lemmas calm_intros = calm_bind calm_return calm_if

locale restore_env =
  fixes ops :: "'w restore_ops" and now :: "'w \<Rightarrow> rat" and naps :: "'w \<Rightarrow> rat list" and tried :: "'w \<Rightarrow> creds list"
    and good :: "creds \<Rightarrow> bool"
  assumes clock: "\<And>w r w'. op_monotonic ops w = (r, w') \<Longrightarrow>
      naps w' = naps w \<and> tried w' = tried w \<and> (\<exists>t. r = Inr t \<and> now w \<le> t \<and> t \<le> now w')"
    and nap: "\<And>d w r w'. op_sleep ops d w = (r, w') \<Longrightarrow>
      r = Inr () \<and> naps w' = d # naps w \<and> tried w' = tried w \<and> now w + d \<le> now w'"
    and queue: "\<And>cr w r w'. op_queue ops cr w = (r, w') \<Longrightarrow>
      now w \<le> now w' \<and> naps w' = naps w \<and> tried w' = (if r = Inr False then tried w else cr # tried w)"
    and calm_ops: "calm now naps tried (op_cancelled ops)" "calm now naps tried (op_active ops)"
      "calm now naps tried (op_interactive ops)" "calm now naps tried (op_waiting ops)"
      "calm now naps tried (op_load ops)" "calm now naps tried (op_reset ops)"
      "calm now naps tried (op_status ops)" "calm now naps tried (op_start ops)"
    and loaded: "\<And>w cr w'. op_load ops w = (Inr (Some cr), w') \<Longrightarrow> good cr"

text \<open>The lengths of the naps, and what a whole run may have done.\<close>

definition nap_ok :: "rat \<Rightarrow> bool" where
  "nap_ok d \<longleftrightarrow> 1 \<le> d \<and> d \<le> BACKOFF_MAX"

definition spent :: "('w \<Rightarrow> rat list) \<Rightarrow> ('w \<Rightarrow> creds list) \<Rightarrow> (creds \<Rightarrow> bool) \<Rightarrow> nat \<Rightarrow> 'w \<Rightarrow> 'w \<Rightarrow> bool" where
  "spent naps tried good k w w' \<longleftrightarrow>
     (\<exists>ns cs. naps w' = ns @ naps w \<and> tried w' = cs @ tried w \<and> list_all nap_ok ns \<and> list_all good cs \<and> length cs \<le> k)"

lemma spent_trans:
  assumes "spent naps tried good k w w1" and "spent naps tried good l w1 w2"
  shows "spent naps tried good (k + l) w w2"
proof -
  obtain ns cs where a: "naps w1 = ns @ naps w" "tried w1 = cs @ tried w" "list_all nap_ok ns" "list_all good cs" "length cs \<le> k"
    using assms(1) by (auto simp: spent_def)
  obtain ns' cs' where b: "naps w2 = ns' @ naps w1" "tried w2 = cs' @ tried w1" "list_all nap_ok ns'" "list_all good cs'" "length cs' \<le> l"
    using assms(2) by (auto simp: spent_def)
  show ?thesis unfolding spent_def using a b by (intro exI [of _ "ns' @ ns"] exI [of _ "cs' @ cs"]) simp
qed

lemma spent_mono: "spent naps tried good k w w' \<Longrightarrow> k \<le> l \<Longrightarrow> spent naps tried good l w w'"
  unfolding spent_def by (meson le_trans)

lemma spent_quiet: "naps w' = naps w \<Longrightarrow> tried w' = tried w \<Longrightarrow> spent naps tried good k w w'"
  by (auto simp: spent_def)

text \<open>One pass of the outer loop: at most one credential, and none without progress of the clock.\<close>

definition pass_ok ::
    "('w \<Rightarrow> rat) \<Rightarrow> ('w \<Rightarrow> rat list) \<Rightarrow> ('w \<Rightarrow> creds list) \<Rightarrow> (creds \<Rightarrow> bool) \<Rightarrow> ('w, verdict) rio \<Rightarrow> bool" where
  "pass_ok now naps tried good m \<longleftrightarrow>
     (\<forall>w r w'. m w = (r, w') \<longrightarrow> now w \<le> now w'
        \<and> spent naps tried good (if r = Inr VContinue then 0 else 1) w w'
        \<and> (r = Inr VContinue \<longrightarrow> now w + 1 \<le> now w'))"

context restore_env
begin

abbreviation quiet :: "('w, 'a) rio \<Rightarrow> bool" where
  "quiet \<equiv> calm now naps tried"

abbreviation passes :: "('w, verdict) rio \<Rightarrow> bool" where
  "passes \<equiv> pass_ok now naps tried good"

lemma quiet_checks: "quiet (await_checks ops)"
  unfolding await_checks_def by (intro calm_intros calm_ops)

lemma await_body_cost:
  assumes "await_body ops w = (r, w')"
  shows "now w + 1 \<le> now w' \<and> naps w' = 1 # naps w \<and> tried w' = tried w"
proof -
  obtain u w1 where s: "op_sleep ops 1 w = (u, w1)" by fastforce
  note n = nap [OF s]
  have k: "await_checks ops w1 = (r, w')" using assms s n by (simp add: await_body_def r_bind_def)
  show ?thesis using n calmD [OF quiet_checks k] by simp
qed

lemma await_ends:
  "deadline - of_nat n \<le> now w \<Longrightarrow>
     \<exists>r w'. await_attempt ops deadline w = Some (r, w') \<and> now w \<le> now w' \<and> spent naps tried good 0 w w'"
proof (induction n arbitrary: w)
  case (0 w)
  obtain r w1 where m: "op_monotonic ops w = (r, w1)" by fastforce
  from clock [OF m] obtain t where "r = Inr t" "now w \<le> t" "t \<le> now w1" "naps w1 = naps w" "tried w1 = tried w" by blast
  then show ?case using 0 m by (simp add: await_attempt.simps [of ops deadline w] spent_quiet)
next
  case (Suc n w)
  obtain r w1 where m: "op_monotonic ops w = (r, w1)" by fastforce
  from clock [OF m] obtain t where t: "r = Inr t" "now w \<le> t" "t \<le> now w1" "naps w1 = naps w" "tried w1 = tried w" by blast
  obtain v w2 where b: "await_body ops w1 = (v, w2)" by fastforce
  note c = await_body_cost [OF b]
  have one: "spent naps tried good 0 w w2"
    using c t unfolding spent_def by (intro exI [of _ "[1]"] exI [of _ "[]"]) (simp add: nap_ok_def BACKOFF_MAX_def)
  show ?case
  proof (cases "t < deadline \<and> v = Inr VContinue")
    case True
    have "deadline - of_nat n \<le> now w2" using Suc.prems c t by simp
    from Suc.IH [OF this] obtain r' w' where e: "await_attempt ops deadline w2 = Some (r', w')" "now w2 \<le> now w'"
      "spent naps tried good 0 w2 w'" by blast
    then show ?thesis
      using True m b t c spent_trans [OF one e(3)] by (simp add: await_attempt.simps [of ops deadline w])
  next
    case False
    then show ?thesis
      using m b t c one by (cases v) (auto simp: await_attempt.simps [of ops deadline w] spent_quiet split: verdict.split)
  qed
qed


lemma passesI:
  assumes "\<And>w r w'. m w = (r, w') \<Longrightarrow> now w \<le> now w'
      \<and> spent naps tried good (if r = Inr VContinue then 0 else 1) w w' \<and> (r = Inr VContinue \<longrightarrow> now w + 1 \<le> now w')"
  shows "passes m"
  using assms by (simp add: pass_ok_def)

lemma passesD:
  assumes "passes m" and "m w = (r, w')"
  shows "now w \<le> now w'" "spent naps tried good (if r = Inr VContinue then 0 else 1) w w'"
    "r = Inr VContinue \<Longrightarrow> now w + 1 \<le> now w'"
  using assms unfolding pass_ok_def by blast+

lemma passes_return: "v \<noteq> VContinue \<Longrightarrow> passes (r_return v)"
  by (simp add: pass_ok_def r_return_def spent_quiet)

lemma passes_bind:
  assumes m: "quiet m" and f: "\<And>w x w'. m w = (Inr x, w') \<Longrightarrow> passes (f x)"
  shows "passes (r_bind m f)"
proof (rule passesI)
  fix w r w'
  assume e: "r_bind m f w = (r, w')"
  obtain x w1 where x: "m w = (x, w1)" by fastforce
  note a = calmD [OF m x]
  have sp: "spent naps tried good 0 w w1" by (rule spent_quiet [OF a(2,3)])
  show "now w \<le> now w' \<and> spent naps tried good (if r = Inr VContinue then 0 else 1) w w'
      \<and> (r = Inr VContinue \<longrightarrow> now w + 1 \<le> now w')"
  proof (cases x)
    case (Inl y)
    then have "r = Inl y" "w' = w1" using e x by (simp_all add: r_bind_def)
    then show ?thesis using a(1) spent_mono [OF sp] by simp
  next
    case (Inr y)
    then have k: "f y w1 = (r, w')" and p: "passes (f y)" using e x f by (auto simp: r_bind_def)
    note b = passesD [OF p k]
    show ?thesis using a(1) b(1,3) spent_trans [OF sp b(2)] by auto
  qed
qed

lemma passes_if: "(c \<Longrightarrow> passes a) \<Longrightarrow> (\<not> c \<Longrightarrow> passes b) \<Longrightarrow> passes (if c then a else b)"
  by simp

lemma passes_sleep:
  assumes "d = 1 \<or> d = 2"
  shows "passes (r_bind (op_sleep ops d) (\<lambda>_. r_return VContinue))"
proof (rule passesI)
  fix w r w'
  assume e: "r_bind (op_sleep ops d) (\<lambda>_. r_return VContinue) w = (r, w')"
  obtain u w1 where s: "op_sleep ops d w = (u, w1)" by fastforce
  note n = nap [OF s]
  then have w: "w' = w1" "r = Inr VContinue" using e s by (simp_all add: r_bind_def r_return_def)
  have "spent naps tried good 0 w w'"
    unfolding spent_def using n w assms by (intro exI [of _ "[d]"] exI [of _ "[]"]) (auto simp: nap_ok_def BACKOFF_MAX_def)
  then show "now w \<le> now w' \<and> spent naps tried good (if r = Inr VContinue then 0 else 1) w w'
      \<and> (r = Inr VContinue \<longrightarrow> now w + 1 \<le> now w')" using n w assms by auto
qed

lemma after_queue_started:
  assumes "after_queue ops True w = (r, w')"
  shows "now w \<le> now w'" "naps w' = naps w" "tried w' = tried w" "r \<noteq> Inr VContinue"
proof -
  have q: "quiet (after_queue ops True)" by (simp add: after_queue_def calm_intros calm_ops)
  show "now w \<le> now w'" "naps w' = naps w" "tried w' = tried w" using calmD [OF q assms] by simp_all
  show "r \<noteq> Inr VContinue"
    using assms by (auto simp: after_queue_def r_bind_def r_return_def split: prod.splits sum.splits)
qed

lemma passes_queue:
  assumes "good cr"
  shows "passes (r_bind (op_queue ops cr) (after_queue ops))"
proof (rule passesI)
  fix w r w'
  assume e: "r_bind (op_queue ops cr) (after_queue ops) w = (r, w')"
  obtain u w1 where q: "op_queue ops cr w = (u, w1)" by fastforce
  note b = queue [OF q]
  have one: "spent naps tried good 1 w v" if "naps v = naps w1" "tried v = tried w1" "u \<noteq> Inr False" for v
    unfolding spent_def using that b assms by (intro exI [of _ "[]"] exI [of _ "[cr]"]) simp
  show "now w \<le> now w' \<and> spent naps tried good (if r = Inr VContinue then 0 else 1) w w'
      \<and> (r = Inr VContinue \<longrightarrow> now w + 1 \<le> now w')"
  proof (cases "u = Inr False")
    case True
    have ps: "passes (after_queue ops False)"
      unfolding after_queue_def by (auto intro!: passes_bind calm_ops passes_return passes_sleep)
    have k: "after_queue ops False w1 = (r, w')" using e q True by (simp add: r_bind_def)
    note p = passesD [OF ps k]
    have "spent naps tried good 0 w w1" by (rule spent_quiet) (use b True in simp_all)
    then show ?thesis using p b spent_trans [OF _ p(2), of 0 w] by auto
  next
    case False
    have "now w1 \<le> now w' \<and> naps w' = naps w1 \<and> tried w' = tried w1 \<and> r \<noteq> Inr VContinue"
    proof (cases u)
      case (Inl x)
      then show ?thesis using e q by (auto simp: r_bind_def)
    next
      case (Inr y)
      then have "after_queue ops True w1 = (r, w')" using e q False by (simp add: r_bind_def)
      then show ?thesis using after_queue_started by blast
    qed
    then show ?thesis using b one [OF _ _ False] by auto
  qed
qed

lemma restore_body_passes: "passes (restore_body ops)"
proof -
  have l: "passes (case saved of None \<Rightarrow> r_return VReturn | Some cr \<Rightarrow>
      r_bind (op_reset ops) (\<lambda>_. r_bind (op_queue ops cr) (after_queue ops)))"
    if "op_load ops w = (Inr saved, w')" for saved w w'
    using loaded [of w _ w'] that
    by (cases saved) (auto intro!: passes_return passes_bind calm_ops passes_queue)
  show ?thesis
    unfolding restore_body_def
    by (intro passes_bind passes_if calm_ops passes_return passes_sleep)
       (use l in \<open>simp_all\<close>)
qed


text \<open>The rest of a pass after \<open>start_queued_connection\<close>.\<close>

lemma await_then_sleep:
  assumes "deadline - of_nat n \<le> now w" and "2 \<le> backoff" "backoff \<le> BACKOFF_MAX"
  obtains (stop) r w' where "await_attempt ops deadline w = Some (r, w')" "r = Inr VReturn \<or> (\<exists>x. r = Inl x)"
      "spent naps tried good 0 w w'"
  | (again) r w3 w4 where "await_attempt ops deadline w = Some (Inr r, w3)" "r \<noteq> VReturn"
      "op_sleep ops backoff w3 = (Inr (), w4)" "spent naps tried good 0 w w4" "now w + 1 \<le> now w4"
proof -
  obtain r w3 where a: "await_attempt ops deadline w = Some (r, w3)" "now w \<le> now w3" "spent naps tried good 0 w w3"
    using await_ends [OF assms(1)] by blast
  obtain u w4 where s: "op_sleep ops backoff w3 = (u, w4)" by fastforce
  note n = nap [OF s]
  have "spent naps tried good 0 w3 w4"
    unfolding spent_def using n assms(2,3) by (intro exI [of _ "[backoff]"] exI [of _ "[]"]) (simp add: nap_ok_def)
  with a(3) have "spent naps tried good 0 w w4" using spent_trans [of naps tried good 0 w w3 0 w4] by simp
  then show ?thesis
    using stop [of r w3] again [of "projr r" w3 w4] a s n assms(2) by (cases r) (cases "projr r = VReturn"; auto)+
qed

lemma loop_ends:
  "deadline - of_nat n \<le> now w \<Longrightarrow> 2 \<le> backoff \<Longrightarrow> backoff \<le> BACKOFF_MAX \<Longrightarrow>
     \<exists>r w'. restore_loop ops deadline backoff retries w = Some (r, w')
       \<and> spent naps tried good (MAX_RETRIES - retries) w w'"
proof (induction n arbitrary: w backoff retries)
  case (0 w)
  obtain r w1 where m: "op_monotonic ops w = (r, w1)" by fastforce
  from clock [OF m] obtain t where "r = Inr t" "now w \<le> t" "t \<le> now w1" "naps w1 = naps w" "tried w1 = tried w" by blast
  then show ?case using 0 m by (simp add: restore_loop.simps [of ops deadline _ _ w] spent_quiet)
next
  case (Suc n w)
  obtain r w1 where m: "op_monotonic ops w = (r, w1)" by fastforce
  from clock [OF m] obtain t where t: "r = Inr t" "now w \<le> t" "t \<le> now w1" "naps w1 = naps w" "tried w1 = tried w" by blast
  have q: "spent naps tried good 0 w w1" by (rule spent_quiet [OF t(4,5)])
  note step = restore_loop.simps [of ops deadline backoff retries w]
  show ?case
  proof (cases "t < deadline \<and> retries < MAX_RETRIES")
    case False
    then show ?thesis using m t spent_mono [OF q] by (auto simp: step)
  next
    case go: True
    obtain v w2 where b: "restore_body ops w1 = (v, w2)" by fastforce
    note p = passesD [OF restore_body_passes b]
    have q1: "spent naps tried good (if v = Inr VContinue then 0 else 1) w w2" using spent_trans [OF q p(2)] by simp
    consider (stop) "v = Inr VReturn \<or> (\<exists>x. v = Inl x)" | (cont) "v = Inr VContinue" | (proceed) "v = Inr VProceed"
      by (cases v) (use verdict.exhaust in auto)
    then show ?thesis
    proof cases
      case stop
      have "spent naps tried good (MAX_RETRIES - retries) w w2" using q1 go stop by (auto elim!: spent_mono)
      then show ?thesis using stop m t go b by (auto simp: step)
    next
      case cont
      have "deadline - of_nat n \<le> now w2" using Suc.prems(1) p(3) cont t by simp
      from Suc.IH [OF this Suc.prems(2,3), of retries] obtain r' w' where
        e: "restore_loop ops deadline backoff retries w2 = Some (r', w')" "spent naps tried good (MAX_RETRIES - retries) w2 w'"
        by blast
      have "spent naps tried good (MAX_RETRIES - retries) w w'" using q1 cont spent_trans [OF _ e(2), of 0 w] by simp
      then show ?thesis using e cont m t go b by (simp add: step)
    next
      case proceed
      have d: "deadline - of_nat (Suc n) \<le> now w2" using Suc.prems(1) p(1) t by simp
      show ?thesis
        using d Suc.prems(2,3)
      proof (cases rule: await_then_sleep)
        case (stop r' w')
        have "spent naps tried good 1 w w'" using q1 proceed spent_trans [OF _ stop(3), of 1 w] by simp
        then have "spent naps tried good (MAX_RETRIES - retries) w w'" using go by (auto elim!: spent_mono)
        then show ?thesis using stop proceed m t go b by (auto simp: step)
      next
        case (again r' w3 w4)
        let ?b = "min (backoff * (3/2)) BACKOFF_MAX"
        have "deadline - of_nat n \<le> now w4" "2 \<le> ?b" "?b \<le> BACKOFF_MAX"
          using d again(5) Suc.prems(2) by (simp_all add: BACKOFF_MAX_def)
        from Suc.IH [OF this, of "Suc retries"] obtain r'' w' where
          e: "restore_loop ops deadline ?b (Suc retries) w4 = Some (r'', w')"
            "spent naps tried good (MAX_RETRIES - Suc retries) w4 w'" by blast
        have "spent naps tried good 1 w w4" using q1 proceed spent_trans [OF _ again(4), of 1 w] by simp
        from spent_trans [OF this e(2)] have "spent naps tried good (MAX_RETRIES - retries) w w'" using go by (auto elim!: spent_mono)
        then show ?thesis using again e proceed m t go b by (cases r') (auto simp: step)
      qed
    qed
  qed
qed

lemma restore_ends:
  "\<exists>r w'. restore_saved_connection ops w = Some (r, w') \<and> spent naps tried good MAX_RETRIES w w'"
proof -
  obtain r w1 where m: "op_monotonic ops w = (r, w1)" by fastforce
  from clock [OF m] obtain t where t: "r = Inr t" "t \<le> now w1" "naps w1 = naps w" "tried w1 = tried w" by blast
  have "(t + 120) - of_nat 120 \<le> now w1" "2 \<le> BACKOFF_MIN" "BACKOFF_MIN \<le> BACKOFF_MAX"
    using t by (simp_all add: BACKOFF_MIN_def BACKOFF_MAX_def)
  from loop_ends [OF this, of 0] obtain r' w' where
    "restore_loop ops (t + 120) BACKOFF_MIN 0 w1 = Some (r', w')" "spent naps tried good MAX_RETRIES w1 w'" by auto
  then show ?thesis using m t by (auto simp: restore_saved_connection_def spent_def)
qed

end

section \<open>The service as the environment of the loop\<close>

text \<open>The shared world, with the naps and the accepted credentials as ghosts.\<close>

record world = shared +
  w_naps :: "rat list"
  w_tried :: "creds list"

definition world_sleep :: "others \<Rightarrow> rat \<Rightarrow> (world, unit) rio" where
  "world_sleep ot d = (\<lambda>w. let w' = turn ot w in (Inr (), w'\<lparr>w_now := w_now w' + d, w_naps := d # w_naps w'\<rparr>))"

definition world_clock :: "others \<Rightarrow> (world, rat) rio" where
  "world_clock ot = (\<lambda>w. let w' = turn ot w in (Inr (w_now w'), w'))"

definition world_queue :: "env \<Rightarrow> others \<Rightarrow> creds \<Rightarrow> (world, bool) rio" where
  "world_queue e ot cr = (\<lambda>w. case svc_queue_connection e ot cr w of (r, w') \<Rightarrow>
     (r, if r = Inr False then w' else w'\<lparr>w_tried := cr # w_tried w'\<rparr>))"

definition service_ops :: "env \<Rightarrow> nm \<Rightarrow> others \<Rightarrow> world restore_ops" where
  "service_ops e nm ot = \<lparr>
     op_monotonic = world_clock ot,
     op_sleep = world_sleep ot,
     op_cancelled = svc_restore_cancelled ot,
     op_active = on_nm ot (managed_wifi_active e nm),
     op_interactive = svc_interactive_pending ot,
     op_waiting = on_nm ot (wifi_device_waiting e nm),
     op_load = on_os ot (load_credentials e),
     op_reset = svc_reset_failure ot,
     op_queue = world_queue e ot,
     op_status = svc_connect_status ot,
     op_start = svc_start_queued_connection ot\<rparr>"

lemma turn_facts [simp]: "w_now w \<le> w_now (turn ot w)" "w_naps (turn ot v) = w_naps v" "w_tried (turn ot v) = w_tried v"
  by (simp_all add: turn_def split: prod.split)

lemma calm_service:
  "calm w_now w_naps w_tried (on_co ot f)" "calm w_now w_naps w_tried (on_nm ot g)" "calm w_now w_naps w_tried (on_os ot h)"
  by (simp_all add: calm_def on_co_def on_nm_def on_os_def Let_def split: prod.split)

lemma calm_queue: "calm w_now w_naps w_tried (svc_queue_connection e ot cr)"
  unfolding svc_queue_connection_def svc_mirror_def r_seq_def
  by (intro calm_intros calm_service)

lemma world_queue_facts:
  assumes "world_queue e ot cr w = (r, w')"
  shows "w_now w \<le> w_now w' \<and> w_naps w' = w_naps w \<and> w_tried w' = (if r = Inr False then w_tried w else cr # w_tried w)"
proof -
  obtain r1 w1 where q: "svc_queue_connection e ot cr w = (r1, w1)" by fastforce
  have "w_now w \<le> w_now w1 \<and> w_naps w1 = w_naps w \<and> w_tried w1 = w_tried w"
    using calm_queue [of e ot cr] q unfolding calm_def by (metis snd_conv)
  then show ?thesis using assms q by (auto simp: world_queue_def)
qed

interpretation service: restore_env "service_ops e nm ot" w_now w_naps w_tried creds_ok
  for e nm ot
proof
  show "calm w_now w_naps w_tried (op_cancelled (service_ops e nm ot))" "calm w_now w_naps w_tried (op_active (service_ops e nm ot))"
    "calm w_now w_naps w_tried (op_interactive (service_ops e nm ot))" "calm w_now w_naps w_tried (op_waiting (service_ops e nm ot))"
    "calm w_now w_naps w_tried (op_load (service_ops e nm ot))" "calm w_now w_naps w_tried (op_reset (service_ops e nm ot))"
    "calm w_now w_naps w_tried (op_status (service_ops e nm ot))" "calm w_now w_naps w_tried (op_start (service_ops e nm ot))"
    by (simp_all add: service_ops_def calm_service svc_defs)
next
  fix w r w'
  assume "op_monotonic (service_ops e nm ot) w = (r, w')"
  then show "w_naps w' = w_naps w \<and> w_tried w' = w_tried w \<and> (\<exists>t. r = Inr t \<and> w_now w \<le> t \<and> t \<le> w_now w')"
    by (auto simp: service_ops_def world_clock_def Let_def)
next
  fix d w r w'
  assume "op_sleep (service_ops e nm ot) d w = (r, w')"
  then show "r = Inr () \<and> w_naps w' = d # w_naps w \<and> w_tried w' = w_tried w \<and> w_now w + d \<le> w_now w'"
    by (auto simp: service_ops_def world_sleep_def Let_def)
next
  fix cr w r w'
  assume "op_queue (service_ops e nm ot) cr w = (r, w')"
  then show "w_now w \<le> w_now w' \<and> w_naps w' = w_naps w
      \<and> w_tried w' = (if r = Inr False then w_tried w else cr # w_tried w)"
    by (intro world_queue_facts) (simp add: service_ops_def)
next
  fix w cr w'
  assume "op_load (service_ops e nm ot) w = (Inr (Some cr), w')"
  then show "creds_ok cr"
    by (intro load_valid [of e "w_os (turn ot w)" cr]) (auto simp: service_ops_def on_os_def Let_def split: prod.splits)
qed

section \<open>The run of the thread\<close>

text \<open>
  C9. The restore thread always ends, whatever the other threads, the network and the file system do:
  it sleeps only between 1 and 16 seconds at a time and hands the coordinator at most eight
  credentials, each of which passed the validation.
\<close>

theorem restore_terminates:
  "\<exists>r w'. restore_saved_connection (service_ops e nm ot) w = Some (r, w')
     \<and> spent w_naps w_tried creds_ok 8 w w'"
  using service.restore_ends [of e nm ot w] by (simp add: MAX_RETRIES_def)

text \<open>
  Cancelled restoration does nothing more: once an interactive request set the cancellation (which no
  thread clears), a run of the thread ends at once, normally, without handing over a credential
  and without waiting.
\<close>

theorem restore_cancelled_stops:
  assumes "c_cancelled (w_co w)" and "\<And>n c st s. c_cancelled c \<Longrightarrow> c_cancelled (fst (oth ot n (c, st, s)))"
  shows "\<exists>w'. restore_saved_connection (service_ops e nm ot) w = Some (Inr (), w') \<and> w_tried w' = w_tried w \<and> w_naps w' = w_naps w"
proof -
  have t: "c_cancelled (w_co v) \<Longrightarrow> c_cancelled (w_co (turn ot v))" for v
    using assms(2) [of "w_co v" "w_tick v" "w_nm v" "w_os v"] by (auto simp: turn_def split: prod.split)
  let ?w1 = "turn ot w" and ?w2 = "turn ot (turn ot w)" and ?w3 = "turn ot (turn ot (turn ot w))"
  have c: "c_cancelled (w_co ?w3)" by (intro t assms(1))
  have b: "restore_body (service_ops e nm ot) ?w2 = (Inr VReturn, ?w3)"
    using c by (simp add: restore_body_def r_bind_def r_return_def service_ops_def svc_restore_cancelled_def on_co_def restore_cancelled_def)
  have m: "op_monotonic (service_ops e nm ot) v = (Inr (w_now (turn ot v)), turn ot v)" for v
    by (simp add: service_ops_def world_clock_def Let_def)
  have "restore_loop (service_ops e nm ot) d BACKOFF_MIN 0 ?w1
      = Some (Inr (), if w_now ?w2 < d then ?w3 else ?w2)" for d
    by (simp add: restore_loop.simps [of _ d _ _ ?w1] m b MAX_RETRIES_def)
  then show ?thesis by (simp add: restore_saved_connection_def m)
qed

definition sample_world :: "coord \<Rightarrow> world" where
  "sample_world c = \<lparr>w_co = c, w_nm = nmst_init, w_os = saved_os, w_now = 0, w_tick = 0, w_naps = [], w_tried = []\<rparr>"

theorem restore_cancelled_stops_witness:
  "\<exists>w'. restore_saved_connection (service_ops prod_env (sample_nm []) idle_others) (sample_world (cancel_restore coord_init))
     = Some (Inr (), w') \<and> w_tried w' = [] \<and> w_naps w' = []"
  using restore_cancelled_stops [of "sample_world (cancel_restore coord_init)" idle_others prod_env "sample_nm []"]
  by (simp add: sample_world_def idle_others_def cancel_restore_def)

end
