(* ===== verification/Py_Web.thy ===== *)
theory Py_Web
  imports Py_Json
begin

text \<open>
  What the HTTP layer uses of the standard library: \<open>html.escape\<close>, \<open>urllib.parse.urlsplit\<close> and
  \<open>parse_qs\<close> with its percent-decoding, \<open>base64.b64encode\<close> and \<open>hashlib.sha256\<close>; and the form encoding a browser
  applies, with the proof that \<open>parse_qs\<close> undoes it.
\<close>

unbundle bit_operations_syntax

section \<open>HTML escaping\<close>

definition esc_html :: "codepoint \<Rightarrow> pystr" where
  "esc_html c =
     (if c = 38 then lit ''&amp;'' else if c = 60 then lit ''&lt;'' else if c = 62 then lit ''&gt;''
      else if c = 34 then lit ''&quot;'' else if c = 39 then lit ''&#x27;'' else [c])"

text \<open>\<open>html.escape(s)\<close>, whose \<open>quote\<close> argument is true by default.\<close>

definition html_escape :: "pystr \<Rightarrow> pystr" where
  "html_escape s = concat (map esc_html s)"

text \<open>The characters that can end a text or an attribute value.\<close>

definition markup :: "codepoint \<Rightarrow> bool" where
  "markup c \<longleftrightarrow> c = 60 \<or> c = 62 \<or> c = 34 \<or> c = 39"

lemma esc_html_no_markup: "filter markup (esc_html c) = []"
  by (auto simp: esc_html_def markup_def lit_def)

lemma html_escape_no_markup [simp]: "filter markup (html_escape s) = []"
  by (induction s) (auto simp: html_escape_def esc_html_no_markup)

text \<open>Reading the escaped text back, as a browser does for these five entities.\<close>

fun html_unescape :: "pystr \<Rightarrow> pystr" where
  "html_unescape [] = []"
| "html_unescape (c # s) =
     (if starts_with (lit ''&amp;'') (c # s) then 38 # html_unescape (drop 4 s)
      else if starts_with (lit ''&lt;'') (c # s) then 60 # html_unescape (drop 3 s)
      else if starts_with (lit ''&gt;'') (c # s) then 62 # html_unescape (drop 3 s)
      else if starts_with (lit ''&quot;'') (c # s) then 34 # html_unescape (drop 5 s)
      else if starts_with (lit ''&#x27;'') (c # s) then 39 # html_unescape (drop 5 s)
      else c # html_unescape s)"

lemma html_unescape_escape: "html_unescape (html_escape s) = s"
proof (induction s)
  case (Cons c s)
  then show ?case
    by (cases "c \<in> {38, 60, 62, 34, 39}")
       (auto simp: html_escape_def esc_html_def lit_def starts_with_def)
qed (simp add: html_escape_def)

section \<open>URLs\<close>

definition scheme_char :: "codepoint \<Rightarrow> bool" where
  "scheme_char c \<longleftrightarrow> 48 \<le> c \<and> c \<le> 57 \<or> 65 \<le> c \<and> c \<le> 90 \<or> 97 \<le> c \<and> c \<le> 122 \<or> c = 43 \<or> c = 45 \<or> c = 46"

definition ascii_alpha :: "codepoint \<Rightarrow> bool" where
  "ascii_alpha c \<longleftrightarrow> 65 \<le> c \<and> c \<le> 90 \<or> 97 \<le> c \<and> c \<le> 122"

definition ascii_lower :: "codepoint \<Rightarrow> codepoint" where
  "ascii_lower c = (if 65 \<le> c \<and> c \<le> 90 then c + 32 else c)"

record split_result =
  sr_scheme :: pystr
  sr_netloc :: pystr
  sr_path :: pystr
  sr_query :: pystr
  sr_fragment :: pystr

definition split_scheme :: "pystr \<Rightarrow> pystr \<times> pystr" where
  "split_scheme url =
     (case partition_at 58 url of (a, found, b) \<Rightarrow>
        if found \<and> a \<noteq> [] \<and> ascii_alpha (hd a) \<and> list_all scheme_char a then (map ascii_lower a, b) else ([], url))"

definition split_netloc :: "pystr \<Rightarrow> pystr \<times> pystr" where
  "split_netloc url =
     (if take 2 url = [47, 47]
      then (takeWhile (\<lambda>c. c \<notin> {47, 63, 35}) (drop 2 url), dropWhile (\<lambda>c. c \<notin> {47, 63, 35}) (drop 2 url))
      else ([], url))"

text \<open>
  The library's own validation of a network location is the argument \<open>ok\<close>; it is asked only about
  locations with brackets (IPv6 addresses) or non-ASCII characters (normalisation).
\<close>

definition netloc_ok :: "(pystr \<Rightarrow> bool) \<Rightarrow> pystr \<Rightarrow> bool" where
  "netloc_ok ok n \<longleftrightarrow>
     (91 \<in> set n \<longleftrightarrow> 93 \<in> set n) \<and> (91 \<in> set n \<or> \<not> py_isascii n \<longrightarrow> ok n)"

definition urlsplit :: "(pystr \<Rightarrow> bool) \<Rightarrow> pystr \<Rightarrow> split_result res" where
  "urlsplit ok url =
     (let url1 = filter (\<lambda>c. c \<notin> {9, 10, 13}) (dropWhile (\<lambda>c. 0 \<le> c \<and> c \<le> 32) url);
          (scheme, url2) = split_scheme url1;
          (netloc, url3) = split_netloc url2;
          (url4, _, fragment) = partition_at 35 url3;
          (path, _, query) = partition_at 63 url4
      in if netloc_ok ok netloc
         then Inr \<lparr>sr_scheme = scheme, sr_netloc = netloc, sr_path = path, sr_query = query, sr_fragment = fragment\<rparr>
         else Inl ValueError)"

text \<open>The host and the port of a network location, both as text; user information is dropped.\<close>

definition hostinfo :: "pystr \<Rightarrow> pystr \<times> pystr" where
  "hostinfo netloc =
     (let info = rev (takeWhile (\<lambda>c. c \<noteq> 64) (rev netloc)) in
      case partition_at 91 info of (_, br, bracketed) \<Rightarrow>
        if br then (case partition_at 93 bracketed of (h, _, p) \<Rightarrow> (h, snd (snd (partition_at 58 p))))
        else (case partition_at 58 info of (h, _, p) \<Rightarrow> (h, p)))"

text \<open>\<open>parts.port\<close> and \<open>parts.hostname\<close>\<close>

definition sr_port :: "split_result \<Rightarrow> int option res" where
  "sr_port sr =
     (let port = snd (hostinfo (sr_netloc sr)) in
      if port = [] then Inr None
      else if py_isdigit port \<and> py_isascii port then
        res_bind (py_int port) (\<lambda>n. if 0 \<le> n \<and> n \<le> 65535 then Inr (Some n) else Inl ValueError)
      else Inl ValueError)"

definition sr_hostname :: "split_result \<Rightarrow> pystr option" where
  "sr_hostname sr =
     (let h = fst (hostinfo (sr_netloc sr)) in
      if h = [] then None
      else Some (case partition_at 37 h of (a, found, zone) \<Rightarrow> map lower_ascii a @ (if found then 37 # zone else [])))"

section \<open>Form data\<close>

text \<open>Percent-decoding of one run of ASCII characters, to bytes.\<close>

fun pct_bytes :: "pystr \<Rightarrow> int list" where
  "pct_bytes (c # a # b # s) =
     (case (if c = 37 then (hex_val a, hex_val b) else (None, None)) of
        (Some x, Some y) \<Rightarrow> (16 * x + y) # pct_bytes s
      | _ \<Rightarrow> c # pct_bytes (a # b # s))"
| "pct_bytes (c # s) = c # pct_bytes s"
| "pct_bytes [] = []"

definition utf8_replace :: "int list \<Rightarrow> pystr" where
  "utf8_replace bs = (case utf8_decode_ints Replace bs of Inr s \<Rightarrow> s | Inl _ \<Rightarrow> [])"

lemma utf8_replace_total: "utf8_decode_ints Replace bs = Inr (utf8_replace bs)"
proof -
  have "\<exists>s. utf8_decode_ints h bs = Inr s" if "h = Replace" for h
    using that by (induction h bs rule: utf8_decode_ints.induct) (fastforce split: sum.splits)+
  then show ?thesis by (auto simp: utf8_replace_def)
qed

function unquote_runs :: "pystr \<Rightarrow> pystr" where
  "unquote_runs [] = []"
| "unquote_runs (c # s) =
     (if c < 128 then utf8_replace (pct_bytes (takeWhile (\<lambda>x. x < 128) (c # s))) @ unquote_runs (dropWhile (\<lambda>x. x < 128) s)
      else c # unquote_runs s)"
  by pat_completeness auto
termination
  by (relation "measure length") (auto simp: le_imp_less_Suc length_dropWhile_le)

definition unquote :: "pystr \<Rightarrow> pystr" where
  "unquote s = (if 37 \<in> set s then unquote_runs s else s)"

definition plus_space :: "codepoint \<Rightarrow> codepoint" where
  "plus_space c = (if c = 43 then 32 else c)"

definition unquote_plus :: "pystr \<Rightarrow> pystr" where
  "unquote_plus s = unquote (map plus_space s)"

text \<open>\<open>parse_qs\<close> with \<open>keep_blank_values\<close> and \<open>strict_parsing\<close>, as the list of its pairs.\<close>

fun parse_fields :: "pystr list \<Rightarrow> (pystr \<times> pystr) list res" where
  "parse_fields [] = Inr []"
| "parse_fields (f # fs) =
     (case partition_at 61 f of (name, has_eq, v) \<Rightarrow>
        if \<not> has_eq then Inl ValueError
        else res_bind (parse_fields fs) (\<lambda>r. Inr ((unquote_plus name, unquote_plus v) # r)))"

definition parse_qs :: "nat \<Rightarrow> pystr \<Rightarrow> (pystr \<times> pystr) list res" where
  "parse_qs max_num_fields qs =
     (if qs = [] then Inr []
      else if max_num_fields < length (split_on 38 qs) then Inl ValueError
      else parse_fields (split_on 38 qs))"

text \<open>\<open>form.get(name, [""])\<close>\<close>

definition form_get :: "(pystr \<times> pystr) list \<Rightarrow> pystr \<Rightarrow> pystr list" where
  "form_get form name =
     (let vs = map snd (filter (\<lambda>kv. fst kv = name) form) in if vs = [] then [[]] else vs)"

subsection \<open>What a browser sends\<close>

text \<open>The \<open>application/x-www-form-urlencoded\<close> serialisation of a field.\<close>

definition form_plain :: "int \<Rightarrow> bool" where
  "form_plain b \<longleftrightarrow> 48 \<le> b \<and> b \<le> 57 \<or> 65 \<le> b \<and> b \<le> 90 \<or> 97 \<le> b \<and> b \<le> 122 \<or> b \<in> {42, 45, 46, 95}"

definition hex_upper :: "int \<Rightarrow> codepoint" where
  "hex_upper x = (if x < 10 then 48 + x else 55 + x)"

definition form_byte :: "int \<Rightarrow> pystr" where
  "form_byte b = (if b = 32 then [43] else if form_plain b then [b] else [37, hex_upper (b div 16), hex_upper (b mod 16)])"

definition form_quote :: "pystr \<Rightarrow> pystr" where
  "form_quote s = concat (map form_byte (utf8_ints s))"

definition form_encode :: "(pystr \<times> pystr) list \<Rightarrow> pystr" where
  "form_encode kvs = join [38] (map (\<lambda>(k, v). form_quote k @ [61] @ form_quote v) kvs)"

lemma hex_upper_val: "0 \<le> x \<Longrightarrow> x < 16 \<Longrightarrow> hex_val (hex_upper x) = Some x"
  by (auto simp: hex_val_def hex_upper_def)

lemma byte_nibbles:
  assumes "byte_value b"
  shows "0 \<le> b div 16" "b div 16 < 16" "0 \<le> b mod 16" "b mod 16 < 16" "16 * (b div 16) + b mod 16 = b"
  using assms by (auto simp: byte_value_def)

lemma hex_upper_range: "0 \<le> x \<Longrightarrow> x < 16 \<Longrightarrow> 48 \<le> hex_upper x \<and> hex_upper x \<le> 70 \<and> hex_upper x \<noteq> 61"
  by (simp add: hex_upper_def)

text \<open>The characters a serialised field consists of.\<close>

definition form_char :: "codepoint \<Rightarrow> bool" where
  "form_char c \<longleftrightarrow> (c = 37 \<or> 42 \<le> c) \<and> c \<le> 122 \<and> c \<noteq> 61"

lemma form_byte_chars:
  assumes "byte_value b"
  shows "list_all form_char (form_byte b)"
proof -
  note h = hex_upper_range [OF byte_nibbles(1,2) [OF assms]] hex_upper_range [OF byte_nibbles(3,4) [OF assms]]
  show ?thesis
  proof (cases "b = 32 \<or> form_plain b")
    case True
    then show ?thesis by (auto simp: form_byte_def form_plain_def form_char_def)
  next
    case False
    then show ?thesis using h by (simp add: form_byte_def form_char_def)
  qed
qed

lemma form_quote_chars: "encodable s \<Longrightarrow> list_all form_char (form_quote s)"
  using utf8_ints_byte_values [of s] by (auto simp: form_quote_def list_all_iff dest!: form_byte_chars)

lemma pct_form_byte:
  assumes "byte_value b"
  shows "pct_bytes (map plus_space (form_byte b) @ r) = b # pct_bytes r"
proof -
  note n = byte_nibbles [OF assms]
  have h: "plus_space (hex_upper x) = hex_upper x" if "0 \<le> x" "x < 16" for x
    using hex_upper_range [OF that] by (simp add: plus_space_def)
  have p: "pct_bytes (c # r) = c # pct_bytes r" if "c \<noteq> 37" for c
    using that by (cases r rule: pct_bytes.cases) auto
  show ?thesis
  proof (cases "b = 32 \<or> form_plain b")
    case True
    then have "map plus_space (form_byte b) = [b]" "b \<noteq> 37"
      by (auto simp: form_byte_def form_plain_def plus_space_def)
    then show ?thesis by (simp add: p)
  next
    case False
    then have "map plus_space (form_byte b) = [37, hex_upper (b div 16), hex_upper (b mod 16)]"
      using h [OF n(1,2)] h [OF n(3,4)] by (simp add: form_byte_def plus_space_def)
    then show ?thesis using n by (simp add: hex_upper_val)
  qed
qed

lemma pct_form: "list_all byte_value bs \<Longrightarrow> pct_bytes (map plus_space (concat (map form_byte bs))) = bs"
  by (induction bs) (simp_all add: pct_form_byte)

lemma unquote_runs_ascii: "list_all (\<lambda>c. c < 128) s \<Longrightarrow> unquote_runs s = utf8_replace (pct_bytes s)"
proof (cases s)
  case Nil
  then show ?thesis by (simp add: utf8_replace_def)
next
  case (Cons c r)
  assume a: "list_all (\<lambda>c. c < 128) s"
  then have "takeWhile (\<lambda>x. x < 128) r = r" "dropWhile (\<lambda>x. x < 128) r = []"
    using Cons by (auto simp: takeWhile_eq_all_conv list_all_iff)
  then show ?thesis using a Cons by (simp del: takeWhile_eq_all_conv dropWhile_eq_Nil_conv)
qed

lemma pct_bytes_plain: "37 \<notin> set s \<Longrightarrow> pct_bytes s = s"
  by (induction s rule: pct_bytes.induct) auto

lemma utf8_ints_id: "list_all (\<lambda>b. b < 128) (utf8_ints s) \<Longrightarrow> encodable s \<Longrightarrow> utf8_ints s = s"
  by (induction s) (auto simp: utf8_ints_def utf8_cp_def encodable_def valid_cp_def split: if_splits)

lemma unquote_form:
  assumes "encodable s"
  shows "unquote_plus (form_quote s) = s"
proof -
  let ?q = "map plus_space (form_quote s)"
  have bs: "list_all byte_value (utf8_ints s)" by (rule utf8_ints_byte_values [OF assms])
  have a: "list_all (\<lambda>c. c < 128) ?q"
    using form_quote_chars [OF assms] by (auto simp: list_all_iff form_char_def plus_space_def)
  have p: "pct_bytes ?q = utf8_ints s" unfolding form_quote_def by (rule pct_form [OF bs])
  have "unquote ?q = s"
  proof (cases "37 \<in> set ?q")
    case True
    then show ?thesis
      using utf8_decode_ints_roundtrip [OF assms, of Replace] by (simp add: unquote_def unquote_runs_ascii [OF a] p utf8_replace_def)
  next
    case False
    then have q: "?q = utf8_ints s" using p pct_bytes_plain by simp
    with a have "list_all (\<lambda>b. b < 128) (utf8_ints s)" by simp
    from utf8_ints_id [OF this assms] show ?thesis using False q by (simp add: unquote_def)
  qed
  then show ?thesis by (simp add: unquote_plus_def)
qed

lemma parse_form_fields:
  "\<forall>(k, v) \<in> set kvs. encodable k \<and> encodable v \<Longrightarrow>
     parse_fields (map (\<lambda>(k, v). form_quote k @ [61] @ form_quote v) kvs) = Inr kvs"
proof (induction kvs)
  case (Cons kv kvs)
  obtain k v where kv: "kv = (k, v)" by (cases kv)
  then have "encodable k" "encodable v" using Cons.prems by auto
  moreover have "61 \<notin> set (form_quote k)"
    using form_quote_chars [OF \<open>encodable k\<close>] by (auto simp: list_all_iff form_char_def)
  ultimately show ?case using Cons kv by (simp add: partition_at_append unquote_form)
qed simp

text \<open>Reading a serialised form gives back its fields.\<close>

lemma parse_qs_form:
  assumes "\<forall>(k, v) \<in> set kvs. encodable k \<and> encodable v" and "kvs \<noteq> []" and "length kvs \<le> n"
  shows "parse_qs n (form_encode kvs) = Inr kvs"
proof -
  let ?fs = "map (\<lambda>(k, v). form_quote k @ [61] @ form_quote v) kvs"
  have "38 \<notin> set f" if f: "f \<in> set ?fs" for f
  proof -
    obtain k v where "f = form_quote k @ [61] @ form_quote v" "encodable k" "encodable v" using f assms(1) by auto
    then show ?thesis using form_quote_chars [of k] form_quote_chars [of v] by (auto simp: list_all_iff form_char_def)
  qed
  then have s: "split_on 38 (form_encode kvs) = ?fs"
    unfolding form_encode_def using assms(2) by (intro split_on_join) auto
  moreover have "form_encode kvs \<noteq> []"
  proof
    assume "form_encode kvs = []"
    then have "?fs = [[]]" using s by (simp add: split_on_def)
    then show False by (cases kvs) auto
  qed
  ultimately show ?thesis using assms(3) parse_form_fields [OF assms(1)] by (simp add: parse_qs_def)
qed

section \<open>SHA-256 and Base64\<close>

text \<open>The constants: the fractional parts of the square and cube roots of the first primes, to 32 bits.\<close>

definition small_primes :: "nat list" where
  "small_primes = filter (\<lambda>n. list_all (\<lambda>d. n mod d \<noteq> 0) [2..<n]) [2..<312]"

fun root_search :: "nat \<Rightarrow> nat \<Rightarrow> nat \<Rightarrow> nat \<Rightarrow> nat" where
  "root_search k 0 r x = r"
| "root_search k (Suc b) r x = root_search k b (if (r + 2 ^ b) ^ k \<le> x then r + 2 ^ b else r) x"

definition root_fraction :: "nat \<Rightarrow> nat \<Rightarrow> 32 word" where
  "root_fraction k p = word_of_nat (root_search k 37 0 (p * 2 ^ (32 * k)))"

definition sha_init :: "32 word list" where
  "sha_init = map (root_fraction 2) (take 8 small_primes)"

definition sha_consts :: "32 word list" where
  "sha_consts = map (root_fraction 3) small_primes"

definition sha_pad :: "bytes \<Rightarrow> bytes" where
  "sha_pad m =
     m @ [0x80] @ replicate ((119 - length m mod 64) mod 64) 0
       @ map (\<lambda>i. word_of_nat (8 * length m div 256 ^ (7 - i))) [0..<8]"

definition be_word :: "bytes \<Rightarrow> 32 word" where
  "be_word bs = foldl (\<lambda>a b. push_bit 8 a OR ucast b) 0 bs"

fun chunks :: "nat \<Rightarrow> 'a list \<Rightarrow> 'a list list" where
  "chunks n xs = (if n = 0 \<or> xs = [] then [] else take n xs # chunks n (drop n xs))"

declare chunks.simps [simp del]

definition sigma_low0 :: "32 word \<Rightarrow> 32 word" where
  "sigma_low0 x = word_rotr 7 x XOR word_rotr 18 x XOR drop_bit 3 x"
definition sigma_low1 :: "32 word \<Rightarrow> 32 word" where
  "sigma_low1 x = word_rotr 17 x XOR word_rotr 19 x XOR drop_bit 10 x"
definition sigma_up0 :: "32 word \<Rightarrow> 32 word" where
  "sigma_up0 x = word_rotr 2 x XOR word_rotr 13 x XOR word_rotr 22 x"
definition sigma_up1 :: "32 word \<Rightarrow> 32 word" where
  "sigma_up1 x = word_rotr 6 x XOR word_rotr 11 x XOR word_rotr 25 x"

text \<open>The message schedule, newest word first.\<close>

fun sha_schedule :: "nat \<Rightarrow> 32 word list \<Rightarrow> 32 word list" where
  "sha_schedule 0 ws = ws"
| "sha_schedule (Suc n) ws =
     sha_schedule n ((sigma_low1 (ws ! 1) + ws ! 6 + sigma_low0 (ws ! 14) + ws ! 15) # ws)"

definition sha_round :: "32 word list \<Rightarrow> 32 word \<times> 32 word \<Rightarrow> 32 word list" where
  "sha_round st = (\<lambda>(k, w). case st of
     [a, b, c, d, e, f, g, h] \<Rightarrow>
       (let t1 = h + sigma_up1 e + ((e AND f) XOR (NOT e AND g)) + k + w;
            t2 = sigma_up0 a + ((a AND b) XOR (a AND c) XOR (b AND c))
        in [t1 + t2, a, b, c, d + t1, e, f, g])
   | _ \<Rightarrow> st)"

definition sha_block :: "32 word list \<Rightarrow> bytes \<Rightarrow> 32 word list" where
  "sha_block st block =
     map2 (+) st (foldl sha_round st (zip sha_consts (rev (sha_schedule 48 (rev (map be_word (chunks 4 block)))))))"

definition word_bytes :: "32 word \<Rightarrow> bytes" where
  "word_bytes w = [ucast (drop_bit 24 w), ucast (drop_bit 16 w), ucast (drop_bit 8 w), ucast w]"

definition sha256 :: "bytes \<Rightarrow> bytes" where
  "sha256 m = concat (map word_bytes (foldl sha_block sha_init (chunks 64 (sha_pad m))))"

definition b64_char :: "int \<Rightarrow> codepoint" where
  "b64_char x = (if x < 26 then 65 + x else if x < 52 then 71 + x else if x < 62 then x - 4 else if x = 62 then 43 else 47)"

fun b64_ints :: "int list \<Rightarrow> pystr" where
  "b64_ints (a # b # c # r) =
     b64_char (a div 4) # b64_char (a mod 4 * 16 + b div 16) # b64_char (b mod 16 * 4 + c div 64) # b64_char (c mod 64) # b64_ints r"
| "b64_ints [a, b] = [b64_char (a div 4), b64_char (a mod 4 * 16 + b div 16), b64_char (b mod 16 * 4), 61]"
| "b64_ints [a] = [b64_char (a div 4), b64_char (a mod 4 * 16), 61, 61]"
| "b64_ints [] = []"

definition b64encode :: "bytes \<Rightarrow> pystr" where
  "b64encode bs = b64_ints (ints_of bs)"

end
