(* ===== verification/Web_Pages.thy ===== *)
theory Web_Pages
  imports Py_Web Nmcli
begin

text \<open>
  The HTML of \<open>sushida_os/wifi/web.py\<close>: the setup page of \<open>render_page\<close> as a function of what it shows, and
  the connecting page with the script whose hash its Content-Security-Policy names. Names, messages and
  scan results enter the pages only escaped: they contribute no markup character, so the structure of
  a page does not depend on what other people's access points are called.
\<close>

section \<open>The texts\<close>

definition MSG_DONE :: pystr where
  \<open>MSG_DONE =
     lit ''<p class="success">''
     @ [25509, 32154, 12364, 23436, 20102, 12375, 12414, 12375, 12383, 12290, 23551, 21496, 25171, 30011]
     @ [38754, 12408, 12398, 20999, 12426, 26367, 12360, 12434, 24453, 12387, 12390, 12356, 12414, 12377]
     @ [12290] @ lit ''</p>''\<close>

definition MSG_EMPTY :: pystr where
  \<open>MSG_EMPTY =
     lit ''<p class="empty">Wi-Fi''
     @ [12493, 12483, 12488, 12527, 12540, 12463, 12364, 35211, 12388, 12363, 12426, 12414, 12379, 12435]
     @ [12290, 20877, 12473, 12461, 12515, 12531, 12375, 12390, 12367, 12384, 12373, 12356, 12290]
     @ lit ''</p>''\<close>

definition MSG_ONLINE :: pystr where
  \<open>MSG_ONLINE =
     [26377, 32218, 12414, 12383, 12399] @ lit ''Wi-Fi''
     @ [12391, 25509, 32154, 28168, 12415, 12391, 12377, 12290]\<close>

definition MSG_OFFLINE :: pystr where
  \<open>MSG_OFFLINE =
     [12493, 12483, 12488, 12527, 12540, 12463, 26410, 25509, 32154, 12391, 12377, 12290]\<close>

definition MSG_NO_STORE :: pystr where
  \<open>MSG_NO_STORE =
     lit '' ''
     @ [35373, 23450, 20445, 23384, 38936, 22495, 12434, 21033, 29992, 12391, 12365, 12394, 12356, 12383]
     @ [12417, 12289, 12371, 12398, 36215, 21205, 20013, 12384, 12369, 25509, 32154, 12391, 12365, 12414]
     @ [12377, 12290]\<close>

definition LABEL_SAVE :: pystr where
  \<open>LABEL_SAVE =
     [25509, 32154, 12375, 12390, 20445, 23384]\<close>

definition LABEL_ONCE :: pystr where
  \<open>LABEL_ONCE =
     [12371, 12398, 36215, 21205, 20013, 12384, 12369, 25509, 32154]\<close>

definition NOTE_SAVED :: pystr where
  \<open>NOTE_SAVED =
     [35373, 23450, 12399, 12371, 12398, 31471, 26411, 12398, 23554, 29992, 38936, 22495, 12395, 20445]
     @ [23384, 12373, 12428, 12414, 12377, 12290]\<close>

definition NOTE_ONCE :: pystr where
  \<open>NOTE_ONCE =
     [12371, 12398, 36215, 21205, 20013, 12399, 25509, 32154, 12391, 12365, 12414, 12377, 12364, 12289]
     @ [35373, 23450, 12399, 20877, 36215, 21205, 24460, 12395, 27531, 12426, 12414, 12379, 12435, 12290]\<close>

definition SIGNAL_TEXT :: pystr where
  \<open>SIGNAL_TEXT =
     [38651, 27874] @ lit '' ''\<close>

definition OPEN_TEXT :: pystr where
  \<open>OPEN_TEXT =
     [12458, 12540, 12503, 12531]\<close>

definition PAGE_TOP :: pystr where
  \<open>PAGE_TOP =
     lit ''<!doctype html>'' @ [10] @ lit ''<html lang="ja"><head><meta charset="utf-8">'' @ [10]
     @ lit ''<meta name="viewport" content="width=device-width,initial-scale=1">'' @ [10]
     @ lit ''<title>'' @ [12493, 12483, 12488, 12527, 12540, 12463, 35373, 23450] @ lit ''</title>''
     @ [10] @ lit ''<style>'' @ [10]
     @ lit ''html,body{margin:0;min-height:100%;background:#111;color:#f4f4f4;font-family:san''
     @ lit ''s-serif}'' @ [10]
     @ lit ''main{max-width:720px;margin:0 auto;padding:7vh 6vw}h1{font-size:2rem}'' @ [10]
     @ lit ''form{display:grid;gap:1rem}label{display:grid;gap:.4rem}'' @ [10]
     @ lit ''input,button{font:inherit;padding:.8rem;border-radius:.4rem;border:1px solid''
     @ lit '' #777}'' @ [10]
     @ lit ''button{background:#fff;color:#111;font-weight:bold}.error{color:#ff9b9b}.success''
     @ lit ''{color:#9bffb1}'' @ [10]
     @ lit ''.networks{border:0;margin:0;padding:0;display:grid;gap:.65rem}'' @ [10]
     @ lit ''.networks legend{font-weight:bold;margin-bottom:.6rem}'' @ [10]
     @ lit ''.network{display:grid;grid-template-columns:auto''
     @ lit '' 1fr;align-items:center;gap:.8rem;'' @ [10] @ lit ''padding:.85rem;border:1px solid''
     @ lit '' #777;border-radius:.5rem;background:#222;cursor:pointer}'' @ [10]
     @ lit ''.network:has(input:checked){border-color:#fff;background:#3a3a3a}'' @ [10]
     @ lit ''.network input{width:1.35rem;height:1.35rem;margin:0}'' @ [10]
     @ lit ''.network span{display:grid;gap:.2rem}.network strong{overflow-wrap:anywhere}'' @ [10]
     @ lit ''.network small,.note,.empty{color:#bbb}.empty{margin:.2rem 0}'' @ [10]
     @ lit ''.note{font-size:.9rem}'' @ [10] @ lit ''</style></head><body><main><h1>''
     @ [12493, 12483, 12488, 12527, 12540, 12463, 35373, 23450] @ lit ''</h1>'' @ [10] @ lit ''<p>''\<close>

definition PAGE_STATUS_END :: pystr where
  \<open>PAGE_STATUS_END =
     lit ''</p>''\<close>

definition PAGE_FORM :: pystr where
  \<open>PAGE_FORM =
     [10] @ lit ''<form method="post" action="/connect">'' @ [10]
     @ lit ''<input type="hidden" name="csrf" value="''\<close>

definition PAGE_NETWORKS :: pystr where
  \<open>PAGE_NETWORKS =
     lit ''">'' @ [10] @ lit ''<fieldset class="networks"><legend>Wi-Fi''
     @ [12493, 12483, 12488, 12527, 12540, 12463, 12434, 36984, 25246] @ lit ''</legend>''\<close>

definition PAGE_PASSWORD :: pystr where
  \<open>PAGE_PASSWORD =
     lit ''</fieldset>'' @ [10] @ lit ''<label>'' @ [12497, 12473, 12527, 12540, 12489]
     @ lit ''<input name="password" type="password" maxlength="64"''
     @ lit '' autocomplete="new-password"></label>'' @ [10] @ lit ''<button type="submit"''\<close>

definition PAGE_BUTTON :: pystr where
  \<open>PAGE_BUTTON =
     lit ''>''\<close>

definition PAGE_NOTE :: pystr where
  \<open>PAGE_NOTE =
     lit ''</button></form>'' @ [10] @ lit ''<form method="get" action="/"><button type="submit">''
     @ [20877, 12473, 12461, 12515, 12531] @ lit ''</button></form>'' @ [10] @ lit ''<p class="note">''
     @ [26377, 32218] @ lit ''LAN''
     @ [12364, 25509, 32154, 12373, 12428, 12427, 12392, 33258, 21205, 30340, 12395, 23551, 21496, 25171]
     @ [30011, 38754, 12408, 31227, 21205, 12375, 12414, 12377, 12290]\<close>

definition PAGE_END :: pystr where
  \<open>PAGE_END =
     lit ''</p>'' @ [10] @ lit ''</main></body></html>''\<close>

lemmas page_texts = MSG_DONE_def MSG_EMPTY_def MSG_ONLINE_def MSG_OFFLINE_def MSG_NO_STORE_def LABEL_SAVE_def LABEL_ONCE_def
  NOTE_SAVED_def NOTE_ONCE_def SIGNAL_TEXT_def OPEN_TEXT_def PAGE_TOP_def PAGE_STATUS_END_def PAGE_FORM_def
  PAGE_NETWORKS_def PAGE_PASSWORD_def PAGE_BUTTON_def PAGE_NOTE_def PAGE_END_def

section \<open>The setup page\<close>

definition network_choice :: "network \<Rightarrow> pystr" where
  \<open>network_choice = (\<lambda>(ssid, signal, security).
     let details = SIGNAL_TEXT @ show_int signal @ lit ''% '' @ [8212] @ lit '' '' @ (if security = [] then OPEN_TEXT else security)
     in lit ''<label class="network">'' @ lit ''<input type="radio" name="ssid" value="'' @ html_escape ssid @ lit ''" required>''
        @ lit ''<span>'' @ lit ''<strong>'' @ html_escape ssid @ lit ''</strong>''
        @ lit ''<small>'' @ html_escape details @ lit ''</small>'' @ lit ''</span></label>'')\<close>

definition network_list :: "bool \<Rightarrow> network list \<Rightarrow> pystr" where
  "network_list success networks =
     (if success then MSG_DONE else if networks \<noteq> [] then concat (map network_choice networks) else MSG_EMPTY)"

definition page_status :: "bool \<Rightarrow> bool \<Rightarrow> pystr" where
  "page_status connected storage_ready =
     (if connected then MSG_ONLINE else MSG_OFFLINE) @ (if \<not> storage_ready then MSG_NO_STORE else [])"

definition page_alert :: "pystr \<Rightarrow> bool \<Rightarrow> pystr" where
  \<open>page_alert message success =
     (if message \<noteq> []
      then lit ''<p class="'' @ (if success then lit ''success'' else lit ''error'') @ lit ''">'' @ html_escape message @ lit ''</p>''
      else [])\<close>

definition page_text :: "pystr \<Rightarrow> bool \<Rightarrow> bool \<Rightarrow> bool \<Rightarrow> network list \<Rightarrow> pystr \<Rightarrow> pystr" where
  "page_text message success connected storage_ready networks token =
     PAGE_TOP @ html_escape (page_status connected storage_ready) @ PAGE_STATUS_END @ page_alert message success
     @ PAGE_FORM @ html_escape token @ PAGE_NETWORKS @ network_list success networks
     @ PAGE_PASSWORD @ (if networks = [] then lit '' disabled'' else []) @ PAGE_BUTTON
     @ (if storage_ready then LABEL_SAVE else LABEL_ONCE)
     @ PAGE_NOTE @ (if storage_ready then NOTE_SAVED else NOTE_ONCE) @ PAGE_END"

section \<open>The connecting page\<close>

definition NOTICE_BUSY :: pystr where
  \<open>NOTICE_BUSY =
     [21029, 12398, 25509, 32154, 20966, 29702, 12364, 12377, 12391, 12395, 23455, 34892, 20013, 12391]
     @ [12377, 12290, 12381, 12398, 12414, 12414, 12362, 24453, 12385, 12367, 12384, 12373, 12356, 12290]\<close>

definition NOTICE_WORKING :: pystr where
  \<open>NOTICE_WORKING =
     lit ''Wi-Fi''
     @ [25509, 32154, 20966, 29702, 12434, 23455, 34892, 12375, 12390, 12356, 12414, 12377, 12290, 12381]
     @ [12398, 12414, 12414, 12362, 24453, 12385, 12367, 12384, 12373, 12356, 12290]\<close>

definition CONN_TOP :: pystr where
  \<open>CONN_TOP =
     lit ''<!doctype html>'' @ [10] @ lit ''<html lang="ja"><head><meta charset="utf-8">'' @ [10]
     @ lit ''<meta name="viewport" content="width=device-width,initial-scale=1">'' @ [10]
     @ lit ''<title>'' @ [12493, 12483, 12488, 12527, 12540, 12463, 35373, 23450] @ lit ''</title>''
     @ [10] @ lit ''<style>'' @ [10]
     @ lit ''html,body{margin:0;min-height:100%;background:#111;color:#f4f4f4;font-family:san''
     @ lit ''s-serif}'' @ [10]
     @ lit ''main{max-width:720px;margin:0 auto;padding:7vh 6vw}h1{font-size:2rem}'' @ [10]
     @ lit ''.note{font-size:.9rem;color:#bbb}'' @ [10] @ lit ''</style></head><body><main><h1>''
     @ [12493, 12483, 12488, 12527, 12540, 12463, 35373, 23450] @ lit ''</h1>'' @ [10]
     @ lit ''<p id="connect-status">''\<close>

definition CONN_NOTES :: pystr where
  \<open>CONN_NOTES =
     lit ''</p>'' @ [10] @ lit ''<p class="note">''
     @ [25509, 32154, 12395, 25104, 21151, 12377, 12427, 12392, 33258, 21205, 30340, 12395, 23551, 21496]
     @ [25171, 12398, 30011, 38754, 12408, 20999, 12426, 26367, 12431, 12426, 12414, 12377, 12290, 22833]
     @ [25943, 12375, 12383, 22580, 21512, 12399, 35373, 23450, 30011, 38754, 12408, 25147, 12426, 12414]
     @ [12377, 12290] @ lit ''</p>'' @ [10] @ lit ''<noscript><p class="note">''
     @ [12375, 12400, 12425, 12367, 24453, 12387, 12390, 12363, 12425, 12371, 12398, 30011, 38754, 12434]
     @ [20877, 35501, 12415, 36796, 12415, 12375, 12390, 12367, 12384, 12373, 12356, 12290]
     @ lit ''</p></noscript>'' @ [10] @ lit ''<script>''\<close>

definition CONN_END :: pystr where
  \<open>CONN_END =
     lit ''</script>'' @ [10] @ lit ''</main></body></html>''\<close>

definition CONNECTING_SCRIPT :: pystr where
  \<open>CONNECTING_SCRIPT =
     lit ''(function () {'' @ [10]
     @ lit ''  var statusLine = document.getElementById("connect-status");'' @ [10]
     @ lit ''  var errors = 0;'' @ [10] @ lit ''  var rounds = 0;'' @ [10]
     @ lit ''  function say(text) {'' @ [10] @ lit ''    if (statusLine) {'' @ [10]
     @ lit ''      statusLine.textContent = text;'' @ [10] @ lit ''    }'' @ [10] @ lit ''  }'' @ [10]
     @ lit ''  function poll() {'' @ [10] @ lit ''    rounds += 1;'' @ [10]
     @ lit ''    if (rounds > 160) {'' @ [10] @ lit ''      location.reload();'' @ [10]
     @ lit ''      return;'' @ [10] @ lit ''    }'' @ [10]
     @ lit ''    fetch("/status.json", { cache: "no-store" }).then(function (response) {'' @ [10]
     @ lit ''      if (!response.ok) {'' @ [10] @ lit ''        throw new Error("status");'' @ [10]
     @ lit ''      }'' @ [10] @ lit ''      return response.json();'' @ [10]
     @ lit ''    }).then(function (data) {'' @ [10] @ lit ''      errors = 0;'' @ [10]
     @ lit ''      if (data.state === "connecting") {'' @ [10] @ lit ''        setTimeout(poll, 1500);''
     @ [10] @ lit ''      } else if (data.state === "succeeded") {'' @ [10]
     @ lit ''        say(data.message || "''
     @ [25509, 32154, 12375, 12414, 12375, 12383, 12290, 23551, 21496, 25171, 30011, 38754, 12408, 20999]
     @ [12426, 26367, 12360, 12414, 12377, 12290] @ lit ''");'' @ [10] @ lit ''      } else {'' @ [10]
     @ lit ''        location.reload();'' @ [10] @ lit ''      }'' @ [10]
     @ lit ''    }).catch(function () {'' @ [10] @ lit ''      errors += 1;'' @ [10]
     @ lit ''      if (errors > 40) {'' @ [10] @ lit ''        location.reload();'' @ [10]
     @ lit ''        return;'' @ [10] @ lit ''      }'' @ [10] @ lit ''      setTimeout(poll, 1500);''
     @ [10] @ lit ''    });'' @ [10] @ lit ''  }'' @ [10] @ lit ''  setTimeout(poll, 1200);'' @ [10]
     @ lit ''}());'' @ [10]\<close>

definition connecting_text :: "bool \<Rightarrow> pystr" where
  "connecting_text busy = CONN_TOP @ (if busy then NOTICE_BUSY else NOTICE_WORKING) @ CONN_NOTES @ CONNECTING_SCRIPT @ CONN_END"

definition render_connecting_page :: "bool \<Rightarrow> bytes res" where
  "render_connecting_page busy = utf8_encode (connecting_text busy)"

definition script_csp_hash :: "pystr res" where
  "script_csp_hash = res_bind (utf8_encode CONNECTING_SCRIPT) (\<lambda>b. Inr (b64encode (sha256 b)))"

section \<open>The structure of the pages\<close>

lemma markup_texts:
  "filter markup MSG_ONLINE = []" "filter markup MSG_OFFLINE = []" "filter markup LABEL_SAVE = []" "filter markup LABEL_ONCE = []"
  "filter markup NOTE_SAVED = []" "filter markup NOTE_ONCE = []" "filter markup (lit '' disabled'') = []"
  by (simp_all add: page_texts lit_def markup_def)

lemma markup_choice: "filter markup (network_choice n) = filter markup (network_choice n')"
  by (cases n; cases n') (simp add: network_choice_def Let_def)

lemma markup_choices:
  "length ns = length ns' \<Longrightarrow>
     filter markup (concat (map network_choice ns)) = filter markup (concat (map network_choice ns'))"
proof (induction ns ns' rule: list_induct2)
  case (Cons n ns n' ns')
  then show ?case using markup_choice [of n n'] by simp
qed simp

lemma markup_list: "length ns = length ns' \<Longrightarrow> filter markup (network_list success ns) = filter markup (network_list success ns')"
  using markup_choices [of ns ns'] by (auto simp: network_list_def)

lemma markup_alert:
  "(m = []) = (m' = []) \<Longrightarrow> filter markup (page_alert m success) = filter markup (page_alert m' success)"
  by (simp add: page_alert_def)

text \<open>
  C11. The structure of the setup page does not depend on the texts it shows: two pages with equally many
  networks (whatever their names, signals and security) and equally present messages have the
  same markup characters in the same order, and a name is read back from its escaped form unchanged.
\<close>

theorem page_structure:
  assumes "length networks = length networks'" and "(message = []) = (message' = [])"
  shows "filter markup (page_text message success connected ready networks token)
           = filter markup (page_text message' success connected' ready' networks' token')
         \<and> html_unescape (html_escape name) = name"
proof -
  have "networks = [] \<longleftrightarrow> networks' = []" using assms(1) by (metis length_0_conv)
  then show ?thesis
    using markup_list [OF assms(1), of success] markup_alert [OF assms(2), of success]
    by (simp add: page_text_def markup_texts html_unescape_escape)
qed

theorem page_structure_witness:
  \<open>filter markup (page_text [] False True True [(lit ''<script>"'', 70, lit ''WPA2'')] (lit ''t''))
     = filter markup (page_text [] False True True [(lit ''cafe'', 40, [])] (lit ''t''))\<close>
  using page_structure [of "[(lit ''<script>\"'', 70, lit ''WPA2'')]" "[(lit ''cafe'', 40, [])]" "[]" "[]" False True True
      "lit ''t''" True True "lit ''t''" "[]"] by simp

end
