(* ===== verification/Web.thy ===== *)
theory Web
  imports Service Web_Pages Nmcli_Scan
begin

text \<open>
  The HTTP handler of \<open>sushida_os/wifi/web.py\<close>, run in the shared world of \<open>Service\<close>: every call into the
  coordinator, the adapter or the storage lets the other threads act first. A request is its path,
  its headers and what reading its body gives; a response is the trace of events (log lines, head and
  body written, the hand-over of a credential and the wake-up of the worker), and any write may fail
  because the browser went away.
\<close>

section \<open>Requests, responses and the handler's world\<close>

definition HOST_PORT :: pystr where "HOST_PORT = lit ''127.0.0.1:8787''"
definition ORIGIN :: pystr where "ORIGIN = lit ''http://127.0.0.1:8787''"
definition MAX_REQUEST_BYTES :: int where "MAX_REQUEST_BYTES = 8192"

record request =
  rq_path :: pystr
  rq_headers :: "(pystr \<times> pystr) list"
  rq_read :: "int \<Rightarrow> bytes res"

datatype wevent =
    EvLog pystr
  | EvHead int "(pystr \<times> pystr) list"
  | EvBody bytes
  | EvEnqueue creds bool
  | EvWake

record web = shared +
  wb_csrf :: "pystr option"
  wb_events :: "wevent list"
  wb_sends :: nat

text \<open>What surrounds the handler; \<open>g_send n\<close>: the \<open>n\<close>-th write to the connection succeeds.\<close>

record webenv =
  g_env :: env
  g_nm :: nm
  g_ot :: others
  g_sfx :: pystr
  g_fresh :: pystr
  g_send :: "nat \<Rightarrow> bool"
  g_netloc :: "pystr \<Rightarrow> bool"

definition web_event :: "wevent \<Rightarrow> (web, unit) rio" where
  "web_event ev = (\<lambda>w. (Inr (), w\<lparr>wb_events := ev # wb_events w\<rparr>))"

definition web_write :: "webenv \<Rightarrow> wevent \<Rightarrow> (web, unit) rio" where
  "web_write g ev = (\<lambda>w.
     let w' = w\<lparr>wb_sends := Suc (wb_sends w)\<rparr> in
     if g_send g (wb_sends w) then (Inr (), w'\<lparr>wb_events := ev # wb_events w'\<rparr>) else (Inl OSError, w'))"

text \<open>\<open>csrf_token()\<close>: the module's cache is part of the handler's world.\<close>

definition web_csrf :: "webenv \<Rightarrow> (web, pystr) rio" where
  "web_csrf g = (\<lambda>w.
     let w' = turn (g_ot g) w in
     case csrf_token (g_env g) (g_sfx g) (g_fresh g) (wb_csrf w') (w_os w') of
       (Inl x, s) \<Rightarrow> (Inl x, w'\<lparr>w_os := s\<rparr>)
     | (Inr (token, cache), s) \<Rightarrow> (Inr token, w'\<lparr>w_os := s, wb_csrf := cache\<rparr>))"

section \<open>Reading a request\<close>

text \<open>\<open>headers.get\<close>: the first header of that name; header names are Latin-1, where only ASCII letters fold to ASCII.\<close>

definition header_get :: "(pystr \<times> pystr) list \<Rightarrow> pystr \<Rightarrow> pystr option" where
  "header_get hs name = map_option snd (find (\<lambda>h. map ascii_lower (fst h) = map ascii_lower name) hs)"

definition get_content_type :: "(pystr \<times> pystr) list \<Rightarrow> pystr" where
  "get_content_type hs =
     (case header_get hs (lit ''Content-Type'') of
        None \<Rightarrow> lit ''text/plain''
      | Some v \<Rightarrow>
          (let ctype = map ascii_lower (py_strip (fst (partition_at 59 v))) in
           if length (filter (\<lambda>c. c = 47) ctype) \<noteq> 1 then lit ''text/plain'' else ctype))"

definition allowed_browser_origin :: "(pystr \<times> pystr) list \<Rightarrow> bool" where
  "allowed_browser_origin hs =
     (let origin = header_get hs (lit ''Origin'') in
      if origin = Some ORIGIN then True
      else if origin \<noteq> None then False
      else header_get hs (lit ''Host'') = Some HOST_PORT \<and> header_get hs (lit ''Sec-Fetch-Site'') = Some (lit ''same-origin''))"

definition content_length :: "(pystr \<times> pystr) list \<Rightarrow> int res" where
  "content_length hs =
     (case py_int (case header_get hs (lit ''Content-Length'') of None \<Rightarrow> [] | Some v \<Rightarrow> v) of
        Inl x \<Rightarrow> if is_ValueError x then Inr (-1) else Inl x
      | Inr n \<Rightarrow> Inr n)"

text \<open>\<open>hmac.compare_digest\<close> refuses non-ASCII text.\<close>

definition compare_digest :: "pystr \<Rightarrow> pystr \<Rightarrow> bool res" where
  "compare_digest a b = (if py_isascii a \<and> py_isascii b then Inr (a = b) else Inl TypeError)"

section \<open>Responses\<close>

definition LOG_REQUEST :: pystr where "LOG_REQUEST = lit ''wifi-setup: stage=http-request nmcli_exit=0 reason=0''"
definition LOG_REJECT :: pystr where "LOG_REJECT = lit ''wifi-setup: stage=http-reject nmcli_exit=0 reason=0''"

definition CSP_BASE :: pystr where
  \<open>CSP_BASE =
     lit ''default-src 'self'; style-src 'unsafe-inline'; form-action 'self';''
     @ lit '' frame-ancestors 'none'; base-uri 'none'' @ [39]\<close>

text \<open>
  \<open>send_response\<close> logs the request; the head is written by \<open>end_headers\<close>. The \<open>Server\<close> and \<open>Date\<close> lines that
  \<open>http.server\<close> adds to every head are left out.
\<close>

definition send_head :: "webenv \<Rightarrow> int \<Rightarrow> (pystr \<times> pystr) list \<Rightarrow> (web, unit) rio" where
  "send_head g status hs = r_seq (web_event (EvLog LOG_REQUEST)) (web_write g (EvHead status hs))"

definition html_headers :: "nat \<Rightarrow> pystr option \<Rightarrow> (pystr \<times> pystr) list" where
  "html_headers n script_hash = [
     (lit ''Content-Type'', lit ''text/html; charset=utf-8''),
     (lit ''Content-Length'', show_int (int n)),
     (lit ''Cache-Control'', lit ''no-store''),
     (lit ''Content-Security-Policy'', CSP_BASE @ (case script_hash of None \<Rightarrow> [] | Some h \<Rightarrow>
        lit ''; script-src '' @ [39] @ lit ''sha256-'' @ h @ [39])),
     (lit ''X-Content-Type-Options'', lit ''nosniff''),
     (lit ''X-Frame-Options'', lit ''DENY''),
     (lit ''Referrer-Policy'', lit ''same-origin'')]"

definition render_page :: "webenv \<Rightarrow> pystr \<Rightarrow> bool \<Rightarrow> (web, bytes) rio" where
  "render_page g message success =
     r_bind (if success then r_return True else on_nm (g_ot g) (network_connected (g_env g) (g_nm g))) (\<lambda>connected.
     r_bind (on_os (g_ot g) (\<lambda>s. (persistent_storage_ready (g_env g) s, s))) (\<lambda>storage_ready.
     r_bind (if success then r_return [] else on_nm (g_ot g) (scan_networks (g_env g) (g_nm g))) (\<lambda>networks.
     r_bind (web_csrf g) (\<lambda>token.
     r_lift (utf8_encode (page_text message success connected storage_ready networks token))))))"

definition reply :: "webenv \<Rightarrow> bytes \<Rightarrow> int \<Rightarrow> (web, unit) rio" where
  "reply g body status =
     r_seq (send_head g status (html_headers (length body) None)) (web_write g (EvBody body))"

definition reply_connecting :: "webenv \<Rightarrow> bool \<Rightarrow> int \<Rightarrow> (web, unit) rio" where
  "reply_connecting g other status =
     r_bind (r_lift (render_connecting_page other)) (\<lambda>body.
     r_bind (r_lift script_csp_hash) (\<lambda>h.
     r_seq (send_head g status (html_headers (length body) (Some h))) (web_write g (EvBody body))))"

definition status_headers :: "nat \<Rightarrow> (pystr \<times> pystr) list" where
  "status_headers n = [
     (lit ''Content-Type'', lit ''application/json; charset=utf-8''),
     (lit ''Content-Length'', show_int (int n)),
     (lit ''Cache-Control'', lit ''no-store''),
     (lit ''Content-Security-Policy'', lit ''default-src '' @ [39] @ lit ''none'' @ [39]),
     (lit ''X-Content-Type-Options'', lit ''nosniff''),
     (lit ''X-Frame-Options'', lit ''DENY''),
     (lit ''Referrer-Policy'', lit ''same-origin'')]"

definition status_json :: "conn_state \<Rightarrow> pystr \<Rightarrow> pystr" where
  "status_json state message =
     json_dumps False False [(lit ''state'', SStr (state_name state)), (lit ''message'', SStr message)]"

definition reply_status :: "webenv \<Rightarrow> (web, unit) rio" where
  "reply_status g =
     r_bind (svc_connect_status (g_ot g)) (\<lambda>(state, message).
     r_bind (r_lift (utf8_encode (status_json state message))) (\<lambda>body.
     r_seq (send_head g 200 (status_headers (length body))) (web_write g (EvBody body))))"

definition redirect_home :: "webenv \<Rightarrow> (web, unit) rio" where
  "redirect_home g = send_head g 303 [
     (lit ''Location'', lit ''/''), (lit ''Content-Length'', lit ''0''), (lit ''Cache-Control'', lit ''no-store''),
     (lit ''X-Content-Type-Options'', lit ''nosniff'')]"

definition setup_error :: "webenv \<Rightarrow> pystr \<Rightarrow> int \<Rightarrow> (web, unit) rio" where
  "setup_error g message status = r_bind (render_page g message False) (\<lambda>body. reply g body status)"

definition reject :: "webenv \<Rightarrow> pystr \<Rightarrow> int \<Rightarrow> (web, unit) rio" where
  "reject g message status = r_seq (web_event (EvLog LOG_REJECT)) (setup_error g message status)"

section \<open>GET\<close>

definition get_setup_page :: "webenv \<Rightarrow> (web, unit) rio" where
  "get_setup_page g =
     r_bind (svc_connect_status (g_ot g)) (\<lambda>(state, message).
     if state = CONNECT_WORKING then reply_connecting g False 200
     else if state = CONNECT_FAILED then
       r_bind (svc_consume_failure (g_env g) (g_ot g)) (\<lambda>m.
       r_bind (render_page g (case m of None \<Rightarrow> [] | Some t \<Rightarrow> t) False) (\<lambda>body. reply g body 200))
     else if state = CONNECT_SUCCEEDED then
       r_bind (on_nm (g_ot g) (network_connected (g_env g) (g_nm g))) (\<lambda>connected.
       if connected then r_bind (render_page g message True) (\<lambda>body. reply g body 200)
       else r_seq (svc_reset_succeeded (g_env g) (g_ot g)) (r_bind (render_page g [] False) (\<lambda>body. reply g body 200)))
     else r_bind (render_page g [] False) (\<lambda>body. reply g body 200))"

definition do_GET :: "webenv \<Rightarrow> request \<Rightarrow> (web, unit) rio" where
  "do_GET g rq =
     r_bind (r_lift (urlsplit (g_netloc g) (rq_path rq))) (\<lambda>target.
     if sr_path target = lit ''/status.json'' then reply_status g
     else if sr_path target \<notin> {lit ''/'', lit ''/rescan''} then redirect_home g
     else get_setup_page g)"

section \<open>POST\<close>

definition MSG_ORIGIN :: pystr where
  \<open>MSG_ORIGIN =
     [12502, 12521, 12454, 12470, 12363, 12425, 12398, 25509, 32154, 35201, 27714, 12434, 26908, 35388]
     @ [12391, 12365, 12414, 12379, 12435, 12391, 12375, 12383, 12290, 35373, 23450, 30011, 38754, 12363]
     @ [12425, 20877, 36865, 20449, 12375, 12390, 12367, 12384, 12373, 12356, 12290]\<close>

definition MSG_FORM_TYPE :: pystr where
  \<open>MSG_FORM_TYPE =
     [25509, 32154, 35201, 27714, 12398, 24418, 24335, 12364, 19981, 27491, 12391, 12377, 12290, 12418]
     @ [12358, 19968, 24230, 20837, 21147, 12375, 12390, 12367, 12384, 12373, 12356, 12290]\<close>

definition MSG_TOO_LARGE :: pystr where
  \<open>MSG_TOO_LARGE =
     [25509, 32154, 35201, 27714, 12364, 22823, 12365, 12377, 12366, 12414, 12377, 12290, 12418, 12358]
     @ [19968, 24230, 20837, 21147, 12375, 12390, 12367, 12384, 12373, 12356, 12290]\<close>

definition MSG_READ_TIMEOUT :: pystr where
  \<open>MSG_READ_TIMEOUT =
     [25509, 32154, 35201, 27714, 12398, 21463, 20449, 12364, 12479, 12452, 12512, 12450, 12454, 12488]
     @ [12375, 12414, 12375, 12383, 12290, 12418, 12358, 19968, 24230, 20837, 21147, 12375, 12390, 12367]
     @ [12384, 12373, 12356, 12290]\<close>

definition MSG_INCOMPLETE :: pystr where
  \<open>MSG_INCOMPLETE =
     [25509, 32154, 35201, 27714, 12434, 26368, 24460, 12414, 12391, 21463, 20449, 12391, 12365, 12414]
     @ [12379, 12435, 12391, 12375, 12383, 12290, 12418, 12358, 19968, 24230, 20837, 21147, 12375, 12390]
     @ [12367, 12384, 12373, 12356, 12290]\<close>

definition MSG_UNREADABLE :: pystr where
  \<open>MSG_UNREADABLE =
     [25509, 32154, 35201, 27714, 12434, 35501, 12415, 21462, 12428, 12414, 12379, 12435, 12391, 12375]
     @ [12383, 12290, 12418, 12358, 19968, 24230, 20837, 21147, 12375, 12390, 12367, 12384, 12373, 12356]
     @ [12290]\<close>

definition MSG_FIELDS :: pystr where
  \<open>MSG_FIELDS =
     [25509, 32154, 35201, 27714, 12398, 38917, 30446, 12364, 19981, 27491, 12391, 12377, 12290, 12418]
     @ [12358, 19968, 24230, 20837, 21147, 12375, 12390, 12367, 12384, 12373, 12356, 12290]\<close>

definition MSG_EXPIRED :: pystr where
  \<open>MSG_EXPIRED =
     [35373, 23450, 30011, 38754, 12398, 26377, 21177, 26399, 38480, 12364, 20999, 12428, 12414, 12375]
     @ [12383, 12290, 30011, 38754, 12434, 20877, 35501, 12415, 36796, 12415, 12375, 12390, 20877, 36865]
     @ [20449, 12375, 12390, 12367, 12384, 12373, 12356, 12290]\<close>

text \<open>The form: \<open>Inl\<close> is the rejection with its message and status.\<close>

definition read_form :: "request \<Rightarrow> int \<Rightarrow> ((pystr \<times> int) + (pystr \<times> pystr) list) res" where
  "read_form rq n =
     (case rq_read rq n of
        Inl x \<Rightarrow> if is_OSError x then Inr (Inl (MSG_READ_TIMEOUT, 400)) else Inl x
      | Inr body \<Rightarrow>
          if int (length body) \<noteq> n then Inr (Inl (MSG_INCOMPLETE, 400))
          else (case res_bind (utf8_decode Strict body) (parse_qs 4) of
                  Inl x \<Rightarrow> if is_ValueError x then Inr (Inl (MSG_UNREADABLE, 400)) else Inl x
                | Inr form \<Rightarrow> Inr (Inr form)))"

definition form_fields :: "(pystr \<times> pystr) list \<Rightarrow> (pystr \<times> int) + (pystr \<times> creds)" where
  "form_fields form =
     (case (form_get form (lit ''csrf''), form_get form (lit ''ssid''), form_get form (lit ''password'')) of
        ([token], [ssid], [password]) \<Rightarrow> Inr (token, ssid, password)
      | _ \<Rightarrow> Inl (MSG_FIELDS, 400))"

text \<open>The checks of a POST up to the form fields.\<close>

definition post_request :: "request \<Rightarrow> ((pystr \<times> int) + (pystr \<times> creds)) res" where
  "post_request rq =
     (if \<not> allowed_browser_origin (rq_headers rq) then Inr (Inl (MSG_ORIGIN, 403))
      else if get_content_type (rq_headers rq) \<noteq> lit ''application/x-www-form-urlencoded'' then Inr (Inl (MSG_FORM_TYPE, 415))
      else res_bind (content_length (rq_headers rq)) (\<lambda>n.
        if n < 1 \<or> n > MAX_REQUEST_BYTES then Inr (Inl (MSG_TOO_LARGE, 413))
        else res_bind (read_form rq n) (\<lambda>form.
          case form of Inl e \<Rightarrow> Inr (Inl e) | Inr kvs \<Rightarrow> Inr (form_fields kvs))))"

definition accept_post :: "webenv \<Rightarrow> creds \<Rightarrow> (web, unit) rio" where
  "accept_post g cr =
     r_bind (svc_enqueue_interactive (g_env g) (g_ot g) cr) (\<lambda>started.
     r_seq (web_event (EvEnqueue cr started))
    (r_seq (if \<not> started then reply_connecting g True 409 else reply_connecting g False 200)
    (r_seq (svc_start_queued_connection (g_ot g)) (web_event EvWake))))"

definition post_connect :: "webenv \<Rightarrow> request \<Rightarrow> (web, unit) rio" where
  "post_connect g rq =
     r_bind (r_lift (post_request rq)) (\<lambda>checked.
     case checked of
       Inl (message, status) \<Rightarrow> reject g message status
     | Inr (token, ssid, password) \<Rightarrow>
         r_bind (web_csrf g) (\<lambda>expected.
         r_bind (r_lift (compare_digest token expected)) (\<lambda>same.
         if \<not> same then reject g MSG_EXPIRED 403
         else r_bind (r_lift (validate_credentials ssid password)) (\<lambda>problem.
           case problem of
             Some m \<Rightarrow> if m \<noteq> [] then setup_error g m 200 else accept_post g (ssid, password)
           | None \<Rightarrow> accept_post g (ssid, password)))))"

definition do_POST :: "webenv \<Rightarrow> request \<Rightarrow> (web, unit) rio" where
  "do_POST g rq =
     r_bind (r_lift (urlsplit (g_netloc g) (rq_path rq))) (\<lambda>target.
     if sr_path target \<noteq> lit ''/connect'' \<or> sr_query target \<noteq> [] \<or> sr_fragment target \<noteq> [] then redirect_home g
     else post_connect g rq)"

section \<open>The trace of a request\<close>

text \<open>Events other than the hand-over of a credential and the wake-up.\<close>

fun plain :: "wevent \<Rightarrow> bool" where
  "plain (EvEnqueue _ _) = False"
| "plain EvWake = False"
| "plain _ = True"

lemma plain_ok: "plain (EvLog l)" "plain (EvHead n hs)" "plain (EvBody b)"
  by simp_all

definition answers :: "(web, 'a) rio \<Rightarrow> bool" where
  "answers m \<longleftrightarrow> (\<forall>w r w'. m w = (r, w') \<longrightarrow> (\<exists>evs. wb_events w' = evs @ wb_events w \<and> list_all plain evs))"

lemma answersE:
  assumes "answers m" and "m w = (r, w')"
  obtains evs where "wb_events w' = evs @ wb_events w" "list_all plain evs"
  using assms unfolding answers_def by blast

lemma turn_web [simp]:
  "wb_events (turn ot w) = wb_events w" "wb_csrf (turn ot w) = wb_csrf w" "wb_sends (turn ot w) = wb_sends w"
  by (simp_all add: turn_def split: prod.split)

lemma answers_same: "(\<And>w. wb_events (snd (m w)) = wb_events w) \<Longrightarrow> answers m"
  unfolding answers_def by (metis append_Nil list.pred_inject(1) snd_conv)

lemma on_web [simp]:
  "wb_events (snd (on_co ot f w)) = wb_events w" "wb_csrf (snd (on_co ot f w)) = wb_csrf w"
  "wb_events (snd (on_nm ot g w)) = wb_events w" "wb_events (snd (on_os ot h w)) = wb_events w"
  "wb_csrf (snd (on_os ot h w)) = wb_csrf w"
  by (simp_all add: on_co_def on_nm_def on_os_def Let_def split: prod.split)

lemma answers_basic:
  "answers (r_return x)" "answers (r_lift y)" "answers (on_co ot f)" "answers (on_nm ot g)" "answers (on_os ot h)" "answers (web_csrf c)"
  by (auto intro!: answers_same simp: r_return_def r_lift_def web_csrf_def Let_def split: prod.split sum.split)

lemma answers_emit: "plain ev \<Longrightarrow> answers (web_event ev)" "plain ev \<Longrightarrow> answers (web_write c ev)"
  by (auto simp: answers_def web_event_def web_write_def Let_def)

lemma answers_bind:
  assumes m: "answers m" and f: "\<And>x. answers (f x)"
  shows "answers (r_bind m f)"
  unfolding answers_def
proof (intro allI impI)
  fix w r w'
  assume "r_bind m f w = (r, w')"
  then show "\<exists>evs. wb_events w' = evs @ wb_events w \<and> list_all plain evs"
  proof (cases rule: r_bind_cases)
    case (1 x)
    then show ?thesis using m by (auto simp: answers_def)
  next
    case (2 x w1)
    obtain e1 where "wb_events w1 = e1 @ wb_events w" "list_all plain e1" using answersE [OF m 2(1)] .
    moreover obtain e2 where "wb_events w' = e2 @ wb_events w1" "list_all plain e2" using answersE [OF f 2(2)] .
    ultimately show ?thesis by (intro exI [of _ "e2 @ e1"]) simp
  qed
qed

lemma answers_seq: "answers m \<Longrightarrow> answers k \<Longrightarrow> answers (r_seq m k)"
  unfolding r_seq_def by (rule answers_bind)

lemma answers_split:
  "(c \<Longrightarrow> answers a) \<Longrightarrow> (\<not> c \<Longrightarrow> answers b) \<Longrightarrow> answers (if c then a else b)"
  "answers a \<Longrightarrow> (\<And>x. answers (f x)) \<Longrightarrow> answers (case opt of None \<Rightarrow> a | Some x \<Rightarrow> f x)"
  "(\<And>x y. answers (h x y)) \<Longrightarrow> answers (case p of (x, y) \<Rightarrow> h x y)"
  by (auto split: option.split prod.split)

lemmas answers_intros = answers_bind answers_seq answers_split answers_basic answers_emit

lemma answers_render: "answers (render_page g message success)"
  unfolding render_page_def by (intro answers_intros)

lemma answers_reply: "answers (reply g body status)" "answers (redirect_home g)" "answers (reply_connecting g other status)"
  unfolding reply_def redirect_home_def reply_connecting_def send_head_def by (intro answers_intros plain_ok)+

lemma answers_reject: "answers (setup_error g message status)" "answers (reject g message status)"
  unfolding reject_def setup_error_def by (intro answers_intros answers_render answers_reply plain_ok)+

lemma answers_status: "answers (reply_status g)"
  unfolding reply_status_def svc_connect_status_def send_head_def by (intro answers_intros plain_ok)

lemma answers_get: "answers (do_GET g rq)"
  unfolding do_GET_def get_setup_page_def svc_connect_status_def svc_consume_failure_def svc_reset_succeeded_def svc_mirror_def
  by (intro answers_intros answers_render answers_reply answers_status plain_ok)

text \<open>The coordinator only changed by what the other threads did.\<close>

definition leaves :: "others \<Rightarrow> (web, 'a) rio \<Rightarrow> bool" where
  "leaves ot m \<longleftrightarrow> (\<forall>w r w'. m w = (r, w') \<longrightarrow> (others_move ot)\<^sup>*\<^sup>* (w_co w) (w_co w'))"

lemma leaves_basic:
  "leaves ot (r_return x)" "leaves ot (r_lift y)" "leaves ot (on_nm ot g)" "leaves ot (on_os ot h)"
  "leaves ot (web_event ev)" "leaves ot (web_write c ev)" "g_ot c = ot \<Longrightarrow> leaves ot (web_csrf c)"
  using turn_moves [of ot]
  by (auto simp: leaves_def r_return_def r_lift_def on_nm_def on_os_def web_event_def web_write_def web_csrf_def Let_def
      split: prod.splits sum.splits if_splits)

lemma leavesD: "leaves ot m \<Longrightarrow> m w = (r, w') \<Longrightarrow> (others_move ot)\<^sup>*\<^sup>* (w_co w) (w_co w')"
  unfolding leaves_def by blast

lemma leaves_bind:
  assumes m: "leaves ot m" and f: "\<And>x. leaves ot (f x)"
  shows "leaves ot (r_bind m f)"
  unfolding leaves_def
proof (intro allI impI)
  fix w r w'
  assume "r_bind m f w = (r, w')"
  then show "(others_move ot)\<^sup>*\<^sup>* (w_co w) (w_co w')"
  proof (cases rule: r_bind_cases)
    case (1 x)
    then show ?thesis using leavesD [OF m 1(1)] by simp
  next
    case (2 x w1)
    show ?thesis by (rule rtranclp_trans [OF leavesD [OF m 2(1)] leavesD [OF f 2(2)]])
  qed
qed

lemma leaves_seq: "leaves ot m \<Longrightarrow> leaves ot k \<Longrightarrow> leaves ot (r_seq m k)"
  unfolding r_seq_def by (rule leaves_bind)

lemma leaves_if: "leaves ot a \<Longrightarrow> leaves ot b \<Longrightarrow> leaves ot (if c then a else b)"
  by simp

lemmas leaves_intros = leaves_bind leaves_seq leaves_if leaves_basic

lemma leaves_render: "leaves (g_ot g) (render_page g message success)"
  unfolding render_page_def by (intro leaves_intros refl)

lemma leaves_reply: "leaves ot (reply g body status)" "leaves ot (redirect_home g)"
  unfolding reply_def redirect_home_def send_head_def by (intro leaves_intros)+

lemma leaves_reject: "leaves (g_ot g) (setup_error g message status)" "leaves (g_ot g) (reject g message status)"
  unfolding reject_def setup_error_def by (intro leaves_intros leaves_render leaves_reply)+

text \<open>A request that hands nothing over: events of an answer only, the coordinator left to the others.\<close>

definition refuses :: "webenv \<Rightarrow> (web, 'a) rio \<Rightarrow> bool" where
  "refuses g m \<longleftrightarrow> answers m \<and> leaves (g_ot g) m"

lemma refuses_reject: "refuses g (reject g message status)" "refuses g (setup_error g message status)" "refuses g (redirect_home g)"
  by (simp_all add: refuses_def answers_reject answers_reply leaves_reject leaves_reply)

subsection \<open>Accepting a credential\<close>

definition still :: "(web, 'a) rio \<Rightarrow> bool" where
  "still m \<longleftrightarrow> (\<forall>w. wb_events (snd (m w)) = wb_events w \<and> wb_csrf (snd (m w)) = wb_csrf w)"

lemma stillD: "still m \<Longrightarrow> m w = (r, w') \<Longrightarrow> wb_events w' = wb_events w \<and> wb_csrf w' = wb_csrf w"
  by (metis still_def snd_conv)

lemma still_bind:
  assumes "still m" and "\<And>x. still (f x)"
  shows "still (r_bind m f)"
  unfolding still_def
proof
  fix w
  obtain r w' where e: "r_bind m f w = (r, w')" by fastforce
  then show "wb_events (snd (r_bind m f w)) = wb_events w \<and> wb_csrf (snd (r_bind m f w)) = wb_csrf w"
    by (cases rule: r_bind_cases) (use e stillD [OF assms(1)] stillD [OF assms(2)] in auto)
qed

lemma still_enqueue: "still (svc_enqueue_interactive e ot cr)" "still (svc_start_queued_connection ot)"
proof -
  have b: "still (on_co ot f)" "still (on_os ot h)" "still (r_return x)" for f :: "coord \<Rightarrow> 'b \<times> coord" and h :: "'c io" and x :: 'd
    by (simp_all add: still_def r_return_def)
  show "still (svc_enqueue_interactive e ot cr)"
    unfolding svc_enqueue_interactive_def svc_mirror_def r_seq_def
    by (intro still_bind b) (auto intro!: still_bind b)
  show "still (svc_start_queued_connection ot)" unfolding svc_start_queued_connection_def by (rule b)
qed

lemma reply_connecting_trace:
  assumes "reply_connecting g other status w = (r, w')"
  shows "wb_csrf w' = wb_csrf w"
    and "r = Inr () \<Longrightarrow> \<exists>body h. render_connecting_page other = Inr body \<and> script_csp_hash = Inr h
       \<and> wb_events w' = [EvBody body, EvHead status (html_headers (length body) (Some h)), EvLog LOG_REQUEST] @ wb_events w"
  using assms
  by (auto simp: reply_connecting_def send_head_def rio_defs web_event_def web_write_def Let_def
      split: sum.splits if_splits)

text \<open>The new events of a request that handed \<open>cr\<close> over, newest first: the answer is complete before the worker is woken.\<close>

definition accepted_trace :: "creds \<Rightarrow> unit res \<Rightarrow> wevent list \<Rightarrow> bool" where
  "accepted_trace cr r evs \<longleftrightarrow>
     (\<exists>started rest. evs = rest @ [EvEnqueue cr started]
        \<and> (if r = Inr () then
             (\<exists>body h. render_connecting_page (\<not> started) = Inr body \<and> script_csp_hash = Inr h
                \<and> rest = [EvWake, EvBody body,
                    EvHead (if started then 200 else 409) (html_headers (length body) (Some h)), EvLog LOG_REQUEST])
           else list_all plain rest))"

lemma connection_marker_total:
  assumes "\<not> wifi_test_mode e"
  shows "fst (set_connection_marker e b s) = Inr ()"
  using assms by (cases b; cases "files s CONNECTION_MARKER_FILE")
    (auto simp: set_connection_marker_def connection_marker_file_def io_defs swallow_OSError_def touch_def unlink_def
       set_files_def is_OSError_def)

lemma on_co_cases: obtains x v where "on_co ot f w = (Inr x, v)"
  by (cases "f (w_co (turn ot w))") (simp add: on_co_def Let_def)

lemma svc_mirror_total:
  assumes "\<not> wifi_test_mode e"
  obtains v where "svc_mirror e ot w = (Inr (), v)"
proof -
  obtain active w1 where 1: "on_co ot (\<lambda>c. (mirror_read c, c)) w = (Inr active, w1)" by (rule on_co_cases)
  obtain r s where 2: "set_connection_marker e active (w_os (turn ot w1)) = (r, s)" by fastforce
  have "r = Inr ()" using connection_marker_total [OF assms, of active "w_os (turn ot w1)"] 2 by simp
  then show ?thesis using that 1 2 by (simp add: svc_mirror_def r_bind_def on_os_def Let_def)
qed

lemma svc_enqueue_total:
  assumes "\<not> wifi_test_mode e" and "svc_enqueue_interactive e ot cr w = (u, w')"
  obtains started where "u = Inr started"
proof -
  obtain x w1 where 1: "on_co ot (\<lambda>c. ((), cancel_restore c)) w = (Inr x, w1)" by (rule on_co_cases)
  obtain started w2 where 2: "on_co ot (enqueue_locked cr) w1 = (Inr started, w2)" by (rule on_co_cases)
  obtain w3 where 3: "svc_mirror e ot w2 = (Inr (), w3)" using svc_mirror_total [OF assms(1)] .
  have "u = Inr started"
    using assms(2) 1 2 3 by (cases started) (simp_all add: svc_enqueue_interactive_def r_seq_def r_bind_def r_return_def)
  then show ?thesis by (rule that)
qed

text \<open>The world in which \<open>enqueue_interactive\<close> enters its lock: the other threads had two turns since it was called.\<close>

definition enqueue_world :: "others \<Rightarrow> web \<Rightarrow> web" where
  "enqueue_world ot w = turn ot (snd (on_co ot (\<lambda>c. ((), cancel_restore c)) w))"

lemma svc_enqueue_started:
  assumes "svc_enqueue_interactive e ot cr w = (Inr started, w')"
  shows "started \<longleftrightarrow> c_state (w_co (enqueue_world ot w)) = CONNECT_IDLE"
  using assms
  by (cases cr) (auto simp: svc_enqueue_interactive_def enqueue_world_def on_co_def r_seq_def r_bind_def r_return_def
      enqueue_locked_def Let_def split: sum.splits prod.splits if_splits)

lemma accept_post_trace:
  assumes "accept_post g cr w = (r, w')" and "\<not> wifi_test_mode (g_env g)"
  shows "\<exists>evs. wb_events w' = evs @ wb_events w \<and> wb_csrf w' = wb_csrf w \<and> accepted_trace cr r evs
    \<and> last evs = EvEnqueue cr (c_state (w_co (enqueue_world (g_ot g) w)) = CONNECT_IDLE)"
proof -
  obtain u w1 where q: "svc_enqueue_interactive (g_env g) (g_ot g) cr w = (u, w1)" by fastforce
  note s1 = stillD [OF still_enqueue(1) q]
  obtain started where u: "u = Inr started" using svc_enqueue_total [OF assms(2) q] .
  have i: "(c_state (w_co (enqueue_world (g_ot g) w)) = CONNECT_IDLE) = started"
    using svc_enqueue_started q u by blast
  let ?w2 = "w1\<lparr>wb_events := EvEnqueue cr started # wb_events w1\<rparr>"
  obtain v w3 where c: "reply_connecting g (\<not> started) (if started then 200 else 409) ?w2 = (v, w3)" by fastforce
  have step: "accept_post g cr w = (case v of Inl x \<Rightarrow> (Inl x, w3) | Inr _ \<Rightarrow>
      (case svc_start_queued_connection (g_ot g) w3 of (Inl x, w4) \<Rightarrow> (Inl x, w4)
       | (Inr _, w4) \<Rightarrow> (Inr (), w4\<lparr>wb_events := EvWake # wb_events w4\<rparr>)))"
    using q u c by (cases started) (auto simp: accept_post_def rio_defs web_event_def split: sum.splits prod.splits)
  note t = reply_connecting_trace [OF c]
  show ?thesis
  proof (cases v)
    case (Inl x)
    then have r: "r = Inl x" "w' = w3" using assms(1) step by auto
    obtain evs where "wb_events w3 = evs @ wb_events ?w2" "list_all plain evs" using answersE [OF answers_reply(3) c] .
    then show ?thesis using r s1 t(1) unfolding accepted_trace_def i by (intro exI [of _ "evs @ [EvEnqueue cr started]"]) auto
  next
    case (Inr y)
    then obtain body h where b: "render_connecting_page (\<not> started) = Inr body" "script_csp_hash = Inr h"
      "wb_events w3 = [EvBody body, EvHead (if started then 200 else 409) (html_headers (length body) (Some h)), EvLog LOG_REQUEST]
         @ wb_events ?w2" using t(2) by auto
    obtain w4 where w4: "svc_start_queued_connection (g_ot g) w3 = (Inr (), w4)"
      by (simp add: svc_start_queued_connection_def on_co_def Let_def)
    have r: "r = Inr ()" "w' = w4\<lparr>wb_events := EvWake # wb_events w4\<rparr>" using assms(1) step w4 Inr by auto
    show ?thesis
      unfolding accepted_trace_def i
      using r b s1 t(1) stillD [OF still_enqueue(2) w4]
      by (intro exI [of _ "[EvWake, EvBody body, EvHead (if started then 200 else 409) (html_headers (length body) (Some h)),
        EvLog LOG_REQUEST, EvEnqueue cr started]"]) auto
  qed
qed

lemma validate_message_nonempty: "validate_credentials ssid password = Inr (Some m) \<Longrightarrow> m \<noteq> []"
  by (auto simp: validate_credentials_def validate_ssid_def validate_password_shape_def Let_def MSG_SSID_INVALID_def
      MSG_SSID_CONTROL_def MSG_PASSWORD_CHARS_def MSG_PASSWORD_LENGTH_def res_bind_Inr_conv split: option.splits if_splits)

section \<open>Which requests are accepted\<close>

text \<open>A request that carries the form of the setup page with one valid credential.\<close>

definition post_valid :: "webenv \<Rightarrow> request \<Rightarrow> pystr \<Rightarrow> creds \<Rightarrow> bool" where
  "post_valid g rq token cr \<longleftrightarrow>
     (\<exists>target n body form.
        urlsplit (g_netloc g) (rq_path rq) = Inr target \<and> sr_path target = lit ''/connect''
        \<and> sr_query target = [] \<and> sr_fragment target = []
        \<and> allowed_browser_origin (rq_headers rq)
        \<and> get_content_type (rq_headers rq) = lit ''application/x-www-form-urlencoded''
        \<and> content_length (rq_headers rq) = Inr n \<and> 1 \<le> n \<and> n \<le> MAX_REQUEST_BYTES
        \<and> rq_read rq n = Inr body \<and> int (length body) = n
        \<and> res_bind (utf8_decode Strict body) (parse_qs 4) = Inr form
        \<and> form_get form (lit ''csrf'') = [token] \<and> form_get form (lit ''ssid'') = [fst cr]
        \<and> form_get form (lit ''password'') = [snd cr] \<and> creds_ok cr)"

lemma form_fields_ok:
  "form_fields form = Inr (token, cr) \<longleftrightarrow>
     form_get form (lit ''csrf'') = [token] \<and> form_get form (lit ''ssid'') = [fst cr] \<and> form_get form (lit ''password'') = [snd cr]"
  by (cases cr) (auto simp: form_fields_def split: list.splits)

lemma read_form_ok:
  "read_form rq n = Inr (Inr form) \<longleftrightarrow>
     (\<exists>body. rq_read rq n = Inr body \<and> int (length body) = n \<and> res_bind (utf8_decode Strict body) (parse_qs 4) = Inr form)"
  by (auto simp: read_form_def split: sum.splits if_splits)

lemma post_request_ok:
  assumes "post_request rq = Inr (Inr (token, cr))"
  obtains n form where "allowed_browser_origin (rq_headers rq)"
    "get_content_type (rq_headers rq) = lit ''application/x-www-form-urlencoded''"
    "content_length (rq_headers rq) = Inr n" "1 \<le> n" "n \<le> MAX_REQUEST_BYTES"
    "read_form rq n = Inr (Inr form)" "form_fields form = Inr (token, cr)"
proof -
  have o: "allowed_browser_origin (rq_headers rq)"
    and t: "get_content_type (rq_headers rq) = lit ''application/x-www-form-urlencoded''"
    using assms by (auto simp: post_request_def split: if_splits)
  from assms o t obtain n where n: "content_length (rq_headers rq) = Inr n" "1 \<le> n" "n \<le> MAX_REQUEST_BYTES"
    and f: "res_bind (read_form rq n) (\<lambda>form. case form of Inl e \<Rightarrow> Inr (Inl e) | Inr kvs \<Rightarrow> Inr (form_fields kvs)) = Inr (Inr (token, cr))"
    by (auto simp: post_request_def res_bind_Inr_conv split: if_splits)
  from f obtain p where p: "read_form rq n = Inr p"
    "(case p of Inl e \<Rightarrow> Inr (Inl e) | Inr kvs \<Rightarrow> Inr (form_fields kvs)) = (Inr (Inr (token, cr)) :: ((pystr \<times> int) + (pystr \<times> creds)) res)"
    unfolding res_bind_Inr_conv by blast
  then obtain form where "read_form rq n = Inr (Inr form)" "form_fields form = Inr (token, cr)" by (cases p) auto
  with o t n that show ?thesis by blast
qed

lemma web_csrf_cached: "web_csrf g w = (Inr token, w') \<Longrightarrow> wb_csrf w' = Some token \<and> wb_events w' = wb_events w"
  by (auto simp: web_csrf_def csrf_token_def io_defs Let_def split: prod.splits sum.splits option.splits)

lemma refuses_lift: "refuses g (r_lift x)"
  by (simp add: refuses_def answers_basic leaves_basic)

lemma refuses_csrf: "refuses g (web_csrf g)"
  by (simp add: refuses_def answers_basic leaves_basic)

lemma refuses_bind: "refuses g m \<Longrightarrow> (\<And>x. refuses g (f x)) \<Longrightarrow> refuses g (r_bind m f)"
  unfolding refuses_def using answers_bind leaves_bind by blast

text \<open>The outcome of a POST, as a relation on the handler's worlds.\<close>

definition refused :: "webenv \<Rightarrow> web \<Rightarrow> web \<Rightarrow> bool" where
  "refused g w w' \<longleftrightarrow>
     (\<exists>evs. wb_events w' = evs @ wb_events w \<and> list_all plain evs) \<and> (others_move (g_ot g))\<^sup>*\<^sup>* (w_co w) (w_co w')"

lemma refusesD: "refuses g m \<Longrightarrow> m w = (r, w') \<Longrightarrow> refused g w w'"
  unfolding refuses_def refused_def answers_def leaves_def by blast

lemma refused_trans:
  assumes "refused g w w1" and "refused g w1 w2"
  shows "refused g w w2"
proof -
  obtain e1 e2 where "wb_events w1 = e1 @ wb_events w" "list_all plain e1" "wb_events w2 = e2 @ wb_events w1" "list_all plain e2"
    using assms unfolding refused_def by blast
  then have "\<exists>evs. wb_events w2 = evs @ wb_events w \<and> list_all plain evs" by (intro exI [of _ "e2 @ e1"]) simp
  then show ?thesis using assms unfolding refused_def by (meson rtranclp_trans)
qed

lemma refused_refl: "refused g w w"
  by (simp add: refused_def)

definition post_outcome :: "webenv \<Rightarrow> request \<Rightarrow> web \<Rightarrow> unit res \<Rightarrow> web \<Rightarrow> bool" where
  "post_outcome g rq w r w' \<longleftrightarrow>
     refused g w w'
     \<or> (\<exists>token cr evs. post_valid g rq token cr \<and> wb_csrf w' = Some token
          \<and> wb_events w' = evs @ wb_events w \<and> accepted_trace cr r evs)"

lemma post_connect_outcome:
  assumes e: "post_connect g rq w = (r, w')" and t: "\<not> wifi_test_mode (g_env g)"
    and u: "urlsplit (g_netloc g) (rq_path rq) = Inr target" "sr_path target = lit ''/connect''"
      "sr_query target = []" "sr_fragment target = []"
  shows "post_outcome g rq w r w'"
proof (cases "\<exists>token cr. post_request rq = Inr (Inr (token, cr))")
  case False
  have "refused g w w'"
  proof (cases "post_request rq")
    case (Inl x)
    then show ?thesis using e by (simp add: post_connect_def rio_defs refused_refl)
  next
    case (Inr p)
    with False obtain message status where "p = Inl (message, status)" by (cases p) auto
    then have "reject g message status w = (r, w')" using e Inr by (simp add: post_connect_def rio_defs)
    then show ?thesis by (rule refusesD [OF refuses_reject(1)])
  qed
  then show ?thesis by (simp add: post_outcome_def)
next
  case True
  then obtain token ssid password where p: "post_request rq = Inr (Inr (token, ssid, password))" by auto
  have k: "r_bind (web_csrf g) (\<lambda>expected.
         r_bind (r_lift (compare_digest token expected)) (\<lambda>same.
         if \<not> same then reject g MSG_EXPIRED 403
         else r_bind (r_lift (validate_credentials ssid password)) (\<lambda>problem.
           case problem of
             Some m \<Rightarrow> if m \<noteq> [] then setup_error g m 200 else accept_post g (ssid, password)
           | None \<Rightarrow> accept_post g (ssid, password)))) w = (r, w')"
    using e p by (simp add: post_connect_def r_lift_def r_bind_def)
  from k show ?thesis
  proof (cases rule: r_bind_cases)
    case (1 x)
    then show ?thesis using refusesD [OF refuses_csrf 1(1)] by (simp add: post_outcome_def)
  next
    case c: (2 expected w1)
    note s = refusesD [OF refuses_csrf c(1)]
    show ?thesis
    proof (cases "compare_digest token expected = Inr True \<and> validate_credentials ssid password = Inr None")
      case False
      then have "refused g w1 w'"
        using c(2) validate_message_nonempty [of ssid password]
          refusesD [OF refuses_reject(1), of g MSG_EXPIRED 403 w1 r w'] refusesD [OF refuses_reject(2), of g _ 200 w1 r w']
        by (auto simp: rio_defs refused_refl split: sum.splits if_splits option.splits)
      with s show ?thesis using refused_trans by (auto simp: post_outcome_def)
    next
      case True
      then have tok: "token = expected" by (auto simp: compare_digest_def split: if_splits)
      have a: "accept_post g (ssid, password) w1 = (r, w')" using c(2) True by (simp add: rio_defs)
      note csrf = web_csrf_cached [OF c(1)]
      have "creds_ok (ssid, password)" using True validate_credentials_ok by simp
      then have "post_valid g rq token (ssid, password)"
        using post_request_ok [OF p] u unfolding post_valid_def form_fields_ok read_form_ok by (metis fst_conv snd_conv)
      then show ?thesis
        using accept_post_trace [OF a t] csrf tok unfolding post_outcome_def by metis
    qed
  qed
qed

text \<open>
  C7. A POST hands a credential to the coordinator only if every check passed: the exact path, the
  browser's origin, the form type, a length between 1 and 8192 that the body has, a readable form with
  the service's own CSRF token and one valid credential. Then the answer is complete before the worker is woken
  (and without a complete answer it is not). Otherwise the coordinator is left to the other threads.
\<close>

theorem post_guarded:
  assumes "do_POST g rq w = (r, w')" and "\<not> wifi_test_mode (g_env g)"
  shows "post_outcome g rq w r w'"
proof (cases "\<exists>target. urlsplit (g_netloc g) (rq_path rq) = Inr target \<and> sr_path target = lit ''/connect''
    \<and> sr_query target = [] \<and> sr_fragment target = []")
  case True
  then obtain target where u: "urlsplit (g_netloc g) (rq_path rq) = Inr target" "sr_path target = lit ''/connect''"
    "sr_query target = []" "sr_fragment target = []" by blast
  then have "post_connect g rq w = (r, w')" using assms(1) by (simp add: do_POST_def rio_defs)
  then show ?thesis by (rule post_connect_outcome [OF _ assms(2) u])
next
  case False
  then have "refused g w w'"
    using assms(1) refusesD [OF refuses_reject(3), of g w r w']
    by (cases "urlsplit (g_netloc g) (rq_path rq)") (auto simp: do_POST_def rio_defs refused_refl split: if_splits)
  then show ?thesis by (simp add: post_outcome_def)
qed

section \<open>The setup form is accepted\<close>

lemma no_surrogate_parts:
  "no_surrogate (a @ b) \<longleftrightarrow> no_surrogate a \<and> no_surrogate b" "no_surrogate []"
  "no_surrogate (c # a) \<longleftrightarrow> \<not> is_surrogate c \<and> no_surrogate a" "no_surrogate (lit t)"
proof -
  have "\<not> is_surrogate (of_char c)" for c
    by (cases c) (auto simp: is_surrogate_def of_char_Char split: if_splits)
  then show "no_surrogate (lit t)" by (induction t) (simp_all add: no_surrogate_def lit_def)
qed (simp_all add: no_surrogate_def)

lemma connecting_text_encodes: "\<exists>b. render_connecting_page other = Inr b" "\<exists>h. script_csp_hash = Inr h"
proof -
  have "no_surrogate CONNECTING_SCRIPT" "no_surrogate CONN_TOP" "no_surrogate CONN_NOTES" "no_surrogate CONN_END"
    "no_surrogate NOTICE_BUSY" "no_surrogate NOTICE_WORKING"
    unfolding CONNECTING_SCRIPT_def CONN_TOP_def CONN_NOTES_def CONN_END_def NOTICE_BUSY_def NOTICE_WORKING_def
    by (simp_all only: no_surrogate_parts) (simp_all add: is_surrogate_def)
  then show "\<exists>b. render_connecting_page other = Inr b" "\<exists>h. script_csp_hash = Inr h"
    by (simp_all add: render_connecting_page_def script_csp_hash_def utf8_encode_cases connecting_text_def no_surrogate_parts)
qed

lemma reply_connecting_ok:
  assumes "\<And>n. g_send g n"
  obtains v where "reply_connecting g other status w = (Inr (), v)"
proof -
  obtain b where b: "render_connecting_page other = Inr b" using connecting_text_encodes(1) by blast
  obtain h where h: "script_csp_hash = Inr h" using connecting_text_encodes(2) by blast
  have "fst (reply_connecting g other status w) = Inr ()"
    unfolding reply_connecting_def b h by (simp add: send_head_def rio_defs web_event_def web_write_def assms Let_def)
  then show ?thesis using that by (metis prod.collapse)
qed

lemma accept_post_ok:
  assumes "\<And>n. g_send g n" and "\<not> wifi_test_mode (g_env g)"
  shows "fst (accept_post g cr w) = Inr ()"
proof -
  obtain u w1 where q: "svc_enqueue_interactive (g_env g) (g_ot g) cr w = (u, w1)" by fastforce
  obtain started where u: "u = Inr started" using svc_enqueue_total [OF assms(2) q] .
  let ?w2 = "w1\<lparr>wb_events := EvEnqueue cr started # wb_events w1\<rparr>"
  obtain w3 where c: "reply_connecting g (\<not> started) (if started then 200 else 409) ?w2 = (Inr (), w3)"
    using reply_connecting_ok [OF assms(1)] .
  obtain x w4 where k: "on_co (g_ot g) (\<lambda>c. ((), start_after_response c)) w3 = (Inr x, w4)" by (rule on_co_cases)
  show ?thesis
    using q u c k by (cases started) (simp_all add: accept_post_def rio_defs web_event_def svc_start_queued_connection_def)
qed

lemma length_form_quote: "length (form_quote s) \<le> 3 * length (utf8_ints s)"
proof -
  have "length (concat (map form_byte bs)) \<le> 3 * length bs" for bs
    by (induction bs) (auto simp: form_byte_def)
  then show ?thesis by (simp add: form_quote_def)
qed

text \<open>The body a browser sends for the page's form.\<close>

definition setup_form :: "pystr \<Rightarrow> creds \<Rightarrow> (pystr \<times> pystr) list" where
  "setup_form token cr = [(lit ''csrf'', token), (lit ''ssid'', fst cr), (lit ''password'', snd cr)]"

definition form_body :: "pystr \<Rightarrow> creds \<Rightarrow> bytes" where
  "form_body token cr = bytes_of (form_encode (setup_form token cr))"

lemma form_encode_setup:
  "form_encode (setup_form token cr) =
     form_quote (lit ''csrf'') @ [61] @ form_quote token @ [38] @ form_quote (lit ''ssid'') @ [61] @ form_quote (fst cr)
     @ [38] @ form_quote (lit ''password'') @ [61] @ form_quote (snd cr)"
  by (simp add: form_encode_def setup_form_def)

lemma token_ok_facts:
  assumes "token_text_ok token"
  shows "py_isascii token" "encodable token" "length (utf8_ints token) \<le> 128"
proof -
  show a: "py_isascii token"
    using assms by (auto simp: token_text_ok_def py_isascii_def list_all_iff dest!: bspec token_char_facts)
  show "encodable token" by (rule py_isascii_encodable [OF a]) 
  show "length (utf8_ints token) \<le> 128" using assms utf8_ints_ascii [OF a] by (simp add: token_text_ok_def)
qed

lemma form_small:
  assumes "token_text_ok token" and "creds_ok cr"
  shows "length (form_encode (setup_form token cr)) \<le> 1000"
proof -
  have p: "length (utf8_ints (snd cr)) \<le> 64"
    using assms(2) by (cases cr) (auto simp: creds_ok_def utf8_ints_def [of "[]"] dest: psk_ok_length)
  have s: "length (utf8_ints (fst cr)) \<le> 32" using assms(2) by (cases cr) (auto simp: creds_ok_def ssid_ok_def)
  have k: "length (utf8_ints (lit ''csrf'')) = 4" "length (utf8_ints (lit ''ssid'')) = 4" "length (utf8_ints (lit ''password'')) = 8"
    by code_simp+
  show ?thesis
    using length_form_quote [of token] length_form_quote [of "fst cr"] length_form_quote [of "snd cr"]
      length_form_quote [of "lit ''csrf''"] length_form_quote [of "lit ''ssid''"] length_form_quote [of "lit ''password''"]
      p s k token_ok_facts(3) [OF assms(1)]
    unfolding form_encode_setup by simp
qed

lemma form_body_read:
  assumes "token_text_ok token" and "creds_ok cr" and "\<forall>c \<in> set (fst cr) \<union> set (snd cr). valid_cp c"
  shows "res_bind (utf8_decode Strict (form_body token cr)) (parse_qs 4) = Inr (setup_form token cr)"
    and "length (form_body token cr) = length (form_encode (setup_form token cr))"
proof -
  have e: "encodable token" "encodable (fst cr)" "encodable (snd cr)"
    using token_ok_facts(2) [OF assms(1)] creds_ok_encodable [of "fst cr" "snd cr"] assms(2,3) by auto
  have k: "encodable (lit ''csrf'')" "encodable (lit ''ssid'')" "encodable (lit ''password'')" by code_simp+
  have "list_all form_char (form_quote s)" if "encodable s" for s using form_quote_chars [OF that] .
  then have "list_all (\<lambda>c. 0 \<le> c \<and> c < 128) (form_quote s)" if "encodable s" for s
    using that by (fastforce simp: list_all_iff form_char_def)
  then have a: "py_isascii (form_encode (setup_form token cr))"
    using e k unfolding form_encode_setup py_isascii_def by simp
  have "utf8_decode Strict (form_body token cr) = Inr (form_encode (setup_form token cr))"
    using utf8_decode_ints_roundtrip [OF py_isascii_encodable [OF a], of Strict] utf8_ints_ascii [OF a]
      utf8_ints_byte_values [OF py_isascii_encodable [OF a]]
    by (simp add: utf8_decode_def form_body_def ints_of_bytes_of)
  moreover have "parse_qs 4 (form_encode (setup_form token cr)) = Inr (setup_form token cr)"
    by (rule parse_qs_form) (use e k in \<open>auto simp: setup_form_def\<close>)
  ultimately show "res_bind (utf8_decode Strict (form_body token cr)) (parse_qs 4) = Inr (setup_form token cr)" by simp
  show "length (form_body token cr) = length (form_encode (setup_form token cr))" by (simp add: form_body_def)
qed

lemma py_int_small: "0 \<le> n \<Longrightarrow> n \<le> 1000 \<Longrightarrow> py_int (show_pos n) = Inr n"
  using length_show_pos [of n 3] by (intro py_int_show_pos) (simp_all add: max_str_digits_def)

text \<open>The request a browser on the setup page makes.\<close>

definition browser_post :: "pystr \<Rightarrow> creds \<Rightarrow> request" where
  "browser_post token cr = \<lparr>
     rq_path = lit ''/connect'',
     rq_headers = [(lit ''Host'', HOST_PORT), (lit ''Origin'', ORIGIN),
       (lit ''Content-Type'', lit ''application/x-www-form-urlencoded''),
       (lit ''Content-Length'', show_int (int (length (form_body token cr))))],
     rq_read = (\<lambda>n. Inr (take (nat n) (form_body token cr)))\<rparr>"

lemma browser_post_request:
  assumes "token_text_ok token" and "creds_ok cr" and "\<forall>c \<in> set (fst cr) \<union> set (snd cr). valid_cp c"
  shows "post_request (browser_post token cr) = Inr (Inr (token, cr))"
proof -
  let ?n = "int (length (form_body token cr))"
  note b = form_body_read [OF assms]
  have len: "1 \<le> ?n" "?n \<le> 1000"
    using form_small [OF assms(1,2)] b(2) unfolding form_encode_setup by simp_all
  have o: "allowed_browser_origin (rq_headers (browser_post token cr))"
    by (simp add: allowed_browser_origin_def browser_post_def header_get_def ascii_lower_def lit_def)
  have t: "get_content_type (rq_headers (browser_post token cr)) = lit ''application/x-www-form-urlencoded''"
    by (simp add: get_content_type_def browser_post_def header_get_def ascii_lower_def lit_def partition_at_def py_strip_def py_isspace_def)
  have "header_get (rq_headers (browser_post token cr)) (lit ''Content-Length'') = Some (show_int ?n)"
    by (simp add: browser_post_def header_get_def ascii_lower_def lit_def)
  then have c: "content_length (rq_headers (browser_post token cr)) = Inr ?n"
    using len by (simp add: content_length_def show_int_def py_int_small)
  have r: "read_form (browser_post token cr) ?n = Inr (Inr (setup_form token cr))"
    unfolding read_form_ok by (intro exI [of _ "form_body token cr"]) (simp add: browser_post_def b(1))
  have f: "form_fields (setup_form token cr) = Inr (token, cr)"
    unfolding form_fields_ok by (simp add: setup_form_def form_get_def)
  show ?thesis using o t c r f len by (auto simp: post_request_def MAX_REQUEST_BYTES_def)
qed

lemma urlsplit_connect:
  "urlsplit ok (lit ''/connect'')
     = Inr \<lparr>sr_scheme = [], sr_netloc = [], sr_path = lit ''/connect'', sr_query = [], sr_fragment = []\<rparr>"
  by (simp add: urlsplit_def split_scheme_def split_netloc_def partition_at_def netloc_ok_def py_isascii_def lit_def)

text \<open>
  C8. The form of the setup page is accepted. In production, with the coordinator idle when the request
  reaches it and every write to the browser succeeding: the form, submitted by the browser with the service's
  token and a valid credential, is handed to the coordinator exactly as typed (whatever characters the name and
  the password have) and starts an attempt; it is answered with 200 and the page that waits for the outcome,
  whose policy admits its script; and only then, as the last thing the request does, the worker is woken.
\<close>

theorem post_roundtrip:
  assumes "wb_csrf w = Some token" and "token_text_ok token" and "creds_ok cr"
    and "\<forall>c \<in> set (fst cr) \<union> set (snd cr). valid_cp c"
    and "\<And>n. g_send g n" and "\<not> wifi_test_mode (g_env g)"
    and "c_state (w_co (enqueue_world (g_ot g) (turn (g_ot g) w))) = CONNECT_IDLE"
  shows "\<exists>w' body h. do_POST g (browser_post token cr) w = (Inr (), w')
    \<and> render_connecting_page False = Inr body \<and> script_csp_hash = Inr h
    \<and> wb_events w' = [EvWake, EvBody body, EvHead 200 (html_headers (length body) (Some h)), EvLog LOG_REQUEST,
         EvEnqueue cr True] @ wb_events w"
proof -
  obtain ssid password where cr: "cr = (ssid, password)" by (cases cr)
  have v: "validate_credentials ssid password = Inr None" using assms(3) cr validate_credentials_ok by simp
  have csrf: "web_csrf g w = (Inr token, turn (g_ot g) w)"
    using assms(1) by (simp add: web_csrf_def csrf_token_def io_defs Let_def)
  have d: "compare_digest token token = Inr True" using token_ok_facts(1) [OF assms(2)] by (simp add: compare_digest_def)
  have p: "post_request (browser_post token cr) = Inr (Inr (token, ssid, password))"
    using browser_post_request [OF assms(2-4)] cr by simp
  have "post_connect g (browser_post token cr) w = accept_post g (ssid, password) (turn (g_ot g) w)"
    using p csrf d v by (simp add: post_connect_def rio_defs)
  then have e: "do_POST g (browser_post token cr) w = accept_post g cr (turn (g_ot g) w)"
    using cr urlsplit_connect by (simp add: do_POST_def rio_defs browser_post_def)
  obtain w' where a: "accept_post g cr (turn (g_ot g) w) = (Inr (), w')"
    using accept_post_ok [OF assms(5,6)] by (metis prod.collapse)
  obtain evs where t: "wb_events w' = evs @ wb_events w" "accepted_trace cr (Inr ()) evs" "last evs = EvEnqueue cr True"
    using accept_post_trace [OF a assms(6)] assms(7) by auto
  from t(2,3) obtain body h where "render_connecting_page False = Inr body" "script_csp_hash = Inr h"
    "evs = [EvWake, EvBody body, EvHead 200 (html_headers (length body) (Some h)), EvLog LOG_REQUEST, EvEnqueue cr True]"
    by (auto simp: accepted_trace_def)
  then show ?thesis using e a t(1) by auto
qed

section \<open>Reading pages\<close>

text \<open>
  C10. The status document is read-only and secret-free: it is the JSON object of the coordinator's public state
  and message, nothing else, and the request changes neither the coordinator nor anything of the adapter.
\<close>

theorem status_exact:
  assumes "urlsplit (g_netloc g) (rq_path rq) = Inr target" and "sr_path target = lit ''/status.json''"
    and "do_GET g rq w = (Inr (), w')" and "encodable (c_message (w_co (turn (g_ot g) w)))"
  shows "w_co w' = w_co (turn (g_ot g) w) \<and> w_nm w' = w_nm (turn (g_ot g) w)
    \<and> (\<exists>body tx. wb_events w' = [EvBody body, EvHead 200 (status_headers (length body)), EvLog LOG_REQUEST] @ wb_events w
         \<and> utf8_decode Strict body = Inr tx
         \<and> json_loads tx = Inr (JObj [(lit ''state'', JStr (state_name (c_state (w_co (turn (g_ot g) w))))),
             (lit ''message'', JStr (c_message (w_co (turn (g_ot g) w))))]))"
proof -
  let ?c = "w_co (turn (g_ot g) w)"
  let ?items = "[(lit ''state'', SStr (state_name (c_state ?c))), (lit ''message'', SStr (c_message ?c))]"
  have sv: "encodable (state_name st)" for st
    by (cases st) (simp_all add: encodable_def valid_cp_def is_surrogate_def lit_def)
  have k: "encodable (lit ''state'')" "encodable (lit ''message'')" by code_simp+
  have ok: "items_ok ?items" using assms(4) sv k by (simp add: items_ok_def)
  have tx: "encodable (status_json (c_state ?c) (c_message ?c))"
    unfolding status_json_def by (rule visible_encodable [OF visible_json_dumps [OF ok]])
  have r: "reply_status g w = (Inr (), w')" using assms(1-3) by (simp add: do_GET_def rio_defs)
  let ?b = "bytes_of (utf8_ints (status_json (c_state ?c) (c_message ?c)))"
  have enc: "utf8_encode (status_json (c_state ?c) (c_message ?c)) = Inr ?b"
    using encodable_no_surrogate [OF tx] by (simp add: utf8_encode_cases no_surrogate_def)
  have dec: "utf8_decode Strict ?b = Inr (status_json (c_state ?c) (c_message ?c))"
    by (rule utf8_roundtrip [OF tx])
  have js: "json_loads (status_json (c_state ?c) (c_message ?c)) = Inr (JObj (of_items ?items))"
    unfolding status_json_def using json_loads_dumps [OF ok] by simp
  have "w_co w' = ?c \<and> w_nm w' = w_nm (turn (g_ot g) w)
      \<and> wb_events w' = [EvBody ?b, EvHead 200 (status_headers (length ?b)), EvLog LOG_REQUEST] @ wb_events w"
    using r enc by (auto simp: reply_status_def svc_connect_status_def connect_status_def on_co_def send_head_def rio_defs
        web_event_def web_write_def Let_def split: if_splits)
  then show ?thesis using dec js by (auto simp: of_items_def)
qed

text \<open>
  While an attempt runs, the setup page neither scans nor shows the form: the request leaves the adapter, the
  file system and the coordinator to the other threads and answers with the connecting page, whose policy
  admits exactly the script it carries.
\<close>

theorem get_while_connecting:
  assumes "urlsplit (g_netloc g) (rq_path rq) = Inr target" and "sr_path target = lit ''/'' \<or> sr_path target = lit ''/rescan''"
    and "c_state (w_co (turn (g_ot g) w)) = CONNECT_WORKING" and "\<And>n. g_send g n"
  shows "\<exists>w' body h. do_GET g rq w = (Inr (), w')
    \<and> w_nm w' = w_nm (turn (g_ot g) w) \<and> w_os w' = w_os (turn (g_ot g) w) \<and> w_co w' = w_co (turn (g_ot g) w)
    \<and> wb_events w' = [EvBody body, EvHead 200 (html_headers (length body) (Some h)), EvLog LOG_REQUEST] @ wb_events w
    \<and> body = bytes_of (utf8_ints (CONN_TOP @ NOTICE_WORKING @ CONN_NOTES @ CONNECTING_SCRIPT @ CONN_END))
    \<and> h = b64encode (sha256 (bytes_of (utf8_ints CONNECTING_SCRIPT)))"
proof -
  let ?w1 = "turn (g_ot g) w"
  have p: "sr_path target \<noteq> lit ''/status.json''" "sr_path target \<in> {lit ''/'', lit ''/rescan''}" using assms(2) by auto
  have "do_GET g rq w = get_setup_page g w" using assms(1) p by (simp add: do_GET_def rio_defs)
  also have "\<dots> = reply_connecting g False 200 ?w1"
    using assms(3) by (simp add: get_setup_page_def svc_connect_status_def on_co_def connect_status_def rio_defs Let_def)
  finally have d: "do_GET g rq w = reply_connecting g False 200 ?w1" .
  obtain w' where r: "reply_connecting g False 200 ?w1 = (Inr (), w')" using reply_connecting_ok [OF assms(4)] .
  obtain body h where b: "render_connecting_page False = Inr body" "script_csp_hash = Inr h"
    "wb_events w' = [EvBody body, EvHead 200 (html_headers (length body) (Some h)), EvLog LOG_REQUEST] @ wb_events ?w1"
    using reply_connecting_trace(2) [OF r] by auto
  have body: "body = bytes_of (utf8_ints (CONN_TOP @ NOTICE_WORKING @ CONN_NOTES @ CONNECTING_SCRIPT @ CONN_END))"
    and h: "h = b64encode (sha256 (bytes_of (utf8_ints CONNECTING_SCRIPT)))"
    using b(1,2) by (auto simp: render_connecting_page_def connecting_text_def script_csp_hash_def utf8_encode_cases split: if_splits)
  have s: "w_nm w' = w_nm ?w1" "w_os w' = w_os ?w1" "w_co w' = w_co ?w1"
    using r by (auto simp: reply_connecting_def send_head_def rio_defs web_event_def web_write_def Let_def
        split: sum.splits if_splits)
  show ?thesis using d r b(3) body h s by (intro exI [of _ w'] exI [of _ body] exI [of _ h]) simp
qed

section \<open>Two ways a request goes astray\<close>

text \<open>
  The response is written before the worker is woken, so a browser that goes away in between leaves an
  accepted credential that nobody runs: the state says \<open>connecting\<close> and the wake-up event is not set.
\<close>

definition quiet_env :: "(nat \<Rightarrow> bool) \<Rightarrow> webenv" where
  "quiet_env send = \<lparr>g_env = prod_env, g_nm = sample_nm [], g_ot = idle_others, g_sfx = [55], g_fresh = [],
     g_send = send, g_netloc = (\<lambda>_. True)\<rparr>"

definition sample_token :: pystr where
  "sample_token = lit ''0123456789abcdef0123456789abcdef''"

definition sample_web :: web where
  "sample_web = \<lparr>w_co = coord_init, w_nm = nmst_init, w_os = os_of [], w_now = 0, w_tick = 0,
     wb_csrf = Some sample_token, wb_events = [], wb_sends = 0\<rparr>"

lemma turn_idle: "w_co (turn idle_others w) = w_co w"
  by (simp add: turn_def idle_others_def)

lemma on_co_idle: "on_co idle_others f w = (Inr x, v) \<Longrightarrow> x = fst (f (w_co w)) \<and> w_co v = snd (f (w_co w))"
  by (auto simp: on_co_def Let_def turn_idle split: prod.splits)

lemma mirror_idle: "svc_mirror e idle_others w = (r, v) \<Longrightarrow> w_co v = w_co w"
  by (auto simp: svc_mirror_def r_bind_def on_co_def on_os_def Let_def turn_idle split: prod.splits)

lemma reply_failure_strands:
  assumes "accept_post (quiet_env (\<lambda>_. False)) cr sample_web = (r, w')"
  shows "r = Inl OSError \<and> c_state (w_co w') = CONNECT_WORKING \<and> c_pending (w_co w') = Some cr \<and> \<not> c_event (w_co w')"
proof -
  obtain b where b: "render_connecting_page False = Inr b" using connecting_text_encodes(1) by blast
  obtain h where h: "script_csp_hash = Inr h" using connecting_text_encodes(2) by blast
  have t: "\<not> wifi_test_mode prod_env" by (simp add: wifi_test_mode_def prod_env_def)
  obtain x w1 where 1: "on_co idle_others (\<lambda>c. ((), cancel_restore c)) sample_web = (Inr x, w1)" by (rule on_co_cases)
  have c1: "w_co w1 = coord_init\<lparr>c_cancelled := True\<rparr>"
    using on_co_idle [OF 1] by (simp add: sample_web_def cancel_restore_def)
  obtain started w2 where 2: "on_co idle_others (enqueue_locked cr) w1 = (Inr started, w2)" by (rule on_co_cases)
  have c2: "started" "c_state (w_co w2) = CONNECT_WORKING" "c_pending (w_co w2) = Some cr" "\<not> c_event (w_co w2)"
    using on_co_idle [OF 2] c1 by (auto simp: enqueue_locked_def coord_init_def)
  obtain v where 3: "svc_mirror prod_env idle_others w2 = (Inr (), v)" using svc_mirror_total [OF t] .
  have q: "svc_enqueue_interactive prod_env idle_others cr sample_web = (Inr True, v)"
    using 1 2 3 c2(1) by (simp add: svc_enqueue_interactive_def r_seq_def r_bind_def r_return_def)
  have c: "c_state (w_co v) = CONNECT_WORKING" "c_pending (w_co v) = Some cr" "\<not> c_event (w_co v)"
    using c2 mirror_idle [OF 3] by simp_all
  have "reply_connecting (quiet_env (\<lambda>_. False)) False 200 w = (Inl OSError, w\<lparr>wb_events := EvLog LOG_REQUEST # wb_events w,
      wb_sends := Suc (wb_sends w)\<rparr>)" for w
    unfolding reply_connecting_def b h by (simp add: send_head_def rio_defs web_event_def web_write_def Let_def quiet_env_def)
  then show ?thesis
    using assms q c by (auto simp: accept_post_def rio_defs web_event_def quiet_env_def)
qed

text \<open>A token field that is not ASCII makes the comparison raise, and the request has no answer.\<close>

lemma foreign_token_raises:
  assumes "post_request rq = Inr (Inr (token, ssid, password))" and "\<not> py_isascii token" and "wb_csrf w = Some expected"
  shows "post_connect g rq w = (Inl TypeError, turn (g_ot g) w)"
  using assms by (simp add: post_connect_def rio_defs web_csrf_def csrf_token_def io_defs compare_digest_def Let_def)

section \<open>Witnesses\<close>

lemma sample_token_ok: "token_text_ok sample_token" "creds_ok (lit ''cafe'', lit ''password1'')"
  "list_all valid_cp (lit ''cafe'' @ lit ''password1'')"
  by code_simp+

lemma prod_not_test: "\<not> wifi_test_mode (g_env (quiet_env send))"
  by (simp add: quiet_env_def wifi_test_mode_def prod_env_def)

theorem post_roundtrip_witness:
  "\<exists>w' body h. do_POST (quiet_env (\<lambda>_. True)) (browser_post sample_token (lit ''cafe'', lit ''password1'')) sample_web = (Inr (), w')
     \<and> wb_events w' = [EvWake, EvBody body, EvHead 200 (html_headers (length body) (Some h)), EvLog LOG_REQUEST,
          EvEnqueue (lit ''cafe'', lit ''password1'') True]"
proof -
  have "c_state (w_co (enqueue_world idle_others (turn idle_others sample_web))) = CONNECT_IDLE"
    by (simp add: enqueue_world_def on_co_def Let_def turn_idle sample_web_def cancel_restore_def coord_init_def)
  then show ?thesis
    using post_roundtrip [of sample_web sample_token "(lit ''cafe'', lit ''password1'')" "quiet_env (\<lambda>_. True)"]
      sample_token_ok prod_not_test
    by (auto simp: sample_web_def list_all_iff quiet_env_def)
qed

theorem post_guarded_witness:
  "\<exists>r w'. do_POST (quiet_env (\<lambda>_. True)) \<lparr>rq_path = lit ''/other'', rq_headers = [], rq_read = (\<lambda>_. Inl OSError)\<rparr> sample_web = (r, w')
     \<and> post_outcome (quiet_env (\<lambda>_. True)) \<lparr>rq_path = lit ''/other'', rq_headers = [], rq_read = (\<lambda>_. Inl OSError)\<rparr> sample_web r w'"
proof -
  obtain r w' where d: "do_POST (quiet_env (\<lambda>_. True)) \<lparr>rq_path = lit ''/other'', rq_headers = [], rq_read = (\<lambda>_. Inl OSError)\<rparr> sample_web
      = (r, w')" by fastforce
  show ?thesis using post_guarded [OF d prod_not_test] d by blast
qed

definition status_request :: request where
  "status_request = \<lparr>rq_path = lit ''/status.json'', rq_headers = [], rq_read = (\<lambda>_. Inl OSError)\<rparr>"

definition home_request :: request where
  "home_request = \<lparr>rq_path = lit ''/'', rq_headers = [], rq_read = (\<lambda>_. Inl OSError)\<rparr>"

lemma urlsplit_simple:
  "urlsplit ok (rq_path status_request)
     = Inr \<lparr>sr_scheme = [], sr_netloc = [], sr_path = lit ''/status.json'', sr_query = [], sr_fragment = []\<rparr>"
  "urlsplit ok (rq_path home_request) = Inr \<lparr>sr_scheme = [], sr_netloc = [], sr_path = lit ''/'', sr_query = [], sr_fragment = []\<rparr>"
  by (simp_all add: status_request_def home_request_def urlsplit_def split_scheme_def split_netloc_def partition_at_def
      netloc_ok_def py_isascii_def lit_def)

theorem status_exact_witness:
  "\<exists>w' body tx. do_GET (quiet_env (\<lambda>_. True)) status_request sample_web = (Inr (), w')
     \<and> wb_events w' = [EvBody body, EvHead 200 (status_headers (length body)), EvLog LOG_REQUEST]
     \<and> utf8_decode Strict body = Inr tx \<and> json_loads tx = Inr (JObj [(lit ''state'', JStr (lit ''idle'')), (lit ''message'', JStr [])])"
proof -
  have "fst (do_GET (quiet_env (\<lambda>_. True)) status_request sample_web) = Inr ()"
    by code_simp
  then obtain w' where d: "do_GET (quiet_env (\<lambda>_. True)) status_request sample_web = (Inr (), w')" by (metis prod.collapse)
  have co: "w_co (turn (g_ot (quiet_env (\<lambda>_. True))) sample_web) = coord_init"
    by (simp add: quiet_env_def turn_idle sample_web_def)
  show ?thesis
    using status_exact [OF urlsplit_simple(1) _ d] d
    unfolding co by (auto simp: coord_init_def encodable_def sample_web_def)
qed

theorem get_while_connecting_witness:
  "\<exists>w' body h. do_GET (quiet_env (\<lambda>_. True)) home_request (sample_web\<lparr>w_co := coord_init\<lparr>c_state := CONNECT_WORKING\<rparr>\<rparr>) = (Inr (), w')
     \<and> nm_calls (w_nm w') = [] \<and> wb_events w' = [EvBody body, EvHead 200 (html_headers (length body) (Some h)), EvLog LOG_REQUEST]"
proof -
  let ?w = "sample_web\<lparr>w_co := coord_init\<lparr>c_state := CONNECT_WORKING\<rparr>\<rparr>" and ?g = "quiet_env (\<lambda>_. True)"
  have t: "turn (g_ot ?g) ?w = ?w\<lparr>w_now := 1000 / 1000000000, w_tick := 1\<rparr>"
    by (simp add: quiet_env_def turn_def idle_others_def sample_web_def)
  show ?thesis
    using get_while_connecting [OF urlsplit_simple(2), of ?g ?w]
    unfolding t by (auto simp: quiet_env_def sample_web_def nmst_init_def)
qed

end
