(* ===== verification/Threads.thy ===== *)
theory Threads
  imports Restore Web
begin

text \<open>
  The programs of the three threads against the step relations of \<open>Coordinator\<close>. The HTTP handler (\<open>Web\<close>), the restore
  supervisor (\<open>Restore\<close>) and the worker loop (here, with the attempt of \<open>Nmcli\<close>) run in the shared world of \<open>Service\<close>,
  where the other threads may act before every atomic step. Each of them is shown to move the coordinator only by
  steps of its own thread in the interleaved system, in the order of that thread's program counter, with what the
  others do in between; so the invariants proved of the interleaving are invariants of the programs.
\<close>

section \<open>A thread among others\<close>

text \<open>\<open>own\<close> steps a thread from one program counter to the next; the others leave its program counter alone.\<close>

inductive thread_move :: "others \<Rightarrow> (coord \<times> 'p \<Rightarrow> coord \<times> 'p \<Rightarrow> bool) \<Rightarrow> coord \<times> 'p \<Rightarrow> coord \<times> 'p \<Rightarrow> bool"
  for ot own where
  env_move: "others_move ot c c' \<Longrightarrow> thread_move ot own (c, p) (c', p)"
| own_move: "own a b \<Longrightarrow> thread_move ot own a b"

abbreviation thread_run :: "others \<Rightarrow> (coord \<times> 'p \<Rightarrow> coord \<times> 'p \<Rightarrow> bool) \<Rightarrow> coord \<times> 'p \<Rightarrow> coord \<times> 'p \<Rightarrow> bool" where
  "thread_run ot own \<equiv> (thread_move ot own)\<^sup>*\<^sup>*"

definition handler_own :: "coord \<times> hpc \<Rightarrow> coord \<times> hpc \<Rightarrow> bool" where
  "handler_own a b \<longleftrightarrow> (\<exists>s t. handler s t \<and> a = (co s, hpc s) \<and> b = (co t, hpc t))"

definition restorer_own :: "coord \<times> rpc \<Rightarrow> coord \<times> rpc \<Rightarrow> bool" where
  "restorer_own a b \<longleftrightarrow> (\<exists>s t. restorer s t \<and> a = (co s, rpc s) \<and> b = (co t, rpc t))"

definition worker_own :: "coord \<times> wpc \<Rightarrow> coord \<times> wpc \<Rightarrow> bool" where
  "worker_own a b \<longleftrightarrow> (\<exists>s t. worker s t \<and> a = (co s, wpc s) \<and> b = (co t, wpc t))"

text \<open>
  A program drives its thread from \<open>p\<close> to \<open>k x\<close> when it returns \<open>x\<close>; where an exception leaves it is
  restricted by \<open>bad\<close>.
\<close>

definition drives :: "others \<Rightarrow> (coord \<times> 'p \<Rightarrow> coord \<times> 'p \<Rightarrow> bool) \<Rightarrow> ('p \<Rightarrow> bool)
    \<Rightarrow> 'p \<Rightarrow> ('z shared_scheme, 'a) rio \<Rightarrow> ('a \<Rightarrow> 'p) \<Rightarrow> bool" where
  "drives ot own bad p m k \<longleftrightarrow>
     (\<forall>w r w'. m w = (r, w') \<longrightarrow>
        (\<exists>p'. thread_run ot own (w_co w, p) (w_co w', p') \<and> (case r of Inl _ \<Rightarrow> bad p' | Inr x \<Rightarrow> p' = k x)))"

named_theorems drives_intros

lemma drivesE:
  assumes "drives ot own bad p m k" and "m w = (r, w')"
  obtains p' where "thread_run ot own (w_co w, p) (w_co w', p')" "case r of Inl _ \<Rightarrow> bad p' | Inr x \<Rightarrow> p' = k x"
  using assms unfolding drives_def by blast

lemma env_run: "(others_move ot)\<^sup>*\<^sup>* c c' \<Longrightarrow> thread_run ot own (c, p) (c', p)"
  by (induction rule: rtranclp_induct) (auto intro: rtranclp.rtrancl_into_rtrancl env_move)

lemma turn_run: "thread_run ot own (w_co w, p) (w_co (turn ot w), p)"
  by (rule env_run) (blast intro: turn_moves)

lemma drives_return [drives_intros]: "p = k x \<Longrightarrow> drives ot own bad p (r_return x) k"
  by (auto simp: drives_def r_return_def)

lemma drives_bind [drives_intros]:
  assumes m: "drives ot own bad p m k" and f: "\<And>x. drives ot own bad (k x) (f x) k'"
  shows "drives ot own bad p (r_bind m f) k'"
  unfolding drives_def
proof (intro allI impI)
  fix w r w'
  assume "r_bind m f w = (r, w')"
  then show "\<exists>p'. thread_run ot own (w_co w, p) (w_co w', p') \<and> (case r of Inl _ \<Rightarrow> bad p' | Inr x \<Rightarrow> p' = k' x)"
  proof (cases rule: r_bind_cases)
    case (1 x)
    then show ?thesis using drivesE [OF m 1(1)] by auto
  next
    case (2 x w1)
    from drivesE [OF m 2(1)] have a: "thread_run ot own (w_co w, p) (w_co w1, k x)" by auto
    obtain p' where "thread_run ot own (w_co w1, k x) (w_co w', p')" "case r of Inl _ \<Rightarrow> bad p' | Inr x \<Rightarrow> p' = k' x"
      using drivesE [OF f 2(2)] .
    then show ?thesis using rtranclp_trans [OF a] by blast
  qed
qed

lemma drives_seq [drives_intros]:
  "drives ot own bad p m (\<lambda>_. q) \<Longrightarrow> drives ot own bad q n k \<Longrightarrow> drives ot own bad p (r_seq m n) k"
  unfolding r_seq_def by (rule drives_bind)

lemma drives_if [drives_intros]:
  "(b \<Longrightarrow> drives ot own bad p m k) \<Longrightarrow> (\<not> b \<Longrightarrow> drives ot own bad p n k) \<Longrightarrow> drives ot own bad p (if b then m else n) k"
  by simp

text \<open>An atomic step of the thread on the coordinator.\<close>

lemma drives_on_co:
  assumes "\<And>c. own (c, p) (snd (f c), k (fst (f c))) \<or> snd (f c) = c \<and> p = k (fst (f c))"
  shows "drives ot own bad p (on_co ot f) k"
  unfolding drives_def
proof (intro allI impI)
  fix w r w'
  assume e: "on_co ot f w = (r, w')"
  let ?c = "w_co (turn ot w)"
  have r: "r = Inr (fst (f ?c))" "w_co w' = snd (f ?c)" using e by (auto simp: on_co_def Let_def split: prod.splits)
  have "thread_run ot own (?c, p) (snd (f ?c), k (fst (f ?c)))"
    using assms [of ?c] by (metis own_move r_into_rtranclp rtranclp.rtrancl_refl)
  then show "\<exists>p'. thread_run ot own (w_co w, p) (w_co w', p') \<and> (case r of Inl _ \<Rightarrow> bad p' | Inr x \<Rightarrow> p' = k x)"
    using r rtranclp_trans [OF turn_run] by force
qed

text \<open>A program that leaves the coordinator to the others, followed by a step of the thread on its outcome.\<close>

lemma drives_after:
  assumes "\<And>w r w'. m w = (r, w') \<Longrightarrow> (others_move ot)\<^sup>*\<^sup>* (w_co w) (w_co w')"
    and "\<And>c. thread_run ot own (c, p) (c, q)" and "\<And>c. \<exists>p'. thread_run ot own (c, p) (c, p') \<and> bad p'"
  shows "drives ot own bad p m (\<lambda>_. q)"
  unfolding drives_def
proof (intro allI impI)
  fix w r w'
  assume "m w = (r, w')"
  note a = env_run [OF assms(1) [OF this], of own p]
  show "\<exists>p'. thread_run ot own (w_co w, p) (w_co w', p') \<and> (case r of Inl _ \<Rightarrow> bad p' | Inr x \<Rightarrow> p' = q)"
  proof (cases r)
    case (Inl x)
    obtain p' where "thread_run ot own (w_co w', p) (w_co w', p')" "bad p'" using assms(3) by blast
    then show ?thesis using Inl rtranclp_trans [OF a] by force
  next
    case (Inr x)
    then show ?thesis using rtranclp_trans [OF a assms(2)] by force
  qed
qed

lemma drives_only_others:
  "(\<And>w r w'. m w = (r, w') \<Longrightarrow> (others_move ot)\<^sup>*\<^sup>* (w_co w) (w_co w')) \<Longrightarrow> bad p \<Longrightarrow> drives ot own bad p m (\<lambda>_. p)"
  by (rule drives_after) auto

lemma drives_pure: "bad p \<Longrightarrow> drives ot own bad p (r_lift x) (\<lambda>_. p)"
  by (rule drives_only_others) (simp_all add: r_lift_def)

lemma drives_read: "drives ot own bad p (on_co ot (\<lambda>c. (f c, c))) (\<lambda>_. p)"
  by (rule drives_on_co) simp

lemma on_os_others: "on_os ot h w = (r, w') \<Longrightarrow> (others_move ot)\<^sup>*\<^sup>* (w_co w) (w_co w')"
  and on_nm_others: "on_nm ot g w = (r, w') \<Longrightarrow> (others_move ot)\<^sup>*\<^sup>* (w_co w) (w_co w')"
  using turn_moves [of ot w] by (auto simp: on_os_def on_nm_def Let_def split: prod.splits)

lemma drives_outside: "bad p \<Longrightarrow> drives ot own bad p (on_os ot h) (\<lambda>_. p)" "bad p \<Longrightarrow> drives ot own bad p (on_nm ot g) (\<lambda>_. p)"
  by (rule drives_only_others [OF on_os_others], assumption+) (rule drives_only_others [OF on_nm_others], assumption+)

section \<open>The HTTP handler\<close>

lemma handler_ownI: "handler s t \<Longrightarrow> co s = c \<Longrightarrow> hpc s = h \<Longrightarrow> co t = c' \<Longrightarrow> hpc t = h' \<Longrightarrow> handler_own (c, h) (c', h')"
  unfolding handler_own_def by blast

abbreviation at_handler :: "coord \<Rightarrow> hpc \<Rightarrow> sys" where
  "at_handler c h \<equiv> sys_init\<lparr>co := c, hpc := h\<rparr>"

lemma handler_moves:
  "handler_own (c, HIdle) (cancel_restore c, HEnqueue cr)"
  "handler_own (c, HEnqueue cr) (snd (enqueue_locked cr c), if fst (enqueue_locked cr c) then HMirror NReply else HReply)"
  "handler_own (c, HReply) (c, HWake)"
  "handler_own (c, HReply) (c, HIdle)"
  "handler_own (c, HWake) (start_after_response c, HIdle)"
  "handler_own (c, HIdle) (snd (consume_locked c), if fst (consume_locked c) = None then HIdle else HMirror NIdle)"
  "handler_own (c, HIdle) (reset_succeeded_locked c, HMirror NIdle)"
  "handler_own (c, HMirror n) (c, HMark (mirror_read c) n)"
  "handler_own (c, HMark b n) (c, hafter n)"
proof -
  show "handler_own (c, HIdle) (cancel_restore c, HEnqueue cr)"
    by (rule handler_ownI [OF h_post [of "at_handler c HIdle"]]) simp_all
  show "handler_own (c, HEnqueue cr) (snd (enqueue_locked cr c), if fst (enqueue_locked cr c) then HMirror NReply else HReply)"
    by (rule handler_ownI [OF h_enqueue [of "at_handler c (HEnqueue cr)"]]) simp_all
  show "handler_own (c, HReply) (c, HWake)" by (rule handler_ownI [OF h_reply [of "at_handler c HReply"]]) simp_all
  show "handler_own (c, HReply) (c, HIdle)" by (rule handler_ownI [OF h_lost [of "at_handler c HReply"]]) simp_all
  show "handler_own (c, HWake) (start_after_response c, HIdle)" by (rule handler_ownI [OF h_wake [of "at_handler c HWake"]]) simp_all
  show "handler_own (c, HIdle) (snd (consume_locked c), if fst (consume_locked c) = None then HIdle else HMirror NIdle)"
    by (rule handler_ownI [OF h_consume [of "at_handler c HIdle"]]) simp_all
  show "handler_own (c, HIdle) (reset_succeeded_locked c, HMirror NIdle)"
    by (rule handler_ownI [OF h_reset [of "at_handler c HIdle"]]) simp_all
  show "handler_own (c, HMirror n) (c, HMark (mirror_read c) n)"
    by (rule handler_ownI [OF h_mirror [of "at_handler c (HMirror n)"]]) simp_all
  show "handler_own (c, HMark b n) (c, hafter n)"
    by (rule handler_ownI [OF h_mark [of "at_handler c (HMark b n)" b n False]]) (simp_all add: try_marker_def)
qed

text \<open>An exception ends the request, so the handler is ready for the next one.\<close>

abbreviation drives_http :: "others \<Rightarrow> hpc \<Rightarrow> ('z shared_scheme, 'a) rio \<Rightarrow> ('a \<Rightarrow> hpc) \<Rightarrow> bool" where
  "drives_http ot \<equiv> drives ot handler_own (\<lambda>h. h = HIdle)"

lemma handler_run: "handler_own a b \<Longrightarrow> thread_run ot handler_own a b"
  by (blast intro: own_move)

lemma after_marker: "\<exists>h. thread_run ot handler_own (c, HMark b n) (c, h) \<and> h = HIdle"
proof -
  have "thread_run ot handler_own (c, hafter n) (c, HIdle)"
    by (cases n) (simp_all add: hafter_def handler_run handler_moves(4))
  then show ?thesis using rtranclp_trans [OF handler_run [OF handler_moves(9)]] by blast
qed

lemma drives_mirror: "drives_http ot (HMirror n) (svc_mirror e ot) (\<lambda>_. hafter n)"
  unfolding svc_mirror_def
  by (rule drives_bind [where k = "\<lambda>b. HMark b n"], rule drives_on_co)
     (simp_all add: handler_moves drives_after [OF on_os_others handler_run [OF handler_moves(9)] after_marker])

lemma drives_enqueue: "drives_http ot HIdle (svc_enqueue_interactive e ot cr) (\<lambda>_. HReply)"
  unfolding svc_enqueue_interactive_def
  by (rule drives_seq [where q = "HEnqueue cr"], rule drives_on_co, simp add: handler_moves,
      rule drives_bind [where k = "\<lambda>started. if started then HMirror NReply else HReply"], rule drives_on_co, simp only: handler_moves(2) simp_thms)
     (auto intro!: drives_seq drives_return drives_mirror [where n = NReply, unfolded hafter_def, simplified])

lemma drives_leaves: "leaves ot m \<Longrightarrow> drives_http ot HIdle m (\<lambda>_. HIdle)"
  by (rule drives_only_others) (simp_all add: leavesD)

lemma leaves_connecting: "leaves ot (reply_connecting g other status)"
  unfolding reply_connecting_def send_head_def by (intro leaves_intros)

text \<open>The response of an accepted POST: written, or lost.\<close>

lemma drives_answer: "leaves ot m \<Longrightarrow> drives_http ot HReply m (\<lambda>_. HWake)"
  by (rule drives_after) (use handler_moves(3,4) handler_run leavesD in blast)+

lemma drives_mark_event: "drives_http ot h (web_event ev) (\<lambda>_. h)"
  by (auto simp: drives_def web_event_def)

lemma drives_accept: "drives_http (g_ot g) HIdle (accept_post g cr) (\<lambda>_. HIdle)"
  unfolding accept_post_def
  by (rule drives_bind [OF drives_enqueue], rule drives_seq [OF drives_mark_event], rule drives_seq [where q = HWake],
      intro drives_answer leaves_if leaves_connecting, rule drives_seq [OF _ drives_mark_event], unfold svc_start_queued_connection_def,
      rule drives_on_co)
     (simp add: handler_moves)

lemma drives_post: "drives_http (g_ot g) HIdle (do_POST g rq) (\<lambda>_. HIdle)"
proof -
  note l = drives_leaves [OF leaves_reject(1)] drives_leaves [OF leaves_reject(2)] drives_leaves [OF leaves_reply(2)]
    drives_leaves [OF leaves_basic(7) [OF refl]] drives_pure drives_accept
  have "drives_http (g_ot g) HIdle (post_connect g rq) (\<lambda>_. HIdle)"
    unfolding post_connect_def
    by (intro drives_bind drives_if l refl) (auto split: sum.split option.split intro!: drives_bind drives_if l)
  then show ?thesis unfolding do_POST_def by (auto intro!: drives_bind drives_if l)
qed

lemma drives_get: "drives_http (g_ot g) HIdle (do_GET g rq) (\<lambda>_. HIdle)"
proof -
  note l = drives_leaves [OF leaves_render] drives_leaves [OF leaves_reply(1)] drives_leaves [OF leaves_reply(2)]
    drives_leaves [OF leaves_connecting] drives_leaves [OF leaves_basic(3)] drives_pure drives_read
  have c: "drives_http (g_ot g) HIdle (svc_consume_failure (g_env g) (g_ot g)) (\<lambda>_. HIdle)"
    unfolding svc_consume_failure_def
    by (rule drives_bind [where k = "\<lambda>m. if m = None then HIdle else HMirror NIdle"], rule drives_on_co, simp only: handler_moves(6) simp_thms)
       (auto split: option.split intro!: drives_return drives_seq drives_mirror [where n = NIdle, unfolded hafter_def, simplified])
  have r: "drives_http (g_ot g) HIdle (svc_reset_succeeded (g_env g) (g_ot g)) (\<lambda>_. HIdle)"
    unfolding svc_reset_succeeded_def
    by (rule drives_seq [where q = "HMirror NIdle"], rule drives_on_co)
       (simp_all add: handler_moves drives_mirror [where n = NIdle, unfolded hafter_def, simplified])
  have s: "drives_http (g_ot g) HIdle (reply_status g) (\<lambda>_. HIdle)"
    unfolding reply_status_def svc_connect_status_def send_head_def
    by (rule drives_bind [OF drives_read]) (auto intro!: drives_bind drives_leaves leaves_intros drives_pure)
  have p: "drives_http (g_ot g) HIdle (get_setup_page g) (\<lambda>_. HIdle)"
    unfolding get_setup_page_def svc_connect_status_def
    by (rule drives_bind [OF drives_read]) (auto intro!: drives_bind drives_seq drives_if l c r)
  show ?thesis unfolding do_GET_def by (auto intro!: drives_bind drives_if l s p)
qed

section \<open>The restore supervisor\<close>

lemma restorer_ownI: "restorer s t \<Longrightarrow> co s = c \<Longrightarrow> rpc s = p \<Longrightarrow> co t = c' \<Longrightarrow> rpc t = p' \<Longrightarrow> restorer_own (c, p) (c', p')"
  unfolding restorer_own_def by blast

abbreviation at_restorer :: "coord \<Rightarrow> rpc \<Rightarrow> sys" where
  "at_restorer c p \<equiv> sys_init\<lparr>co := c, rpc := p\<rparr>"

lemma restorer_moves:
  "restorer_own (c, RIdle) (reset_failure c, RIdle)"
  "restorer_own (c, RIdle) (snd (queue_locked cr c), if fst (queue_locked cr c) then RMirror else RIdle)"
  "restorer_own (c, RMirror) (c, RMark (mirror_read c))"
  "restorer_own (c, RMark b) (c, RWake)"
  "restorer_own (c, RWake) (start_after_response c, RIdle)"
proof -
  show "restorer_own (c, RIdle) (reset_failure c, RIdle)"
    by (rule restorer_ownI [OF r_reset [of "at_restorer c RIdle"]]) simp_all
  show "restorer_own (c, RIdle) (snd (queue_locked cr c), if fst (queue_locked cr c) then RMirror else RIdle)"
    by (rule restorer_ownI [OF r_queue [of "at_restorer c RIdle"]]) simp_all
  show "restorer_own (c, RMirror) (c, RMark (mirror_read c))"
    by (rule restorer_ownI [OF r_mirror [of "at_restorer c RMirror"]]) simp_all
  show "restorer_own (c, RMark b) (c, RWake)"
    by (rule restorer_ownI [OF r_mark [of "at_restorer c (RMark b)" b False]]) (simp_all add: try_marker_def)
  show "restorer_own (c, RWake) (start_after_response c, RIdle)"
    by (rule restorer_ownI [OF r_wake [of "at_restorer c RWake"]]) simp_all
qed

text \<open>An exception ends the thread, wherever it is.\<close>

abbreviation drives_restore :: "others \<Rightarrow> rpc \<Rightarrow> (world, 'a) rio \<Rightarrow> ('a \<Rightarrow> rpc) \<Rightarrow> bool" where
  "drives_restore ot \<equiv> drives ot restorer_own (\<lambda>_. True)"

lemma restorer_run: "restorer_own a b \<Longrightarrow> thread_run ot restorer_own a b"
  by (blast intro: own_move)

lemma drives_queue: "drives_restore ot RIdle (svc_queue_connection e ot cr) (\<lambda>ok. if ok then RWake else RIdle)"
proof -
  have m: "drives_restore ot RMirror (svc_mirror e ot) (\<lambda>_. RWake)"
    unfolding svc_mirror_def
    by (rule drives_bind [where k = RMark], rule drives_on_co)
       (auto simp: restorer_moves intro!: drives_after on_os_others restorer_run)
  show ?thesis
    unfolding svc_queue_connection_def
    by (rule drives_bind [where k = "\<lambda>ok. if ok then RMirror else RIdle"], rule drives_on_co, simp only: restorer_moves(2) simp_thms)
       (auto intro!: drives_return drives_seq m)
qed

lemma drives_world_queue: "drives_restore ot RIdle (world_queue e ot cr) (\<lambda>ok. if ok then RWake else RIdle)"
  unfolding drives_def
proof (intro allI impI)
  fix w r w'
  assume e: "world_queue e ot cr w = (r, w')"
  obtain r1 w1 where q: "svc_queue_connection e ot cr w = (r1, w1)" by fastforce
  have "r = r1" "w_co w' = w_co w1" using e q by (auto simp: world_queue_def split: if_splits)
  then show "\<exists>p'. thread_run ot restorer_own (w_co w, RIdle) (w_co w', p')
      \<and> (case r of Inl _ \<Rightarrow> True | Inr ok \<Rightarrow> p' = (if ok then RWake else RIdle))"
    using drivesE [OF drives_queue q] by metis
qed

lemma drives_calls:
  "drives_restore ot RIdle (op_monotonic (service_ops e nm ot)) (\<lambda>_. RIdle)"
  "drives_restore ot RIdle (op_sleep (service_ops e nm ot) d) (\<lambda>_. RIdle)"
  "drives_restore ot RIdle (op_cancelled (service_ops e nm ot)) (\<lambda>_. RIdle)"
  "drives_restore ot RIdle (op_active (service_ops e nm ot)) (\<lambda>_. RIdle)"
  "drives_restore ot RIdle (op_interactive (service_ops e nm ot)) (\<lambda>_. RIdle)"
  "drives_restore ot RIdle (op_waiting (service_ops e nm ot)) (\<lambda>_. RIdle)"
  "drives_restore ot RIdle (op_load (service_ops e nm ot)) (\<lambda>_. RIdle)"
  "drives_restore ot RIdle (op_reset (service_ops e nm ot)) (\<lambda>_. RIdle)"
  "drives_restore ot RIdle (op_status (service_ops e nm ot)) (\<lambda>_. RIdle)"
  "drives_restore ot RIdle (op_queue (service_ops e nm ot) cr) (\<lambda>ok. if ok then RWake else RIdle)"
  "drives_restore ot RWake (op_start (service_ops e nm ot)) (\<lambda>_. RIdle)"
proof -
  show "drives_restore ot RIdle (op_monotonic (service_ops e nm ot)) (\<lambda>_. RIdle)"
    "drives_restore ot RIdle (op_sleep (service_ops e nm ot) d) (\<lambda>_. RIdle)"
    by (rule drives_only_others; use turn_moves [of ot] in \<open>auto simp: service_ops_def world_clock_def world_sleep_def Let_def\<close>)+
  show "drives_restore ot RIdle (op_reset (service_ops e nm ot)) (\<lambda>_. RIdle)"
    "drives_restore ot RWake (op_start (service_ops e nm ot)) (\<lambda>_. RIdle)"
    by (simp_all add: service_ops_def svc_defs drives_on_co restorer_moves)
qed (simp_all add: service_ops_def svc_defs drives_read drives_world_queue drives_outside)

lemma drives_await_body: "drives_restore ot RIdle (await_body (service_ops e nm ot)) (\<lambda>_. RIdle)"
  unfolding await_body_def await_checks_def
  by (auto intro!: drives_bind drives_if drives_return drives_calls)

lemma drives_restore_body: "drives_restore ot RIdle (restore_body (service_ops e nm ot)) (\<lambda>_. RIdle)"
proof -
  have "drives_restore ot (if ok then RWake else RIdle) (after_queue (service_ops e nm ot) ok) (\<lambda>_. RIdle)" for ok
    unfolding after_queue_def by (cases ok) (auto intro!: drives_bind drives_if drives_return drives_calls)
  then show ?thesis
    unfolding restore_body_def
    by (auto split: option.split intro!: drives_bind [OF drives_calls(10)] drives_bind drives_if drives_return drives_calls)
qed

text \<open>The thread is at rest after a loop that ended normally.\<close>

definition rested :: "others \<Rightarrow> world \<Rightarrow> 'a res \<Rightarrow> world \<Rightarrow> bool" where
  "rested ot w r w' \<longleftrightarrow>
     (\<exists>p. thread_run ot restorer_own (w_co w, RIdle) (w_co w', p) \<and> (case r of Inl _ \<Rightarrow> True | Inr _ \<Rightarrow> p = RIdle))"

lemma rested_step: "drives_restore ot RIdle m (\<lambda>_. RIdle) \<Longrightarrow> m w = (r, w') \<Longrightarrow> rested ot w r w'"
  unfolding rested_def by (erule (1) drivesE) blast

lemma rested_trans: "rested ot w (Inr x) w1 \<Longrightarrow> rested ot w1 r w2 \<Longrightarrow> rested ot w r w2"
  unfolding rested_def by (auto intro: rtranclp_trans)

lemma rested_any: "rested ot w (Inr x) w' \<Longrightarrow> rested ot w r w'"
  by (cases r) (auto simp: rested_def)

lemma rested_fail: "rested ot w r w' \<Longrightarrow> rested ot w (Inl x) w'"
  by (auto simp: rested_def)

lemma await_rested:
  assumes "await_attempt ops deadline w = Some res" and "ops = service_ops e nm ot"
  shows "rested ot w (fst res) (snd res)"
proof -
  let ?P = "\<lambda>ops d w res. ops = service_ops e nm ot \<longrightarrow> rested ot w (fst res) (snd res)"
  have "?P ops deadline w res"
  proof (rule await_attempt.raw_induct [where P = ?P, OF _ assms(1)], rule impI)
    fix f ops d w res
    assume IH: "\<And>ops d w res. f ops d w = Some res \<Longrightarrow> ?P ops d w res" and ops: "ops = service_ops e nm ot"
      and step: "(case op_monotonic ops w of (Inl x, w1) \<Rightarrow> Some (Inl x, w1)
        | (Inr t, w1) \<Rightarrow> if \<not> t < d then Some (Inr VProceed, w1)
            else (case await_body ops w1 of (Inr VContinue, w2) \<Rightarrow> f ops d w2 | (r, w2) \<Rightarrow> Some (r, w2))) = Some res"
    obtain r1 w1 where m: "op_monotonic ops w = (r1, w1)" by fastforce
    obtain r2 w2 where b: "await_body ops w1 = (r2, w2)" by fastforce
    have a: "rested ot w r1 w1" using rested_step [OF drives_calls(1)] m ops by simp
    have c: "rested ot w1 r2 w2" using rested_step [OF drives_await_body] b ops by simp
    consider "\<exists>x. r1 = Inl x" | t where "r1 = Inr t" "\<not> t < d" | t where "r1 = Inr t" "t < d" "r2 = Inr VContinue"
      | t where "r1 = Inr t" "t < d" "r2 \<noteq> Inr VContinue" by (cases r1) auto
    then show "rested ot w (fst res) (snd res)"
    proof cases
      case 1
      then show ?thesis using step m rested_fail [OF a] by auto
    next
      case (2 t)
      then show ?thesis using step m a rested_any by auto
    next
      case (3 t)
      have "rested ot w r2 w2" using a c 3(1) rested_trans by metis
      moreover have "rested ot w2 (fst res) (snd res)" using IH [of ops d w2 res] step ops m b 3 by simp
      ultimately show ?thesis using 3(3) rested_trans by metis
    next
      case (4 t)
      have "res = (r2, w2)" using step m b 4 by (cases r2) (auto split: verdict.splits)
      then show ?thesis using a c 4(1) rested_trans by (metis fst_conv snd_conv)
    qed
  qed
  then show ?thesis using assms(2) by simp
qed

text \<open>What follows the waiting loop: stop, or sleep and go on with the rest of the run.\<close>

lemma rested_tail:
  assumes a: "rested ot w r w1" and s: "rested ot w1 q w2"
    and k: "(case r of Inl x \<Rightarrow> Some (Inl x, w1)
      | Inr v \<Rightarrow> if v = VReturn then Some (Inr (), w1) else (case q of Inl x \<Rightarrow> Some (Inl x, w2) | Inr _ \<Rightarrow> later)) = Some res"
    and later: "later = Some res \<Longrightarrow> rested ot w2 (fst res) (snd res)"
  shows "rested ot w (fst res) (snd res)"
proof (cases r)
  case (Inl x)
  then show ?thesis using k rested_fail [OF a] by auto
next
  case (Inr v)
  then have q: "rested ot w q w2" using a s rested_trans by metis
  show ?thesis
  proof (cases "v = VReturn")
    case True
    then show ?thesis using k Inr rested_any a by auto
  next
    case False
    show ?thesis
    proof (cases q)
      case (Inl x)
      then show ?thesis using k Inr False rested_fail [OF q] \<open>r = Inr v\<close> by auto
    next
      case (Inr u)
      then have "rested ot w2 (fst res) (snd res)" using later k \<open>r = Inr v\<close> False by simp
      then show ?thesis using q Inr rested_trans by metis
    qed
  qed
qed

text \<open>One pass of the outer loop: stop, start over, or go on to the waiting loop.\<close>

lemma rested_pass:
  assumes a: "rested ot w (Inr t) w1" and b: "rested ot w1 r w2"
    and k: "(case r of Inl x \<Rightarrow> Some (Inl x, w2) | Inr VReturn \<Rightarrow> Some (Inr (), w2) | Inr VContinue \<Rightarrow> again | Inr VProceed \<Rightarrow> later) = Some res"
    and again: "again = Some res \<Longrightarrow> rested ot w2 (fst res) (snd res)"
    and later: "later = Some res \<Longrightarrow> rested ot w2 (fst res) (snd res)"
  shows "rested ot w (fst res) (snd res)"
proof -
  have r: "rested ot w r w2" by (rule rested_trans [OF a b])
  show ?thesis
  proof (cases r)
    case (Inl x)
    then show ?thesis using k rested_fail [OF r] by auto
  next
    case (Inr v)
    note v = rested_trans [OF r [unfolded Inr]]
    show ?thesis
    proof (cases v)
      case VReturn
      then show ?thesis using k Inr rested_any [OF r [unfolded Inr]] by auto
    next
      case VContinue
      then show ?thesis using v [OF again] k Inr by simp
    next
      case VProceed
      then show ?thesis using v [OF later] k Inr by simp
    qed
  qed
qed

lemma restore_rested:
  assumes "restore_loop ops deadline backoff retries w = Some res" and "ops = service_ops e nm ot"
  shows "rested ot w (fst res) (snd res)"
proof -
  let ?P = "\<lambda>ops d b n w res. ops = service_ops e nm ot \<longrightarrow> rested ot w (fst res) (snd res)"
  have "?P ops deadline backoff retries w res"
  proof (rule restore_loop.raw_induct [where P = ?P, OF _ assms(1)], rule impI)
    fix f and ops :: "world restore_ops" and d bk :: rat and n :: nat and w :: world and res :: "unit res \<times> world"
    let ?after = "\<lambda>w2. case await_attempt ops d w2 of
         None \<Rightarrow> None
       | Some (Inl x, w3) \<Rightarrow> Some (Inl x, w3)
       | Some (Inr VReturn, w3) \<Rightarrow> Some (Inr (), w3)
       | Some (Inr _, w3) \<Rightarrow>
           (case op_sleep ops bk w3 of
              (Inl x, w4) \<Rightarrow> Some (Inl x, w4)
            | (Inr _, w4) \<Rightarrow> f ops d (min (bk * (3/2)) BACKOFF_MAX) (Suc n) w4)"
    assume IH: "\<And>ops d b n w res. f ops d b n w = Some res \<Longrightarrow> ?P ops d b n w res" and ops: "ops = service_ops e nm ot"
      and step: "(case op_monotonic ops w of
        (Inl x, w1) \<Rightarrow> Some (Inl x, w1)
      | (Inr t, w1) \<Rightarrow>
          if \<not> (t < d \<and> n < MAX_RETRIES) then Some (Inr (), w1)
          else (case restore_body ops w1 of
                  (Inl x, w2) \<Rightarrow> Some (Inl x, w2)
                | (Inr VReturn, w2) \<Rightarrow> Some (Inr (), w2)
                | (Inr VContinue, w2) \<Rightarrow> f ops d bk n w2
                | (Inr VProceed, w2) \<Rightarrow> ?after w2)) = Some res"
    obtain r1 w1 where m: "op_monotonic ops w = (r1, w1)" by fastforce
    obtain r2 w2 where b: "restore_body ops w1 = (r2, w2)" by fastforce
    have a: "rested ot w r1 w1" using rested_step [OF drives_calls(1)] m ops by simp
    have c: "rested ot w1 r2 w2" using rested_step [OF drives_restore_body] b ops by simp
    have after: "rested ot w2 (fst res) (snd res)" if later: "?after w2 = Some res"
    proof -
      obtain r3 w3 where w3: "await_attempt ops d w2 = Some (r3, w3)" using later by (auto split: option.splits)
      obtain r4 w4 where s: "op_sleep ops bk w3 = (r4, w4)" by fastforce
      have e: "rested ot w2 r3 w3" using await_rested [OF w3 ops] by simp
      have g: "rested ot w3 r4 w4" using rested_step [OF drives_calls(2)] s ops by simp
      have k: "(case r3 of Inl x \<Rightarrow> Some (Inl x, w3)
          | Inr v \<Rightarrow> if v = VReturn then Some (Inr (), w3)
              else (case r4 of Inl x \<Rightarrow> Some (Inl x, w4)
                    | Inr _ \<Rightarrow> f ops d (min (bk * (3/2)) BACKOFF_MAX) (Suc n) w4)) = Some res"
        using later unfolding w3 option.case prod.case using s by (simp split: sum.split_asm verdict.split_asm)
      show ?thesis by (rule rested_tail [OF e g k]) (use IH ops in simp)
    qed
    consider x where "r1 = Inl x" | t where "r1 = Inr t" "\<not> (t < d \<and> n < MAX_RETRIES)" | t where "r1 = Inr t" "t < d \<and> n < MAX_RETRIES"
      by (cases r1) auto
    then show "rested ot w (fst res) (snd res)"
    proof cases
      case (3 t)
      have k: "(case r2 of Inl x \<Rightarrow> Some (Inl x, w2) | Inr VReturn \<Rightarrow> Some (Inr (), w2) | Inr VContinue \<Rightarrow> f ops d bk n w2
          | Inr VProceed \<Rightarrow> ?after w2) = Some res"
        using step unfolding m b prod.case 3(1) sum.case using 3(2) by simp
      show ?thesis by (rule rested_pass [OF a [unfolded 3(1)] c k]) (use IH ops after in simp_all)
    qed (use step m rested_fail [OF a] rested_any a in auto)
  qed
  then show ?thesis using assms(2) by simp
qed

section \<open>The worker\<close>

text \<open>
  \<open>run_worker\<close> in the shared world. The coordinator of the service calls \<open>connect_wifi\<close>; any exception of the attempt is
  logged and becomes a failure. The loop has no end: \<open>n\<close> bounds the passes and the looks at the event that are run,
  and \<open>waiting\<close> says that the worker stands in \<open>wait()\<close>.
\<close>

definition svc_take_pending :: "others \<Rightarrow> ('z shared_scheme, creds option) rio" where
  "svc_take_pending ot = on_co ot take_pending"

definition svc_publish_result :: "env \<Rightarrow> others \<Rightarrow> bool \<Rightarrow> pystr \<Rightarrow> ('z shared_scheme, unit) rio" where
  "svc_publish_result e ot success message =
     r_seq (on_co ot (\<lambda>c. ((), c\<lparr>c_state := (if success then CONNECT_SUCCEEDED else CONNECT_FAILED), c_message := message\<rparr>)))
       (svc_mirror e ot)"

definition coordinator_connect :: "env \<Rightarrow> nm \<Rightarrow> pystr \<Rightarrow> others \<Rightarrow> creds \<Rightarrow> 'z shared_scheme \<Rightarrow> (bool \<times> pystr) res \<times> 'z shared_scheme" where
  "coordinator_connect e nm sfx ot cr w =
     (let w' = turn ot w in
      case connect_wifi e nm sfx (fst cr) (snd cr) (w_nm w', w_os w') of (r, st, s) \<Rightarrow> (r, w'\<lparr>w_nm := st, w_os := s\<rparr>))"

definition worker_attempt :: "env \<Rightarrow> nm \<Rightarrow> pystr \<Rightarrow> others \<Rightarrow> creds \<Rightarrow> ('z shared_scheme, bool \<times> pystr) rio" where
  "worker_attempt e nm sfx ot cr w =
     (case coordinator_connect e nm sfx ot cr w of
        (Inl x, w') \<Rightarrow> (case log_stage (lit ''internal'') 8 None (w_nm w') of (_, st) \<Rightarrow> (Inr (attempt_outcome (Inl x)), w'\<lparr>w_nm := st\<rparr>))
      | (Inr out, w') \<Rightarrow> (Inr (attempt_outcome (Inr out)), w'))"

definition worker_pass :: "env \<Rightarrow> nm \<Rightarrow> pystr \<Rightarrow> others \<Rightarrow> ('z shared_scheme, bool) rio" where
  "worker_pass e nm sfx ot =
     r_seq (on_co ot (\<lambda>c. ((), worker_handover c)))
    (r_bind (svc_take_pending ot) (\<lambda>pending.
     case pending of
       None \<Rightarrow> r_return True
     | Some cr \<Rightarrow>
         r_bind (worker_attempt e nm sfx ot cr) (\<lambda>(success, message).
         r_seq (on_co ot (\<lambda>c. ((), worker_publish success message c)))
        (r_seq (svc_mirror e ot) (r_return False)))))"

fun run_worker :: "env \<Rightarrow> nm \<Rightarrow> pystr \<Rightarrow> others \<Rightarrow> nat \<Rightarrow> bool \<Rightarrow> ('z shared_scheme, bool) rio" where
  "run_worker e nm sfx ot 0 waiting = r_return waiting"
| "run_worker e nm sfx ot (Suc n) True =
     r_bind (on_co ot (\<lambda>c. (c_event c, c))) (\<lambda>is_set.
     if is_set then r_seq (on_co ot (\<lambda>c. ((), c\<lparr>c_event := False\<rparr>))) (run_worker e nm sfx ot n False)
     else run_worker e nm sfx ot n True)"
| "run_worker e nm sfx ot (Suc n) False = r_bind (worker_pass e nm sfx ot) (run_worker e nm sfx ot n)"

definition connect_worker :: "env \<Rightarrow> nm \<Rightarrow> pystr \<Rightarrow> others \<Rightarrow> nat \<Rightarrow> ('z shared_scheme, bool) rio" where
  "connect_worker e nm sfx ot n = run_worker e nm sfx ot n False"

lemma worker_ownI: "worker s t \<Longrightarrow> co s = c \<Longrightarrow> wpc s = p \<Longrightarrow> co t = c' \<Longrightarrow> wpc t = p' \<Longrightarrow> worker_own (c, p) (c', p')"
  unfolding worker_own_def by blast

abbreviation at_worker :: "coord \<Rightarrow> wpc \<Rightarrow> sys" where
  "at_worker c p \<equiv> sys_init\<lparr>co := c, wpc := p\<rparr>"

lemma worker_moves:
  "worker_own (c, WTop) (worker_handover c, WTake)"
  "worker_own (c, WTake) (snd (take_pending c), case fst (take_pending c) of None \<Rightarrow> WWait | Some cr \<Rightarrow> WConnect cr)"
  "c_event c \<Longrightarrow> worker_own (c, WWait) (c, WClear)"
  "worker_own (c, WClear) (c\<lparr>c_event := False\<rparr>, WTop)"
  "attempt_outcome r = (ok, m) \<Longrightarrow> worker_own (c, WConnect cr) (c, WPublish ok m)"
  "worker_own (c, WPublish ok m) (worker_publish ok m c, WMirror)"
  "worker_own (c, WMirror) (c, WMark (mirror_read c))"
  "worker_own (c, WMark b) (c, WTop)"
proof -
  show "worker_own (c, WTop) (worker_handover c, WTake)"
    by (rule worker_ownI [OF w_top [of "at_worker c WTop"]]) simp_all
  show "worker_own (c, WTake) (snd (take_pending c), case fst (take_pending c) of None \<Rightarrow> WWait | Some cr \<Rightarrow> WConnect cr)"
  proof (cases "c_pending c")
    case None
    show ?thesis
      by (rule worker_ownI [OF w_none [of "at_worker c WTake" "snd (take_pending c)"]]) (simp_all add: take_pending_def None)
  next
    case (Some cr)
    show ?thesis
      by (rule worker_ownI [OF w_some [of "at_worker c WTake" cr "snd (take_pending c)"]]) (simp_all add: take_pending_def Some)
  qed
  show "worker_own (c, WWait) (c, WClear)" if "c_event c"
    by (rule worker_ownI [OF w_wait [of "at_worker c WWait"]]) (simp_all add: that)
  show "worker_own (c, WClear) (c\<lparr>c_event := False\<rparr>, WTop)"
    by (rule worker_ownI [OF w_clear [of "at_worker c WClear"]]) simp_all
  show "worker_own (c, WConnect cr) (c, WPublish ok m)" if "attempt_outcome r = (ok, m)"
    by (rule worker_ownI [OF w_connect [of "at_worker c (WConnect cr)" cr r ok m]]) (simp_all add: that)
  show "worker_own (c, WPublish ok m) (worker_publish ok m c, WMirror)"
    by (rule worker_ownI [OF w_publish [of "at_worker c (WPublish ok m)" ok m]]) simp_all
  show "worker_own (c, WMirror) (c, WMark (mirror_read c))"
    by (rule worker_ownI [OF w_mirror [of "at_worker c WMirror"]]) simp_all
  show "worker_own (c, WMark b) (c, WTop)"
    by (rule worker_ownI [OF w_mark [of "at_worker c (WMark b)" b False]]) (simp_all add: try_marker_def)
qed

abbreviation drives_worker :: "others \<Rightarrow> wpc \<Rightarrow> ('z shared_scheme, 'a) rio \<Rightarrow> ('a \<Rightarrow> wpc) \<Rightarrow> bool" where
  "drives_worker ot \<equiv> drives ot worker_own (\<lambda>_. True)"

lemma worker_run: "worker_own a b \<Longrightarrow> thread_run ot worker_own a b"
  by (blast intro: own_move)

lemma drives_attempt:
  "drives_worker ot (WConnect cr) (worker_attempt e nm sfx ot cr) (\<lambda>(success, message). WPublish success message)"
  unfolding drives_def
proof (intro allI impI)
  fix w :: "'z shared_scheme" and r and w'
  assume a: "worker_attempt e nm sfx ot cr w = (r, w')"
  obtain x v where c: "coordinator_connect e nm sfx ot cr w = (x, v)" by fastforce
  have r: "r = Inr (attempt_outcome x)" "w_co w' = w_co v"
    using a c by (cases x; auto simp: worker_attempt_def split: prod.splits)+
  have v: "w_co v = w_co (turn ot w)" using c by (auto simp: coordinator_connect_def Let_def split: prod.splits)
  obtain ok m where o: "attempt_outcome x = (ok, m)" by fastforce
  have "thread_run ot worker_own (w_co w, WConnect cr) (w_co w', WPublish ok m)"
    using rtranclp_trans [OF turn_run worker_run [OF worker_moves(5) [OF o]]] r(2) v by metis
  then show "\<exists>p'. thread_run ot worker_own (w_co w, WConnect cr) (w_co w', p')
      \<and> (case r of Inl _ \<Rightarrow> True | Inr out \<Rightarrow> p' = (case out of (success, message) \<Rightarrow> WPublish success message))"
    using r(1) o by auto
qed

lemma drives_pass: "drives_worker ot WTop (worker_pass e nm sfx ot) (\<lambda>waiting. if waiting then WWait else WTop)"
proof -
  have m: "drives_worker ot WMirror (svc_mirror e ot) (\<lambda>_. WTop)"
    unfolding svc_mirror_def
    by (rule drives_bind [where k = WMark], rule drives_on_co)
       (auto simp: worker_moves intro!: drives_after on_os_others worker_run)
  have p: "drives_worker ot (WPublish ok t) (r_seq (on_co ot (\<lambda>c. ((), worker_publish ok t c))) (r_seq (svc_mirror e ot) (r_return False)))
      (\<lambda>waiting. if waiting then WWait else WTop)" for ok t
    by (rule drives_seq [where q = WMirror], rule drives_on_co) (auto simp: worker_moves intro!: drives_seq m drives_return)
  show ?thesis
    unfolding worker_pass_def svc_take_pending_def
    by (rule drives_seq [where q = WTake], rule drives_on_co, simp add: worker_moves,
        rule drives_bind [where k = "\<lambda>x. case x of None \<Rightarrow> WWait | Some cr \<Rightarrow> WConnect cr"], rule drives_on_co, simp only: worker_moves(2) simp_thms)
       (auto split: option.split intro!: drives_return drives_bind [OF drives_attempt] p)
qed

lemma drives_run_worker:
  "drives_worker ot (if waiting then WWait else WTop) (run_worker e nm sfx ot n waiting) (\<lambda>waiting. if waiting then WWait else WTop)"
proof (induction e nm sfx ot n waiting rule: run_worker.induct)
  case (2 e nm sfx ot n)
  have l: "drives_worker ot WWait (on_co ot (\<lambda>c. (c_event c, c))) (\<lambda>b. if b then WClear else WWait)"
    by (rule drives_on_co) (simp add: worker_moves)
  have k: "drives_worker ot WClear (on_co ot (\<lambda>c. ((), c\<lparr>c_event := False\<rparr>))) (\<lambda>_. WTop)"
    by (rule drives_on_co) (simp add: worker_moves)
  show ?case using 2 by (auto intro!: drives_bind [OF l] drives_seq [OF k])
qed (auto intro!: drives_return drives_bind [OF drives_pass])

section \<open>Properties\<close>

lemma drives_end: "drives_http ot h m (\<lambda>_. HIdle) \<Longrightarrow> thread_run ot handler_own (w_co w, h) (w_co (snd (m w)), HIdle)"
  by (cases "m w"; cases "fst (m w)") (force simp: drives_def)+

text \<open>
  The HTTP service refines the handler thread: whatever the request, the network, the file system and the other
  threads do, a GET or a POST changes the coordinator only by steps of the handler in the interleaved system, with
  what the others do in between, and leaves the handler ready for the next request.
\<close>

theorem http_refines_handler:
  "thread_run (g_ot g) handler_own (w_co w, HIdle) (w_co (snd (do_POST g rq w)), HIdle)
   \<and> thread_run (g_ot g) handler_own (w_co w, HIdle) (w_co (snd (do_GET g rq w)), HIdle)"
  by (intro conjI drives_end drives_post drives_get)

text \<open>
  C2. The worker and the restore supervisor refine their threads: any number of passes of the worker loop, with the
  attempts of the adapter in it, are steps of the worker; and a run of the supervisor, which always ends, is a run of
  the restorer, at rest again if it ended normally.
\<close>

theorem threads_refine:
  "(\<exists>p. thread_run ot worker_own (w_co w, WTop) (w_co (snd (connect_worker e nm sfx ot n w)), p)
      \<and> (case fst (connect_worker e nm sfx ot n w) of Inl _ \<Rightarrow> True | Inr waiting \<Rightarrow> p = (if waiting then WWait else WTop)))
   \<and> (\<exists>r v' p. restore_saved_connection (service_ops e nm ot) v = Some (r, v')
      \<and> thread_run ot restorer_own (w_co v, RIdle) (w_co v', p) \<and> (case r of Inl _ \<Rightarrow> True | Inr _ \<Rightarrow> p = RIdle))"
proof
  obtain x w' where c: "connect_worker e nm sfx ot n w = (x, w')" by fastforce
  from drivesE [OF drives_run_worker [where waiting = False] c [unfolded connect_worker_def]]
  obtain p where "thread_run ot worker_own (w_co w, if False then WWait else WTop) (w_co w', p)"
    "case x of Inl _ \<Rightarrow> True | Inr waiting \<Rightarrow> p = (if waiting then WWait else WTop)" .
  then show "\<exists>p. thread_run ot worker_own (w_co w, WTop) (w_co (snd (connect_worker e nm sfx ot n w)), p)
      \<and> (case fst (connect_worker e nm sfx ot n w) of Inl _ \<Rightarrow> True | Inr waiting \<Rightarrow> p = (if waiting then WWait else WTop))"
    using c by (intro exI [of _ p]) simp
next
  obtain r v' where e: "restore_saved_connection (service_ops e nm ot) v = Some (r, v')" using service.restore_ends by blast
  obtain t w1 where m: "op_monotonic (service_ops e nm ot) v = (t, w1)" by fastforce
  have a: "rested ot v t w1" by (rule rested_step [OF drives_calls(1) m])
  have "rested ot v r v'"
  proof (cases t)
    case (Inl x)
    then show ?thesis using e m rested_fail [OF a] by (auto simp: restore_saved_connection_def)
  next
    case (Inr u)
    then have "restore_loop (service_ops e nm ot) (u + 120) BACKOFF_MIN 0 w1 = Some (r, v')"
      using e m by (simp add: restore_saved_connection_def)
    from restore_rested [OF this refl] show ?thesis using a Inr rested_trans by (metis fst_conv snd_conv)
  qed
  then show "\<exists>r v' p. restore_saved_connection (service_ops e nm ot) v = Some (r, v')
      \<and> thread_run ot restorer_own (w_co v, RIdle) (w_co v', p) \<and> (case r of Inl _ \<Rightarrow> True | Inr _ \<Rightarrow> p = RIdle)"
    using e unfolding rested_def by blast
qed

end
