(* ===== verification/Web_Responses.thy ===== *)
theory Web_Responses
  imports Web
begin

text \<open>
  The dispatch of a request by \<open>http.server\<close> to the handler of \<open>sushida_os/wifi/web.py\<close>, and the form of everything the
  service writes: complete response heads with header lines that nobody can break up, the length of the body that
  follows, known status codes, and diagnostics from a fixed set of lines.
\<close>

section \<open>Dispatch\<close>

definition LOG_SERVER :: pystr where "LOG_SERVER = lit ''wifi-setup: stage=http-server nmcli_exit=0 reason=0''"

definition log_message :: "(web, unit) rio" where
  "log_message = web_event (EvLog LOG_SERVER)"

text \<open>\<open>send_error\<close> of \<open>http.server\<close>; the text of its page, made from the status and the request verb, is \<open>page\<close>.\<close>

definition error_headers :: "nat \<Rightarrow> (pystr \<times> pystr) list" where
  "error_headers n = [
     (lit ''Connection'', lit ''close''),
     (lit ''Content-Type'', lit ''text/html;charset=utf-8''),
     (lit ''Content-Length'', show_int (int n))]"

definition send_error :: "webenv \<Rightarrow> (pystr \<Rightarrow> bytes) \<Rightarrow> pystr \<Rightarrow> (web, unit) rio" where
  "send_error g page verb =
     (let body = page verb in
      r_seq log_message
     (r_seq (send_head g 501 (error_headers (length body)))
        (if verb = lit ''HEAD'' then r_return () else web_write g (EvBody body))))"

definition handle_request :: "webenv \<Rightarrow> (pystr \<Rightarrow> bytes) \<Rightarrow> pystr \<Rightarrow> request \<Rightarrow> (web, unit) rio" where
  "handle_request g page verb rq =
     (if verb = lit ''GET'' then do_GET g rq
      else if verb = lit ''POST'' then do_POST g rq
      else send_error g page verb)"

section \<open>Well-formed output\<close>

text \<open>A header line that is one line: printable ASCII, and a name without a colon.\<close>

definition header_safe :: "pystr \<times> pystr \<Rightarrow> bool" where
  "header_safe h \<longleftrightarrow> fst h \<noteq> [] \<and> 58 \<notin> set (fst h) \<and> list_all (\<lambda>c. 32 \<le> c \<and> c \<le> 126) (fst h @ snd h)"

definition head_ok :: "int \<Rightarrow> (pystr \<times> pystr) list \<Rightarrow> bool" where
  "head_ok status hs \<longleftrightarrow> status \<in> {200, 303, 400, 403, 409, 413, 415, 501} \<and> list_all header_safe hs \<and> distinct (map fst hs)"

definition framed :: "nat \<Rightarrow> (pystr \<times> pystr) list \<Rightarrow> bool" where
  "framed n hs \<longleftrightarrow> map_of hs (lit ''Content-Length'') = Some (show_int (int n))"

text \<open>The output, newest first: a body follows its head, a head follows the line in the log.\<close>

fun well_formed :: "wevent list \<Rightarrow> bool" where
  "well_formed [] = True"
| "well_formed (EvBody b # evs) =
     ((case evs of EvHead _ hs # _ \<Rightarrow> framed (length b) hs | _ \<Rightarrow> False) \<and> well_formed evs)"
| "well_formed (EvHead status hs # evs) =
     (head_ok status hs \<and> (case evs of EvLog l # _ \<Rightarrow> l = LOG_REQUEST | _ \<Rightarrow> False) \<and> well_formed evs)"
| "well_formed (EvLog l # evs) = (l \<in> {LOG_REQUEST, LOG_REJECT, LOG_SERVER} \<and> well_formed evs)"
| "well_formed (EvEnqueue _ _ # evs) = well_formed evs"
| "well_formed (EvWake # evs) = well_formed evs"

abbreviation tidy :: "(web, 'a) rio \<Rightarrow> bool" where
  "tidy \<equiv> r_keeps (\<lambda>w. well_formed (wb_events w))"

lemma tidy_same: "(\<And>w. wb_events (snd (m w)) = wb_events w) \<Longrightarrow> tidy m"
  by (simp add: r_keeps_def)

lemma tidy_basic [keeps_intros]:
  "tidy (on_co ot f)" "tidy (on_nm ot g)" "tidy (on_os ot h)" "tidy (r_lift x)" "tidy (web_csrf c)"
  by (rule tidy_same; simp add: r_lift_def web_csrf_def Let_def split: prod.split sum.split)+

lemma tidy_events [keeps_intros]:
  "tidy (web_event (EvLog LOG_REJECT))" "tidy (web_event (EvEnqueue cr b))" "tidy (web_event EvWake)" "tidy log_message"
  by (simp_all add: r_keeps_def web_event_def log_message_def)

lemma tidy_head:
  assumes "head_ok status hs"
  shows "tidy (send_head g status hs)"
  using assms by (simp add: r_keeps_def send_head_def rio_defs web_event_def web_write_def Let_def)

lemma tidy_answer:
  assumes "head_ok status hs" and "framed (length b) hs"
  shows "tidy (r_seq (send_head g status hs) (web_write g (EvBody b)))"
  using assms by (simp add: r_keeps_def send_head_def rio_defs web_event_def web_write_def Let_def)

section \<open>The headers\<close>

lemma show_int_safe: "list_all (\<lambda>c. 32 \<le> c \<and> c \<le> 126) (show_int (int n))"
  using show_pos_digits [of "int n"] by (auto simp: show_int_def list_all_iff ascii_digit_def)

lemma b64_char_safe: "0 \<le> x \<Longrightarrow> x < 64 \<Longrightarrow> 32 \<le> b64_char x \<and> b64_char x \<le> 126"
  by (simp add: b64_char_def)

lemma b64_ints_safe: "list_all (\<lambda>x. 0 \<le> x \<and> x < 256) xs \<Longrightarrow> list_all (\<lambda>c. 32 \<le> c \<and> c \<le> 126) (b64_ints xs)"
  by (induction xs rule: b64_ints.induct) (auto intro!: b64_char_safe [THEN conjunct1] b64_char_safe [THEN conjunct2])

lemma script_hash_safe: "script_csp_hash = Inr h \<Longrightarrow> list_all (\<lambda>c. 32 \<le> c \<and> c \<le> 126) h"
  by (auto simp: script_csp_hash_def res_bind_Inr_conv b64encode_def intro!: b64_ints_safe ints_of_byte_values [unfolded byte_value_def])

lemma headers_framed:
  "framed n (html_headers n h)" "framed n (status_headers n)" "framed n (error_headers n)"
  by (simp_all add: framed_def html_headers_def status_headers_def error_headers_def lit_def)

lemma lit_safe: "list_all (\<lambda>c. 32 \<le> c \<and> c \<le> 126) CSP_BASE"
  by code_simp

lemma html_safe: "list_all header_safe (html_headers n None)" "script_csp_hash = Inr h \<Longrightarrow> list_all header_safe (html_headers n (Some h))"
  using show_int_safe [of n] script_hash_safe [of h] lit_safe by (auto simp: html_headers_def header_safe_def lit_def)

lemma plain_safe: "list_all header_safe (status_headers n)" "list_all header_safe (error_headers n)"
  using show_int_safe [of n] by (simp_all add: status_headers_def error_headers_def header_safe_def lit_def)

lemma headers_distinct:
  "distinct (map fst (html_headers n h))" "distinct (map fst (status_headers n))" "distinct (map fst (error_headers n))"
  by (simp_all add: html_headers_def status_headers_def error_headers_def lit_def)

lemmas head_facts = head_ok_def html_safe plain_safe headers_distinct headers_framed

section \<open>The handlers\<close>

lemma tidy_reply [keeps_intros]: "status \<in> {200, 400, 403, 413, 415} \<Longrightarrow> tidy (reply g body status)"
  unfolding reply_def by (rule tidy_answer) (auto simp: head_facts)

lemma keeps_lift: "(\<And>x. y = Inr x \<Longrightarrow> r_keeps I (f x)) \<Longrightarrow> r_keeps I (r_bind (r_lift y) f)"
  by (cases y) (simp_all add: r_keeps_def r_bind_def r_lift_def)

lemma tidy_connecting [keeps_intros]: "status \<in> {200, 409} \<Longrightarrow> tidy (reply_connecting g other status)"
  unfolding reply_connecting_def by (intro keeps_lift tidy_answer) (auto simp: head_facts)

lemma tidy_status [keeps_intros]: "tidy (reply_status g)"
proof -
  have "tidy (r_seq (send_head g 200 (status_headers (length b))) (web_write g (EvBody b)))" for b
    by (rule tidy_answer) (auto simp: head_facts)
  then show ?thesis
    unfolding reply_status_def svc_connect_status_def by (intro r_keeps_bind tidy_basic) (simp add: split_beta keeps_lift)
qed

lemma tidy_redirect [keeps_intros]: "tidy (redirect_home g)"
  unfolding redirect_home_def by (rule tidy_head) (simp add: head_ok_def header_safe_def lit_def)

lemma tidy_send_error [keeps_intros]: "tidy (send_error g page verb)"
proof -
  let ?b = "page verb"
  have h: "head_ok 501 (error_headers (length ?b))" by (simp add: head_facts)
  have "send_error g page verb = r_seq log_message (if verb = lit ''HEAD'' then send_head g 501 (error_headers (length ?b))
      else r_seq (send_head g 501 (error_headers (length ?b))) (web_write g (EvBody ?b)))"
    by (auto simp: send_error_def Let_def r_seq_def r_bind_def r_return_def fun_eq_iff split: sum.split prod.split)
  moreover have "tidy (if verb = lit ''HEAD'' then send_head g 501 (error_headers (length ?b))
      else r_seq (send_head g 501 (error_headers (length ?b))) (web_write g (EvBody ?b)))"
    by (intro r_keeps_if tidy_head tidy_answer h headers_framed)
  ultimately show ?thesis by (simp add: r_keeps_seq tidy_events)
qed

lemma tidy_page [keeps_intros]: "tidy (render_page g message success)" "tidy (svc_mirror e ot)"
  unfolding render_page_def svc_mirror_def by (intro keeps_intros)+

lemma tidy_refusal [keeps_intros]:
  "status \<in> {200, 400, 403, 413, 415} \<Longrightarrow> tidy (setup_error g message status)"
  "status \<in> {200, 400, 403, 413, 415} \<Longrightarrow> tidy (reject g message status)"
  unfolding setup_error_def reject_def by (auto intro!: keeps_intros)

lemma tidy_accept [keeps_intros]: "tidy (accept_post g cr)"
  unfolding accept_post_def svc_enqueue_interactive_def svc_start_queued_connection_def by (auto intro!: keeps_intros)

lemma post_request_status:
  "post_request rq = Inr (Inl (message, status)) \<Longrightarrow> status \<in> {200, 400, 403, 413, 415}"
  by (auto simp: post_request_def read_form_def form_fields_def res_bind_Inr_conv
      split: if_splits sum.splits list.splits)

lemma tidy_post [keeps_intros]: "tidy (do_POST g rq)"
proof -
  have v: "tidy (case problem of Some m \<Rightarrow> if m \<noteq> [] then setup_error g m 200 else accept_post g cr | None \<Rightarrow> accept_post g cr)"
    for problem cr by (auto intro!: keeps_intros split: option.split)
  have "tidy (post_connect g rq)"
    unfolding post_connect_def
  proof (rule keeps_lift)
    fix checked
    assume c: "post_request rq = Inr checked"
    show "tidy (case checked of
       Inl (message, status) \<Rightarrow> reject g message status
     | Inr (token, ssid, password) \<Rightarrow>
         r_bind (web_csrf g) (\<lambda>expected.
         r_bind (r_lift (compare_digest token expected)) (\<lambda>same.
         if \<not> same then reject g MSG_EXPIRED 403
         else r_bind (r_lift (validate_credentials ssid password)) (\<lambda>problem.
           case problem of
             Some m \<Rightarrow> if m \<noteq> [] then setup_error g m 200 else accept_post g (ssid, password)
           | None \<Rightarrow> accept_post g (ssid, password)))))"
      using post_request_status c
      by (cases checked) (auto intro!: tidy_refusal r_keeps_bind r_keeps_if tidy_basic v split: prod.split)
  qed
  then show ?thesis unfolding do_POST_def by (intro keeps_intros)
qed

lemma tidy_get [keeps_intros]: "tidy (do_GET g rq)"
  unfolding do_GET_def get_setup_page_def svc_connect_status_def svc_consume_failure_def svc_reset_succeeded_def
  by (auto intro!: keeps_intros split: option.split)

lemma tidy_handle: "tidy (handle_request g page verb rq)"
  unfolding handle_request_def by (intro keeps_intros)

section \<open>Property\<close>

text \<open>
  C12. Everything the service writes is well-formed: for any request method and any request, each response has a known status,
  one-line printable headers without repetitions, the exact length of the body that follows it, and a log entry
  before it; the log consists of three fixed lines, so neither names nor passwords can reach it.
\<close>

theorem responses_well_formed:
  "well_formed (wb_events (snd (handle_request g page verb rq (w\<lparr>wb_events := []\<rparr>))))"
  using tidy_handle [of g page verb rq] by (simp add: r_keeps_def)

end
