(* ===== verification/Wifi_Service.thy ===== *)
theory Wifi_Service
  imports Threads Web_Responses
begin

text \<open>
  The entry point of the setup service, \<open>usr/local/libexec/sushida-wifi-setup\<close>: the token is made, the worker and the restore
  thread are started, the server is bound to the loopback address and serves one request after the other. What
  \<open>http.server\<close> does on an exception in a request is to drop the connection and go on.
\<close>

section \<open>The entry point\<close>

datatype launched = ConnectWorker | RestoreSavedConnection

definition HOST :: pystr where "HOST = lit ''127.0.0.1''"
definition PORT :: int where "PORT = 8787"

fun serve_forever :: "webenv \<Rightarrow> (pystr \<Rightarrow> bytes) \<Rightarrow> (pystr \<times> request) list \<Rightarrow> web \<Rightarrow> web" where
  "serve_forever g page [] w = w"
| "serve_forever g page ((verb, rq) # rqs) w = serve_forever g page rqs (snd (handle_request g page verb rq w))"

text \<open>\<open>bind\<close> is what binding the socket gives; the threads that were started, and how the start went.\<close>

definition service_main ::
    "webenv \<Rightarrow> (pystr \<Rightarrow> int \<Rightarrow> unit res) \<Rightarrow> (pystr \<Rightarrow> bytes) \<Rightarrow> (pystr \<times> request) list \<Rightarrow> web \<Rightarrow> unit res \<times> launched list \<times> web" where
  "service_main g bind page rqs w =
     (case web_csrf g w of
        (Inl x, w1) \<Rightarrow> (Inl x, [], w1)
      | (Inr _, w1) \<Rightarrow>
          (let threads = [ConnectWorker, RestoreSavedConnection] in
           case bind HOST PORT of
             Inl x \<Rightarrow> (Inl x, threads, w1)
           | Inr _ \<Rightarrow> (Inr (), threads, serve_forever g page rqs w1)))"

section \<open>The token of a run\<close>

abbreviation keeps_token :: "pystr \<Rightarrow> (web, 'a) rio \<Rightarrow> bool" where
  "keeps_token t \<equiv> r_keeps (\<lambda>w. wb_csrf w = Some t)"

lemma token_basic [keeps_intros]:
  "keeps_token t (on_co ot f)" "keeps_token t (on_nm ot g)" "keeps_token t (on_os ot h)" "keeps_token t (r_lift x)"
  "keeps_token t (web_csrf c)" "keeps_token t (web_event ev)" "keeps_token t (web_write c ev)"
  by (auto simp: r_keeps_def r_lift_def on_co_def on_nm_def on_os_def web_csrf_def web_event_def web_write_def csrf_token_def io_defs Let_def
      split: prod.split)

lemma token_pages [keeps_intros]:
  "keeps_token t (render_page c message success)" "keeps_token t (svc_mirror e ot)" "keeps_token t (reply c body status)"
  "keeps_token t (send_head c status hs)"
  unfolding render_page_def svc_mirror_def reply_def send_head_def by (intro keeps_intros)+

lemma token_replies [keeps_intros]:
  "keeps_token t (reply_connecting c other status)" "keeps_token t (redirect_home c)" "keeps_token t (setup_error c message status)"
  "keeps_token t (reject c message status)" "keeps_token t (accept_post c cr)" "keeps_token t (reply_status c)"
  unfolding reply_connecting_def redirect_home_def setup_error_def reject_def accept_post_def reply_status_def
    svc_enqueue_interactive_def svc_start_queued_connection_def svc_connect_status_def
  by (auto intro!: keeps_intros)

lemma token_requests [keeps_intros]:
  "keeps_token t (do_POST c rq)" "keeps_token t (do_GET c rq)" "keeps_token t (send_error c page verb)"
  unfolding do_POST_def post_connect_def do_GET_def get_setup_page_def send_error_def log_message_def
    svc_connect_status_def svc_consume_failure_def svc_reset_succeeded_def Let_def
  by (auto intro!: keeps_intros split: sum.split option.split prod.split)

lemma token_handle: "keeps_token t (handle_request c page verb rq)"
  unfolding handle_request_def by (intro keeps_intros)

section \<open>A whole run\<close>

lemma drives_handle: "drives_http (g_ot g) HIdle (handle_request g page verb rq) (\<lambda>_. HIdle)"
proof -
  have "leaves (g_ot g) (send_error g page verb)"
    unfolding send_error_def send_head_def log_message_def Let_def by (intro leaves_intros)
  then show ?thesis
    unfolding handle_request_def by (intro drives_if drives_get drives_post drives_leaves)
qed

lemma serve_run: "thread_run (g_ot g) handler_own (w_co w, HIdle) (w_co (serve_forever g page rqs w), HIdle)"
proof (induction g page rqs w rule: serve_forever.induct)
  case (2 g page verb rq rqs w)
  then show ?case using rtranclp_trans [OF drives_end [OF drives_handle]] by simp
qed simp

lemma serve_tidy: "well_formed (wb_events w) \<Longrightarrow> well_formed (wb_events (serve_forever g page rqs w))"
proof (induction g page rqs w rule: serve_forever.induct)
  case (2 g page verb rq rqs w)
  then show ?case using tidy_handle [of g page verb rq] by (simp add: r_keeps_def)
qed simp

lemma serve_token: "wb_csrf w = Some t \<Longrightarrow> wb_csrf (serve_forever g page rqs w) = Some t"
proof (induction g page rqs w rule: serve_forever.induct)
  case (2 g page verb rq rqs w)
  then show ?case using token_handle [of t g page verb rq] by (simp add: r_keeps_def)
qed simp

text \<open>What the start leaves behind, with and without a token.\<close>

lemma service_main_cases:
  obtains x where "fst (web_csrf g w) = Inl x" "service_main g bind page rqs w = (Inl x, [], snd (web_csrf g w))"
  | t x where "fst (web_csrf g w) = Inr t" "bind HOST PORT = Inl x"
      "service_main g bind page rqs w = (Inl x, [ConnectWorker, RestoreSavedConnection], snd (web_csrf g w))"
  | t where "fst (web_csrf g w) = Inr t"
      "service_main g bind page rqs w = (Inr (), [ConnectWorker, RestoreSavedConnection], serve_forever g page rqs (snd (web_csrf g w)))"
  by (cases "web_csrf g w"; cases "fst (web_csrf g w)"; cases "bind HOST PORT") (auto simp: service_main_def Let_def)

lemma csrf_start:
  assumes "web_csrf g w = (r, w')"
  shows "wb_events w' = wb_events w" and "thread_run (g_ot g) handler_own (w_co w, HIdle) (w_co w', HIdle)"
proof -
  show "wb_events w' = wb_events w" using assms by (auto simp: web_csrf_def Let_def split: prod.splits sum.splits)
  show "thread_run (g_ot g) handler_own (w_co w, HIdle) (w_co w', HIdle)"
    by (rule env_run) (rule leavesD [OF leaves_basic(7) [OF refl] assms])
qed

end
