(* ===== verification/Kiosk_Signal.thy ===== *)
theory Kiosk_Signal
  imports Py_Codec
begin

text \<open>
  \<open>sushida_os/runtime/kiosk_signal.py\<close>: the restart signal of the Python watchers. \<open>systemctl\<close>, the process
  table, the cgroup file and \<open>kill\<close> are what the surroundings answer (the record \<open>machine\<close>); the signals sent
  are collected in the result.
\<close>

section \<open>The model\<close>

definition KIOSK_SERVICE :: pystr where
  "KIOSK_SERVICE = lit ''sushida-kiosk.service''"

definition SIGTERM :: int where "SIGTERM = 15"

record machine =
  mc_run :: "pystr list \<Rightarrow> (int \<times> pystr) res"
  mc_owner :: "pystr \<Rightarrow> int res"
  mc_euid :: int
  mc_read :: "pystr \<Rightarrow> bytes res"
  mc_kill :: "int \<Rightarrow> int \<Rightarrow> unit res"

text \<open>\<open>_run_systemctl\<close>: \<open>None\<close> when the command cannot be run or times out.\<close>

definition run_systemctl :: "machine \<Rightarrow> pystr \<Rightarrow> pystr list \<Rightarrow> (int \<times> pystr) option res" where
  "run_systemctl mc systemctl args =
     (case mc_run mc (systemctl # args) of
        Inr out \<Rightarrow> Inr (Some out)
      | Inl x \<Rightarrow> if is_OSError x \<or> x = TimeoutExpired then Inr None else Inl x)"

text \<open>
  \<open>re.search(r"(^|/)sushida-kiosk\.service($|/)", cgroup, re.MULTILINE)\<close>: \<open>start\<close> says that the position is at the
  start of the text, after a newline or after a slash.
\<close>

definition edge :: "codepoint \<Rightarrow> bool" where
  "edge c \<longleftrightarrow> c = 47 \<or> c = 10"

fun search_service :: "bool \<Rightarrow> pystr \<Rightarrow> bool" where
  "search_service start s =
     ((start \<and> starts_with KIOSK_SERVICE s
         \<and> (drop (length KIOSK_SERVICE) s = [] \<or> edge (hd (drop (length KIOSK_SERVICE) s))))
      \<or> (case s of [] \<Rightarrow> False | c # r \<Rightarrow> search_service (edge c) r))"

declare search_service.simps [simp del]

definition cgroup_names_service :: "pystr \<Rightarrow> bool" where
  "cgroup_names_service cgroup = search_service True cgroup"

text \<open>\<open>read_text(encoding="utf-8", errors="replace")\<close>\<close>

definition cgroup_text :: "bytes \<Rightarrow> pystr" where
  "cgroup_text bs = (case utf8_decode Replace bs of Inr s \<Rightarrow> universal_newlines s | Inl _ \<Rightarrow> [])"

definition cgroup_path :: "pystr option \<Rightarrow> int \<Rightarrow> pystr" where
  "cgroup_path override pid = (case override of Some p \<Rightarrow> p | None \<Rightarrow> lit ''/proc/'' @ show_int pid @ lit ''/cgroup'')"

text \<open>The checks that decide whether the process may be signalled.\<close>

definition check_process :: "machine \<Rightarrow> pystr option \<Rightarrow> int \<Rightarrow> bool res" where
  "check_process mc override pid =
     (case mc_owner mc (lit ''/proc/'' @ show_int pid) of
        Inl x \<Rightarrow> if is_OSError x then Inr False else Inl x
      | Inr uid \<Rightarrow>
          if uid \<noteq> mc_euid mc then Inr False
          else (case mc_read mc (cgroup_path override pid) of
                  Inl x \<Rightarrow> if is_OSError x then Inr False else Inl x
                | Inr bs \<Rightarrow> Inr (cgroup_names_service (cgroup_text bs))))"

text \<open>\<open>restart_kiosk\<close>: its result, with the signals it sent.\<close>

definition restart_kiosk :: "machine \<Rightarrow> pystr \<Rightarrow> pystr option \<Rightarrow> bool res \<times> (int \<times> int) list" where
  "restart_kiosk mc systemctl override =
     (case run_systemctl mc systemctl [lit ''-q'', lit ''is-active'', KIOSK_SERVICE] of
        Inl x \<Rightarrow> (Inl x, [])
      | Inr None \<Rightarrow> (Inr False, [])
      | Inr (Some (code, _)) \<Rightarrow>
          if code \<noteq> 0 then (Inr False, [])
          else (case run_systemctl mc systemctl [lit ''show'', lit ''--property'', lit ''MainPID'', lit ''--value'', KIOSK_SERVICE] of
            Inl x \<Rightarrow> (Inl x, [])
          | Inr None \<Rightarrow> (Inr False, [])
          | Inr (Some (code, out)) \<Rightarrow>
              if code \<noteq> 0 then (Inr False, [])
              else let pid_text = py_strip out in
                if \<not> py_isdigit pid_text then (Inr False, [])
                else (case py_int pid_text of
                  Inl x \<Rightarrow> (Inl x, [])
                | Inr pid \<Rightarrow>
                    if pid \<le> 1 then (Inr False, [])
                    else (case check_process mc override pid of
                      Inl x \<Rightarrow> (Inl x, [])
                    | Inr False \<Rightarrow> (Inr False, [])
                    | Inr True \<Rightarrow>
                        (case mc_kill mc pid SIGTERM of
                           Inr _ \<Rightarrow> (Inr True, [(pid, SIGTERM)])
                         | Inl x \<Rightarrow> (if is_OSError x then Inr False else Inl x, []))))))"

section \<open>The cgroup check\<close>

text \<open>The pattern finds exactly a whole path component of a line.\<close>

lemma service_no_edge: "\<forall>c \<in> set KIOSK_SERVICE. \<not> edge c"
  by (simp add: KIOSK_SERVICE_def edge_def lit_def)

lemma split_by_starts:
  assumes "\<forall>c \<in> set w. \<not> p c"
  shows "hd (split_by p s) = w \<longleftrightarrow> starts_with w s \<and> (drop (length w) s = [] \<or> p (hd (drop (length w) s)))"
  using assms
proof (induction s arbitrary: w)
  case Nil
  then show ?case by (auto simp: starts_with_def)
next
  case (Cons x xs)
  show ?case
  proof (cases "p x")
    case True
    then show ?thesis using Cons.prems by (cases w) (auto simp: starts_with_def)
  next
    case False
    obtain v vs where v: "split_by p xs = v # vs" by (cases "split_by p xs") auto
    then have h: "hd (split_by p (x # xs)) = x # v" using False by simp
    show ?thesis
    proof (cases w)
      case Nil
      then show ?thesis using h False by (simp add: starts_with_def)
    next
      case (Cons y ys)
      then show ?thesis using h v Cons.IH [of ys] Cons.prems by (auto simp: starts_with_def)
    qed
  qed
qed

lemma search_service_iff:
  "search_service b s \<longleftrightarrow> (b \<and> KIOSK_SERVICE = hd (split_by edge s)) \<or> KIOSK_SERVICE \<in> set (tl (split_by edge s))"
proof (induction s arbitrary: b)
  case Nil
  show ?case using split_by_starts [OF service_no_edge, of "[]"] by (subst search_service.simps) auto
next
  case (Cons x xs)
  obtain v vs where v: "split_by edge xs = v # vs" by (cases "split_by edge xs") auto
  have "KIOSK_SERVICE \<in> set (tl (split_by edge (x # xs))) \<longleftrightarrow>
      (edge x \<and> KIOSK_SERVICE = hd (split_by edge xs)) \<or> KIOSK_SERVICE \<in> set (tl (split_by edge xs))"
    using v by auto
  then show ?case
    using split_by_starts [OF service_no_edge, of "x # xs"] Cons.IH [of "edge x"]
    by (subst search_service.simps) auto
qed

lemma cgroup_names_component: "cgroup_names_service s \<longleftrightarrow> KIOSK_SERVICE \<in> set (split_by edge s)"
  unfolding cgroup_names_service_def search_service_iff by (cases "split_by edge s") auto

section \<open>Properties\<close>

text \<open>
  C39. A signal is sent to at most one process, it is \<open>SIGTERM\<close>, and only after the whole chain of checks: the fixed
  service is active, its main process has a decimal number above 1 and belongs to the caller's user, and the
  service's name is a whole component of a line of that process's cgroup. The call reports success exactly
  when the signal was sent.
\<close>

theorem restart_kiosk_validated:
  assumes "restart_kiosk mc systemctl override = (r, sent)"
  shows "(sent = [] \<and> r \<noteq> Inr True)
    \<or> (\<exists>pid out out' bs. sent = [(pid, SIGTERM)] \<and> r = Inr True \<and> 1 < pid
         \<and> mc_run mc [systemctl, lit ''-q'', lit ''is-active'', KIOSK_SERVICE] = Inr (0, out)
         \<and> mc_run mc [systemctl, lit ''show'', lit ''--property'', lit ''MainPID'', lit ''--value'', KIOSK_SERVICE] = Inr (0, out')
         \<and> py_isdigit (py_strip out') \<and> py_int (py_strip out') = Inr pid
         \<and> mc_owner mc (lit ''/proc/'' @ show_int pid) = Inr (mc_euid mc)
         \<and> mc_read mc (cgroup_path override pid) = Inr bs
         \<and> KIOSK_SERVICE \<in> set (split_by edge (cgroup_text bs)))"
proof (cases "sent = []")
  case True
  then show ?thesis
    using assms by (auto simp: restart_kiosk_def Let_def split: sum.splits option.splits prod.splits if_splits bool.splits)
next
  case False
  from assms False obtain out where a: "mc_run mc [systemctl, lit ''-q'', lit ''is-active'', KIOSK_SERVICE] = Inr (0, out)"
    by (auto simp: restart_kiosk_def run_systemctl_def split: sum.splits option.splits prod.splits if_splits)
  from assms False a obtain out' where
    b: "mc_run mc [systemctl, lit ''show'', lit ''--property'', lit ''MainPID'', lit ''--value'', KIOSK_SERVICE] = Inr (0, out')"
    by (auto simp: restart_kiosk_def run_systemctl_def split: sum.splits option.splits prod.splits if_splits)
  from assms False a b obtain pid where
    c: "py_isdigit (py_strip out')" "py_int (py_strip out') = Inr pid" "1 < pid"
      "check_process mc override pid = Inr True" "r = Inr True" "sent = [(pid, SIGTERM)]"
    by (auto simp: restart_kiosk_def run_systemctl_def Let_def split: sum.splits if_splits bool.splits)
  from c(4) obtain bs where
    "mc_owner mc (lit ''/proc/'' @ show_int pid) = Inr (mc_euid mc)" "mc_read mc (cgroup_path override pid) = Inr bs"
      "cgroup_names_service (cgroup_text bs)"
    by (auto simp: check_process_def split: sum.splits if_splits)
  with a b c show ?thesis unfolding cgroup_names_component by blast
qed

text \<open>A running kiosk whose cgroup names the service.\<close>

definition sample_machine :: "pystr \<Rightarrow> machine" where
  "sample_machine pid = \<lparr>
     mc_run = (\<lambda>args. Inr (0, if lit ''show'' \<in> set args then pid @ [10] else [])),
     mc_owner = (\<lambda>_. Inr 1000), mc_euid = 1000,
     mc_read = (\<lambda>_. Inr (bytes_of (lit ''0::/system.slice/sushida-kiosk.service'' @ [10]))),
     mc_kill = (\<lambda>_ _. Inr ())\<rparr>"

lemma sample_restart: "restart_kiosk (sample_machine (lit ''812'')) (lit ''systemctl'') None = (Inr True, [(812, 15)])"
  by code_simp

theorem restart_kiosk_validated_witness:
  "KIOSK_SERVICE \<in> set (split_by edge (cgroup_text (bytes_of (lit ''0::/system.slice/sushida-kiosk.service'' @ [10]))))
   \<and> restart_kiosk (sample_machine (lit ''812'')) (lit ''systemctl'') None = (Inr True, [(812, 15)])"
  using restart_kiosk_validated [OF sample_restart] sample_restart by (auto simp: sample_machine_def)

text \<open>\<open>isdigit\<close> also accepts digits that are not decimal, such as a superscript two, which \<open>int\<close> then refuses.\<close>

lemma superscript_pid_raises: "fst (restart_kiosk (sample_machine [178]) (lit ''systemctl'') None) = Inl ValueError"
  by code_simp

end
