(* ===== verification/Gen_Structure.thy ===== *)
theory Gen_Structure
  imports Py_Codec "HOL-Library.List_Lexorder"
begin

text \<open>
  \<open>tools/gen-structure.py\<close>: the listing of the repository. The two answers of \<open>git ls-files\<close> are arguments; the
  state is the contents of \<open>STRUCTURE.txt\<close>. A listing is read back to the list of files it was made from, so the
  check mode accepts a file exactly when it lists the current tree.
\<close>

section \<open>The model\<close>

record gitenv =
  gs_listed :: "bytes res"
  gs_deleted :: "bytes res"

definition OUTPUT_NAME :: pystr where "OUTPUT_NAME = lit ''STRUCTURE.txt''"

definition HEADER :: pystr where
  "HEADER = lit ''# Generated by tools/gen-structure.py from `git ls-files`.'' @ [10]
     @ lit ''# Do not edit by hand; run `make check-structure` to validate,'' @ [10]
     @ lit ''# and regenerate with `python3 tools/gen-structure.py`.'' @ [10]"

text \<open>The set comprehension over \<open>stdout.split(b"\0")\<close>.\<close>

fun decode_names :: "int list list \<Rightarrow> pystr list res" where
  "decode_names [] = Inr []"
| "decode_names (n # ns) =
     (if n = [] then decode_names ns
      else res_bind (utf8_decode_ints Strict n) (\<lambda>s. res_bind (decode_names ns) (\<lambda>r. Inr (s # r))))"

definition git_names :: "bytes res \<Rightarrow> pystr list res" where
  "git_names out = res_bind out (\<lambda>bs. decode_names (split_on 0 (ints_of bs)))"

text \<open>\<open>Path(name).name\<close>: the last component that is neither empty nor a single dot.\<close>

definition path_name :: "pystr \<Rightarrow> pystr" where
  "path_name name = (case filter (\<lambda>c. c \<noteq> [] \<and> c \<noteq> [46]) (split_on 47 name) of [] \<Rightarrow> [] | cs \<Rightarrow> last cs)"

definition tracked_files :: "gitenv \<Rightarrow> pystr list res" where
  "tracked_files g =
     res_bind (git_names (gs_listed g)) (\<lambda>names.
     res_bind (git_names (gs_deleted g)) (\<lambda>deleted.
     Inr (sort (remdups (filter (\<lambda>n. path_name n \<noteq> lit ''.gitkeep'')
            (OUTPUT_NAME # filter (\<lambda>n. n \<notin> set deleted) names))))))"

definition indent :: "nat \<Rightarrow> pystr" where
  "indent depth = replicate (2 * depth) 32"

text \<open>The directories of one path that were not emitted yet, with their lines.\<close>

fun dir_lines :: "pystr list \<Rightarrow> pystr list \<Rightarrow> nat list \<Rightarrow> pystr list \<times> pystr list" where
  "dir_lines emitted parts [] = (emitted, [])"
| "dir_lines emitted parts (depth # ds) =
     (let directory = join [47] (take (depth + 1) parts) in
      if directory \<in> set emitted then dir_lines emitted parts ds
      else (case dir_lines (directory # emitted) parts ds of (emitted', ls) \<Rightarrow>
              (emitted', (indent depth @ parts ! depth @ [47]) # ls)))"

fun render_paths :: "pystr list \<Rightarrow> pystr list \<Rightarrow> pystr list" where
  "render_paths emitted [] = []"
| "render_paths emitted (path # paths) =
     (let parts = split_on 47 path in
      case dir_lines emitted parts [0..<length parts - 1] of (emitted', ls) \<Rightarrow>
        ls @ (indent (length parts - 1) @ last parts) # render_paths emitted' paths)"

definition render :: "pystr list \<Rightarrow> pystr" where
  "render paths = join [10] (HEADER # render_paths [] paths) @ [10]"

text \<open>\<open>main\<close>: the exit status and the new contents of the file; \<open>None\<close> where there is no regular file.\<close>

definition structure_main :: "gitenv \<Rightarrow> pystr list \<Rightarrow> bytes option \<Rightarrow> int res \<times> bytes option" where
  "structure_main g argv file =
     (let check_only = (argv = [lit ''--check'']) in
      if argv \<noteq> [] \<and> \<not> check_only then (Inr 2, file)
      else (case res_bind (tracked_files g) (\<lambda>paths. Inr (render paths)) of
        Inl x \<Rightarrow> (Inl x, file)
      | Inr rendered \<Rightarrow>
          if check_only then
            (case (case file of Some bs \<Rightarrow> res_bind (utf8_decode Strict bs) (\<lambda>s. Inr (universal_newlines s)) | None \<Rightarrow> Inr []) of
               Inl x \<Rightarrow> (Inl x, file)
             | Inr current \<Rightarrow> (Inr (if current \<noteq> rendered then 1 else 0), file))
          else (case utf8_encode rendered of
                  Inl x \<Rightarrow> (Inl x, Some [])
                | Inr bs \<Rightarrow> (Inr 0, Some bs))))"

section \<open>Reading a listing\<close>

text \<open>Names that a line of the listing can carry: no slash, no line break, no leading space.\<close>

definition good_part :: "pystr \<Rightarrow> bool" where
  "good_part w \<longleftrightarrow> w \<noteq> [] \<and> 47 \<notin> set w \<and> 10 \<notin> set w \<and> 13 \<notin> set w \<and> hd w \<noteq> 32"

definition good_path :: "pystr \<Rightarrow> bool" where
  "good_path p \<longleftrightarrow> list_all good_part (split_on 47 p)"

fun unrender :: "pystr list \<Rightarrow> pystr list \<Rightarrow> pystr list list" where
  "unrender stack [] = []"
| "unrender stack (l # ls) =
     (let d = length (takeWhile (\<lambda>c. c = 32) l) div 2; name = dropWhile (\<lambda>c. c = 32) l in
      if last name = 47 then unrender (take d stack @ [butlast name]) ls
      else (take d stack @ [name]) # unrender stack ls)"

definition dir_line :: "pystr list \<Rightarrow> nat \<Rightarrow> pystr" where
  "dir_line parts depth = indent depth @ parts ! depth @ [47]"

definition file_line :: "pystr list \<Rightarrow> pystr" where
  "file_line parts = indent (length parts - 1) @ last parts"

declare unrender.simps(2) [simp del]

lemma scan_spaces:
  "takeWhile (\<lambda>c. c = 32) (replicate n 32 @ w) = replicate n 32 @ takeWhile (\<lambda>c. c = 32) w"
  "dropWhile (\<lambda>c. c = 32) (replicate n 32 @ w) = dropWhile (\<lambda>c. c = 32) w" for w :: "int list"
  by (induction n) simp_all

lemma scan_none:
  fixes w :: "int list"
  assumes "w \<noteq> []" "hd w \<noteq> 32"
  shows "takeWhile (\<lambda>c. c = 32) w = []" "dropWhile (\<lambda>c. c = 32) w = w"
  using assms by (cases w; simp)+

lemma unrender_line:
  assumes "w \<noteq> []" "hd w \<noteq> 32"
  shows "unrender s ((indent d @ w) # ls) =
    (if last w = 47 then unrender (take d s @ [butlast w]) ls else (take d s @ [w]) # unrender s ls)"
  by (simp add: unrender.simps(2) indent_def scan_spaces scan_none [OF assms])

lemma unrender_dir:
  assumes "good_part (parts ! d)"
  shows "unrender s (dir_line parts d # ls) = unrender (take d s @ [parts ! d]) ls"
proof -
  have "parts ! d @ [47] \<noteq> []" "hd (parts ! d @ [47]) \<noteq> 32" using assms by (auto simp: good_part_def)
  from unrender_line [OF this] show ?thesis by (simp add: dir_line_def)
qed

lemma unrender_file:
  assumes "good_part (last parts)"
  shows "unrender s (file_line parts # ls) = (take (length parts - 1) s @ [last parts]) # unrender s ls"
proof -
  have "last parts \<noteq> []" "hd (last parts) \<noteq> 32" using assms by (auto simp: good_part_def)
  moreover have "last (last parts) \<noteq> 47"
    using assms last_in_set [of "last parts"] by (metis good_part_def)
  ultimately show ?thesis using unrender_line [of "last parts"] by (simp add: file_line_def)
qed

lemma unrender_dirs:
  assumes "list_all good_part parts" and "take m s = take m parts" and "m \<le> k" and "k < length parts"
  shows "\<exists>s'. take k s' = take k parts \<and> unrender s (map (dir_line parts) [m..<k] @ ls) = unrender s' ls"
  using assms(3,4)
proof (induction k arbitrary: ls)
  case 0
  then show ?case using assms(2) by auto
next
  case (Suc k)
  show ?case
  proof (cases "m = Suc k")
    case True
    then show ?thesis using assms(2) by auto
  next
    case False
    then have mk: "m \<le> k" "k < length parts" using Suc.prems by auto
    obtain s' where s': "take k s' = take k parts"
      "unrender s (map (dir_line parts) [m..<k] @ dir_line parts k # ls) = unrender s' (dir_line parts k # ls)"
      using Suc.IH [OF mk] by blast
    have "good_part (parts ! k)" using assms(1) mk by (simp add: list_all_length)
    then have "unrender s (map (dir_line parts) [m..<Suc k] @ ls) = unrender (take k parts @ [parts ! k]) ls"
      using s' mk unrender_dir [of parts k s' ls] by simp
    moreover have "take (Suc k) (take k parts @ [parts ! k]) = take (Suc k) parts"
      using mk by (simp add: take_Suc_conv_app_nth)
    ultimately show ?thesis by blast
  qed
qed

text \<open>One path: its missing directories from depth \<open>m\<close> on, and its own line.\<close>

lemma unrender_path:
  assumes g: "list_all good_part parts" and ne: "parts \<noteq> []" and "take m s = take m parts" and "m \<le> length parts - 1"
  shows "\<exists>s'. take (length parts - 1) s' = butlast parts
    \<and> unrender s (map (dir_line parts) [m..<length parts - 1] @ file_line parts # ls) = parts # unrender s' ls"
proof -
  have k: "length parts - 1 < length parts" using ne by simp
  obtain s' where s': "take (length parts - 1) s' = take (length parts - 1) parts"
    "unrender s (map (dir_line parts) [m..<length parts - 1] @ file_line parts # ls) = unrender s' (file_line parts # ls)"
    using unrender_dirs [OF g assms(3,4) k] by blast
  moreover have "good_part (last parts)" using g ne by (simp add: list_all_iff)
  ultimately have "unrender s (map (dir_line parts) [m..<length parts - 1] @ file_line parts # ls) = parts # unrender s' ls"
    using append_butlast_last_id [OF ne] by (simp add: unrender_file butlast_conv_take)
  then show ?thesis using s'(1) by (auto simp: butlast_conv_take)
qed

section \<open>The directories of a sorted list\<close>

lemma downward_bound:
  assumes "\<And>k. Suc k < N \<Longrightarrow> P (Suc k) \<Longrightarrow> P k"
  shows "\<exists>m \<le> N. \<forall>k < N. P k \<longleftrightarrow> k < m"
  using assms
proof (induction N)
  case (Suc N)
  then obtain m where m: "m \<le> N" "\<forall>k < N. P k \<longleftrightarrow> k < m" by auto
  have down: "k < N \<Longrightarrow> P (Suc k) \<Longrightarrow> P k" for k using Suc.prems by simp
  show ?case
  proof (cases "P N")
    case True
    have "P k" if "k \<le> N" for k
    proof -
      have "P (N - j)" if "j \<le> N" for j using that
      proof (induction j)
        case (Suc j)
        then have "P (Suc (N - Suc j))" by (simp add: Suc_diff_Suc)
        then show ?case by (rule down [rotated]) (use Suc.prems in simp)
      qed (simp add: True)
      from this [of "N - k"] show ?thesis using that by simp
    qed
    then show ?thesis by (intro exI [of _ "Suc N"]) auto
  next
    case False
    then show ?thesis using m by (intro exI [of _ m]) (auto simp: less_Suc_eq)
  qed
qed simp

text \<open>Strings with a common beginning are contiguous in a sorted list.\<close>

lemma prefix_convex:
  assumes "(x @ a :: int list) \<le> b" and "b \<le> x @ c"
  shows "\<exists>r. b = x @ r"
  using assms
proof (induction x arbitrary: b)
  case (Cons y x)
  then obtain b' where b: "b = y # b'" by (cases b) auto
  then show ?case using Cons by auto
qed simp

abbreviation parts_of :: "pystr \<Rightarrow> pystr list" where "parts_of \<equiv> split_on 47"

definition dir_at :: "pystr list \<Rightarrow> nat \<Rightarrow> pystr" where
  "dir_at parts k = join [47] (take (Suc k) parts)"

lemma parts_of_facts: "parts_of p \<noteq> []" "join [47] (parts_of p) = p" "\<forall>w \<in> set (parts_of p). 47 \<notin> set w"
  using split_by_pieces [of _ "\<lambda>x. x = 47" p] by (auto simp: split_on_def join_split_on [unfolded split_on_def])

lemma parts_of_dir: "parts_of (dir_at (parts_of p) k) = take (Suc k) (parts_of p)"
  unfolding dir_at_def using parts_of_facts [of p] by (intro split_on_join) (auto dest: in_set_takeD)

lemma join_take:
  "Suc k < length ws \<Longrightarrow> join sep ws = join sep (take (Suc k) ws) @ sep @ join sep (drop (Suc k) ws)"
proof (induction k arbitrary: ws)
  case 0
  then show ?case by (cases ws; cases "tl ws") auto
next
  case (Suc k)
  then obtain w v vs where ws: "ws = w # v # vs" by (cases ws; cases "tl ws") auto
  then have "Suc k < length (v # vs)" using Suc.prems by simp
  then have ih: "join sep (v # vs) = join sep (take (Suc k) (v # vs)) @ sep @ join sep (drop (Suc k) (v # vs))" by (rule Suc.IH)
  show ?case unfolding ws using ih by simp
qed

lemma dir_prefix:
  assumes "k < length (parts_of p) - 1"
  shows "\<exists>r. p = dir_at (parts_of p) k @ [47] @ r"
proof -
  have "Suc k < length (parts_of p)" using assms by simp
  from join_take [OF this, of "[47]"] show ?thesis unfolding dir_at_def parts_of_facts(2) by blast
qed

lemma split_by_sep: "p c \<Longrightarrow> split_by p (a @ c # b) = split_by p a @ split_by p b"
  by (induction a) (auto split: list.splits)

lemma sorted_last: "sorted xs \<Longrightarrow> x \<in> set xs \<Longrightarrow> x \<le> last xs"
  by (induction xs) auto

lemma parts_of_under:
  assumes "p = dir_at (parts_of q) k @ [47] @ r"
  shows "parts_of p = take (Suc k) (parts_of q) @ parts_of r"
proof -
  have "parts_of p = parts_of (dir_at (parts_of q) k) @ parts_of r"
    unfolding assms split_on_def by (simp add: split_by_sep)
  then show ?thesis by (simp add: parts_of_dir)
qed

text \<open>The directories the paths of a list lie in.\<close>

definition dirs_of :: "pystr list \<Rightarrow> pystr set" where
  "dirs_of ps = (\<Union>p \<in> set ps. dir_at (parts_of p) ` {0..<length (parts_of p) - 1})"

lemma dirs_contiguous:
  assumes "sorted (dn @ [q])" and "dir_at (parts_of q) k \<in> dirs_of dn" and "k < length (parts_of q) - 1"
  shows "take (Suc k) (parts_of (last dn)) = take (Suc k) (parts_of q) \<and> Suc k < length (parts_of (last dn))"
proof -
  obtain p' k' where p': "p' \<in> set dn" "k' < length (parts_of p') - 1" "dir_at (parts_of p') k' = dir_at (parts_of q) k"
    using assms(2) by (auto simp: dirs_of_def)
  obtain a where a: "p' = dir_at (parts_of q) k @ [47] @ a" using dir_prefix [OF p'(2)] p'(3) by auto
  obtain c where c: "q = dir_at (parts_of q) k @ [47] @ c" using dir_prefix [OF assms(3)] by blast
  have dn: "dn \<noteq> []" using p'(1) by auto
  have le: "p' \<le> last dn" "last dn \<le> q"
    using assms(1) dn p'(1) by (auto simp: sorted_append intro: sorted_last)
  obtain r where r: "last dn = dir_at (parts_of q) k @ [47] @ r"
    using prefix_convex [of "dir_at (parts_of q) k @ [47]" a "last dn" c] le a c by auto
  have "parts_of (last dn) = take (Suc k) (parts_of q) @ parts_of r" by (rule parts_of_under [OF r])
  then show ?thesis using assms(3) parts_of_facts(1) [of r] by (cases "parts_of r") auto
qed

lemma dir_lines_append:
  "dir_lines e parts (xs @ ys) =
     (case dir_lines e parts xs of (e1, l1) \<Rightarrow> case dir_lines e1 parts ys of (e2, l2) \<Rightarrow> (e2, l1 @ l2))"
  by (induction xs arbitrary: e) (auto simp: Let_def split: prod.split)

lemma dir_lines_known: "\<forall>k \<in> set ds. dir_at parts k \<in> set e \<Longrightarrow> dir_lines e parts ds = (e, [])"
  by (induction ds) (auto simp: dir_at_def)

lemma dir_lines_new:
  assumes "distinct ds" and "\<forall>k \<in> set ds. dir_at parts k \<notin> set e" and "inj_on (dir_at parts) (set ds)"
  shows "\<exists>e'. dir_lines e parts ds = (e', map (dir_line parts) ds) \<and> set e' = set e \<union> dir_at parts ` set ds"
  using assms
proof (induction ds arbitrary: e)
  case (Cons d ds)
  have "\<forall>k \<in> set ds. dir_at parts k \<notin> set (dir_at parts d # e)"
    using Cons.prems by (auto simp: inj_on_def)
  then obtain e' where e': "dir_lines (dir_at parts d # e) parts ds = (e', map (dir_line parts) ds)"
    "set e' = set (dir_at parts d # e) \<union> dir_at parts ` set ds"
    using Cons.IH [of "dir_at parts d # e"] Cons.prems by (auto simp: inj_on_def)
  moreover have "join [47] (take (d + 1) parts) = dir_at parts d" by (simp add: dir_at_def)
  ultimately show ?case using Cons.prems(2) by (auto simp: Let_def dir_line_def)
qed simp

lemma dir_at_inj: "inj_on (dir_at (parts_of p)) {k. k < length (parts_of p)}"
proof (rule inj_onI)
  fix j k
  assume a: "j \<in> {k. k < length (parts_of p)}" "k \<in> {k. k < length (parts_of p)}"
    "dir_at (parts_of p) j = dir_at (parts_of p) k"
  then have "take (Suc j) (parts_of p) = take (Suc k) (parts_of p)" using parts_of_dir by metis
  then have "length (take (Suc j) (parts_of p)) = length (take (Suc k) (parts_of p))" by simp
  then show "j = k" using a by simp
qed

lemma dirs_of_append: "dirs_of (dn @ [q]) = dirs_of dn \<union> dir_at (parts_of q) ` {0..<length (parts_of q) - 1}"
  by (auto simp: dirs_of_def)

lemma dirs_downward:
  assumes "dir_at (parts_of q) (Suc k) \<in> dirs_of dn" and "Suc k < length (parts_of q) - 1"
  shows "dir_at (parts_of q) k \<in> dirs_of dn"
proof -
  obtain p j where p: "p \<in> set dn" "j < length (parts_of p) - 1" "dir_at (parts_of p) j = dir_at (parts_of q) (Suc k)"
    using assms(1) by (auto simp: dirs_of_def)
  have t: "take (Suc j) (parts_of p) = take (Suc (Suc k)) (parts_of q)" using p(3) parts_of_dir by metis
  then have "length (take (Suc j) (parts_of p)) = length (take (Suc (Suc k)) (parts_of q))" by simp
  then have "j = Suc k" using p(2) assms(2) by simp
  with t have "take (Suc k) (take (Suc (Suc k)) (parts_of p)) = take (Suc k) (take (Suc (Suc k)) (parts_of q))" by simp
  then have "dir_at (parts_of q) k = dir_at (parts_of p) k" by (simp add: dir_at_def)
  moreover have "dir_at (parts_of p) k \<in> dirs_of dn"
    unfolding dirs_of_def by (rule UN_I [OF p(1)], rule imageI) (use p(2) \<open>j = Suc k\<close> in simp)
  ultimately show ?thesis by simp
qed

text \<open>One path of a sorted list: exactly its directories from some depth \<open>m\<close> on are new, and the stack holds the others.\<close>

lemma next_path:
  assumes "sorted (dn @ [q])" and "set e = dirs_of dn"
    and "dn = [] \<or> take (length (parts_of (last dn)) - 1) s = butlast (parts_of (last dn))"
  obtains m e' where "m \<le> length (parts_of q) - 1" "take m s = take m (parts_of q)"
    "dir_lines e (parts_of q) [0..<length (parts_of q) - 1] = (e', map (dir_line (parts_of q)) [m..<length (parts_of q) - 1])"
    "set e' = dirs_of (dn @ [q])"
proof -
  let ?n = "length (parts_of q) - 1" and ?P = "\<lambda>k. dir_at (parts_of q) k \<in> set e"
  obtain m where m: "m \<le> ?n" "\<forall>k < ?n. ?P k \<longleftrightarrow> k < m"
    using downward_bound [of ?n ?P] dirs_downward assms(2) by auto
  have "take m s = take m (parts_of q)"
  proof (cases m)
    case (Suc k)
    then have in_e: "dir_at (parts_of q) k \<in> dirs_of dn" and k: "k < ?n" using m assms(2) by auto
    note c = dirs_contiguous [OF assms(1) in_e k]
    have "dn \<noteq> []" using in_e by (auto simp: dirs_of_def)
    then have s: "take (length (parts_of (last dn)) - 1) s = butlast (parts_of (last dn))" using assms(3) by simp
    have le: "m \<le> length (parts_of (last dn)) - 1" using c Suc by linarith
    have "take m s = take m (take (length (parts_of (last dn)) - 1) s)" using le by (simp add: min_absorb1)
    also have "\<dots> = take m (parts_of (last dn))" unfolding s using le by (simp add: butlast_conv_take min_absorb1)
    finally show ?thesis using c Suc by simp
  qed simp
  moreover have "\<exists>e'. dir_lines e (parts_of q) [0..<?n] = (e', map (dir_line (parts_of q)) [m..<?n]) \<and> set e' = dirs_of (dn @ [q])"
  proof -
    have "m + (?n - m) = ?n" using m(1) by simp
    then have sp: "[0..<?n] = [0..<m] @ [m..<?n]" using upt_add_eq_append [of 0 m "?n - m"] by (metis zero_le)
    have known: "dir_lines e (parts_of q) [0..<m] = (e, [])" using m by (intro dir_lines_known) auto
    have inj: "inj_on (dir_at (parts_of q)) (set [m..<?n])"
      by (rule inj_on_subset [OF dir_at_inj]) auto
    have nw: "\<forall>k \<in> set [m..<?n]. dir_at (parts_of q) k \<notin> set e" using m by auto
    obtain e' where e': "dir_lines e (parts_of q) [m..<?n] = (e', map (dir_line (parts_of q)) [m..<?n])"
      "set e' = set e \<union> dir_at (parts_of q) ` set [m..<?n]"
      using dir_lines_new [OF distinct_upt nw inj] by blast
    have "dir_at (parts_of q) ` {0..<m} \<subseteq> dirs_of dn" using m assms(2) by auto
    moreover have "{0..<?n} = {0..<m} \<union> {m..<?n}" using m(1) by auto
    ultimately have "set e' = dirs_of (dn @ [q])" unfolding dirs_of_append e'(2) assms(2) by auto
    then show ?thesis unfolding sp dir_lines_append known using e'(1) by simp
  qed
  ultimately show ?thesis using that m(1) by blast
qed

lemma unrender_render:
  assumes "sorted (dn @ todo)" and "list_all good_path todo" and "set e = dirs_of dn"
    and "dn = [] \<or> take (length (parts_of (last dn)) - 1) s = butlast (parts_of (last dn))"
  shows "unrender s (render_paths e todo) = map parts_of todo"
  using assms
proof (induction todo arbitrary: dn e s)
  case (Cons q todo)
  have "sorted (dn @ [q])" using Cons.prems(1) by (simp add: sorted_append)
  from next_path [OF this Cons.prems(3,4)] obtain m e' where m: "m \<le> length (parts_of q) - 1" "take m s = take m (parts_of q)"
    "dir_lines e (parts_of q) [0..<length (parts_of q) - 1] = (e', map (dir_line (parts_of q)) [m..<length (parts_of q) - 1])"
    "set e' = dirs_of (dn @ [q])" .
  have g: "list_all good_part (parts_of q)" using Cons.prems(2) by (simp add: good_path_def)
  obtain s' where s': "take (length (parts_of q) - 1) s' = butlast (parts_of q)"
    "unrender s (map (dir_line (parts_of q)) [m..<length (parts_of q) - 1] @ file_line (parts_of q) # render_paths e' todo)
       = parts_of q # unrender s' (render_paths e' todo)"
    using unrender_path [OF g parts_of_facts(1) m(2,1)] by blast
  have "unrender s' (render_paths e' todo) = map parts_of todo"
    using Cons.IH [of "dn @ [q]" e' s'] Cons.prems(1,2) m(4) s'(1) by simp
  then show ?case using m(3) s'(2) by (simp add: Let_def file_line_def)
qed simp

section \<open>What the listing says\<close>

lemma dir_lines_of:
  "dir_lines e parts ds = (e', ls) \<Longrightarrow> \<forall>l \<in> set ls. \<exists>k \<in> set ds. l = dir_line parts k"
proof (induction ds arbitrary: e e' ls)
  case (Cons d ds)
  obtain e2 ls2 where r: "dir_lines (join [47] (take (d + 1) parts) # e) parts ds = (e2, ls2)"
    by (cases "dir_lines (join [47] (take (d + 1) parts) # e) parts ds")
  show ?case
    using Cons.prems Cons.IH [OF r] Cons.IH [of e e' ls] r by (auto simp: Let_def dir_line_def split: if_splits)
qed simp

lemma good_lines:
  assumes "list_all good_path paths"
  shows "list_all (\<lambda>l. 10 \<notin> set l \<and> 13 \<notin> set l) (render_paths e paths)"
  using assms
proof (induction paths arbitrary: e)
  case (Cons p ps)
  have part: "10 \<notin> set w \<and> 13 \<notin> set w" if "w \<in> set (parts_of p)" for w
    using Cons.prems that by (auto simp: good_path_def good_part_def list_all_iff)
  obtain e' ls where d: "dir_lines e (parts_of p) [0..<length (parts_of p) - 1] = (e', ls)" by (cases "dir_lines e (parts_of p) [0..<length (parts_of p) - 1]")
  have "\<forall>l \<in> set ls. \<exists>k \<in> set [0..<length (parts_of p) - 1]. l = dir_line (parts_of p) k" by (rule dir_lines_of [OF d])
  then have "list_all (\<lambda>l. 10 \<notin> set l \<and> 13 \<notin> set l) ls"
    using part by (fastforce simp: list_all_iff dir_line_def indent_def)
  moreover have "last (parts_of p) \<in> set (parts_of p)" using parts_of_facts(1) by (rule last_in_set)
  then have "10 \<notin> set (file_line (parts_of p)) \<and> 13 \<notin> set (file_line (parts_of p))"
    using part by (auto simp: file_line_def indent_def)
  ultimately show ?case using Cons.IH [of e'] Cons.prems by (simp add: Let_def d [simplified] file_line_def)
qed simp

lemma render_split:
  assumes "list_all (\<lambda>l. 10 \<notin> set l) ls"
  shows "split_on 10 (join [10] (HEADER # ls) @ [10]) = split_on 10 HEADER @ ls @ [[]]"
proof -
  have h: "HEADER = butlast HEADER @ [10]" by code_simp
  have "split_on 10 (w @ [10]) = split_on 10 w @ [[]]" for w by (simp add: split_on_def split_by_sep)
  moreover have "split_on 10 (join [10] (HEADER # ls)) = split_on 10 HEADER @ ls"
  proof (cases ls)
    case (Cons l ls')
    have "split_on 10 (join [10] ls) = ls" using assms Cons by (intro split_on_join) (auto simp: list_all_iff)
    then show ?thesis using Cons by (simp add: split_on_def split_by_sep)
  qed simp
  ultimately show ?thesis by simp
qed

lemma render_inj:
  assumes "sorted ps" "list_all good_path ps" "sorted qs" "list_all good_path qs" and "render ps = render qs"
  shows "ps = qs"
proof -
  have l: "list_all (\<lambda>l. 10 \<notin> set l) (render_paths [] xs)" if "list_all good_path xs" for xs
    using good_lines [OF that, of "[]"] by (auto simp: list_all_iff)
  have "render_paths [] ps = render_paths [] qs"
    using arg_cong [OF assms(5), of "split_on 10"] unfolding render_def render_split [OF l [OF assms(2)]] render_split [OF l [OF assms(4)]]
    by simp
  moreover have "unrender [] (render_paths [] xs) = map parts_of xs" if "sorted xs" "list_all good_path xs" for xs
    using unrender_render [of "[]" xs "[]" "[]"] that by (simp add: dirs_of_def)
  ultimately have "map parts_of ps = map parts_of qs" using assms(1-4) by metis
  then have "map (join [47]) (map parts_of ps) = map (join [47]) (map parts_of qs)" by (rule arg_cong)
  then show ?thesis by (simp add: parts_of_facts(2) comp_def)
qed

section \<open>What is written can be read back\<close>

lemma strict_encodable:
  "list_all byte_value bs \<Longrightarrow> utf8_decode_ints Strict bs = Inr s \<Longrightarrow> encodable s"
proof (induction "Strict" bs arbitrary: s rule: utf8_decode_ints.induct)
  case (2 b r)
  then have b: "0 \<le> b" by (simp add: byte_value_def)
  obtain c r' s' where st: "utf8_step b r = Inr (c, r')" "utf8_decode_ints Strict r' = Inr s'" "s = c # s'"
    using 2(5) by (auto simp: res_bind_def split: sum.splits)
  note inv = utf8_step_inv [OF st(1) b]
  have "list_all byte_value r'" using inv 2(4) by (metis list_all_append)
  then have "encodable s'" using 2(3) st by blast
  then show ?case using inv st(3) by (simp add: encodable_def)
qed (simp add: encodable_def)

lemma split_on_bytes: "list_all byte_value bs \<Longrightarrow> list_all (list_all byte_value) (split_on 0 bs)"
  unfolding split_on_def by (induction bs) (auto split: list.splits)

lemma git_names_encodable:
  assumes "git_names out = Inr ns"
  shows "list_all encodable ns"
proof -
  obtain bs where bs: "out = Inr bs" "decode_names (split_on 0 (ints_of bs)) = Inr ns"
    using assms by (auto simp: git_names_def res_bind_def split: sum.splits)
  have "list_all encodable ns" if "list_all (list_all byte_value) ws" "decode_names ws = Inr ns" for ws ns
    using that by (induction ws arbitrary: ns) (auto simp: res_bind_def strict_encodable split: sum.splits if_splits)
  then show ?thesis using bs(2) split_on_bytes [OF ints_of_byte_values [of bs]] by blast
qed

lemma tracked_facts:
  assumes "tracked_files g = Inr ps"
  shows "sorted ps" "distinct ps" "list_all encodable ps" "OUTPUT_NAME \<in> set ps"
proof -
  obtain ns ds where n: "git_names (gs_listed g) = Inr ns"
    "ps = sort (remdups (filter (\<lambda>n. path_name n \<noteq> lit ''.gitkeep'') (OUTPUT_NAME # filter (\<lambda>n. n \<notin> set ds) ns)))"
    using assms by (auto simp: tracked_files_def res_bind_def split: sum.splits)
  have o: "encodable OUTPUT_NAME" "path_name OUTPUT_NAME \<noteq> lit ''.gitkeep''" by code_simp+
  show "sorted ps" "distinct ps" using n(2) by simp_all
  show "list_all encodable ps" "OUTPUT_NAME \<in> set ps"
    using git_names_encodable [OF n(1)] o unfolding n(2) by (auto simp: list_all_iff)
qed

lemma encodable_append [simp]: "encodable (a @ b) \<longleftrightarrow> encodable a \<and> encodable b"
  by (simp add: encodable_def)

lemma encodable_join: "encodable sep \<Longrightarrow> list_all encodable ws \<Longrightarrow> encodable (join sep ws)"
  by (induction sep ws rule: join.induct) (auto simp: encodable_def)

lemma encodable_indent: "encodable (indent d)"
  by (simp add: indent_def encodable_def valid_cp_def is_surrogate_def list_all_iff)

lemma encodable_parts: "encodable p \<Longrightarrow> list_all encodable (parts_of p)"
  unfolding split_on_def encodable_def by (induction p) (auto split: list.splits)

lemma render_paths_encodable: "list_all encodable ps \<Longrightarrow> list_all encodable (render_paths e ps)"
proof (induction ps arbitrary: e)
  case (Cons p ps)
  have parts: "encodable w" if "w \<in> set (parts_of p)" for w
    using Cons.prems encodable_parts [of p] that by (simp add: list_all_iff)
  obtain e' ls where d: "dir_lines e (parts_of p) [0..<length (parts_of p) - 1] = (e', ls)"
    by (cases "dir_lines e (parts_of p) [0..<length (parts_of p) - 1]")
  have "\<forall>l \<in> set ls. \<exists>k \<in> set [0..<length (parts_of p) - 1]. l = dir_line (parts_of p) k" by (rule dir_lines_of [OF d])
  then have "\<forall>l \<in> set ls. encodable l"
    using parts by (fastforce simp: dir_line_def encodable_indent encodable_def [of "[47]"] valid_cp_def is_surrogate_def)
  moreover have "encodable (last (parts_of p))" using parts parts_of_facts(1) last_in_set by blast
  ultimately show ?case using Cons.IH [of e'] Cons.prems by (auto simp: Let_def d [simplified] encodable_indent list_all_iff)
qed simp

lemma render_encodable: "list_all encodable ps \<Longrightarrow> encodable (render ps)"
proof -
  assume "list_all encodable ps"
  then have "list_all encodable (HEADER # render_paths [] ps)" using render_paths_encodable by simp code_simp
  moreover have "encodable [10]" by code_simp
  ultimately show ?thesis unfolding render_def encodable_append using encodable_join by blast
qed

lemma join_no: "c \<notin> set sep \<Longrightarrow> list_all (\<lambda>w. c \<notin> set w) ws \<Longrightarrow> c \<notin> set (join sep ws)"
  by (induction sep ws rule: join.induct) auto

lemma render_no_cr: "list_all good_path ps \<Longrightarrow> 13 \<notin> set (render ps)"
proof -
  assume g: "list_all good_path ps"
  have "13 \<notin> set HEADER" by code_simp
  then have "list_all (\<lambda>w. 13 \<notin> set w) (HEADER # render_paths [] ps)" using good_lines [OF g] by (auto simp: list_all_iff)
  then show ?thesis unfolding render_def using join_no [of 13 "[10]"] by simp
qed

text \<open>The text that the check mode reads from a listing.\<close>

lemma read_listing:
  assumes "list_all good_path qs" and "utf8_encode (render qs) = Inr bs" and "encodable (render qs)"
  shows "res_bind (utf8_decode Strict bs) (\<lambda>s. Inr (universal_newlines s)) = Inr (render qs)"
  using assms(2) utf8_roundtrip [OF assms(3)] universal_newlines_id [OF render_no_cr [OF assms(1)]]
  by (simp add: utf8_encode_encodable [OF assms(3)])

section \<open>Properties\<close>

text \<open>
  The check mode is exact: if the repository's files have names a line can carry, a file that holds the listing of
  a sorted list of such names passes (exit status 0) exactly when that list is the one of the current tree, and the
  file is left alone.
\<close>

theorem structure_check_exact:
  assumes "tracked_files g = Inr ps" and "list_all good_path ps"
    and "sorted qs" and "list_all good_path qs" and "list_all encodable qs" and "utf8_encode (render qs) = Inr bs"
  shows "structure_main g [lit ''--check''] (Some bs) = (Inr (if qs = ps then 0 else 1), Some bs)"
proof -
  have "render qs = render ps \<longleftrightarrow> qs = ps"
    using render_inj [OF assms(3,4) tracked_facts(1) [OF assms(1)] assms(2)] by blast
  then show ?thesis
    using assms(1) read_listing [OF assms(4,6) render_encodable [OF assms(5)]]
    by (simp add: structure_main_def)
qed

text \<open>
  Generating and then checking succeeds: whatever the file held before, the generator returns 0 and writes a file
  that the check accepts in the tree that results, where \<open>git\<close> may or may not have come to list the written file itself
  and reports the same other names.
\<close>

theorem structure_generate_then_check:
  assumes "tracked_files g = Inr ps" and "list_all good_path ps"
    and "git_names (gs_listed g) = Inr ns" and "git_names (gs_deleted g) = Inr ds"
    and "git_names (gs_listed g') = Inr ns'" and "git_names (gs_deleted g') = Inr ds'"
    and "set ns' - {OUTPUT_NAME} = set ns - {OUTPUT_NAME}" and "set ds' - {OUTPUT_NAME} = set ds - {OUTPUT_NAME}"
  shows "\<exists>bs. structure_main g [] file = (Inr 0, Some bs) \<and> structure_main g' [lit ''--check''] (Some bs) = (Inr 0, Some bs)"
proof -
  have enc: "encodable (render ps)" by (rule render_encodable [OF tracked_facts(3) [OF assms(1)]])
  obtain bs where bs: "utf8_encode (render ps) = Inr bs" using utf8_encode_encodable [OF enc] by blast
  let ?keep = "\<lambda>ns ds. filter (\<lambda>n. path_name n \<noteq> lit ''.gitkeep'') (OUTPUT_NAME # filter (\<lambda>n. n \<notin> set ds) ns)"
  have "set (?keep ns' ds') = set (?keep ns ds)" using assms(7,8) by auto
  then have "sort (remdups (?keep ns' ds')) = sort (remdups (?keep ns ds))"
    by (intro sorted_distinct_set_unique) simp_all
  moreover have "ps = sort (remdups (?keep ns ds))" using assms(1,3,4) by (simp add: tracked_files_def)
  ultimately have t': "tracked_files g' = Inr ps" using assms(5,6) by (simp add: tracked_files_def)
  have "structure_main g [] file = (Inr 0, Some bs)" using assms(1) bs by (simp add: structure_main_def)
  moreover have "structure_main g' [lit ''--check''] (Some bs) = (Inr 0, Some bs)"
    using t' read_listing [OF assms(2) bs enc] by (simp add: structure_main_def)
  ultimately show ?thesis by blast
qed

section \<open>Concrete trees\<close>

definition sample_git :: "pystr \<Rightarrow> pystr \<Rightarrow> gitenv" where
  "sample_git listed deleted = \<lparr>gs_listed = Inr (bytes_of listed), gs_deleted = Inr (bytes_of deleted)\<rparr>"

definition sample_tree :: gitenv where
  "sample_tree = sample_git (lit ''src/wifi/web.py'' @ [0] @ lit ''README.md'' @ [0] @ lit ''old'' @ [0] @ lit ''src/.gitkeep'' @ [0])
     (lit ''old'' @ [0])"

definition sample_listed :: gitenv where
  "sample_listed = sample_git (lit ''src/wifi/web.py'' @ [0] @ lit ''README.md'' @ [0] @ lit ''STRUCTURE.txt'' @ [0] @ lit ''old'' @ [0]
     @ lit ''src/.gitkeep'' @ [0]) (lit ''old'' @ [0])"

definition sample_paths :: "pystr list" where
  "sample_paths = [lit ''README.md'', lit ''STRUCTURE.txt'', lit ''src/wifi/web.py'']"

lemma sample_facts:
  "tracked_files sample_tree = Inr sample_paths" "list_all good_path sample_paths" "list_all encodable sample_paths"
  "sorted sample_paths"
  "utf8_encode (render sample_paths) = Inr (bytes_of (utf8_ints (render sample_paths)))"
proof -
  show t: "tracked_files sample_tree = Inr sample_paths" by code_simp
  show "list_all good_path sample_paths" by code_simp
  show "list_all encodable sample_paths" by (rule tracked_facts [OF t])
  then show "utf8_encode (render sample_paths) = Inr (bytes_of (utf8_ints (render sample_paths)))"
    by (rule utf8_encode_encodable [OF render_encodable])
  show "sorted sample_paths" by (rule tracked_facts [OF t])
qed

theorem structure_check_exact_witness:
  "structure_main sample_tree [lit ''--check''] (Some (bytes_of (utf8_ints (render sample_paths))))
     = (Inr 0, Some (bytes_of (utf8_ints (render sample_paths))))"
  using structure_check_exact [OF sample_facts(1,2,4,2,3,5)] by simp

lemma sample_names:
  "git_names (gs_listed sample_tree) = Inr [lit ''src/wifi/web.py'', lit ''README.md'', lit ''old'', lit ''src/.gitkeep'']"
  "git_names (gs_deleted sample_tree) = Inr [lit ''old'']"
  by code_simp+

lemma sample_listed_names:
  "git_names (gs_listed sample_listed)
     = Inr [lit ''src/wifi/web.py'', lit ''README.md'', lit ''STRUCTURE.txt'', lit ''old'', lit ''src/.gitkeep'']"
  "git_names (gs_deleted sample_listed) = Inr [lit ''old'']"
  by code_simp+

theorem structure_generate_then_check_witness:
  "\<exists>bs. structure_main sample_tree [] None = (Inr 0, Some bs)
     \<and> structure_main sample_listed [lit ''--check''] (Some bs) = (Inr 0, Some bs)"
  by (rule structure_generate_then_check [OF sample_facts(1,2) sample_names sample_listed_names]) (auto simp: OUTPUT_NAME_def lit_def)

end
