(* ===== verification/Py_Dyn.thy ===== *)
theory Py_Dyn
  imports Complex_Main Py_Json "HOL-Library.List_Lexorder"
begin

text \<open>
  Python's operations on values that come from a JSON document, with the exceptions that a value of another type
  raises: lookup, membership, iteration, truth, equality and order across numbers (floats rounded to binary64,
  half to even), \<open>repr\<close>, \<open>str\<close> and \<open>json.dumps\<close> with sorted keys. Which characters beyond ASCII are printable is an
  argument. The literal \<open>-0.0\<close> is read as \<open>0.0\<close>.
\<close>

section \<open>Numbers\<close>

datatype pynum = Fin rat | PInf | NInf | NaN

function bit_length :: "int \<Rightarrow> int" where
  "bit_length n = (if n \<le> 0 then 0 else 1 + bit_length (n div 2))"
  by pat_completeness auto
termination
  by (relation "measure nat") auto

declare bit_length.simps [simp del]

definition half_even :: "int \<Rightarrow> int \<Rightarrow> int" where
  "half_even n d =
     (let q = n div d; r = n mod d in if d < 2 * r \<or> (2 * r = d \<and> odd q) then q + 1 else q)"

definition scaled :: "int \<Rightarrow> int \<Rightarrow> int \<Rightarrow> int \<times> int" where
  "scaled num den x = (if 0 \<le> x then (num, den * 2 ^ nat x) else (num * 2 ^ nat (- x), den))"

text \<open>The double nearest to the quotient of a natural and a positive number.\<close>

definition round64 :: "int \<Rightarrow> int \<Rightarrow> pynum" where
  "round64 num den =
     (if num = 0 then Fin 0
      else let x0 = bit_length num - bit_length den - 53;
               (n0, d0) = scaled num den x0;
               x = max (if 2 ^ 53 \<le> n0 div d0 then x0 + 1 else x0) (-1074);
               (n, d) = scaled num den x;
               q = half_even n d
           in if 2 ^ 53 \<le> q \<and> x = 971 \<or> 971 < x then PInf
              else Fin (if 0 \<le> x then of_int (q * 2 ^ nat x) else of_int q / of_int (2 ^ nat (- x))))"

fun neg_num :: "pynum \<Rightarrow> pynum" where
  "neg_num (Fin r) = Fin (- r)"
| "neg_num PInf = NInf"
| "neg_num NInf = PInf"
| "neg_num NaN = NaN"

definition dec64 :: "int \<Rightarrow> int \<Rightarrow> pynum" where
  "dec64 m e =
     (let v = (if 0 \<le> e then round64 (\<bar>m\<bar> * 10 ^ nat e) 1 else round64 \<bar>m\<bar> (10 ^ nat (- e)))
      in if m < 0 then neg_num v else v)"

fun float_num :: "jfloat \<Rightarrow> pynum" where
  "float_num (FDec m e) = dec64 m e"
| "float_num FNaN = NaN"
| "float_num FInf = PInf"
| "float_num FNegInf = NInf"

fun num_of :: "json \<Rightarrow> pynum option" where
  "num_of (JBool b) = Some (Fin (if b then 1 else 0))"
| "num_of (JInt n) = Some (Fin (of_int n))"
| "num_of (JFloat f) = Some (float_num f)"
| "num_of _ = None"

fun num_eq :: "pynum \<Rightarrow> pynum \<Rightarrow> bool" where
  "num_eq (Fin a) (Fin b) = (a = b)"
| "num_eq PInf PInf = True"
| "num_eq NInf NInf = True"
| "num_eq _ _ = False"

fun num_lt :: "pynum \<Rightarrow> pynum \<Rightarrow> bool" where
  "num_lt NaN _ = False"
| "num_lt _ NaN = False"
| "num_lt (Fin a) (Fin b) = (a < b)"
| "num_lt _ NInf = False"
| "num_lt NInf _ = True"
| "num_lt PInf _ = False"
| "num_lt _ PInf = True"

section \<open>Equality, order, truth\<close>

text \<open>
  Identity or equality, the test of a membership and of the elements of containers. \<open>json.loads\<close> gives one object for
  every \<open>NaN\<close>.
\<close>

fun py_same :: "json \<Rightarrow> json \<Rightarrow> bool"
and same_list :: "json list \<Rightarrow> json list \<Rightarrow> bool"
and same_obj :: "(pystr \<times> json) list \<Rightarrow> (pystr \<times> json) list \<Rightarrow> bool"
where
  "py_same JNull b = (b = JNull)"
| "py_same (JStr s) b = (b = JStr s)"
| "py_same (JBool x) b = (case num_of b of None \<Rightarrow> False | Some n \<Rightarrow> num_eq (Fin (if x then 1 else 0)) n)"
| "py_same (JInt x) b = (case num_of b of None \<Rightarrow> False | Some n \<Rightarrow> num_eq (Fin (of_int x)) n)"
| "py_same (JFloat f) b = (b = JFloat FNaN \<and> f = FNaN \<or> (case num_of b of None \<Rightarrow> False | Some n \<Rightarrow> num_eq (float_num f) n))"
| "py_same (JList xs) b = (case b of JList ys \<Rightarrow> same_list xs ys | _ \<Rightarrow> False)"
| "py_same (JObj xs) b = (case b of JObj ys \<Rightarrow> length xs = length ys \<and> same_obj xs ys | _ \<Rightarrow> False)"
| "same_list [] ys = (ys = [])"
| "same_list (x # xs) ys = (case ys of [] \<Rightarrow> False | y # ys' \<Rightarrow> py_same x y \<and> same_list xs ys')"
| "same_obj [] ys = True"
| "same_obj ((k, v) # xs) ys = ((case map_of ys k of None \<Rightarrow> False | Some w \<Rightarrow> py_same v w) \<and> same_obj xs ys)"

text \<open>\<open>a == b\<close>\<close>

definition py_eq :: "json \<Rightarrow> json \<Rightarrow> bool" where
  "py_eq a b \<longleftrightarrow> a \<noteq> JFloat FNaN \<and> py_same a b"

text \<open>\<open>a < b\<close> where \<open>a\<close> is a number\<close>

definition py_lt :: "json \<Rightarrow> json \<Rightarrow> bool res" where
  "py_lt a b = (case (num_of a, num_of b) of (Some x, Some y) \<Rightarrow> Inr (num_lt x y) | _ \<Rightarrow> Inl TypeError)"

fun py_truth :: "json \<Rightarrow> bool" where
  "py_truth JNull = False"
| "py_truth (JBool b) = b"
| "py_truth (JInt n) = (n \<noteq> 0)"
| "py_truth (JFloat f) = (float_num f \<noteq> Fin 0)"
| "py_truth (JStr s) = (s \<noteq> [])"
| "py_truth (JList xs) = (xs \<noteq> [])"
| "py_truth (JObj kvs) = (kvs \<noteq> [])"

section \<open>Containers\<close>

fun is_dict :: "json \<Rightarrow> bool" where
  "is_dict (JObj _) = True"
| "is_dict _ = False"

fun is_list :: "json \<Rightarrow> bool" where
  "is_list (JList _) = True"
| "is_list _ = False"

definition hashable :: "json \<Rightarrow> bool" where
  "hashable v \<longleftrightarrow> \<not> is_dict v \<and> \<not> is_list v"

text \<open>\<open>d.get(k, default)\<close>\<close>

fun py_get :: "json \<Rightarrow> pystr \<Rightarrow> json \<Rightarrow> json res" where
  "py_get (JObj kvs) k d = Inr (case map_of kvs k of None \<Rightarrow> d | Some v \<Rightarrow> v)"
| "py_get _ k d = Inl AttributeError"

text \<open>\<open>d[k]\<close> with a string key\<close>

fun py_item :: "json \<Rightarrow> pystr \<Rightarrow> json res" where
  "py_item (JObj kvs) k = (case map_of kvs k of None \<Rightarrow> Inl KeyError | Some v \<Rightarrow> Inr v)"
| "py_item _ k = Inl TypeError"

fun py_items :: "json \<Rightarrow> (pystr \<times> json) list res" where
  "py_items (JObj kvs) = Inr kvs"
| "py_items _ = Inl AttributeError"

fun py_iter :: "json \<Rightarrow> json list res" where
  "py_iter (JList xs) = Inr xs"
| "py_iter (JObj kvs) = Inr (map (\<lambda>kv. JStr (fst kv)) kvs)"
| "py_iter (JStr s) = Inr (map (\<lambda>c. JStr [c]) s)"
| "py_iter _ = Inl TypeError"

text \<open>\<open>x in c\<close>\<close>

fun py_in :: "json \<Rightarrow> json \<Rightarrow> bool res" where
  "py_in x (JList ys) = Inr (list_ex (\<lambda>y. py_same y x) ys)"
| "py_in x (JObj kvs) = (if hashable x then Inr (list_ex (\<lambda>kv. x = JStr (fst kv)) kvs) else Inl TypeError)"
| "py_in x (JStr s) = (case x of JStr p \<Rightarrow> Inr (contains p s) | _ \<Rightarrow> Inl TypeError)"
| "py_in x _ = Inl TypeError"

text \<open>A value used where the library insists on a string\<close>

fun as_str :: "json \<Rightarrow> pystr res" where
  "as_str (JStr s) = Inr s"
| "as_str _ = Inl TypeError"

definition jstr :: "string \<Rightarrow> json" where
  "jstr s = JStr (lit s)"

subsection \<open>The parts of a value are smaller\<close>

fun jsize :: "json \<Rightarrow> nat" and jsizes :: "json list \<Rightarrow> nat" and jsizes_obj :: "(pystr \<times> json) list \<Rightarrow> nat" where
  "jsize (JList xs) = Suc (jsizes xs)"
| "jsize (JObj kvs) = Suc (jsizes_obj kvs)"
| "jsize _ = 1"
| "jsizes [] = 0"
| "jsizes (x # xs) = jsize x + jsizes xs"
| "jsizes_obj [] = 0"
| "jsizes_obj ((k, v) # kvs) = Suc (jsize v) + jsizes_obj kvs"

lemma jsize_pos [simp]: "0 < jsize v"
  by (cases v) simp_all

lemma jsizes_mem: "x \<in> set xs \<Longrightarrow> jsize x \<le> jsizes xs"
  by (induction xs) auto

lemma jsizes_obj_mem: "(k, v) \<in> set kvs \<Longrightarrow> Suc (jsize v) \<le> jsizes_obj kvs"
  by (induction kvs) auto

lemma jsizes_obj_lookup: "map_of kvs k = Some v \<Longrightarrow> Suc (jsize v) \<le> jsizes_obj kvs"
  by (rule jsizes_obj_mem [OF map_of_SomeD])

lemma py_get_smaller: "py_get s k d = Inr v \<Longrightarrow> v = d \<or> Suc (jsize v) < jsize s"
  by (cases s) (auto simp: Suc_le_eq dest: jsizes_obj_lookup split: option.splits)

lemma py_item_smaller: "py_item s k = Inr v \<Longrightarrow> Suc (jsize v) < jsize s"
  by (cases s) (auto simp: Suc_le_eq dest: jsizes_obj_lookup split: option.splits)

lemma py_items_smaller: "py_items s = Inr kvs \<Longrightarrow> (k, v) \<in> set kvs \<Longrightarrow> jsize v < jsize s"
  by (cases s) (auto dest: jsizes_obj_mem)

lemma py_iter_smaller: "py_iter s = Inr xs \<Longrightarrow> x \<in> set xs \<Longrightarrow> jsize x \<le> jsize s"
  by (cases s) (auto intro: le_SucI jsizes_mem)

lemma py_iter_get_smaller:
  assumes "py_get s k d = Inr v" and "py_iter v = Inr xs" and "x \<in> set xs" and "d = JList []"
  shows "jsize x < jsize s"
  using py_get_smaller [OF assms(1)] py_iter_smaller [OF assms(2,3)] assms by auto

section \<open>Text of a value\<close>

definition strip_zeros :: "pystr \<Rightarrow> pystr" where
  "strip_zeros ds = (let r = rev (dropWhile (\<lambda>c. c = 48) (rev ds)) in if r = [] then [48] else r)"

text \<open>\<open>n * 10 ^ e\<close> read as a double\<close>

definition read64 :: "int \<Rightarrow> int \<Rightarrow> pynum" where
  "read64 n e = (if 0 \<le> e then round64 (n * 10 ^ nat e) 1 else round64 n (10 ^ nat (- e)))"

text \<open>The quotient times a power of ten, rounded down.\<close>

definition floor10 :: "int \<Rightarrow> int \<Rightarrow> int \<Rightarrow> int" where
  "floor10 num den e = (if 0 \<le> e then num * 10 ^ nat e div den else num div (den * 10 ^ nat (- e)))"

text \<open>Whether \<open>lo\<close> is the nearer of the two neighbours, the even one in a tie.\<close>

definition nearer_low :: "int \<Rightarrow> int \<Rightarrow> int \<Rightarrow> int \<Rightarrow> bool" where
  "nearer_low num den e lo \<longleftrightarrow>
     (let twice = (if 0 \<le> e then 2 * num * 10 ^ nat e else 2 * num);
          mid = (if 0 \<le> e then (2 * lo + 1) * den else (2 * lo + 1) * den * 10 ^ nat (- e))
      in twice < mid \<or> twice = mid \<and> even lo)"

text \<open>The shortest decimal that reads back as the double \<open>num / den\<close>: its digits and the position of the point.\<close>

fun shortest :: "nat \<Rightarrow> int \<Rightarrow> int \<Rightarrow> int \<Rightarrow> int \<Rightarrow> pystr \<times> int" where
  "shortest 0 d num den k = ([48], 1)"
| "shortest (Suc fuel) d num den k =
     (let lo = floor10 num den (d - k);
          good = filter (\<lambda>n. read64 n (k - d) = round64 num den)
                   (if nearer_low num den (d - k) lo then [lo, lo + 1] else [lo + 1, lo])
      in case good of
           [] \<Rightarrow> shortest fuel (d + 1) num den k
         | n # _ \<Rightarrow> (strip_zeros (show_int n), k - d + int (length (show_int n))))"

definition point_guess :: "int \<Rightarrow> int \<Rightarrow> int" where
  "point_guess num den =
     (let k0 = (bit_length num - bit_length den - 1) * 30103 div 100000
      in case filter (\<lambda>k. if 0 \<le> k then num < den * 10 ^ nat k else num * 10 ^ nat (- k) < den) [k0 - 1, k0, k0 + 1, k0 + 2] of
           [] \<Rightarrow> k0 + 3 | k # _ \<Rightarrow> k)"

definition zeros :: "int \<Rightarrow> pystr" where
  "zeros n = replicate (nat n) 48"

definition exponent_text :: "int \<Rightarrow> pystr" where
  "exponent_text e =
     lit ''e'' @ (if e < 0 then [45] else [43]) @ (if \<bar>e\<bar> < 10 then [48] else []) @ show_int \<bar>e\<bar>"

definition layout :: "pystr \<Rightarrow> int \<Rightarrow> pystr" where
  "layout ds point =
     (if -4 < point \<and> point \<le> 16 then
        (if point \<le> 0 then lit ''0.'' @ zeros (- point) @ ds
         else if int (length ds) \<le> point then ds @ zeros (point - int (length ds)) @ lit ''.0''
         else take (nat point) ds @ [46] @ drop (nat point) ds)
      else take 1 ds @ (if length ds = 1 then [] else [46] @ drop 1 ds) @ exponent_text (point - 1))"

definition rat_repr :: "rat \<Rightarrow> pystr" where
  "rat_repr r =
     (case quotient_of \<bar>r\<bar> of (num, den) \<Rightarrow>
        if num = 0 then lit ''0.0''
        else case shortest 17 1 num den (point_guess num den) of (ds, point) \<Rightarrow>
          (if r < 0 then [45] else []) @ layout ds point)"

text \<open>\<open>repr\<close> of a float; \<open>json.dumps\<close> spells the exceptional values its own way.\<close>

definition float_repr :: "jfloat \<Rightarrow> pystr" where
  "float_repr f = (case float_num f of Fin r \<Rightarrow> rat_repr r | PInf \<Rightarrow> lit ''inf'' | NInf \<Rightarrow> lit ''-inf'' | NaN \<Rightarrow> lit ''nan'')"

definition float_dump :: "jfloat \<Rightarrow> pystr" where
  "float_dump f = (case float_num f of Fin r \<Rightarrow> rat_repr r | PInf \<Rightarrow> lit ''Infinity'' | NInf \<Rightarrow> lit ''-Infinity'' | NaN \<Rightarrow> lit ''NaN'')"

text \<open>\<open>json.dumps(v, sort_keys=True, separators=(",", ":"))\<close>\<close>

fun dumps_sorted :: "json \<Rightarrow> pystr"
and dumps_list :: "json list \<Rightarrow> pystr list"
and dumps_pairs :: "(pystr \<times> json) list \<Rightarrow> (pystr \<times> pystr) list"
where
  "dumps_sorted JNull = lit ''null''"
| "dumps_sorted (JBool b) = (if b then lit ''true'' else lit ''false'')"
| "dumps_sorted (JInt n) = show_int n"
| "dumps_sorted (JFloat f) = float_dump f"
| "dumps_sorted (JStr s) = dump_str True s"
| "dumps_sorted (JList xs) = [91] @ join [44] (dumps_list xs) @ [93]"
| "dumps_sorted (JObj kvs) =
     [123] @ join [44] (map (\<lambda>(k, t). dump_str True k @ [58] @ t) (sort_key fst (dumps_pairs kvs))) @ [125]"
| "dumps_list [] = []"
| "dumps_list (x # xs) = dumps_sorted x # dumps_list xs"
| "dumps_pairs [] = []"
| "dumps_pairs ((k, v) # kvs) = (k, dumps_sorted v) # dumps_pairs kvs"

definition hex_text :: "nat \<Rightarrow> int \<Rightarrow> pystr" where
  "hex_text width c = map (\<lambda>i. hex_digit (c div 16 ^ (width - 1 - i) mod 16)) [0..<width]"

definition repr_char :: "(codepoint \<Rightarrow> bool) \<Rightarrow> codepoint \<Rightarrow> codepoint \<Rightarrow> pystr" where
  "repr_char pr quot c =
     (if c = quot \<or> c = 92 then [92, c]
      else if c = 9 then [92, 116] else if c = 10 then [92, 110] else if c = 13 then [92, 114]
      else if 32 \<le> c \<and> c < 127 then [c]
      else if 127 < c \<and> pr c then [c]
      else if c < 256 then [92, 120] @ hex_text 2 c
      else if c < 65536 then [92, 117] @ hex_text 4 c
      else [92, 85] @ hex_text 8 c)"

definition repr_str :: "(codepoint \<Rightarrow> bool) \<Rightarrow> pystr \<Rightarrow> pystr" where
  "repr_str pr s =
     (let quot = (if 39 \<in> set s \<and> 34 \<notin> set s then 34 else 39)
      in quot # concat (map (repr_char pr quot) s) @ [quot])"

fun py_repr :: "(codepoint \<Rightarrow> bool) \<Rightarrow> json \<Rightarrow> pystr"
and repr_list :: "(codepoint \<Rightarrow> bool) \<Rightarrow> json list \<Rightarrow> pystr list"
and repr_items :: "(codepoint \<Rightarrow> bool) \<Rightarrow> (pystr \<times> json) list \<Rightarrow> pystr list"
where
  "py_repr pr JNull = lit ''None''"
| "py_repr pr (JBool b) = (if b then lit ''True'' else lit ''False'')"
| "py_repr pr (JInt n) = show_int n"
| "py_repr pr (JFloat f) = float_repr f"
| "py_repr pr (JStr s) = repr_str pr s"
| "py_repr pr (JList xs) = [91] @ join [44, 32] (repr_list pr xs) @ [93]"
| "py_repr pr (JObj kvs) = [123] @ join [44, 32] (repr_items pr kvs) @ [125]"
| "repr_list pr [] = []"
| "repr_list pr (x # xs) = py_repr pr x # repr_list pr xs"
| "repr_items pr [] = []"
| "repr_items pr ((k, v) # kvs) = (repr_str pr k @ [58, 32] @ py_repr pr v) # repr_items pr kvs"

definition py_str :: "(codepoint \<Rightarrow> bool) \<Rightarrow> json \<Rightarrow> pystr" where
  "py_str pr v = (case v of JStr s \<Rightarrow> s | _ \<Rightarrow> py_repr pr v)"

section \<open>Reading a float\<close>

text \<open>
  \<open>float(s)\<close>: white space around, a sign, then \<open>inf\<close>, \<open>infinity\<close> or \<open>nan\<close> in any case, or decimal digits with an
  optional point and exponent; an underscore may stand between two digits.
\<close>

fun digit_run :: "bool \<Rightarrow> pystr \<Rightarrow> (int list \<times> pystr) option" where
  "digit_run prev [] = (if prev then Some ([], []) else None)"
| "digit_run prev (c # cs) =
     (case decimal_value c of
        Some d \<Rightarrow> map_option (\<lambda>(ds, r). (d # ds, r)) (digit_run True cs)
      | None \<Rightarrow>
          if c = 95 \<and> prev then (if cs \<noteq> [] \<and> decimal_value (hd cs) \<noteq> None then digit_run False cs else None)
          else if prev then Some ([], c # cs) else None)"

definition opt_run :: "pystr \<Rightarrow> (int list \<times> pystr) option" where
  "opt_run s = (if s \<noteq> [] \<and> decimal_value (hd s) \<noteq> None then digit_run False s else Some ([], s))"

definition exponent_of :: "pystr \<Rightarrow> int option" where
  "exponent_of s =
     (if s = [] then Some 0
      else if hd s = 101 \<or> hd s = 69 then
        (let t = tl s;
             neg = (t \<noteq> [] \<and> hd t = 45);
             body = (if t \<noteq> [] \<and> (hd t = 45 \<or> hd t = 43) then tl t else t)
         in case digit_run False body of
              Some (ds, []) \<Rightarrow> Some (if neg then - horner_sum id 10 (rev ds) else horner_sum id 10 (rev ds))
            | _ \<Rightarrow> None)
      else None)"

definition decimal_float :: "pystr \<Rightarrow> pynum option" where
  "decimal_float s =
     (case opt_run s of
        None \<Rightarrow> None
      | Some (whole, r) \<Rightarrow>
          (case (if r \<noteq> [] \<and> hd r = 46 then opt_run (tl r) else Some ([], r)) of
             None \<Rightarrow> None
           | Some (decs, r') \<Rightarrow>
               if whole @ decs = [] then None
               else map_option (\<lambda>e. dec64 (horner_sum id 10 (rev (whole @ decs))) (e - int (length decs))) (exponent_of r')))"

definition py_float :: "pystr \<Rightarrow> pynum res" where
  "py_float s =
     (let t = py_strip s;
          neg = (t \<noteq> [] \<and> hd t = 45);
          body = (if t \<noteq> [] \<and> (hd t = 45 \<or> hd t = 43) then tl t else t);
          low = map lower_ascii body;
          v = (if low = lit ''inf'' \<or> low = lit ''infinity'' then Some PInf
               else if low = lit ''nan'' then Some NaN
               else decimal_float body)
      in case v of None \<Rightarrow> Inl ValueError | Some x \<Rightarrow> Inr (if neg then neg_num x else x))"

definition num_le :: "pynum \<Rightarrow> pynum \<Rightarrow> bool" where
  "num_le a b \<longleftrightarrow> num_lt a b \<or> num_eq a b"

end
