(* ===== verification/Contract_Report.thy ===== *)
theory Contract_Report
  imports Py_Dyn Rio
begin

text \<open>
  \<open>tools/check-contracts.py\<close>, the \<open>Result\<close> object that collects what a run found, and a small logic for the programs
  that write to it. A recorded entry is its code, contract, field and file; the texts of the messages are not
  modelled. \<open>checks m P\<close>: the program completes and records an error exactly unless \<open>P\<close>. \<open>grows m\<close>: the program
  only adds to the report. \<open>clean m Q\<close>: if it completes without a new error, its result satisfies \<open>Q\<close>.
\<close>

section \<open>The report\<close>

record entry =
  e_code :: pystr
  e_contract :: pystr
  e_field :: json
  e_file :: pystr

record report =
  rep_errors :: "entry list"
  rep_warnings :: "entry list"

definition Result :: report where
  "Result = \<lparr>rep_errors = [], rep_warnings = []\<rparr>"

definition report_ok :: "report \<Rightarrow> bool" where
  "report_ok r \<longleftrightarrow> length (rep_errors r) = 0"

definition mk_entry :: "string \<Rightarrow> pystr \<Rightarrow> json \<Rightarrow> pystr \<Rightarrow> entry" where
  "mk_entry code contract field file = \<lparr>e_code = lit code, e_contract = contract, e_field = field, e_file = file\<rparr>"

definition err :: "string \<Rightarrow> pystr \<Rightarrow> json \<Rightarrow> pystr \<Rightarrow> (report, unit) rio" where
  "err code contract field file = (\<lambda>r. (Inr (), r\<lparr>rep_errors := rep_errors r @ [mk_entry code contract field file]\<rparr>))"

definition warn :: "string \<Rightarrow> pystr \<Rightarrow> json \<Rightarrow> pystr \<Rightarrow> (report, unit) rio" where
  "warn code contract field file = (\<lambda>r. (Inr (), r\<lparr>rep_warnings := rep_warnings r @ [mk_entry code contract field file]\<rparr>))"

text \<open>A nested check with a \<open>Result\<close> of its own: whether it stayed without errors.\<close>

definition r_fresh :: "(report, unit) rio \<Rightarrow> (report, bool) rio" where
  "r_fresh m = (\<lambda>r. case m Result of (Inl x, _) \<Rightarrow> (Inl x, r) | (Inr _, r') \<Rightarrow> (Inr (report_ok r'), r))"

section \<open>Programs that complete\<close>

definition checks :: "(report, unit) rio \<Rightarrow> bool \<Rightarrow> bool" where
  "checks m P \<longleftrightarrow> (\<exists>es. (\<forall>r. m r = (Inr (), r\<lparr>rep_errors := rep_errors r @ es\<rparr>)) \<and> (es = [] \<longleftrightarrow> P))"

lemma checks_return: "checks (r_return ()) True"
  by (auto simp: checks_def r_return_def)

lemma checks_err: "checks (err code contract field file) False"
  by (auto simp: checks_def err_def)

lemma checks_seq:
  assumes "checks m P" and "checks k Q"
  shows "checks (r_seq m k) (P \<and> Q)"
proof -
  obtain es where es: "\<And>r. m r = (Inr (), r\<lparr>rep_errors := rep_errors r @ es\<rparr>)" "es = [] \<longleftrightarrow> P"
    using assms(1) by (auto simp: checks_def)
  obtain fs where fs: "\<And>r. k r = (Inr (), r\<lparr>rep_errors := rep_errors r @ fs\<rparr>)" "fs = [] \<longleftrightarrow> Q"
    using assms(2) by (auto simp: checks_def)
  have "r_seq m k r = (Inr (), r\<lparr>rep_errors := rep_errors r @ (es @ fs)\<rparr>)" for r
    by (simp add: r_seq_def r_bind_def es(1) fs(1))
  moreover have "es @ fs = [] \<longleftrightarrow> P \<and> Q" using es(2) fs(2) by simp
  ultimately show ?thesis unfolding checks_def by blast
qed

lemma checks_when: "(b \<Longrightarrow> checks m P) \<Longrightarrow> checks (r_when b m) (b \<longrightarrow> P)"
  by (cases b) (auto simp: r_when_def checks_return)

lemma checks_with: "r = Inr v \<Longrightarrow> checks (f v) P \<Longrightarrow> checks (r_with r f) P"
  by simp

lemma checks_each: "(\<And>x. x \<in> set xs \<Longrightarrow> checks (f x) (P x)) \<Longrightarrow> checks (r_each f xs) (\<forall>x \<in> set xs. P x)"
proof (induction xs)
  case (Cons x xs)
  then have "checks (r_seq (f x) (r_each f xs)) (P x \<and> (\<forall>x \<in> set xs. P x))" by (intro checks_seq) simp_all
  then show ?case by simp
qed (simp add: checks_return)

text \<open>A nested check that must fail.\<close>

lemma checks_not:
  assumes "checks m P" and "checks e False"
  shows "checks (r_bind (r_fresh m) (\<lambda>ok. r_when ok e)) (\<not> P)"
proof -
  obtain es where es: "\<And>r. m r = (Inr (), r\<lparr>rep_errors := rep_errors r @ es\<rparr>)" "es = [] \<longleftrightarrow> P"
    using assms(1) by (auto simp: checks_def)
  have "r_bind (r_fresh m) (\<lambda>ok. r_when ok e) = r_when P e"
    using es(2) by (auto simp: fun_eq_iff r_bind_def r_fresh_def es(1) report_ok_def Result_def)
  then show ?thesis using checks_when [of P e False] assms(2) by simp
qed

lemma checks_iff: "checks m P \<Longrightarrow> P \<longleftrightarrow> Q \<Longrightarrow> checks m Q"
  by simp

lemma checks_result:
  assumes "checks m P"
  shows "\<exists>es. m r = (Inr (), r\<lparr>rep_errors := rep_errors r @ es\<rparr>) \<and> (es = [] \<longleftrightarrow> P)"
  using assms by (auto simp: checks_def)

section \<open>Programs that may raise\<close>

definition grows :: "(report, 'a) rio \<Rightarrow> bool" where
  "grows m \<longleftrightarrow> (\<forall>r x r'. m r = (x, r') \<longrightarrow> (\<exists>es ws. r' = r\<lparr>rep_errors := rep_errors r @ es, rep_warnings := rep_warnings r @ ws\<rparr>))"

definition clean :: "(report, 'a) rio \<Rightarrow> ('a \<Rightarrow> bool) \<Rightarrow> bool" where
  "clean m Q \<longleftrightarrow> (\<forall>r v r'. m r = (Inr v, r') \<and> rep_errors r' = rep_errors r \<longrightarrow> Q v)"

named_theorems grows_rules

lemma growsE:
  assumes "grows m" and "m r = (x, r')"
  obtains es ws where "r' = r\<lparr>rep_errors := rep_errors r @ es, rep_warnings := rep_warnings r @ ws\<rparr>"
  using assms unfolding grows_def by blast

lemma growsI:
  assumes "\<And>r. \<exists>es ws. snd (m r) = r\<lparr>rep_errors := rep_errors r @ es, rep_warnings := rep_warnings r @ ws\<rparr>"
  shows "grows m"
  unfolding grows_def using assms by (metis snd_conv)

lemma grows_return [grows_rules]: "grows (r_return x)"
  by (rule growsI) (auto simp: r_return_def intro!: exI [of _ "[]"])

lemma grows_raise [grows_rules]: "grows (\<lambda>r. (Inl x, r))"
  by (rule growsI) (auto intro!: exI [of _ "[]"])

lemma grows_err [grows_rules]: "grows (err code contract field file)"
  by (rule growsI) (rule exI [of _ "[mk_entry code contract field file]"], rule exI [of _ "[]"], simp add: err_def)

lemma grows_warn [grows_rules]: "grows (warn code contract field file)"
  by (rule growsI) (rule exI [of _ "[]"], rule exI [of _ "[mk_entry code contract field file]"], simp add: warn_def)

lemma grows_fresh [grows_rules]: "grows (r_fresh m)"
  by (rule growsI) (auto simp: r_fresh_def intro!: exI [of _ "[]"] split: prod.splits sum.splits)

lemma grows_bind [grows_rules]:
  assumes "grows m" and "\<And>x. grows (f x)"
  shows "grows (r_bind m f)"
  unfolding grows_def
proof (intro allI impI)
  fix r x r'
  assume "r_bind m f r = (x, r')"
  then show "\<exists>es ws. r' = r\<lparr>rep_errors := rep_errors r @ es, rep_warnings := rep_warnings r @ ws\<rparr>"
  proof (cases rule: r_bind_cases)
    case (1 e)
    then show ?thesis by (metis growsE [OF assms(1)])
  next
    case (2 y r1)
    obtain es ws where a: "r1 = r\<lparr>rep_errors := rep_errors r @ es, rep_warnings := rep_warnings r @ ws\<rparr>"
      by (rule growsE [OF assms(1) 2(1)])
    obtain fs vs where b: "r' = r1\<lparr>rep_errors := rep_errors r1 @ fs, rep_warnings := rep_warnings r1 @ vs\<rparr>"
      by (rule growsE [OF assms(2) 2(2)])
    show ?thesis using a b by (intro exI [of _ "es @ fs"] exI [of _ "ws @ vs"]) simp
  qed
qed

lemma grows_seq [grows_rules]: "grows m \<Longrightarrow> grows k \<Longrightarrow> grows (r_seq m k)"
  unfolding r_seq_def by (rule grows_bind)

lemma grows_with [grows_rules]: "(\<And>v. r = Inr v \<Longrightarrow> grows (f v)) \<Longrightarrow> grows (r_with r f)"
  by (cases r) (simp_all add: grows_raise)

lemma grows_when [grows_rules]: "(b \<Longrightarrow> grows m) \<Longrightarrow> grows (r_when b m)"
  by (simp add: r_when_def grows_return)

lemma grows_each [grows_rules]: "(\<And>x. x \<in> set xs \<Longrightarrow> grows (f x)) \<Longrightarrow> grows (r_each f xs)"
  by (induction xs) (simp_all add: grows_return grows_seq)

lemma grows_each_from [grows_rules]: "(\<And>i x. x \<in> set xs \<Longrightarrow> grows (f i x)) \<Longrightarrow> grows (r_each_from n f xs)"
  by (induction xs arbitrary: n) (simp_all add: grows_return grows_seq)

lemma grows_if [grows_rules]: "(b \<Longrightarrow> grows m) \<Longrightarrow> (\<not> b \<Longrightarrow> grows k) \<Longrightarrow> grows (if b then m else k)"
  by simp

lemma grows_option [grows_rules]: "grows m \<Longrightarrow> (\<And>x. grows (f x)) \<Longrightarrow> grows (case a of None \<Rightarrow> m | Some x \<Rightarrow> f x)"
  by (cases a) simp_all

lemma grows_prod [grows_rules]: "(\<And>x y. grows (f x y)) \<Longrightarrow> grows (case a of (x, y) \<Rightarrow> f x y)"
  by (cases a) simp

lemma grows_sum [grows_rules]: "(\<And>x. grows (f x)) \<Longrightarrow> (\<And>x. grows (g x)) \<Longrightarrow> grows (case a of Inl x \<Rightarrow> f x | Inr x \<Rightarrow> g x)"
  by (cases a) simp_all

section \<open>Clean runs\<close>

lemma cleanD: "clean m Q \<Longrightarrow> m r = (Inr v, r') \<Longrightarrow> rep_errors r' = rep_errors r \<Longrightarrow> Q v"
  unfolding clean_def by blast

lemma clean_err: "clean (err code contract field file) Q"
  by (simp add: clean_def err_def)

lemma clean_return: "Q x \<Longrightarrow> clean (r_return x) Q"
  by (simp add: clean_def r_return_def)

lemma clean_bind:
  assumes "grows m" and "\<And>x. grows (f x)" and "clean m Q" and "\<And>x. Q x \<Longrightarrow> clean (f x) R"
  shows "clean (r_bind m f) R"
  unfolding clean_def
proof (intro allI impI, elim conjE)
  fix r v r'
  assume run: "r_bind m f r = (Inr v, r')" and same: "rep_errors r' = rep_errors r"
  from run show "R v"
  proof (cases rule: r_bind_cases)
    case (2 y r1)
    obtain es ws where a: "r1 = r\<lparr>rep_errors := rep_errors r @ es, rep_warnings := rep_warnings r @ ws\<rparr>"
      by (rule growsE [OF assms(1) 2(1)])
    obtain fs vs where b: "r' = r1\<lparr>rep_errors := rep_errors r1 @ fs, rep_warnings := rep_warnings r1 @ vs\<rparr>"
      by (rule growsE [OF assms(2) 2(2)])
    have "es = [] \<and> fs = []" using same a b by simp
    then have "Q y" "rep_errors r' = rep_errors r1" using cleanD [OF assms(3) 2(1)] a b by simp_all
    then show ?thesis using cleanD [OF assms(4) 2(2)] by simp
  qed simp
qed

lemma clean_bind_left: "grows m \<Longrightarrow> (\<And>x. grows (f x)) \<Longrightarrow> clean m (\<lambda>_. P) \<Longrightarrow> clean (r_bind m f) (\<lambda>_. P)"
  by (rule clean_bind) (auto simp: clean_def)

lemma clean_bind_right: "grows m \<Longrightarrow> (\<And>x. grows (f x)) \<Longrightarrow> (\<And>x. clean (f x) Q) \<Longrightarrow> clean (r_bind m f) Q"
  by (rule clean_bind [where Q = "\<lambda>_. True"]) (auto simp: clean_def)

lemma clean_seq:
  assumes "grows m" and "grows k" and "clean m (\<lambda>_. P)" and "clean k Q"
  shows "clean (r_seq m k) (\<lambda>v. P \<and> Q v)"
  unfolding r_seq_def by (rule clean_bind [OF assms(1,2,3)]) (use assms(4) in \<open>auto simp: clean_def\<close>)

lemma clean_seq_left: "grows m \<Longrightarrow> grows k \<Longrightarrow> clean m (\<lambda>_. P) \<Longrightarrow> clean (r_seq m k) (\<lambda>_. P)"
  unfolding r_seq_def by (rule clean_bind) (auto simp: clean_def)

lemma clean_seq_right: "grows m \<Longrightarrow> grows k \<Longrightarrow> clean k Q \<Longrightarrow> clean (r_seq m k) Q"
  unfolding r_seq_def by (rule clean_bind [where Q = "\<lambda>_. True"]) (auto simp: clean_def)

lemma clean_with: "(\<And>v. r = Inr v \<Longrightarrow> clean (f v) Q) \<Longrightarrow> clean (r_with r f) Q"
  by (cases r) (simp_all add: clean_def)

lemma clean_when: "(b \<Longrightarrow> clean m Q) \<Longrightarrow> (\<not> b \<Longrightarrow> Q ()) \<Longrightarrow> clean (r_when b m) Q"
  by (simp add: r_when_def clean_return)

lemma clean_test: "(\<not> b \<Longrightarrow> Q ()) \<Longrightarrow> clean (r_when b (err code contract field file)) Q"
  by (rule clean_when [OF clean_err])

lemma clean_each:
  "(\<And>x. x \<in> set xs \<Longrightarrow> grows (f x)) \<Longrightarrow> (\<And>x. x \<in> set xs \<Longrightarrow> clean (f x) (\<lambda>_. P x)) \<Longrightarrow> clean (r_each f xs) (\<lambda>_. \<forall>x \<in> set xs. P x)"
proof (induction xs)
  case (Cons x xs)
  then have "clean (r_seq (f x) (r_each f xs)) (\<lambda>_. P x \<and> (\<forall>x \<in> set xs. P x))"
    by (intro clean_seq grows_each) simp_all
  then show ?case by simp
qed (simp add: clean_return)

lemma clean_mono: "clean m P \<Longrightarrow> (\<And>v. P v \<Longrightarrow> Q v) \<Longrightarrow> clean m Q"
  unfolding clean_def by blast

lemma clean_conj: "clean m P \<Longrightarrow> clean m Q \<Longrightarrow> clean m (\<lambda>v. P v \<and> Q v)"
  unfolding clean_def by blast

lemma clean_checks: "checks m P \<Longrightarrow> clean m (\<lambda>_. P)"
  unfolding clean_def checks_def by auto

end
