(* ===== verification/Py_Re.thy ===== *)
theory Py_Re
  imports Prelude
begin

text \<open>
  The regular expressions written out in the sources, as trees, with the backtracking search of Python's \<open>re\<close> module
  (anchors in \<open>MULTILINE\<close> mode): the matches at a position in the order they are tried, \<open>findall\<close> and \<open>search\<close>. A
  repetition repeats a character class, the only kind the sources use. The relation \<open>rx_match\<close> says what a match is
  without reference to the order, and the search finds one exactly when there is one.
\<close>

section \<open>Expressions\<close>

datatype rx =
    RLit pystr
  | RCls "codepoint \<Rightarrow> bool"
  | RMany bool nat "nat option" "codepoint \<Rightarrow> bool"
  | RSeq rx rx
  | RAlt rx rx
  | RBol
  | REol
  | RWordB
  | RLook rx
  | RGroup rx

text \<open>The text before the position (reversed), the text after it, the group captured so far.\<close>

type_synonym rxst = "pystr \<times> pystr \<times> pystr option"

definition many_counts :: "bool \<Rightarrow> nat \<Rightarrow> nat option \<Rightarrow> nat \<Rightarrow> nat list" where
  "many_counts greedy lo hi avail =
     (let top = (case hi of None \<Rightarrow> avail | Some h \<Rightarrow> min h avail); ns = [lo..<Suc top]
      in if greedy then rev ns else ns)"

definition at_bol :: "pystr \<Rightarrow> bool" where "at_bol pre \<longleftrightarrow> pre = [] \<or> hd pre = 10"

definition at_eol :: "pystr \<Rightarrow> bool" where "at_eol rest \<longleftrightarrow> rest = [] \<or> hd rest = 10"

definition at_boundary :: "(codepoint \<Rightarrow> bool) \<Rightarrow> pystr \<Rightarrow> pystr \<Rightarrow> bool" where
  "at_boundary wd pre rest \<longleftrightarrow> (pre \<noteq> [] \<and> wd (hd pre)) \<noteq> (rest \<noteq> [] \<and> wd (hd rest))"

definition move :: "nat \<Rightarrow> pystr \<Rightarrow> pystr \<Rightarrow> pystr \<times> pystr" where
  "move n pre rest = (rev (take n rest) @ pre, drop n rest)"

fun rx_run :: "(codepoint \<Rightarrow> bool) \<Rightarrow> rx \<Rightarrow> rxst \<Rightarrow> rxst list" where
  "rx_run wd (RLit s) (pre, rest, g) = (if starts_with s rest then [(rev s @ pre, drop (length s) rest, g)] else [])"
| "rx_run wd (RCls p) (pre, rest, g) = (case rest of [] \<Rightarrow> [] | c # cs \<Rightarrow> if p c then [(c # pre, cs, g)] else [])"
| "rx_run wd (RMany greedy lo hi p) (pre, rest, g) =
     map (\<lambda>n. case move n pre rest of (pre', rest') \<Rightarrow> (pre', rest', g))
       (many_counts greedy lo hi (length (takeWhile p rest)))"
| "rx_run wd (RSeq a b) st = concat (map (rx_run wd b) (rx_run wd a st))"
| "rx_run wd (RAlt a b) st = rx_run wd a st @ rx_run wd b st"
| "rx_run wd RBol (pre, rest, g) = (if at_bol pre then [(pre, rest, g)] else [])"
| "rx_run wd REol (pre, rest, g) = (if at_eol rest then [(pre, rest, g)] else [])"
| "rx_run wd RWordB (pre, rest, g) = (if at_boundary wd pre rest then [(pre, rest, g)] else [])"
| "rx_run wd (RLook a) st = (if rx_run wd a st = [] then [] else [st])"
| "rx_run wd (RGroup a) (pre, rest, g) =
     map (\<lambda>(pre', rest', _). (pre', rest', Some (rev (take (length pre' - length pre) pre')))) (rx_run wd a (pre, rest, g))"

text \<open>A match only moves forward over the text.\<close>

lemma many_counts_le: "n \<in> set (many_counts greedy lo hi avail) \<Longrightarrow> lo \<le> n \<and> n \<le> avail"
  by (auto simp: many_counts_def Let_def split: if_splits option.splits)

lemma set_many_counts:
  "set (many_counts greedy lo hi avail) = {n. lo \<le> n \<and> n \<le> avail \<and> (case hi of None \<Rightarrow> True | Some h \<Rightarrow> n \<le> h)}"
  by (auto simp: many_counts_def Let_def split: option.splits)

lemma rx_run_forward:
  "(pre', rest', g') \<in> set (rx_run wd r (pre, rest, g)) \<Longrightarrow> \<exists>m. rest = m @ rest' \<and> pre' = rev m @ pre"
proof (induction r arbitrary: pre rest g pre' rest' g')
  case (RLit s)
  then show ?case by (auto simp: starts_with_conv split: if_splits)
next
  case (RMany greedy lo hi p)
  then obtain n where "pre' = rev (take n rest) @ pre" "rest' = drop n rest" by (auto simp: move_def)
  then show ?case by (metis append_take_drop_id)
next
  case (RSeq a b)
  then obtain p1 r1 g1 where s: "(p1, r1, g1) \<in> set (rx_run wd a (pre, rest, g))"
    "(pre', rest', g') \<in> set (rx_run wd b (p1, r1, g1))" by auto
  from RSeq.IH(1) [OF s(1)] RSeq.IH(2) [OF s(2)] show ?case
    by (metis append.assoc rev_append)
next
  case (RAlt a b)
  then show ?case by auto
next
  case (RGroup a)
  then show ?case by auto
qed (auto split: list.splits if_splits)

lemma rx_run_shorter: "(pre', rest', g') \<in> set (rx_run wd r (pre, rest, g)) \<Longrightarrow> length rest' \<le> length rest"
  by (auto dest: rx_run_forward)

section \<open>Searching\<close>

text \<open>
  The scan of \<open>findall\<close>: every match with its group; after an empty match (\<open>must\<close>) the next one at the same place has
  to consume something.
\<close>

definition rx_next :: "(codepoint \<Rightarrow> bool) \<Rightarrow> rx \<Rightarrow> bool \<Rightarrow> pystr \<Rightarrow> pystr \<Rightarrow> rxst list" where
  "rx_next wd r must pre rest =
     filter (\<lambda>(_, rest', _). must \<longrightarrow> length rest' < length rest) (rx_run wd r (pre, rest, None))"

lemma rx_next_shorter:
  assumes "rx_next wd r must pre rest = (pre', rest', g) # more"
  shows "length rest' \<le> length rest" and "must \<Longrightarrow> length rest' < length rest"
proof -
  have "(pre', rest', g) \<in> set (rx_next wd r must pre rest)" using assms by simp
  then show "length rest' \<le> length rest" "must \<Longrightarrow> length rest' < length rest"
    by (auto simp: rx_next_def dest: rx_run_shorter)
qed

function rx_scan :: "(codepoint \<Rightarrow> bool) \<Rightarrow> rx \<Rightarrow> bool \<Rightarrow> pystr \<Rightarrow> pystr \<Rightarrow> (pystr \<times> pystr option) list" where
  "rx_scan wd r must pre rest =
     (case rx_next wd r must pre rest of
        (pre', rest', g) # _ \<Rightarrow>
          (take (length rest - length rest') rest, g) # rx_scan wd r (length rest' = length rest) pre' rest'
      | [] \<Rightarrow> (case rest of [] \<Rightarrow> [] | c # cs \<Rightarrow> rx_scan wd r False (c # pre) cs))"
  by pat_completeness auto
termination
  by (relation "measures [\<lambda>(wd, r, must, pre, rest). length rest, \<lambda>(wd, r, must, pre, rest). if must then 0 else 1]")
    (auto simp: le_less dest: rx_next_shorter)

declare rx_scan.simps [simp del]

definition rx_findall :: "(codepoint \<Rightarrow> bool) \<Rightarrow> rx \<Rightarrow> pystr \<Rightarrow> (pystr \<times> pystr option) list" where
  "rx_findall wd r s = rx_scan wd r False [] s"

definition rx_search :: "(codepoint \<Rightarrow> bool) \<Rightarrow> rx \<Rightarrow> pystr \<Rightarrow> (pystr \<times> pystr option) option" where
  "rx_search wd r s = (case rx_findall wd r s of [] \<Rightarrow> None | m # _ \<Rightarrow> Some m)"

text \<open>The groups of all matches, as \<open>findall\<close> returns them for a pattern with one group.\<close>

definition rx_groups :: "(codepoint \<Rightarrow> bool) \<Rightarrow> rx \<Rightarrow> pystr \<Rightarrow> pystr list" where
  "rx_groups wd r s = map (\<lambda>(_, g). case g of Some t \<Rightarrow> t | None \<Rightarrow> []) (rx_findall wd r s)"

fun rseq :: "rx list \<Rightarrow> rx" where
  "rseq [] = RLit []"
| "rseq [r] = r"
| "rseq (r # rs) = RSeq r (rseq rs)"

section \<open>What a match is\<close>

text \<open>\<open>rx_match wd r a m b\<close>: the expression matches the text \<open>m\<close> that follows \<open>a\<close> and precedes \<open>b\<close>.\<close>

inductive rx_match :: "(codepoint \<Rightarrow> bool) \<Rightarrow> rx \<Rightarrow> pystr \<Rightarrow> pystr \<Rightarrow> pystr \<Rightarrow> bool" for wd where
  Lit: "rx_match wd (RLit s) a s b"
| Cls: "p c \<Longrightarrow> rx_match wd (RCls p) a [c] b"
| Many: "list_all p m \<Longrightarrow> lo \<le> length m \<Longrightarrow> (case hi of None \<Rightarrow> True | Some h \<Rightarrow> length m \<le> h)
    \<Longrightarrow> rx_match wd (RMany greedy lo hi p) a m b"
| Seq: "rx_match wd r a m (n @ b) \<Longrightarrow> rx_match wd q (a @ m) n b \<Longrightarrow> rx_match wd (RSeq r q) a (m @ n) b"
| AltL: "rx_match wd r a m b \<Longrightarrow> rx_match wd (RAlt r q) a m b"
| AltR: "rx_match wd q a m b \<Longrightarrow> rx_match wd (RAlt r q) a m b"
| Bol: "a = [] \<or> last a = 10 \<Longrightarrow> rx_match wd RBol a [] b"
| Eol: "b = [] \<or> hd b = 10 \<Longrightarrow> rx_match wd REol a [] b"
| WordB: "(a \<noteq> [] \<and> wd (last a)) \<noteq> (b \<noteq> [] \<and> wd (hd b)) \<Longrightarrow> rx_match wd RWordB a [] b"
| Look: "rx_match wd r a m c \<Longrightarrow> b = m @ c \<Longrightarrow> rx_match wd (RLook r) a [] b"
| Group: "rx_match wd r a m b \<Longrightarrow> rx_match wd (RGroup r) a m b"

inductive_cases rx_match_elims:
  "rx_match wd (RLit s) a m b"
  "rx_match wd (RCls p) a m b"
  "rx_match wd (RMany greedy lo hi p) a m b"
  "rx_match wd (RSeq r q) a m b"
  "rx_match wd (RAlt r q) a m b"
  "rx_match wd RBol a m b"
  "rx_match wd REol a m b"
  "rx_match wd RWordB a m b"
  "rx_match wd (RLook r) a m b"
  "rx_match wd (RGroup r) a m b"

lemma take_takeWhile: "n \<le> length (takeWhile p xs) \<Longrightarrow> list_all p (take n xs)"
proof (induction xs arbitrary: n)
  case (Cons x xs)
  then show ?case by (cases n) (auto split: if_splits)
qed simp

lemma takeWhile_prefix: "list_all p m \<Longrightarrow> length m \<le> length (takeWhile p (m @ b))"
  by (induction m) auto

lemma rx_run_sound:
  "(pre', rest', g') \<in> set (rx_run wd r (pre, rest, g)) \<Longrightarrow>
   \<exists>m. rest = m @ rest' \<and> pre' = rev m @ pre \<and> rx_match wd r (rev pre) m rest'"
proof (induction r arbitrary: pre rest g pre' rest' g')
  case (RLit s)
  then show ?case by (auto simp: starts_with_conv intro: rx_match.intros split: if_splits)
next
  case (RCls p)
  then show ?case by (auto intro: rx_match.intros split: list.splits if_splits)
next
  case (RMany greedy lo hi p)
  then obtain n where n: "n \<in> set (many_counts greedy lo hi (length (takeWhile p rest)))"
    "pre' = rev (take n rest) @ pre" "rest' = drop n rest" by (auto simp: move_def)
  then have le: "n \<le> length (takeWhile p rest)" "lo \<le> n" "case hi of None \<Rightarrow> True | Some h \<Rightarrow> n \<le> h"
    by (auto simp: set_many_counts)
  have "n \<le> length rest" using le(1) length_takeWhile_le order.trans by blast
  then have "rx_match wd (RMany greedy lo hi p) (rev pre) (take n rest) rest'"
    using le by (intro rx_match.Many take_takeWhile) (auto split: option.splits)
  then show ?case using n by (intro exI [of _ "take n rest"]) simp
next
  case (RSeq a b)
  then obtain p1 r1 g1 where s: "(p1, r1, g1) \<in> set (rx_run wd a (pre, rest, g))"
    "(pre', rest', g') \<in> set (rx_run wd b (p1, r1, g1))" by auto
  obtain m where m: "rest = m @ r1" "p1 = rev m @ pre" "rx_match wd a (rev pre) m r1" using RSeq.IH(1) [OF s(1)] by blast
  obtain n where n: "r1 = n @ rest'" "pre' = rev n @ p1" "rx_match wd b (rev p1) n rest'" using RSeq.IH(2) [OF s(2)] by blast
  have "rx_match wd (RSeq a b) (rev pre) (m @ n) rest'" using m n by (intro rx_match.Seq) simp_all
  then show ?case using m n by (intro exI [of _ "m @ n"]) simp
next
  case (RAlt a b)
  then show ?case by (auto intro: rx_match.intros) (meson rx_match.AltL rx_match.AltR)+
next
  case (RLook a)
  then obtain p1 r1 g1 where "(p1, r1, g1) \<in> set (rx_run wd a (pre, rest, g))" and st: "pre' = pre" "rest' = rest"
    by (cases "rx_run wd a (pre, rest, g)") (auto split: if_splits)
  then obtain m where "rest = m @ r1" "rx_match wd a (rev pre) m r1" using RLook.IH by blast
  then show ?case using st by (auto intro: rx_match.Look)
next
  case (RGroup a)
  then obtain g1 where "(pre', rest', g1) \<in> set (rx_run wd a (pre, rest, g))" by auto
  from RGroup.IH [OF this] show ?case by (auto intro: rx_match.Group)
next
  case RBol
  then show ?case by (auto simp: at_bol_def last_rev intro!: rx_match.Bol split: if_splits)
next
  case REol
  then show ?case by (auto simp: at_eol_def intro!: rx_match.Eol split: if_splits)
next
  case RWordB
  then show ?case by (auto simp: at_boundary_def last_rev intro!: rx_match.WordB split: if_splits)
qed

lemma rx_run_complete:
  "rx_match wd r a m b \<Longrightarrow> \<exists>g'. (rev m @ rev a, b, g') \<in> set (rx_run wd r (rev a, m @ b, g))"
proof (induction arbitrary: g rule: rx_match.induct)
  case (Many p m lo hi greedy a b)
  have "length m \<in> set (many_counts greedy lo hi (length (takeWhile p (m @ b))))"
    using Many takeWhile_prefix [of p m b] by (auto simp: set_many_counts split: option.splits)
  then show ?case by (auto simp: move_def image_iff intro!: bexI [of _ "length m"])
next
  case (Seq r a m n b q)
  obtain g1 where g1: "(rev m @ rev a, n @ b, g1) \<in> set (rx_run wd r (rev a, m @ n @ b, g))" using Seq.IH(1) by blast
  obtain g2 where "(rev n @ rev (a @ m), b, g2) \<in> set (rx_run wd q (rev (a @ m), n @ b, g1))" using Seq.IH(2) by blast
  then show ?case using g1 by (auto intro!: bexI [of _ "(rev m @ rev a, n @ b, g1)"])
next
  case (Look r a m c b)
  then show ?case by (metis append_Nil empty_iff list.set(1) list.set_intros(1) rev.simps(1) rx_run.simps(9))
next
  case (Group r a m b)
  obtain g' where "(rev m @ rev a, b, g') \<in> set (rx_run wd r (rev a, m @ b, g))" using Group.IH by blast
  then show ?case by (force simp: image_iff)
next
  case (AltL r a m b q)
  then show ?case by (metis Un_iff rx_run.simps(5) set_append)
next
  case (AltR q a m b r)
  then show ?case by (metis Un_iff rx_run.simps(5) set_append)
qed (auto simp: at_bol_def at_eol_def at_boundary_def hd_rev)

text \<open>The search succeeds exactly when the expression matches somewhere.\<close>

lemma rx_scan_Nil: "rx_scan wd r False pre rest = [] \<longleftrightarrow> (\<forall>a b. rest = a @ b \<longrightarrow> rx_run wd r (rev a @ pre, b, None) = [])"
proof (induction rest arbitrary: pre)
  case Nil
  then show ?case by (subst rx_scan.simps) (auto simp: rx_next_def split: list.splits)
next
  case (Cons c cs)
  have "rx_scan wd r False pre (c # cs) = [] \<longleftrightarrow> rx_run wd r (pre, c # cs, None) = [] \<and> rx_scan wd r False (c # pre) cs = []"
    by (subst rx_scan.simps) (auto simp: rx_next_def split: list.splits)
  also have "\<dots> \<longleftrightarrow> (\<forall>a b. c # cs = a @ b \<longrightarrow> rx_run wd r (rev a @ pre, b, None) = [])"
    unfolding Cons.IH
  proof (intro iffI conjI allI impI)
    fix a b
    assume "rx_run wd r (pre, c # cs, None) = [] \<and> (\<forall>a b. cs = a @ b \<longrightarrow> rx_run wd r (rev a @ c # pre, b, None) = [])" "c # cs = a @ b"
    then show "rx_run wd r (rev a @ pre, b, None) = []" by (cases a) auto
  next
    assume all: "\<forall>a b. c # cs = a @ b \<longrightarrow> rx_run wd r (rev a @ pre, b, None) = []"
    show "rx_run wd r (pre, c # cs, None) = []" using all [rule_format, of "[]" "c # cs"] by simp
    show "rx_run wd r (rev a @ c # pre, b, None) = []" if "cs = a @ b" for a b
      using all [rule_format, of "c # a" b] that by simp
  qed
  finally show ?case .
qed

lemma rx_findall_iff: "rx_findall wd r s \<noteq> [] \<longleftrightarrow> (\<exists>a m b. s = a @ m @ b \<and> rx_match wd r a m b)"
proof -
  have "rx_findall wd r s \<noteq> [] \<longleftrightarrow> (\<exists>a b. s = a @ b \<and> rx_run wd r (rev a, b, None) \<noteq> [])"
    by (auto simp: rx_findall_def rx_scan_Nil)
  also have "\<dots> \<longleftrightarrow> (\<exists>a m b. s = a @ m @ b \<and> rx_match wd r a m b)"
  proof
    assume "\<exists>a b. s = a @ b \<and> rx_run wd r (rev a, b, None) \<noteq> []"
    then obtain a b p' r' g' where "s = a @ b" "(p', r', g') \<in> set (rx_run wd r (rev a, b, None))"
      by (metis list.set_intros(1) neq_Nil_conv prod_cases3)
    with rx_run_sound [OF this(2)] show "\<exists>a m b. s = a @ m @ b \<and> rx_match wd r a m b" by auto
  next
    assume "\<exists>a m b. s = a @ m @ b \<and> rx_match wd r a m b"
    then obtain a m b where s: "s = a @ m @ b" "rx_match wd r a m b" by blast
    obtain g where "(rev m @ rev a, b, g) \<in> set (rx_run wd r (rev a, m @ b, None))" using rx_run_complete [OF s(2)] by blast
    then show "\<exists>a b. s = a @ b \<and> rx_run wd r (rev a, b, None) \<noteq> []" using s(1) by (metis empty_iff list.set(1))
  qed
  finally show ?thesis .
qed

lemma rx_search_iff: "rx_search wd r s \<noteq> None \<longleftrightarrow> (\<exists>a m b. s = a @ m @ b \<and> rx_match wd r a m b)"
  unfolding rx_findall_iff [symmetric] rx_search_def by (auto split: list.splits)

text \<open>An escaped literal is found exactly when the text contains it.\<close>

lemma rx_match_Lit [simp]: "rx_match wd (RLit s) a m b \<longleftrightarrow> m = s"
  by (auto intro: rx_match.intros elim: rx_match_elims)

lemma rx_findall_Lit: "rx_findall wd (RLit s) t \<noteq> [] \<longleftrightarrow> contains s t"
  unfolding rx_findall_iff contains_conv by simp

lemma rx_match_Seq: "rx_match wd (RSeq r q) a m b \<longleftrightarrow> (\<exists>m1 m2. m = m1 @ m2 \<and> rx_match wd r a m1 (m2 @ b) \<and> rx_match wd q (a @ m1) m2 b)"
  by (auto intro: rx_match.intros elim!: rx_match_elims(4))

end
