(* ===== verification/Contract_Schema.thy ===== *)
theory Contract_Schema
  imports Contract_Report Py_Re
begin

text \<open>
  \<open>tools/check-contracts.py\<close>, the part that judges JSON data: the validation of a contract
  against its schema and the search for secret-like keys. Patterns that come from a schema are searched by an argument,
  \<open>cx_search\<close>, which stands for \<open>re.search\<close> on a pattern text.
\<close>

section \<open>Surroundings\<close>

text \<open>What the checker sees of its surroundings.\<close>

record repo =
  cx_search :: "pystr \<Rightarrow> pystr \<Rightarrow> bool res"
  cx_alnum :: "codepoint \<Rightarrow> bool"
  cx_printable :: "codepoint \<Rightarrow> bool"
  cx_netloc :: "pystr \<Rightarrow> bool"
  cx_is_file :: "pystr \<Rightarrow> bool res"
  cx_is_symlink :: "pystr \<Rightarrow> bool res"
  cx_read :: "pystr \<Rightarrow> bytes res"
  cx_mode :: "pystr \<Rightarrow> int res"
  cx_cwd :: pystr

section \<open>Names\<close>

definition basename :: "pystr \<Rightarrow> pystr" where
  "basename p = rev (takeWhile (\<lambda>c. c \<noteq> 47) (rev p))"

definition dirname :: "pystr \<Rightarrow> pystr" where
  "dirname p =
     (let head = rev (dropWhile (\<lambda>c. c \<noteq> 47) (rev p))
      in if list_all (\<lambda>c. c = 47) head then head else rev (dropWhile (\<lambda>c. c = 47) (rev head)))"

function replace_all :: "pystr \<Rightarrow> pystr \<Rightarrow> pystr \<Rightarrow> pystr" where
  "replace_all old new [] = []"
| "replace_all old new (c # s) =
     (if starts_with old (c # s) then new @ replace_all old new (drop (length old - 1) s) else c # replace_all old new s)"
  by pat_completeness auto
termination
  by (relation "measure (\<lambda>(_, _, s). length s)") auto

definition contract_name :: "pystr \<Rightarrow> pystr" where
  "contract_name ctx = replace_all (lit ''.schema.json'') [] (basename ctx)"

definition dotted :: "pystr \<Rightarrow> pystr \<Rightarrow> pystr" where
  "dotted a b = a @ [46] @ b"

definition indexed :: "pystr \<Rightarrow> nat \<Rightarrow> pystr" where
  "indexed a i = a @ [91] @ show_int (int i) @ [93]"

definition SUPPORTED_SCHEMA_KEYWORDS :: "pystr list" where
  "SUPPORTED_SCHEMA_KEYWORDS = map lit
     [''type'', ''properties'', ''required'', ''additionalProperties'', ''items'', ''const'', ''minimum'', ''maximum'',
      ''pattern'', ''enum'', ''minItems'', ''uniqueItems'', ''minLength'', ''format'', ''allOf'', ''if'', ''then'', ''else'',
      ''not'', ''description'', ''title'', ''$schema'', ''$id'', ''default'']"

section \<open>One value\<close>

text \<open>\<open>_validate_type\<close>: whether it returns an error.\<close>

definition validate_type :: "json \<Rightarrow> json \<Rightarrow> bool" where
  "validate_type val expected =
     (if expected = jstr ''array'' then \<not> is_list val
      else if expected = jstr ''object'' then \<not> is_dict val
      else if expected = jstr ''string'' then \<not> is_JStr val
      else if expected = jstr ''integer'' then (case val of JInt _ \<Rightarrow> False | _ \<Rightarrow> True)
      else if expected = jstr ''number'' then (case val of JInt _ \<Rightarrow> False | JFloat _ \<Rightarrow> False | _ \<Rightarrow> True)
      else if expected = jstr ''boolean'' then \<not> is_JBool val
      else False)"

definition has_key :: "json \<Rightarrow> string \<Rightarrow> bool" where
  "has_key d k = (case d of JObj kvs \<Rightarrow> map_of kvs (lit k) \<noteq> None | _ \<Rightarrow> False)"

text \<open>The condition of an \<open>if\<close> inside a property definition.\<close>

fun all_in :: "json \<Rightarrow> json list \<Rightarrow> bool res" where
  "all_in d [] = Inr True"
| "all_in d (f # fs) = res_bind (py_in f d) (\<lambda>b. res_bind (all_in d fs) (\<lambda>c. Inr (b \<and> c)))"

fun consts_agree :: "json \<Rightarrow> (pystr \<times> json) list \<Rightarrow> bool res" where
  "consts_agree d [] = Inr True"
| "consts_agree d ((fk, fpd) # fs) =
     res_bind (py_get d fk JNull) (\<lambda>fv.
     res_bind (if fv = JNull then Inr True
               else res_bind (py_get fpd (lit ''const'') JNull) (\<lambda>fc. Inr (fc = JNull \<or> py_eq fv fc))) (\<lambda>b.
     res_bind (consts_agree d fs) (\<lambda>c. Inr (b \<and> c))))"

definition if_matches :: "json \<Rightarrow> json \<Rightarrow> bool res" where
  "if_matches val ifc =
     (if is_dict val then
        res_bind (py_get ifc (lit ''required'') (JList [])) (\<lambda>req.
        res_bind (res_bind (py_iter req) (all_in val)) (\<lambda>a.
        res_bind (py_get ifc (lit ''properties'') (JObj [])) (\<lambda>props.
        res_bind (res_bind (py_items props) (consts_agree val)) (\<lambda>b. Inr (a \<and> b)))))
      else Inr True)"

definition check_min_length :: "json \<Rightarrow> json \<Rightarrow> bool res" where
  "check_min_length val pd =
     res_bind (py_get pd (lit ''minLength'') JNull) (\<lambda>ml.
       case val of JStr s \<Rightarrow> if ml = JNull then Inr False else py_lt (JInt (int (length s))) ml | _ \<Rightarrow> Inr False)"

definition check_pattern :: "repo \<Rightarrow> json \<Rightarrow> json \<Rightarrow> bool res" where
  "check_pattern cx val pd =
     (case val of
        JStr s \<Rightarrow> res_bind (py_get pd (lit ''pattern'') JNull) (\<lambda>pat.
          if \<not> py_truth pat then Inr False
          else res_bind (as_str pat) (\<lambda>p. res_bind (cx_search cx p s) (\<lambda>found. Inr (\<not> found))))
      | _ \<Rightarrow> Inr False)"

definition uri_like :: "pystr \<Rightarrow> bool" where
  "uri_like s \<longleftrightarrow> starts_with (lit ''http'') s \<or> starts_with (lit ''file'') s \<or> starts_with (lit ''/'') s \<or> starts_with (lit ''chrome'') s"

definition check_format :: "json \<Rightarrow> json \<Rightarrow> bool res" where
  "check_format val pd =
     (case val of
        JStr s \<Rightarrow> res_bind (py_get pd (lit ''format'') JNull) (\<lambda>fmt. Inr (fmt = jstr ''uri'' \<and> \<not> uri_like s))
      | _ \<Rightarrow> Inr False)"

definition check_enum :: "json \<Rightarrow> json \<Rightarrow> bool res" where
  "check_enum val pd =
     res_bind (py_get pd (lit ''enum'') JNull) (\<lambda>enum.
       if py_truth enum then res_bind (py_in val enum) (\<lambda>b. Inr (\<not> b)) else Inr False)"

definition is_number :: "json \<Rightarrow> bool" where
  "is_number v \<longleftrightarrow> num_of v \<noteq> None"

definition check_minimum :: "json \<Rightarrow> json \<Rightarrow> bool res" where
  "check_minimum val pd =
     (if is_number val then res_bind (py_get pd (lit ''minimum'') JNull) (\<lambda>pmin. if pmin = JNull then Inr False else py_lt val pmin)
      else Inr False)"

text \<open>\<open>val > pmax\<close>\<close>

definition check_maximum :: "json \<Rightarrow> json \<Rightarrow> bool res" where
  "check_maximum val pd =
     (if is_number val then res_bind (py_get pd (lit ''maximum'') JNull) (\<lambda>pmax. if pmax = JNull then Inr False else py_lt pmax val)
      else Inr False)"

definition check_min_items :: "json \<Rightarrow> json \<Rightarrow> bool res" where
  "check_min_items val pd =
     (case val of
        JList xs \<Rightarrow> res_bind (py_get pd (lit ''minItems'') JNull) (\<lambda>mi. if mi = JNull then Inr False else py_lt (JInt (int (length xs))) mi)
      | _ \<Rightarrow> Inr False)"

text \<open>The signature of an array element and the duplicates of a list of signatures.\<close>

definition item_sig :: "json \<Rightarrow> pystr" where
  "item_sig item = (case item of JStr s \<Rightarrow> s | _ \<Rightarrow> dumps_sorted item)"

fun duplicates :: "pystr list \<Rightarrow> pystr list \<Rightarrow> nat" where
  "duplicates seen [] = 0"
| "duplicates seen (s # ss) = (if s \<in> set seen then Suc (duplicates seen ss) else duplicates (s # seen) ss)"

definition check_unique :: "json \<Rightarrow> json \<Rightarrow> nat res" where
  "check_unique val pd =
     (case val of
        JList xs \<Rightarrow> res_bind (py_get pd (lit ''uniqueItems'') (JBool False)) (\<lambda>ui.
          Inr (if py_truth ui then duplicates [] (map item_sig xs) else 0))
      | _ \<Rightarrow> Inr 0)"

definition flag :: "bool res \<Rightarrow> string \<Rightarrow> pystr \<Rightarrow> pystr \<Rightarrow> pystr \<Rightarrow> (report, unit) rio" where
  "flag bad code name ctx key = r_with bad (\<lambda>b. r_when b (err code name (JStr key) ctx))"

text \<open>The checks after the combinators of a property definition.\<close>

definition validate_plain :: "repo \<Rightarrow> json \<Rightarrow> json \<Rightarrow> pystr \<Rightarrow> pystr \<Rightarrow> pystr \<Rightarrow> (report, unit) rio" where
  "validate_plain cx val pd name ctx key =
     r_with (py_get pd (lit ''type'') JNull) (\<lambda>et.
       if py_truth et \<and> validate_type val et then err ''SCHEMA_TYPE'' name (JStr key) ctx
       else r_seq (flag (check_min_length val pd) ''SCHEMA_MINLENGTH'' name ctx key)
           (r_seq (flag (check_pattern cx val pd) ''SCHEMA_PATTERN'' name ctx key)
           (r_seq (flag (check_format val pd) ''SCHEMA_FORMAT'' name ctx key)
           (r_seq (flag (check_enum val pd) ''SCHEMA_ENUM'' name ctx key)
           (r_seq (flag (check_minimum val pd) ''SCHEMA_BOUND'' name ctx key)
           (r_seq (flag (check_maximum val pd) ''SCHEMA_BOUND'' name ctx key)
           (r_seq (flag (check_min_items val pd) ''SCHEMA_MINITEMS'' name ctx key)
             (r_with (check_unique val pd) (\<lambda>n. r_each (\<lambda>_. err ''SCHEMA_DUPLICATE'' name (JStr key) ctx) [0..<n])))))))))"

text \<open>\<open>_validate_value\<close>\<close>

function validate_value :: "repo \<Rightarrow> json \<Rightarrow> json \<Rightarrow> pystr \<Rightarrow> pystr \<Rightarrow> pystr \<Rightarrow> (report, unit) rio" where
  "validate_value cx val pd name ctx key =
     r_with (py_get pd (lit ''const'') JNull) (\<lambda>c.
       if c \<noteq> JNull then r_when (\<not> py_eq val c) (err ''SCHEMA_CONST'' name (JStr key) ctx)
       else
         r_seq (r_with (py_get pd (lit ''allOf'') (JList [])) (\<lambda>all.
                  r_with (py_iter all) (r_each (\<lambda>cond. validate_value cx val cond name (dotted ctx key) key))))
        (r_seq (r_with (py_get pd (lit ''not'') JNull) (\<lambda>n.
                  r_when (py_truth n)
                    (r_bind (r_fresh (validate_value cx val n name (dotted ctx key) key))
                      (\<lambda>ok. r_when ok (err ''SCHEMA_NOT'' name (JStr key) ctx)))))
        (r_seq (r_with (py_get pd (lit ''if'') JNull) (\<lambda>ifc.
                  r_when (py_truth ifc)
                    (r_with (if_matches val ifc) (\<lambda>matched.
                       if matched \<and> has_key pd ''then'' then
                         r_with (py_item pd (lit ''then'')) (\<lambda>t. validate_value cx val t name (dotted ctx key) key)
                       else if \<not> matched \<and> has_key pd ''else'' then
                         r_with (py_item pd (lit ''else'')) (\<lambda>t. validate_value cx val t name (dotted ctx key) key)
                       else r_return ()))))
          (validate_plain cx val pd name ctx key))))"
  by pat_completeness auto
termination
proof (relation "measure (\<lambda>(cx, val, pd, name, ctx, key). jsize pd)", goal_cases)
  case (2 cx val pd name ctx key c all xs cond)
  then show ?case by (auto intro: py_iter_get_smaller)
next
  case (3 cx val pd name ctx key c n)
  then show ?case using py_get_smaller [of pd "lit ''not''" JNull n] by auto
qed (auto dest: py_item_smaller)

declare validate_value.simps [simp del]

section \<open>A whole contract\<close>

text \<open>\<open>_schema_cond_matches\<close>: a missing field or a failed test answers \<open>False\<close> at once.\<close>

fun fields_present :: "json \<Rightarrow> json list \<Rightarrow> bool res" where
  "fields_present d [] = Inr True"
| "fields_present d (f # fs) = res_bind (py_in f d) (\<lambda>b. if b then fields_present d fs else Inr False)"

definition cond_prop :: "repo \<Rightarrow> json \<Rightarrow> json \<Rightarrow> bool res" where
  "cond_prop cx val pd =
     res_bind (py_get pd (lit ''const'') JNull) (\<lambda>c.
       if c \<noteq> JNull \<and> \<not> py_eq val c then Inr False
       else res_bind (check_enum val pd) (\<lambda>bad.
         if bad then Inr False
         else res_bind (py_get pd (lit ''pattern'') JNull) (\<lambda>pat.
           if py_truth pat \<and> is_JStr val then res_bind (as_str pat) (\<lambda>p. res_bind (as_str val) (cx_search cx p))
           else Inr True)))"

fun cond_props :: "repo \<Rightarrow> json \<Rightarrow> (pystr \<times> json) list \<Rightarrow> bool res" where
  "cond_props cx d [] = Inr True"
| "cond_props cx d ((key, pd) # ps) =
     res_bind (py_in (JStr key) d) (\<lambda>b.
       if \<not> b then Inr False
       else res_bind (py_item d key) (\<lambda>val.
         res_bind (cond_prop cx val pd) (\<lambda>ok. if ok then cond_props cx d ps else Inr False)))"

definition schema_cond_matches :: "repo \<Rightarrow> json \<Rightarrow> json \<Rightarrow> bool res" where
  "schema_cond_matches cx d cond =
     res_bind (py_get cond (lit ''required'') (JList [])) (\<lambda>required.
     res_bind (res_bind (py_iter required) (fields_present d)) (\<lambda>ok.
       if \<not> ok then Inr False
       else res_bind (py_get cond (lit ''properties'') (JObj [])) (\<lambda>cprops.
         res_bind (py_items cprops) (cond_props cx d))))"

text \<open>The parts of \<open>_check_schema\<close> that do not recurse.\<close>

definition unsupported_keywords :: "json \<Rightarrow> pystr \<Rightarrow> (report, unit) rio" where
  "unsupported_keywords schema ctx =
     r_with (py_iter schema) (r_each (\<lambda>key.
       r_when (key \<notin> JStr ` set SUPPORTED_SCHEMA_KEYWORDS) (err ''UNSUPPORTED_KEYWORD'' (contract_name ctx) key ctx)))"

definition required_fields :: "json \<Rightarrow> json \<Rightarrow> pystr \<Rightarrow> (report, unit) rio" where
  "required_fields contract req ctx =
     r_with (py_iter req) (r_each (\<lambda>field.
       r_with (py_in field contract) (\<lambda>b. r_when (\<not> b) (err ''SCHEMA_REQUIRED'' (contract_name ctx) field ctx))))"

definition unknown_fields :: "json \<Rightarrow> json \<Rightarrow> json \<Rightarrow> pystr \<Rightarrow> (report, unit) rio" where
  "unknown_fields contract props addl ctx =
     r_when (addl = JBool False) (r_with (py_iter contract) (r_each (\<lambda>key.
       r_with (py_in key props) (\<lambda>b. r_when (\<not> b) (err ''SCHEMA_UNKNOWN'' (contract_name ctx) key ctx)))))"

definition validate_fields :: "repo \<Rightarrow> json \<Rightarrow> json \<Rightarrow> pystr \<Rightarrow> (report, unit) rio" where
  "validate_fields cx contract props ctx =
     r_with (py_items contract) (r_each (\<lambda>(key, val).
       r_with (py_in (JStr key) props) (\<lambda>b. r_when b
         (r_with (py_item props key) (\<lambda>pd. validate_value cx val pd (contract_name ctx) ctx key)))))"

text \<open>\<open>_check_schema\<close>\<close>

function check_schema :: "repo \<Rightarrow> json \<Rightarrow> json \<Rightarrow> pystr \<Rightarrow> (report, unit) rio" where
  "check_schema cx contract schema ctx =
     r_with (py_get schema (lit ''properties'') (JObj [])) (\<lambda>props.
     r_with (py_get schema (lit ''required'') (JList [])) (\<lambda>req.
     r_with (py_get schema (lit ''additionalProperties'') (JBool True)) (\<lambda>addl.
       r_seq (unsupported_keywords schema ctx)
      (r_seq (required_fields contract req ctx)
      (r_seq (unknown_fields contract props addl ctx)
      (r_seq (r_with (py_get schema (lit ''allOf'') (JList [])) (\<lambda>all.
                r_with (py_iter all) (r_each (\<lambda>cond. check_schema cx contract cond ctx))))
      (r_seq (r_with (py_get schema (lit ''not'') JNull) (\<lambda>not_cond.
                r_when (py_truth not_cond) (r_with (schema_cond_matches cx contract not_cond) (\<lambda>m.
                  r_when m (err ''SCHEMA_NOT'' (contract_name ctx) (JStr []) ctx)))))
      (r_seq (r_with (py_get schema (lit ''if'') JNull) (\<lambda>if_cond.
                r_when (py_truth if_cond) (r_with (schema_cond_matches cx contract if_cond) (\<lambda>matched.
                  if matched \<and> has_key schema ''then'' then
                    r_with (py_item schema (lit ''then'')) (\<lambda>t. check_schema cx contract t ctx)
                  else if \<not> matched \<and> has_key schema ''else'' then
                    r_with (py_item schema (lit ''else'')) (\<lambda>t. check_schema cx contract t ctx)
                  else r_return ()))))
      (r_seq (validate_fields cx contract props ctx)
        (r_with (py_items contract) (r_each (\<lambda>(key, val).
           r_with (py_in (JStr key) props) (\<lambda>b. r_when b (r_with (py_item props key) (\<lambda>pd.
             r_seq (r_when (is_dict val) (r_with (py_get pd (lit ''properties'') (JObj [])) (\<lambda>sub.
                      r_when (py_truth sub) (check_schema cx val pd (dotted ctx key)))))
               (r_with (py_get pd (lit ''items'') (JObj [])) (\<lambda>items_def.
                 case val of
                   JList xs \<Rightarrow> r_when (py_truth items_def) (r_each_from 0 (\<lambda>i item.
                     r_seq (validate_value cx item items_def (contract_name ctx) (dotted ctx key) (indexed key i))
                       (r_when (is_dict item) (r_with (py_get items_def (lit ''properties'') (JObj [])) (\<lambda>sub.
                          r_when (py_truth sub) (check_schema cx item items_def (indexed (dotted ctx key) i)))))) xs)
                 | _ \<Rightarrow> r_return ())))))))))))))))))"
  by pat_completeness auto
termination
proof (relation "measure (\<lambda>(cx, contract, schema, ctx). jsize schema)", goal_cases)
  case (2 cx contract schema ctx props req addl all xs cond)
  then show ?case by (auto intro: py_iter_get_smaller)
next
  case (5 cx contract schema ctx props req addl kvs x key val b pd sub)
  then show ?case
    using py_get_smaller [of schema "lit ''properties''" "JObj []" props] py_item_smaller [of props key pd] by auto
next
  case (6 cx contract schema ctx props req addl kvs x key val b pd items_def xs i item sub)
  then show ?case
    using py_get_smaller [of schema "lit ''properties''" "JObj []" props] py_item_smaller [of props key pd]
      py_get_smaller [of pd "lit ''items''" "JObj []" items_def] by auto
qed (auto dest: py_item_smaller)

declare check_schema.simps [simp del]

section \<open>Secrets\<close>

definition FORBIDDEN_FIELD_NAMES :: "pystr list" where
  "FORBIDDEN_FIELD_NAMES = map lit [''password'', ''passwd'', ''secret'', ''credential'', ''private_key'']"

definition forbidden_key :: "pystr \<Rightarrow> bool" where
  "forbidden_key key \<longleftrightarrow> map lower_ascii key \<in> set FORBIDDEN_FIELD_NAMES"

text \<open>\<open>_check_secrets\<close>: the entries it records, in order; it raises nothing.\<close>

fun secrets :: "json \<Rightarrow> pystr \<Rightarrow> pystr \<Rightarrow> entry list"
and secrets_obj :: "(pystr \<times> json) list \<Rightarrow> pystr \<Rightarrow> pystr \<Rightarrow> entry list"
and secrets_list :: "nat \<Rightarrow> json list \<Rightarrow> pystr \<Rightarrow> pystr \<Rightarrow> entry list"
where
  "secrets (JObj kvs) ctx path = secrets_obj kvs ctx path"
| "secrets (JList xs) ctx path = secrets_list 0 xs ctx path"
| "secrets _ ctx path = []"
| "secrets_obj [] ctx path = []"
| "secrets_obj ((key, val) # kvs) ctx path =
     (if forbidden_key key then [mk_entry ''FORBIDDEN_KEY'' path (JStr key) ctx] else [])
       @ secrets val ctx (dotted path key) @ secrets_obj kvs ctx path"
| "secrets_list i [] ctx path = []"
| "secrets_list i (x # xs) ctx path = secrets x ctx (indexed path i) @ secrets_list (Suc i) xs ctx path"

definition check_secrets :: "json \<Rightarrow> pystr \<Rightarrow> pystr \<Rightarrow> (report, unit) rio" where
  "check_secrets d ctx path = (\<lambda>r. (Inr (), r\<lparr>rep_errors := rep_errors r @ secrets d ctx path\<rparr>))"

end
