(* ===== verification/Contract_Sources.thy ===== *)
theory Contract_Sources
  imports Contract_Schema Os_Model Py_Web
begin

text \<open>
  \<open>tools/check-contracts.py\<close>, what the drift checks share: reading the files of the repository, the paths of
  \<open>pathlib\<close> and \<open>os.path\<close>, and the comparison of a source text with a pattern. The repository is what the fields of
  \<open>repo\<close> answer.
\<close>

section \<open>Paths\<close>

definition path_comps :: "pystr \<Rightarrow> pystr list" where
  "path_comps p = filter (\<lambda>c. c \<noteq> [] \<and> c \<noteq> [46]) (split_on 47 p)"

text \<open>\<open>root / rel\<close> as text, for an absolute normal root.\<close>

definition root_join :: "pystr \<Rightarrow> pystr \<Rightarrow> pystr" where
  "root_join base rel =
     (if starts_with [47] rel then path_norm rel
      else if path_comps rel = [] then base
      else base @ (if base \<noteq> [] \<and> last base = 47 then [] else [47]) @ join [47] (path_comps rel))"

text \<open>The components of \<open>os.path.abspath\<close>.\<close>

fun collapse :: "pystr list \<Rightarrow> pystr list \<Rightarrow> pystr list" where
  "collapse acc [] = rev acc"
| "collapse acc (c # cs) = (if c = [46, 46] then collapse (tl acc) cs else collapse (c # acc) cs)"

definition abs_parts :: "repo \<Rightarrow> pystr \<Rightarrow> pystr list" where
  "abs_parts cx p = collapse [] (path_comps (if starts_with [47] p then p else cx_cwd cx @ [47] @ p))"

fun common_prefix :: "pystr list \<Rightarrow> pystr list \<Rightarrow> nat" where
  "common_prefix (a # xs) (b # ys) = (if a = b then Suc (common_prefix xs ys) else 0)"
| "common_prefix _ _ = 0"

text \<open>\<open>os.path.relpath(path, start)\<close> for a path that is not empty.\<close>

definition relpath :: "repo \<Rightarrow> pystr \<Rightarrow> pystr \<Rightarrow> pystr" where
  "relpath cx path start =
     (let ss = abs_parts cx start; ps = abs_parts cx path; i = common_prefix ss ps;
          parts = replicate (length ss - i) [46, 46] @ drop i ps
      in if parts = [] then [46] else join [47] parts)"

section \<open>Files\<close>

definition PRODUCTION_ROOT :: pystr where
  "PRODUCTION_ROOT = lit ''live-build/config/includes.chroot''"

definition read_text :: "repo \<Rightarrow> utf8_errors \<Rightarrow> pystr \<Rightarrow> pystr res" where
  "read_text cx h p = res_bind (cx_read cx p) (\<lambda>bs. res_bind (utf8_decode h bs) (\<lambda>s. Inr (universal_newlines s)))"

definition load_json :: "repo \<Rightarrow> pystr \<Rightarrow> json res" where
  "load_json cx p =
     res_bind (read_text cx Strict p) (\<lambda>s.
       case json_loads s of
         Inr v \<Rightarrow> Inr v
       | Inl x \<Rightarrow> if x = JSONDecodeError then Inl RuntimeError else Inl x)"

definition must_exist :: "repo \<Rightarrow> pystr \<Rightarrow> pystr \<Rightarrow> pystr \<Rightarrow> (report, pystr option) rio" where
  "must_exist cx base rel contract =
     r_with (cx_is_file cx (root_join base rel)) (\<lambda>b.
       if b then r_return (Some (root_join base rel))
       else r_seq (err ''MISSING_SOURCE'' contract (JStr rel) (root_join base rel)) (r_return None))"

text \<open>The texts that were read, under their keys, each with the label of its file.\<close>

type_synonym sources = "(json \<times> pystr \<times> pystr) list"

fun load_sources :: "repo \<Rightarrow> pystr \<Rightarrow> pystr \<Rightarrow> bool \<Rightarrow> (json \<times> pystr) list \<Rightarrow> (report, sources) rio" where
  "load_sources cx base contract must [] = r_return []"
| "load_sources cx base contract must ((key, rel) # ms) =
     r_bind (if must then must_exist cx base rel contract
             else r_with (cx_is_file cx (root_join base rel)) (\<lambda>b. r_return (if b then Some (root_join base rel) else None)))
       (\<lambda>found. case found of
          None \<Rightarrow> load_sources cx base contract must ms
        | Some path \<Rightarrow> r_with (read_text cx Replace path) (\<lambda>text.
            r_bind (load_sources cx base contract must ms) (\<lambda>rest. r_return ((key, text, rel) # rest))))"

definition src_get :: "sources \<Rightarrow> json \<Rightarrow> (pystr \<times> pystr) option res" where
  "src_get srcs key =
     (if hashable key then Inr (map_option snd (find (\<lambda>e. py_same (fst e) key) srcs)) else Inl TypeError)"

section \<open>Patterns\<close>

definition word_char :: "repo \<Rightarrow> codepoint \<Rightarrow> bool" where
  "word_char cx c \<longleftrightarrow>
     (if c < 128 then 48 \<le> c \<and> c \<le> 57 \<or> 65 \<le> c \<and> c \<le> 90 \<or> 97 \<le> c \<and> c \<le> 122 \<or> c = 95 else cx_alnum cx c)"

definition rx_ws :: rx where "rx_ws = RMany True 0 None py_isspace"

definition rx_lit :: "string \<Rightarrow> rx" where "rx_lit s = RLit (lit s)"

definition rx_opt :: "codepoint \<Rightarrow> rx" where "rx_opt c = RMany True 0 (Some 1) (\<lambda>x. x = c)"

definition quoted :: "pystr \<Rightarrow> pystr" where "quoted s = [34] @ s @ [34]"

text \<open>\<open>_expect_pattern\<close>\<close>

definition expect_pattern :: "repo \<Rightarrow> sources \<Rightarrow> json \<Rightarrow> rx \<Rightarrow> string \<Rightarrow> string \<Rightarrow> nat \<Rightarrow> (report, unit) rio" where
  "expect_pattern cx srcs key pattern code field min_count =
     r_with (src_get srcs key) (\<lambda>found. case found of
       None \<Rightarrow> r_return ()
     | Some (text, label) \<Rightarrow>
         r_when (length (rx_findall (word_char cx) pattern text) < min_count) (err code (lit ''runtime'') (jstr field) label))"

text \<open>\<open>_num_pattern\<close>\<close>

definition int_pattern :: "int \<Rightarrow> rx" where
  "int_pattern n = RAlt (RLit (show_int n)) (RLit (show_int n @ lit ''.0''))"

definition num_pattern :: "repo \<Rightarrow> json \<Rightarrow> rx" where
  "num_pattern cx v =
     (case v of
        JInt n \<Rightarrow> int_pattern n
      | JFloat f \<Rightarrow>
          (case float_num f of
             Fin r \<Rightarrow> if snd (quotient_of r) = 1 then int_pattern (fst (quotient_of r)) else RLit (py_str (cx_printable cx) v)
           | _ \<Rightarrow> RLit (py_str (cx_printable cx) v))
      | _ \<Rightarrow> RLit (py_str (cx_printable cx) v))"

section \<open>Sets of values\<close>

text \<open>\<open>set(v)\<close>: its elements, which must be hashable.\<close>

definition py_set :: "json \<Rightarrow> json list res" where
  "py_set v = res_bind (py_iter v) (\<lambda>xs. if list_all hashable xs then Inr xs else Inl TypeError)"

definition set_mem :: "json \<Rightarrow> json list \<Rightarrow> bool" where
  "set_mem x ys \<longleftrightarrow> list_ex (\<lambda>y. py_same y x) ys"

definition set_eq :: "json list \<Rightarrow> json list \<Rightarrow> bool" where
  "set_eq xs ys \<longleftrightarrow> list_all (\<lambda>x. set_mem x ys) xs \<and> list_all (\<lambda>y. set_mem y xs) ys"

text \<open>Whether \<open>sorted\<close> succeeds on a set: at most one element, or all of one comparable kind.\<close>

definition sortable :: "json list \<Rightarrow> bool" where
  "sortable xs \<longleftrightarrow>
     list_all is_JStr xs \<or> list_all is_number xs \<or> (case xs of [] \<Rightarrow> True | x # ys \<Rightarrow> list_all (\<lambda>y. py_same x y) ys)"

text \<open>A set mismatch whose message sorts the given values.\<close>

definition mismatch :: "json list \<Rightarrow> bool \<Rightarrow> string \<Rightarrow> string \<Rightarrow> pystr \<Rightarrow> (report, unit) rio" where
  "mismatch shown differ code field label =
     r_when differ (r_with (if sortable shown then Inr () else Inl TypeError) (\<lambda>_. err code (lit ''runtime'') (jstr field) label))"

end
