(* ===== verification/Contract_Runtime.thy ===== *)
theory Contract_Runtime
  imports Contract_Sources
begin

text \<open>
  \<open>tools/check-contracts.py\<close>, the drift of the runtime contract: the URLs, paths, timeouts, routes and configuration
  keys that the contract declares against the texts of the production sources, the file \<open>config.env\<close>, the browser
  policy and the unit files.
\<close>

section \<open>Sources\<close>

definition in_production :: "string \<Rightarrow> pystr" where
  "in_production p = PRODUCTION_ROOT @ lit p"

definition RUNTIME_SOURCE_FILES :: "(json \<times> pystr) list" where
  "RUNTIME_SOURCE_FILES = map (\<lambda>(k, p). (jstr k, in_production p))
     [(''launch'', ''/usr/local/bin/sushida-launch''),
      (''netwatch'', ''/usr/local/bin/sushida-network-watch''),
      (''navwatch'', ''/usr/local/bin/sushida-navigation-watch''),
      (''session'', ''/usr/local/libexec/sushida-session''),
      (''wifi'', ''/usr/local/libexec/sushida-wifi-setup''),
      (''wifi_nmcli'', ''/usr/lib/python3/dist-packages/sushida_os/wifi/nmcli.py''),
      (''wifi_restore'', ''/usr/lib/python3/dist-packages/sushida_os/wifi/restore.py''),
      (''wifi_storage'', ''/usr/lib/python3/dist-packages/sushida_os/wifi/storage.py''),
      (''wifi_web'', ''/usr/lib/python3/dist-packages/sushida_os/wifi/web.py''),
      (''configprep'', ''/usr/local/libexec/sushida-config-prepare''),
      (''splash_handoff'', ''/usr/local/libexec/sushida-splash-handoff''),
      (''serial_marker'', ''/usr/local/libexec/sushida-serial-marker''),
      (''config'', ''/usr/lib/python3/dist-packages/sushida_os/config.py''),
      (''runtime_routes'', ''/usr/lib/python3/dist-packages/sushida_os/runtime/routes.py''),
      (''runtime_state'', ''/usr/lib/python3/dist-packages/sushida_os/runtime/runtime_state.py'')]"

text \<open>\<open>if v:\<close> with a body that uses \<open>v\<close> as a string.\<close>

definition when_str :: "json \<Rightarrow> (pystr \<Rightarrow> (report, unit) rio) \<Rightarrow> (report, unit) rio" where
  "when_str v f = r_when (py_truth v) (r_with (as_str v) f)"

section \<open>URLs\<close>

text \<open>\<open>urlsplit(url).port\<close>\<close>

definition url_port :: "repo \<Rightarrow> pystr \<Rightarrow> int option res" where
  "url_port cx url = res_bind (urlsplit (cx_netloc cx) url) sr_port"

definition port_pattern :: "int \<Rightarrow> rx" where
  "port_pattern port = rseq [RBol, rx_lit ''PORT'', rx_ws, rx_lit ''='', rx_ws, RLit (show_int port), RWordB]"

text \<open>\<open>_drift_urls\<close>\<close>

definition drift_urls :: "repo \<Rightarrow> json \<Rightarrow> sources \<Rightarrow> (report, unit) rio" where
  "drift_urls cx urls texts =
     r_with (py_get urls (lit ''setup_url'') (JStr [])) (\<lambda>setup.
     r_with (py_get urls (lit ''offline_url'') (JStr [])) (\<lambda>offline.
       r_seq (r_each (\<lambda>key.
                r_seq (when_str setup (\<lambda>u. expect_pattern cx texts (jstr key) (RLit u) ''DRIFT_URL'' ''urls.setup_url'' 1))
                  (when_str offline (\<lambda>u. expect_pattern cx texts (jstr key) (RLit u) ''DRIFT_URL'' ''urls.offline_url'' 1)))
              [''launch'', ''session''])
         (when_str setup (\<lambda>u. r_with (url_port cx u) (\<lambda>port. case port of
            None \<Rightarrow> r_return ()
          | Some n \<Rightarrow> expect_pattern cx texts (jstr ''wifi_web'') (port_pattern n) ''DRIFT_URL'' ''urls.setup_url'' 1)))))"

section \<open>Paths\<close>

text \<open>\<open>NAME="value"\<close>, \<open>NAME = Path("value")\<close> with and without free spaces, and a line of a unit file.\<close>

definition shell_decl :: "string \<Rightarrow> pystr \<Rightarrow> rx" where
  "shell_decl name v = RLit (lit name @ [61] @ quoted v)"

definition path_decl :: "string \<Rightarrow> pystr \<Rightarrow> rx" where
  "path_decl name v = rseq [rx_lit name, rx_ws, rx_lit ''='', rx_ws, RLit (lit ''Path('' @ quoted v @ lit '')'')]"

definition path_decl_exact :: "string \<Rightarrow> pystr \<Rightarrow> rx" where
  "path_decl_exact name v = RLit (lit name @ lit '' = Path('' @ quoted v @ lit '')'')"

definition unit_line :: "string \<Rightarrow> pystr \<Rightarrow> rx" where
  "unit_line name v = rseq [RBol, RLit (lit name @ [61] @ v), REol]"

definition path_check :: "repo \<Rightarrow> sources \<Rightarrow> string \<Rightarrow> string \<Rightarrow> rx \<Rightarrow> (report, unit) rio" where
  "path_check cx srcs field key pattern = expect_pattern cx srcs (jstr key) pattern ''DRIFT_PATH'' field 1"

text \<open>The check of a line of the unit that the contract names under \<open>service\<close>.\<close>

definition unit_check :: "repo \<Rightarrow> json \<Rightarrow> sources \<Rightarrow> string \<Rightarrow> string \<Rightarrow> rx \<Rightarrow> (report, unit) rio" where
  "unit_check cx services units service field pattern =
     r_with (py_get services (lit service) (JStr [])) (\<lambda>u.
       r_when (py_truth u) (expect_pattern cx units u pattern ''DRIFT_PATH'' field 1))"

definition path_error :: "string \<Rightarrow> (report, unit) rio" where
  "path_error field = err ''DRIFT_PATH'' (lit ''runtime'') (jstr field) (lit ''contract'')"

definition paths_runtime_dir :: "repo \<Rightarrow> json \<Rightarrow> json \<Rightarrow> sources \<Rightarrow> sources \<Rightarrow> (report, unit) rio" where
  "paths_runtime_dir cx runtime_dir services texts units =
     (let field = ''runtime_paths.runtime_dir'' in
      when_str runtime_dir (\<lambda>d.
        r_seq (r_each (\<lambda>key. path_check cx texts field key (shell_decl ''PROD_RUNTIME'' d)) [''launch'', ''netwatch''])
       (r_seq (path_check cx texts field ''navwatch'' (path_decl ''PROD_RUNTIME'' d))
         (unit_check cx services units ''kiosk_service'' field (unit_line ''RuntimeDirectory'' (basename d))))))"

definition paths_state_file :: "repo \<Rightarrow> json \<Rightarrow> json \<Rightarrow> sources \<Rightarrow> (report, unit) rio" where
  "paths_state_file cx runtime_dir state_file texts =
     (let field = ''runtime_paths.runtime_state_file'' in
      when_str state_file (\<lambda>f.
        r_seq (r_when (py_truth runtime_dir \<and> \<not> py_eq (JStr (dirname f)) runtime_dir) (path_error field))
       (r_seq (r_each (\<lambda>key. path_check cx texts field key (rx_lit ''python3 -m sushida_os.runtime.runtime_state'')) [''launch'', ''netwatch''])
       (r_seq (path_check cx texts field ''runtime_state'' (RLit (lit ''STATE_BASENAME = '' @ quoted (basename f))))
       (r_seq (path_check cx texts field ''runtime_state'' (path_decl_exact ''PROD_RUNTIME_DIR'' (dirname f)))
         (path_check cx texts field ''splash_handoff'' (shell_decl ''PROD_STATE_FILE'' f)))))))"

definition paths_wifi_setup :: "repo \<Rightarrow> json \<Rightarrow> json \<Rightarrow> json \<Rightarrow> sources \<Rightarrow> sources \<Rightarrow> (report, unit) rio" where
  "paths_wifi_setup cx wifi_setup_dir csrf_file services texts units =
     r_seq (r_when (py_truth wifi_setup_dir \<and> py_truth csrf_file)
              (r_with (as_str csrf_file) (\<lambda>f. r_when (\<not> py_eq (JStr (dirname f)) wifi_setup_dir) (path_error ''runtime_paths.csrf_token_file''))))
    (r_seq (when_str csrf_file (\<lambda>f. path_check cx texts ''runtime_paths.csrf_token_file'' ''wifi_storage'' (path_decl ''CSRF_TOKEN_FILE'' f)))
      (r_when (py_truth wifi_setup_dir)
        (r_with (py_get services (lit ''wifi_setup_service'') (JStr [])) (\<lambda>u. r_when (py_truth u)
          (r_with (as_str wifi_setup_dir) (\<lambda>d.
             expect_pattern cx units u (unit_line ''RuntimeDirectory'' (basename d)) ''DRIFT_PATH'' ''runtime_paths.wifi_setup_runtime_dir'' 1))))))"

definition paths_marker :: "repo \<Rightarrow> json \<Rightarrow> json \<Rightarrow> sources \<Rightarrow> sources \<Rightarrow> (report, unit) rio" where
  "paths_marker cx marker services texts units =
     (let field = ''runtime_paths.wifi_connection_marker'' in
      when_str marker (\<lambda>f.
        r_seq (path_check cx texts field ''wifi_storage'' (path_decl_exact ''CONNECTION_MARKER_FILE'' f))
       (r_seq (path_check cx texts field ''netwatch'' (RLit f))
         (unit_check cx services units ''wifi_setup_service'' field (unit_line ''ReadWritePaths'' (dirname f))))))"

definition paths_config_mount :: "repo \<Rightarrow> json \<Rightarrow> json \<Rightarrow> sources \<Rightarrow> sources \<Rightarrow> (report, unit) rio" where
  "paths_config_mount cx config_mount services texts units =
     (let field = ''runtime_paths.config_mount_path'' in
      when_str config_mount (\<lambda>d.
        r_seq (path_check cx texts field ''wifi_storage'' (path_decl ''CONFIG_MOUNT'' d))
       (r_seq (path_check cx texts field ''configprep'' (shell_decl ''CONFIG_MOUNT'' d))
       (r_seq (path_check cx texts field ''serial_marker'' (shell_decl ''PROD_CONFIG_MOUNT'' d))
         (unit_check cx services units ''config_mount_unit'' field (unit_line ''Where'' d))))))"

definition paths_storage_status :: "repo \<Rightarrow> json \<Rightarrow> sources \<Rightarrow> (report, unit) rio" where
  "paths_storage_status cx storage_status texts =
     (let field = ''runtime_paths.config_storage_status'' in
      when_str storage_status (\<lambda>f.
        r_seq (path_check cx texts field ''wifi_storage'' (path_decl ''STORAGE_STATUS'' f))
       (r_seq (path_check cx texts field ''configprep'' (shell_decl ''STATUS_DIR'' (dirname f)))
         (path_check cx texts field ''configprep'' (RLit (basename f))))))"

text \<open>\<open>NAME = PARENT / "component"\<close>\<close>

definition child_decl :: "string \<Rightarrow> string \<Rightarrow> pystr \<Rightarrow> rx" where
  "child_decl name parent v =
     rseq [rx_lit name, rx_ws, rx_lit ''='', rx_ws, rx_lit parent, rx_ws, rx_lit ''/'', rx_ws, RLit (quoted v)]"

definition paths_credential :: "repo \<Rightarrow> json \<Rightarrow> json \<Rightarrow> sources \<Rightarrow> (report, unit) rio" where
  "paths_credential cx credential config_mount texts =
     (let field = ''runtime_paths.credential_file'' in
      r_when (py_truth credential \<and> py_truth config_mount)
        (r_with (as_str credential) (\<lambda>f. r_with (as_str config_mount) (\<lambda>d.
           let rel = relpath cx f d; parts = split_on 47 rel in
           if starts_with (lit ''..'') rel \<or> length parts \<noteq> 2 then path_error field
           else r_seq (path_check cx texts field ''wifi_storage'' (child_decl ''CONFIG_DIR'' ''CONFIG_MOUNT'' (parts ! 0)))
                  (path_check cx texts field ''wifi_storage'' (child_decl ''CONFIG_FILE'' ''CONFIG_DIR'' (parts ! 1)))))))"

definition profile_pattern :: "pystr \<Rightarrow> rx" where
  "profile_pattern name = rseq [rx_lit ''--user-data-dir='', RMany True 0 None (\<lambda>c. \<not> py_isspace c), RLit name, RWordB]"

definition paths_profile :: "repo \<Rightarrow> json \<Rightarrow> json \<Rightarrow> sources \<Rightarrow> (report, unit) rio" where
  "paths_profile cx runtime_dir profile_dir texts =
     (let field = ''runtime_paths.chromium_profile_dir'' in
      when_str profile_dir (\<lambda>d.
        r_seq (r_when (py_truth runtime_dir \<and> \<not> py_eq (JStr (dirname d)) runtime_dir) (path_error field))
       (r_seq (path_check cx texts field ''launch'' (RLit (basename d)))
         (path_check cx texts field ''session'' (profile_pattern (basename d))))))"

definition sessions_pattern :: "pystr list \<Rightarrow> rx" where
  "sessions_pattern segments =
     rseq (path_decl ''SESSIONS_SUBDIR'' (hd segments)
       # concat (map (\<lambda>s. [rx_ws, rx_lit ''/'', rx_ws, RLit (quoted s)]) (tl segments)))"

definition paths_sessions :: "repo \<Rightarrow> json \<Rightarrow> json \<Rightarrow> sources \<Rightarrow> (report, unit) rio" where
  "paths_sessions cx sessions_dir profile_dir texts =
     (let field = ''runtime_paths.chromium_sessions_dir'' in
      r_when (py_truth sessions_dir \<and> py_truth profile_dir)
        (r_with (as_str sessions_dir) (\<lambda>s. r_with (as_str profile_dir) (\<lambda>d.
           let rel = relpath cx s d in
           if starts_with (lit ''..'') rel then path_error field
           else path_check cx texts field ''navwatch'' (sessions_pattern (basename d # split_on 47 rel))))))"

text \<open>\<open>_drift_runtime_paths\<close>\<close>

definition drift_runtime_paths :: "repo \<Rightarrow> json \<Rightarrow> json \<Rightarrow> sources \<Rightarrow> sources \<Rightarrow> (report, unit) rio" where
  "drift_runtime_paths cx rpaths services texts units =
     (let get = \<lambda>k. py_get rpaths (lit k) (JStr []) in
      r_with (get ''runtime_dir'') (\<lambda>runtime_dir.
      r_seq (paths_runtime_dir cx runtime_dir services texts units)
     (r_seq (r_with (get ''runtime_state_file'') (\<lambda>f. paths_state_file cx runtime_dir f texts))
     (r_seq (r_with (get ''wifi_setup_runtime_dir'') (\<lambda>d. r_with (get ''csrf_token_file'') (\<lambda>f.
               paths_wifi_setup cx d f services texts units)))
     (r_seq (r_with (get ''wifi_connection_marker'') (\<lambda>f. paths_marker cx f services texts units))
      (r_with (get ''config_mount_path'') (\<lambda>config_mount.
        r_seq (paths_config_mount cx config_mount services texts units)
       (r_seq (r_with (get ''config_storage_status'') (\<lambda>f. paths_storage_status cx f texts))
       (r_seq (r_with (get ''credential_file'') (\<lambda>f. paths_credential cx f config_mount texts))
        (r_with (get ''chromium_profile_dir'') (\<lambda>profile_dir.
          r_seq (paths_profile cx runtime_dir profile_dir texts)
            (r_with (get ''chromium_sessions_dir'') (\<lambda>s. paths_sessions cx s profile_dir texts)))))))))))))"

section \<open>Timeouts\<close>

text \<open>\<open>NAME = value\<close> and a key of the settings table with its default.\<close>

definition assign_pattern :: "string \<Rightarrow> rx \<Rightarrow> rx" where
  "assign_pattern name v = rseq [rx_lit name, rx_ws, rx_lit ''='', rx_ws, v, RWordB]"

definition default_pattern :: "string \<Rightarrow> rx \<Rightarrow> rx" where
  "default_pattern name v =
     rseq [RLit (lit ''Setting('' @ quoted (lit name) @ lit '',''), RMany True 0 None (\<lambda>c. c \<noteq> 41), RWordB, rx_lit ''default='', v, RWordB]"

definition wait_pattern :: "rx \<Rightarrow> rx" where
  "wait_pattern v = rseq [RLit (quoted (lit ''--wait'') @ [44]), rx_ws, RLit [34], v, RLit [34]]"

definition up_pattern :: "rx \<Rightarrow> rx" where
  "up_pattern v = rseq [RLit (quoted (lit ''up'')), RMany False 0 (Some 160) (\<lambda>_. True), rx_lit ''timeout='', v, RWordB]"

definition deadline_pattern :: "rx \<Rightarrow> rx" where
  "deadline_pattern v =
     rseq [rx_lit ''deadline'', rx_ws, rx_lit ''='', rx_ws, RAlt (rx_lit ''time.'') (RLit []), rx_lit ''monotonic()'', rx_ws, rx_lit ''+'', rx_ws, v, RWordB]"

definition raw_pattern :: "rx \<Rightarrow> rx" where
  "raw_pattern v = rseq [rx_lit ''_raw_at='', v, RWordB]"

definition TIMEOUT_ADAPTERS :: "(string \<times> string \<times> (rx \<Rightarrow> rx) \<times> nat) list" where
  "TIMEOUT_ADAPTERS =
     [(''wifi_command_default_timeout_seconds'', ''wifi_nmcli'', assign_pattern ''COMMAND_TIMEOUT_SECONDS'', 1),
      (''wifi_activation_wait_seconds'', ''wifi_nmcli'', wait_pattern, 2),
      (''wifi_activation_process_timeout_seconds'', ''wifi_nmcli'', up_pattern, 2),
      (''restore_backoff_min_seconds'', ''wifi_restore'', assign_pattern ''BACKOFF_MIN'', 1),
      (''restore_backoff_max_seconds'', ''wifi_restore'', assign_pattern ''BACKOFF_MAX'', 1),
      (''restore_max_retries'', ''wifi_restore'', assign_pattern ''MAX_RETRIES'', 1),
      (''restore_deadline_seconds'', ''wifi_restore'', deadline_pattern, 1),
      (''nav_poll_interval_seconds'', ''navwatch'', assign_pattern ''DEFAULT_POLL_SECONDS'', 1),
      (''nav_cooldown_seconds'', ''navwatch'', assign_pattern ''DEFAULT_COOLDOWN_SECONDS'', 1),
      (''http_read_timeout_seconds'', ''wifi_web'', assign_pattern ''REQUEST_READ_TIMEOUT_SECONDS'', 1),
      (''http_max_request_bytes'', ''wifi_web'', assign_pattern ''MAX_REQUEST_BYTES'', 1),
      (''session_audio_timeout_seconds'', ''session'', raw_pattern, 1),
      (''network_check_interval_seconds'', ''config'', default_pattern ''NETWORK_CHECK_INTERVAL_SECONDS'', 1),
      (''network_setup_grace_seconds'', ''config'', default_pattern ''NETWORK_SETUP_GRACE_SECONDS'', 1)]"

definition drift_timeouts :: "repo \<Rightarrow> json \<Rightarrow> sources \<Rightarrow> (report, unit) rio" where
  "drift_timeouts cx timeouts texts =
     r_each (\<lambda>(field, key, template, min_count).
       r_with (py_get timeouts (lit field) JNull) (\<lambda>v. r_when (v \<noteq> JNull)
         (expect_pattern cx texts (jstr key) (template (num_pattern cx v)) ''DRIFT_TIMEOUT'' (''timeouts.'' @ field) min_count)))
       TIMEOUT_ADAPTERS"

section \<open>Routes and configuration keys\<close>

definition lower_az :: "codepoint \<Rightarrow> bool" where "lower_az c \<longleftrightarrow> 97 \<le> c \<and> c \<le> 122"

definition upper_az :: "codepoint \<Rightarrow> bool" where "upper_az c \<longleftrightarrow> 65 \<le> c \<and> c \<le> 90"

text \<open>\<open>[a-z][a-z-]*\<close>\<close>

definition route_word :: rx where
  "route_word = RSeq (RCls lower_az) (RMany True 0 None (\<lambda>c. lower_az c \<or> c = 45))"

definition launch_routes :: rx where
  "launch_routes = rseq [RLit (lit ''ACTIVE_ROUTE='' @ [34]), RGroup route_word, RLit [34]]"

definition printf_routes :: rx where
  "printf_routes = rseq [RLit (lit ''printf '' @ [39] @ lit ''%s'' @ [92] @ lit ''n'' @ [39] @ lit '' ''), RGroup route_word, RWordB]"

definition case_routes :: rx where
  "case_routes =
     (let sp = RMany True 1 None py_isspace in
      rseq [rx_lit ''case'', sp, RLit (quoted (lit ''$route'')), sp, rx_lit ''in'', sp,
            RGroup (RMany True 1 None (\<lambda>c. lower_az c \<or> c = 124)), rx_lit '')''])"

definition model_routes :: rx where
  "model_routes =
     rseq [RBol, rx_lit ''ROUTE_'', RMany True 1 None (\<lambda>c. upper_az c \<or> c = 95), RLit (lit '' = '' @ [34]),
           RGroup (RMany True 1 None (\<lambda>c. lower_az c \<or> c = 45)), RLit [34], REol]"

definition netwatch_routes :: "(codepoint \<Rightarrow> bool) \<Rightarrow> pystr \<Rightarrow> pystr list" where
  "netwatch_routes wd text =
     rx_groups wd printf_routes text
       @ (case rx_search wd case_routes text of Some (_, Some g) \<Rightarrow> split_on 124 g | _ \<Rightarrow> [])"

definition route_check :: "sources \<Rightarrow> string \<Rightarrow> (pystr \<Rightarrow> pystr list) \<Rightarrow> json list \<Rightarrow> (report, unit) rio" where
  "route_check texts key extract expected =
     r_with (src_get texts (jstr key)) (\<lambda>src. case src of
       None \<Rightarrow> r_return ()
     | Some (text, label) \<Rightarrow> mismatch expected (\<not> set_eq (map JStr (extract text)) expected) ''DRIFT_ROUTE'' ''routes'' label)"

definition drift_routes :: "repo \<Rightarrow> json \<Rightarrow> sources \<Rightarrow> (report, unit) rio" where
  "drift_routes cx routes texts =
     r_with (py_set routes) (\<lambda>expected.
       r_when (expected \<noteq> [])
         (r_seq (route_check texts ''launch'' (rx_groups (word_char cx) launch_routes) expected)
         (r_seq (route_check texts ''netwatch'' (netwatch_routes (word_char cx)) expected)
           (route_check texts ''runtime_routes'' (rx_groups (word_char cx) model_routes) expected))))"

definition setting_keys :: rx where
  "setting_keys =
     rseq [RBol, rx_ws, RLit (lit ''Setting('' @ [34]),
           RGroup (RSeq (RCls upper_az) (RMany True 0 None (\<lambda>c. upper_az c \<or> ascii_digit c \<or> c = 95))), RLit [34]]"

definition config_call :: rx where
  "config_call = rseq [rx_lit ''python3 -m sushida_os.config'', RWordB]"

definition config_loop :: rx where
  "config_loop =
     rseq [RWordB, rx_lit ''done'', rx_ws, rx_lit ''<'', rx_ws, rx_opt 34, rx_lit ''$'', rx_opt 123, rx_lit ''CONFIG_FILE'', RWordB]"

definition config_error_at :: "pystr \<Rightarrow> (report, unit) rio" where
  "config_error_at label = err ''DRIFT_CONFIG_KEY'' (lit ''runtime'') (jstr ''config_keys'') label"

definition config_module_check :: "repo \<Rightarrow> sources \<Rightarrow> json list \<Rightarrow> (report, unit) rio" where
  "config_module_check cx texts expected =
     r_with (src_get texts (jstr ''config'')) (\<lambda>src. case src of
       None \<Rightarrow> r_return ()
     | Some (text, label) \<Rightarrow>
         let found = map JStr (rx_groups (word_char cx) setting_keys text) in
         mismatch (filter (\<lambda>k. \<not> set_mem k found) expected) (\<not> set_eq found expected) ''DRIFT_CONFIG_KEY'' ''config_keys'' label)"

definition config_caller_check :: "repo \<Rightarrow> sources \<Rightarrow> string \<Rightarrow> (report, unit) rio" where
  "config_caller_check cx texts key =
     r_with (src_get texts (jstr key)) (\<lambda>src. case src of
       None \<Rightarrow> r_return ()
     | Some (text, label) \<Rightarrow>
         r_seq (r_when (rx_search (word_char cx) config_call text = None) (config_error_at label))
           (r_when (rx_search (word_char cx) config_loop text \<noteq> None) (config_error_at label)))"

definition drift_config_keys :: "repo \<Rightarrow> json \<Rightarrow> sources \<Rightarrow> (report, unit) rio" where
  "drift_config_keys cx config_keys texts =
     r_with (py_set config_keys) (\<lambda>expected.
       r_when (expected \<noteq> [])
         (r_seq (config_module_check cx texts expected)
           (r_each (config_caller_check cx texts) [''launch'', ''netwatch''])))"

section \<open>The configuration file\<close>

text \<open>The loop over the lines of \<open>config.env\<close>; it returns the keys that were seen.\<close>

definition env_value :: "repo \<Rightarrow> json \<Rightarrow> json \<Rightarrow> pystr \<Rightarrow> pystr \<Rightarrow> pystr \<Rightarrow> (report, unit) rio" where
  "env_value cx urls timeouts path key v =
     (if key = lit ''SUSHIDA_URL'' then
        r_with (py_get urls (lit ''sushida_url'') (JStr [])) (\<lambda>e.
          r_when (\<not> py_eq (JStr v) e) (err ''RUNTIME_URL_MISMATCH'' (lit ''runtime'') (jstr ''urls.sushida_url'') path))
      else if key = lit ''NETWORK_CHECK_INTERVAL_SECONDS'' then
        r_with (py_get timeouts (lit ''network_check_interval_seconds'') (JStr [])) (\<lambda>e.
          r_when (v \<noteq> py_str (cx_printable cx) e)
            (err ''DRIFT_TIMEOUT'' (lit ''runtime'') (jstr ''timeouts.network_check_interval_seconds'') path))
      else if key = lit ''NETWORK_SETUP_GRACE_SECONDS'' then
        r_with (py_get timeouts (lit ''network_setup_grace_seconds'') (JStr [])) (\<lambda>e.
          r_when (v \<noteq> py_str (cx_printable cx) e)
            (err ''DRIFT_TIMEOUT'' (lit ''runtime'') (jstr ''timeouts.network_setup_grace_seconds'') path))
      else r_return ())"

definition rstrip_cr :: "pystr \<Rightarrow> pystr" where
  "rstrip_cr s = rev (dropWhile (\<lambda>c. c = 13) (rev s))"

fun env_lines :: "repo \<Rightarrow> json list \<Rightarrow> json \<Rightarrow> json \<Rightarrow> pystr \<Rightarrow> pystr list \<Rightarrow> pystr list \<Rightarrow> (report, pystr list) rio" where
  "env_lines cx allowed urls timeouts path seen [] = r_return seen"
| "env_lines cx allowed urls timeouts path seen (raw # ls) =
     (let line = rstrip_cr raw in
      if line = [] \<or> starts_with [35] line then env_lines cx allowed urls timeouts path seen ls
      else case partition_at 61 line of (key, has_eq, v) \<Rightarrow>
        if \<not> has_eq then
          r_seq (err ''DRIFT_CONFIG_FORMAT'' (lit ''runtime'') (jstr ''config.env'') path) (env_lines cx allowed urls timeouts path seen ls)
        else if \<not> set_mem (JStr key) allowed then
          r_seq (err ''DRIFT_CONFIG_KEY'' (lit ''runtime'') (jstr ''config.env'') path) (env_lines cx allowed urls timeouts path seen ls)
        else if key \<in> set seen then
          r_seq (err ''DRIFT_CONFIG_DUPLICATE'' (lit ''runtime'') (JStr key) path) (env_lines cx allowed urls timeouts path seen ls)
        else
          r_seq (env_value cx urls timeouts path key v) (env_lines cx allowed urls timeouts path (key # seen) ls))"

definition env_missing :: "pystr list \<Rightarrow> string \<Rightarrow> string \<Rightarrow> string \<Rightarrow> pystr \<Rightarrow> (report, unit) rio" where
  "env_missing seen key code field path = r_when (lit key \<notin> set seen) (err code (lit ''runtime'') (jstr field) path)"

definition drift_config_env :: "repo \<Rightarrow> pystr \<Rightarrow> json \<Rightarrow> json \<Rightarrow> json \<Rightarrow> (report, unit) rio" where
  "drift_config_env cx base c urls timeouts =
     r_bind (must_exist cx base (in_production ''/etc/sushida-os/config.env'') (lit ''runtime'')) (\<lambda>found. case found of
       None \<Rightarrow> r_return ()
     | Some path \<Rightarrow>
         r_with (res_bind (py_get c (lit ''config_keys'') (JList [])) py_set) (\<lambda>allowed.
         r_with (read_text cx Strict path) (\<lambda>text.
         r_bind (env_lines cx allowed urls timeouts path [] (py_splitlines text)) (\<lambda>seen.
           r_seq (env_missing seen ''SUSHIDA_URL'' ''DRIFT_URL'' ''urls.sushida_url'' path)
          (r_seq (env_missing seen ''NETWORK_CHECK_INTERVAL_SECONDS'' ''DRIFT_TIMEOUT'' ''timeouts.network_check_interval_seconds'' path)
            (env_missing seen ''NETWORK_SETUP_GRACE_SECONDS'' ''DRIFT_TIMEOUT'' ''timeouts.network_setup_grace_seconds'' path))))))"

section \<open>The policy, the routes and the units\<close>

definition policy_list :: "json \<Rightarrow> json \<Rightarrow> string \<Rightarrow> string \<Rightarrow> string \<Rightarrow> pystr \<Rightarrow> (report, unit) rio" where
  "policy_list nav policy field policy_field code path =
     r_with (res_bind (py_get nav (lit field) (JList [])) py_set) (\<lambda>ours.
     r_with (res_bind (py_get policy (lit policy_field) (JList [])) py_set) (\<lambda>theirs.
       r_when (\<not> set_eq ours theirs) (err code (lit ''runtime'') (jstr (''navigation.'' @ field)) path)))"

definition drift_policy :: "repo \<Rightarrow> pystr \<Rightarrow> json \<Rightarrow> (report, unit) rio" where
  "drift_policy cx base c =
     r_bind (must_exist cx base (in_production ''/etc/chromium/policies/managed/sushida-os.json'') (lit ''runtime'')) (\<lambda>found. case found of
       None \<Rightarrow> r_return ()
     | Some path \<Rightarrow>
         r_with (load_json cx path) (\<lambda>policy.
         r_with (py_get c (lit ''navigation'') (JObj [])) (\<lambda>nav.
           r_seq (policy_list nav policy ''allowlist'' ''URLAllowlist'' ''RUNTIME_ALLOWLIST_MISMATCH'' path)
             (policy_list nav policy ''blocklist'' ''URLBlocklist'' ''RUNTIME_BLOCKLIST_MISMATCH'' path))))"

definition valid_routes :: "json list" where
  "valid_routes = [jstr ''online'', jstr ''setup'', jstr ''offline'']"

definition drift_route_names :: "repo \<Rightarrow> json \<Rightarrow> (report, unit) rio" where
  "drift_route_names cx c =
     r_with (res_bind (py_get c (lit ''routes'') (JList [])) py_iter) (r_each (\<lambda>route.
       r_with (if hashable route then Inr () else Inl TypeError) (\<lambda>_.
       r_when (\<not> set_mem route valid_routes)
         (err ''RUNTIME_UNKNOWN_ROUTE'' (lit ''runtime'') (JStr (lit ''routes.'' @ py_str (cx_printable cx) route)) (lit ''contract'')))))"

fun any_in :: "json \<Rightarrow> json list \<Rightarrow> bool res" where
  "any_in x [] = Inr False"
| "any_in x (e # es) = res_bind (py_in x e) (\<lambda>b. if b then Inr True else any_in x es)"

definition drift_navigation :: "json \<Rightarrow> (report, unit) rio" where
  "drift_navigation c =
     r_with (py_get c (lit ''navigation'') (JObj [])) (\<lambda>nav.
     r_with (py_get nav (lit ''allowlist'') (JList [])) (\<lambda>allow.
     r_with (py_get nav (lit ''blocklist'') (JList [])) (\<lambda>block.
       r_seq (r_with (py_in (jstr ''*'') block) (\<lambda>b.
                r_when (\<not> b) (err ''RUNTIME_BLOCKLIST_CONTENT'' (lit ''runtime'') (jstr ''navigation.blocklist'') (lit ''contract''))))
         (r_with (res_bind (py_iter allow) (any_in (jstr ''sushida.net''))) (\<lambda>b.
            r_when (\<not> b) (err ''RUNTIME_ALLOWLIST_CONTENT'' (lit ''runtime'') (jstr ''navigation.allowlist'') (lit ''contract'')))))))"

definition system_services :: "json list" where
  "system_services = [jstr ''systemd-timesyncd.service'', jstr ''NetworkManager.service'']"

definition units_dir :: pystr where
  "units_dir = in_production ''/etc/systemd/system''"

definition drift_services :: "repo \<Rightarrow> pystr \<Rightarrow> json \<Rightarrow> (report, unit) rio" where
  "drift_services cx base services =
     r_with (py_items services) (r_each (\<lambda>(key, name).
       r_with (if hashable name then Inr () else Inl TypeError) (\<lambda>_.
       r_when (\<not> set_mem name system_services)
         (r_with (as_str name) (\<lambda>s.
            let path = root_join (root_join base units_dir) s in
            r_with (cx_is_file cx path) (\<lambda>a.
            r_with (if a then Inr True else cx_is_symlink cx path) (\<lambda>b.
              r_when (\<not> b) (err ''RUNTIME_SERVICE_MISSING'' (lit ''runtime'') (JStr (lit ''services.'' @ key)) path))))))))"

text \<open>The unit files of the services, under the names the contract gives them.\<close>

definition dict_put :: "(json \<times> pystr) list \<Rightarrow> json \<Rightarrow> pystr \<Rightarrow> (json \<times> pystr) list" where
  "dict_put d k v =
     (if list_ex (\<lambda>e. py_same (fst e) k) d then map (\<lambda>e. if py_same (fst e) k then (fst e, v) else e) d else d @ [(k, v)])"

fun unit_entries :: "repo \<Rightarrow> (json \<times> pystr) list \<Rightarrow> json list \<Rightarrow> (json \<times> pystr) list res" where
  "unit_entries cx d [] = Inr d"
| "unit_entries cx d (name # names) =
     (if hashable name then unit_entries cx (dict_put d name (units_dir @ [47] @ py_str (cx_printable cx) name)) names
      else Inl TypeError)"

definition unit_map :: "repo \<Rightarrow> json \<Rightarrow> (json \<times> pystr) list res" where
  "unit_map cx services = res_bind (py_items services) (\<lambda>kvs. unit_entries cx [] (map snd kvs))"

text \<open>\<open>_drift_runtime\<close>\<close>

definition drift_runtime :: "repo \<Rightarrow> pystr \<Rightarrow> json \<Rightarrow> (report, unit) rio" where
  "drift_runtime cx base c =
     r_with (py_get c (lit ''urls'') (JObj [])) (\<lambda>urls.
     r_with (py_get c (lit ''runtime_paths'') (JObj [])) (\<lambda>rpaths.
     r_with (py_get c (lit ''services'') (JObj [])) (\<lambda>services.
     r_with (py_get c (lit ''timeouts'') (JObj [])) (\<lambda>timeouts.
       r_seq (drift_config_env cx base c urls timeouts)
      (r_bind (load_sources cx base (lit ''runtime'') True RUNTIME_SOURCE_FILES) (\<lambda>texts.
       r_with (unit_map cx services) (\<lambda>units_of.
       r_bind (load_sources cx base (lit ''runtime'') False units_of) (\<lambda>units.
         r_seq (drift_urls cx urls texts)
        (r_seq (drift_runtime_paths cx rpaths services texts units)
        (r_seq (drift_timeouts cx timeouts texts)
        (r_seq (r_with (py_get c (lit ''routes'') (JList [])) (\<lambda>routes. drift_routes cx routes texts))
        (r_seq (r_with (py_get c (lit ''config_keys'') (JList [])) (\<lambda>keys. drift_config_keys cx keys texts))
        (r_seq (drift_policy cx base c)
        (r_seq (drift_route_names cx c)
        (r_seq (drift_navigation c)
          (drift_services cx base services))))))))))))))))"

end
