(* ===== verification/Contract_Release.thy ===== *)
theory Contract_Release
  imports Contract_Sources
begin

text \<open>
  \<open>tools/check-contracts.py\<close>, the drift of the release contract: the artifacts, packages, services, metadata and
  source mappings that the contract declares against the build scripts and the files of the repository.
\<close>

section \<open>Helpers\<close>

definition rel_err :: "repo \<Rightarrow> string \<Rightarrow> string \<Rightarrow> json \<Rightarrow> pystr \<Rightarrow> (report, unit) rio" where
  "rel_err cx code prefix v file = err code (lit ''release'') (JStr (lit prefix @ py_str (cx_printable cx) v)) file"

text \<open>\<open>for x in d.get(key, [])\<close>\<close>

definition each_of :: "json \<Rightarrow> string \<Rightarrow> (json \<Rightarrow> (report, unit) rio) \<Rightarrow> (report, unit) rio" where
  "each_of d key f = r_with (res_bind (py_get d (lit key) (JList [])) py_iter) (r_each f)"

text \<open>\<open>name in text\<close>\<close>

definition in_text :: "json \<Rightarrow> pystr \<Rightarrow> bool res" where
  "in_text name text = py_in name (JStr text)"

section \<open>Mappings from sources to the image\<close>

definition oct_digit :: "int \<Rightarrow> codepoint" where "oct_digit n = 48 + n mod 8"

text \<open>\<open>f"{stat.S_IMODE(mode):04o}"\<close>\<close>

definition mode_text :: "int \<Rightarrow> pystr" where
  "mode_text mode = [oct_digit (mode div 512), oct_digit (mode div 64), oct_digit (mode div 8), oct_digit mode]"

definition mapping_squashfs :: "repo \<Rightarrow> json \<Rightarrow> json \<Rightarrow> json \<Rightarrow> (report, unit) rio" where
  "mapping_squashfs cx mapping src_rel image_path =
     r_seq (r_when (\<not> py_eq src_rel (JStr (PRODUCTION_ROOT @ py_str (cx_printable cx) image_path)))
              (rel_err cx ''DRIFT_MAPPING_PATH'' ''source_image_mappings.'' src_rel (py_str (cx_printable cx) src_rel)))
       (r_with (py_get mapping (lit ''owner'') JNull) (\<lambda>owner.
        r_with (py_get mapping (lit ''group'') JNull) (\<lambda>grp.
          r_when (owner \<noteq> jstr ''root'' \<or> grp \<noteq> jstr ''root'')
            (rel_err cx ''DRIFT_MAPPING_OWNER'' ''source_image_mappings.'' src_rel (py_str (cx_printable cx) src_rel)))))"

definition mapping_comparison :: "repo \<Rightarrow> json \<Rightarrow> json \<Rightarrow> (report, unit) rio" where
  "mapping_comparison cx mapping src_rel =
     r_with (py_get mapping (lit ''current_verification'') JNull) (\<lambda>cv.
     r_with (py_get mapping (lit ''comparison'') JNull) (\<lambda>cmp.
       r_when (cv = jstr ''exact'' \<and> cmp \<noteq> jstr ''cmp'' \<and> cmp \<noteq> jstr ''sha256'')
         (rel_err cx ''DRIFT_COMPARISON'' ''source_image_mappings.'' src_rel (py_str (cx_printable cx) src_rel))))"

definition mapping_mode :: "repo \<Rightarrow> pystr \<Rightarrow> json \<Rightarrow> json \<Rightarrow> (report, unit) rio" where
  "mapping_mode cx base mapping src_rel =
     r_with (as_str src_rel) (\<lambda>rel.
       let src = root_join base rel in
       r_with (cx_is_file cx src) (\<lambda>file.
       r_with (if file then cx_is_symlink cx src else Inr True) (\<lambda>skip. r_when (\<not> skip)
         (r_with (cx_mode cx src) (\<lambda>mode.
          r_with (py_get mapping (lit ''mode'') JNull) (\<lambda>m.
            r_when (\<not> py_eq (JStr (mode_text mode)) m)
              (rel_err cx ''DRIFT_MAPPING_MODE'' ''source_image_mappings.'' src_rel rel)))))))"

definition mapping_check :: "repo \<Rightarrow> pystr \<Rightarrow> json \<Rightarrow> (report, unit) rio" where
  "mapping_check cx base mapping =
     r_with (py_item mapping (lit ''source'')) (\<lambda>src_rel.
     r_with (py_item mapping (lit ''image_path'')) (\<lambda>image_path.
     r_with (py_item mapping (lit ''region'')) (\<lambda>region.
       r_seq (r_when (region = jstr ''squashfs'') (mapping_squashfs cx mapping src_rel image_path))
      (r_seq (mapping_comparison cx mapping src_rel)
        (mapping_mode cx base mapping src_rel)))))"

text \<open>\<open>_drift_release_mappings\<close>\<close>

definition drift_release_mappings :: "repo \<Rightarrow> pystr \<Rightarrow> json \<Rightarrow> (report, unit) rio" where
  "drift_release_mappings cx base rc = each_of rc ''source_image_mappings'' (mapping_check cx base)"

section \<open>Paths of the image\<close>

fun by_image :: "(json \<times> json) list \<Rightarrow> json list \<Rightarrow> (json \<times> json) list res" where
  "by_image d [] = Inr d"
| "by_image d (mapping # ms) =
     res_bind (py_item mapping (lit ''image_path'')) (\<lambda>p.
       if \<not> hashable p then Inl TypeError
       else by_image (if list_ex (\<lambda>e. py_same (fst e) p) d then d else d @ [(p, mapping)]) ms)"

fun any_region :: "json list \<Rightarrow> bool res" where
  "any_region [] = Inr False"
| "any_region (e # es) = res_bind (py_get e (lit ''region'') JNull) (\<lambda>r. if r = jstr ''iso-root'' then Inr True else any_region es)"

definition iso_err :: "repo \<Rightarrow> string \<Rightarrow> json \<Rightarrow> (report, unit) rio" where
  "iso_err cx code path = rel_err cx code ''required_iso_paths.'' path (lit ''contract'')"

text \<open>\<open>re.compile\<close> and \<open>search\<close>: a pattern is refused whatever the text.\<close>

definition iso_pattern :: "repo \<Rightarrow> json \<Rightarrow> json \<Rightarrow> (report, unit) rio" where
  "iso_pattern cx entry path =
     r_with (py_get entry (lit ''path_pattern'') (JStr [])) (\<lambda>pattern.
     r_with (as_str pattern) (\<lambda>p.
       case cx_search cx p [] of
         Inl x \<Rightarrow> if x = ReError then iso_err cx ''DRIFT_PATH_PATTERN'' path else (\<lambda>r. (Inl x, r))
       | Inr _ \<Rightarrow> r_with (as_str path) (\<lambda>s. r_with (cx_search cx p s) (\<lambda>found.
           r_when (\<not> found) (iso_err cx ''DRIFT_PATH_PATTERN'' path)))))"

definition iso_attrs :: "repo \<Rightarrow> json \<Rightarrow> json \<Rightarrow> json \<Rightarrow> (report, unit) rio" where
  "iso_attrs cx mapping entry path =
     r_each (\<lambda>attr.
       r_with (py_get mapping (lit attr) JNull) (\<lambda>a. r_with (py_get entry (lit attr) JNull) (\<lambda>b.
         r_when (\<not> py_eq a b) (iso_err cx ''DRIFT_ISO_PATH_ATTR'' path))))
       [''region'', ''file_type'', ''required'', ''security_critical'']"

definition iso_mapping :: "repo \<Rightarrow> (json \<times> json) list \<Rightarrow> json \<Rightarrow> json \<Rightarrow> (report, unit) rio" where
  "iso_mapping cx mappings entry path =
     r_with (if hashable path then Inr (map_option snd (find (\<lambda>e. py_same (fst e) path) mappings)) else Inl TypeError) (\<lambda>found.
       case found of
         None \<Rightarrow> iso_err cx ''DRIFT_ISO_PATH'' path
       | Some mapping \<Rightarrow> iso_attrs cx mapping entry path)"

definition iso_entry :: "repo \<Rightarrow> (json \<times> json) list \<Rightarrow> json \<Rightarrow> (report, unit) rio" where
  "iso_entry cx mappings entry =
     r_with (py_item entry (lit ''path'')) (\<lambda>path.
     r_with (py_get entry (lit ''match_type'') JNull) (\<lambda>mt.
       r_seq (r_when (mt = jstr ''regex'') (iso_pattern cx entry path))
         (r_with (py_item entry (lit ''region'')) (\<lambda>region.
            r_when (region = jstr ''squashfs'') (iso_mapping cx mappings entry path)))))"

definition iso_marker :: pystr where
  "iso_marker = lit ''.region == '' @ quoted (lit ''iso-root'')"

text \<open>\<open>_drift_release_iso_paths\<close>\<close>

definition drift_release_iso_paths :: "repo \<Rightarrow> json \<Rightarrow> pystr \<Rightarrow> (report, unit) rio" where
  "drift_release_iso_paths cx rc verify_text =
     r_with (res_bind (py_get rc (lit ''source_image_mappings'') (JList [])) py_iter) (\<lambda>ms.
     r_with (by_image [] ms) (\<lambda>mappings.
     r_with (res_bind (py_get rc (lit ''required_iso_paths'') (JList [])) py_iter) (\<lambda>entries.
     r_with (any_region entries) (\<lambda>iso_root.
       r_seq (r_when (iso_root \<and> (\<not> contains (lit ''release-contract.json'') verify_text \<or> \<not> contains iso_marker verify_text))
                (err ''DRIFT_ISO_PATH'' (lit ''release'') (jstr ''required_iso_paths'') (lit ''scripts/verify-iso.sh'')))
         (r_each (iso_entry cx mappings) entries)))))"

section \<open>Metadata\<close>

definition KNOWN_METADATA_FORMATS :: "json list" where
  "KNOWN_METADATA_FORMATS = [jstr ''git-sha'', jstr ''date-time'', jstr ''sha256'']"

definition metadata_formats :: "repo \<Rightarrow> json \<Rightarrow> json \<Rightarrow> (report, unit) rio" where
  "metadata_formats cx req formats =
     r_with (py_items formats) (r_each (\<lambda>(field, fmt).
       r_seq (r_with (py_in (JStr field) req) (\<lambda>b.
                r_when (\<not> b) (rel_err cx ''DRIFT_METADATA_FORMAT'' ''metadata.formats.'' (JStr field) (lit ''contract''))))
         (r_with (if hashable fmt then Inr () else Inl TypeError) (\<lambda>_.
            r_when (fmt \<notin> set KNOWN_METADATA_FORMATS)
              (rel_err cx ''DRIFT_METADATA_FORMAT'' ''metadata.formats.'' (JStr field) (lit ''contract''))))))"

text \<open>\<open>_drift_release_metadata\<close>\<close>

definition drift_release_metadata :: "repo \<Rightarrow> json \<Rightarrow> (report, unit) rio" where
  "drift_release_metadata cx meta =
     r_with (py_get meta (lit ''required_fields'') (JList [])) (\<lambda>req.
       r_seq (r_with (res_bind (py_get meta (lit ''static_values'') (JObj [])) py_iter) (r_each (\<lambda>field.
                r_with (py_in field req) (\<lambda>b.
                  r_when (\<not> b) (rel_err cx ''DRIFT_METADATA_STATIC'' ''metadata.static_values.'' field (lit ''contract''))))))
         (r_with (py_get meta (lit ''formats'') (JObj [])) (metadata_formats cx req)))"

definition metadata_tokens :: "(pystr \<times> string list) list" where
  "metadata_tokens = map (\<lambda>(k, ts). (lit k, ts))
     [(''schema_version'', [''schema_version'']),
      (''source_date_epoch'', [''SOURCE_DATE_EPOCH'']),
      (''release_contract_sha256'', [''release_contract_sha256'']),
      (''package_manifest_sha256'', [''package_manifest_sha256'']),
      (''git_commit'', [''rev-parse'']),
      (''git_dirty'', [''git_dirty'']),
      (''build_timestamp'', [''date -u'']),
      (''architecture'', []),
      (''debian_release'', []),
      (''chromium_version'', [''chromium_version'', ''package_version chromium'']),
      (''cage_version'', [''cage_version'', ''package_version cage'']),
      (''live_build_version'', [''lb --version'', ''live_build_version'']),
      (''iso_sha256'', [''sha256sum''])]"

definition quote_char :: "codepoint \<Rightarrow> bool" where "quote_char c \<longleftrightarrow> c = 39 \<or> c = 34"

definition pair_pattern :: "pystr \<Rightarrow> pystr \<Rightarrow> rx" where
  "pair_pattern field v =
     rseq [RWordB, RLit field, rx_ws, rx_lit ''='', rx_ws, RMany True 0 (Some 1) quote_char, RLit v, RMany True 0 (Some 1) quote_char,
           RLook (RAlt (RCls py_isspace) REol)]"

definition arg_pattern :: "pystr \<Rightarrow> pystr \<Rightarrow> rx" where
  "arg_pattern field v =
     (let sp = RMany True 1 None py_isspace in
      rseq [rx_lit ''--arg'', sp, RLit field, sp, RCls quote_char, RLit v, RCls quote_char])"

definition static_field :: "repo \<Rightarrow> json \<Rightarrow> json \<Rightarrow> pystr \<Rightarrow> pystr \<Rightarrow> (report, unit) rio" where
  "static_field cx static_vals field btext build_sh =
     r_with (as_str field) (\<lambda>name.
     r_with (py_item static_vals name) (\<lambda>e.
       let v = py_str (cx_printable cx) e in
       r_when (rx_search (word_char cx) (pair_pattern name v) btext = None \<and> rx_search (word_char cx) (arg_pattern name v) btext = None)
         (rel_err cx ''DRIFT_METADATA_STATIC'' ''metadata.static_values.'' field build_sh)))"

definition dynamic_field :: "repo \<Rightarrow> json \<Rightarrow> pystr \<Rightarrow> pystr \<Rightarrow> (report, unit) rio" where
  "dynamic_field cx field btext build_sh =
     r_with (if hashable field then Inr () else Inl TypeError) (\<lambda>_.
       case (case field of JStr s \<Rightarrow> map_of metadata_tokens s | _ \<Rightarrow> None) of
         None \<Rightarrow> rel_err cx ''DRIFT_METADATA_UNSUPPORTED'' ''metadata.required_fields.'' field build_sh
       | Some tokens \<Rightarrow> r_when (tokens \<noteq> [] \<and> \<not> list_ex (\<lambda>t. contains (lit t) btext) tokens)
           (rel_err cx ''DRIFT_METADATA'' ''metadata.required_fields.'' field build_sh))"

definition metadata_fields :: "repo \<Rightarrow> json \<Rightarrow> json \<Rightarrow> pystr \<Rightarrow> pystr \<Rightarrow> (report, unit) rio" where
  "metadata_fields cx static_vals req btext build_sh =
     r_with (py_iter req) (r_each (\<lambda>field.
       r_with (py_in field static_vals) (\<lambda>static.
         if static then static_field cx static_vals field btext build_sh else dynamic_field cx field btext build_sh)))"

section \<open>Scripts, packages, services\<close>

definition build_artifacts :: "repo \<Rightarrow> json \<Rightarrow> pystr \<Rightarrow> pystr \<Rightarrow> (report, unit) rio" where
  "build_artifacts cx rc text build_sh =
     each_of rc ''artifacts'' (\<lambda>artifact. r_with (py_item artifact (lit ''name'')) (\<lambda>name.
       r_with (in_text name text) (\<lambda>b. r_when (\<not> b) (rel_err cx ''RELEASE_ARTIFACT'' ''artifacts.'' name build_sh))))"

definition iso_name :: pystr where "iso_name = lit ''sushida-os-amd64.iso''"

definition package_names :: "pystr \<Rightarrow> pystr list" where
  "package_names text =
     map (\<lambda>s. hd (py_words s)) (filter (\<lambda>s. s \<noteq> [] \<and> \<not> starts_with [35] s) (map py_strip (py_splitlines text)))"

definition package_check :: "json \<Rightarrow> pystr \<Rightarrow> pystr \<Rightarrow> (report, unit) rio" where
  "package_check rc text path =
     r_with (res_bind (py_get rc (lit ''required_packages'') (JList [])) py_set) (\<lambda>required.
       let missing = filter (\<lambda>p. \<not> set_mem p (map JStr (package_names text))) required in
       r_when (missing \<noteq> []) (r_with (if sortable missing then Inr () else Inl TypeError) (\<lambda>_.
         err ''RELEASE_PACKAGE_MISSING'' (lit ''release'') (jstr ''required_packages'') path)))"

definition service_check :: "repo \<Rightarrow> json \<Rightarrow> string \<Rightarrow> string \<Rightarrow> pystr \<Rightarrow> pystr \<Rightarrow> (report, unit) rio" where
  "service_check cx rc wanted code text path =
     each_of rc ''required_services'' (\<lambda>svc.
       r_with (py_item svc (lit ''name'')) (\<lambda>name. r_with (py_item svc (lit ''state'')) (\<lambda>state.
         r_with (if state = jstr wanted then res_bind (in_text name text) (\<lambda>b. Inr (\<not> b)) else Inr False) (\<lambda>bad.
           r_when bad (rel_err cx code ''required_services.'' name path)))))"

fun any_flag :: "string \<Rightarrow> json list \<Rightarrow> bool res" where
  "any_flag k [] = Inr False"
| "any_flag k (a # as) = res_bind (py_get a (lit k) JNull) (\<lambda>v. if py_truth v then Inr True else any_flag k as)"

definition clean_check :: "json \<Rightarrow> pystr \<Rightarrow> pystr \<Rightarrow> (report, unit) rio" where
  "clean_check rc text path =
     r_with (res_bind (res_bind (py_get rc (lit ''artifacts'') (JList [])) py_iter) (any_flag ''clean'')) (\<lambda>b.
       r_when (b \<and> \<not> contains (lit ''release-contract.json'') text)
         (err ''RELEASE_ARTIFACT_REF'' (lit ''release'') (jstr ''artifacts'') path))"

definition verify_check :: "repo \<Rightarrow> json \<Rightarrow> pystr \<Rightarrow> pystr \<Rightarrow> (report, unit) rio" where
  "verify_check cx rc text path =
     each_of rc ''artifacts'' (\<lambda>artifact.
       r_with (py_item artifact (lit ''name'')) (\<lambda>name.
       r_with (py_get artifact (lit ''verify'') (JBool False)) (\<lambda>v.
       r_with (in_text name text) (\<lambda>b.
         r_seq (r_when (py_truth v \<and> \<not> b) (rel_err cx ''RELEASE_ARTIFACT_REF'' ''artifacts.'' name path))
           (r_when (\<not> py_truth v \<and> b) (rel_err cx ''RELEASE_ARTIFACT_REF_UNEXPECTED'' ''artifacts.'' name path))))))"

definition qemu_check :: "repo \<Rightarrow> json \<Rightarrow> pystr \<Rightarrow> pystr \<Rightarrow> (report, unit) rio" where
  "qemu_check cx rc text path =
     each_of rc ''artifacts'' (\<lambda>artifact.
       r_with (py_item artifact (lit ''name'')) (\<lambda>name.
       r_with (py_in (jstr ''iso'') name) (\<lambda>is_iso.
       r_with (if is_iso then res_bind (in_text name text) (\<lambda>b. Inr (\<not> b)) else Inr False) (\<lambda>bad.
         r_when bad (rel_err cx ''RELEASE_ARTIFACT_REF'' ''artifacts.'' name path)))))"

text \<open>A required file whose text is checked; the text is returned where the file is there.\<close>

definition with_file :: "repo \<Rightarrow> pystr \<Rightarrow> string \<Rightarrow> (pystr \<Rightarrow> pystr \<Rightarrow> (report, unit) rio) \<Rightarrow> (report, (pystr \<times> pystr) option) rio" where
  "with_file cx base rel body =
     r_bind (must_exist cx base (lit rel) (lit ''release'')) (\<lambda>found. case found of
       None \<Rightarrow> r_return None
     | Some path \<Rightarrow> r_with (read_text cx Strict path) (\<lambda>text. r_seq (body text path) (r_return (Some (text, path)))))"

definition checksum_check :: "repo \<Rightarrow> json \<Rightarrow> pystr \<Rightarrow> (report, unit) rio" where
  "checksum_check cx rc btext =
     each_of rc ''artifacts'' (\<lambda>artifact.
       r_with (py_item artifact (lit ''name'')) (\<lambda>name.
         let field = lit ''artifacts.'' @ py_str (cx_printable cx) name in
         r_with (py_get artifact (lit ''checksum'') JNull) (\<lambda>c.
         r_seq (r_when (py_truth c \<and> \<not> contains (lit ''sha256sum'') btext)
                  (err ''RELEASE_CHECKSUM'' (lit ''release'') (JStr (dotted field (lit ''checksum''))) (lit ''contract'')))
           (r_with (py_get artifact (lit ''publish'') JNull) (\<lambda>p.
              r_when (py_truth p \<and> \<not> contains (lit ''artifacts'') btext)
                (err ''RELEASE_PUBLISH'' (lit ''release'') (JStr (dotted field (lit ''publish''))) (lit ''contract'')))))))"

definition mapping_source :: "repo \<Rightarrow> pystr \<Rightarrow> json \<Rightarrow> (report, unit) rio" where
  "mapping_source cx base mapping =
     r_with (py_item mapping (lit ''source'')) (\<lambda>source.
     r_with (as_str source) (\<lambda>rel.
       let src = root_join base rel in
       r_with (cx_is_symlink cx src) (\<lambda>link.
         if link then rel_err cx ''RELEASE_MAPPING_SOURCE'' ''source_image_mappings.'' source src
         else r_with (cx_is_file cx src) (\<lambda>file.
           r_when (\<not> file) (rel_err cx ''RELEASE_MAPPING_SOURCE'' ''source_image_mappings.'' source src)))))"

text \<open>\<open>_drift_release\<close>\<close>

definition drift_release :: "repo \<Rightarrow> pystr \<Rightarrow> json \<Rightarrow> (report, unit) rio" where
  "drift_release cx base rc =
     r_bind (with_file cx base ''scripts/build.sh'' (build_artifacts cx rc)) (\<lambda>build.
     r_bind (with_file cx base ''scripts/flash.sh'' (\<lambda>text path.
               r_when (\<not> contains iso_name text) (err ''RELEASE_ISO_NAME'' (lit ''release'') (jstr ''artifacts.iso_name'') path))) (\<lambda>_.
     r_bind (with_file cx base ''live-build/config/package-lists/kiosk.list.chroot'' (package_check rc)) (\<lambda>_.
     r_bind (with_file cx base ''live-build/config/hooks/live/020-enable-services.hook.chroot''
               (service_check cx rc ''enabled'' ''DRIFT_SERVICE_ENABLE'')) (\<lambda>_.
     r_bind (with_file cx base ''live-build/config/hooks/live/090-validate-image.hook.chroot''
               (service_check cx rc ''masked'' ''DRIFT_SERVICE_MASK'')) (\<lambda>_.
     r_bind (with_file cx base ''scripts/verify-iso.sh'' (verify_check cx rc)) (\<lambda>verify.
     r_bind (with_file cx base ''scripts/clean.sh'' (clean_check rc)) (\<lambda>_.
     r_bind (with_file cx base ''scripts/run-qemu.sh'' (qemu_check cx rc)) (\<lambda>_.
     r_seq (checksum_check cx rc (case build of None \<Rightarrow> [] | Some (text, _) \<Rightarrow> text))
    (r_with (py_get rc (lit ''metadata'') (JObj [])) (\<lambda>meta.
     r_with (py_get meta (lit ''static_values'') (JObj [])) (\<lambda>static_vals.
     r_with (py_get meta (lit ''required_fields'') (JList [])) (\<lambda>req.
       r_seq (case build of None \<Rightarrow> r_return () | Some (text, path) \<Rightarrow> metadata_fields cx static_vals req text path)
      (r_seq (each_of rc ''source_image_mappings'' (mapping_source cx base))
      (r_seq (drift_release_mappings cx base rc)
      (r_seq (drift_release_iso_paths cx rc (case verify of None \<Rightarrow> [] | Some (text, _) \<Rightarrow> text))
        (drift_release_metadata cx meta))))))))))))))))"

end
