(* ===== verification/Contract_Main.thy ===== *)
theory Contract_Main
  imports Contract_Runtime Contract_Release
begin

text \<open>
  \<open>tools/check-contracts.py\<close>, the whole run: loading the two contracts and their schemas, every check in the order of
  the source, the report and the exit status. The command line is taken after \<open>argparse\<close>; what is printed is not
  modelled beyond the order of the entries of the JSON report.
\<close>

section \<open>The run\<close>

record options =
  op_json :: bool
  op_runtime :: "pystr option"
  op_release :: "pystr option"

definition CONTRACTS_SUBDIR :: pystr where "CONTRACTS_SUBDIR = lit ''contracts''"
definition RUNTIME_CONTRACT :: pystr where "RUNTIME_CONTRACT = lit ''runtime-contract.json''"
definition RELEASE_CONTRACT :: pystr where "RELEASE_CONTRACT = lit ''release-contract.json''"
definition RUNTIME_SCHEMA :: pystr where "RUNTIME_SCHEMA = lit ''schema/runtime-contract.schema.json''"
definition RELEASE_SCHEMA :: pystr where "RELEASE_SCHEMA = lit ''schema/release-contract.schema.json''"

definition in_contracts :: "pystr \<Rightarrow> pystr \<Rightarrow> pystr" where
  "in_contracts base name = root_join (root_join base CONTRACTS_SUBDIR) name"

definition given_or :: "pystr option \<Rightarrow> pystr \<Rightarrow> pystr" where
  "given_or given dflt = (case given of Some p \<Rightarrow> if p = [] then dflt else path_norm p | None \<Rightarrow> dflt)"

definition contract_paths :: "pystr \<Rightarrow> options \<Rightarrow> pystr list" where
  "contract_paths base opts =
     [given_or (op_runtime opts) (in_contracts base RUNTIME_CONTRACT), given_or (op_release opts) (in_contracts base RELEASE_CONTRACT),
      in_contracts base RUNTIME_SCHEMA, in_contracts base RELEASE_SCHEMA]"

text \<open>Whether every file is there; the loop stops at the first that is not.\<close>

fun all_files :: "repo \<Rightarrow> pystr list \<Rightarrow> bool res" where
  "all_files cx [] = Inr True"
| "all_files cx (p # ps) = res_bind (cx_is_file cx p) (\<lambda>b. if b then all_files cx ps else Inr False)"

fun load_all :: "repo \<Rightarrow> pystr list \<Rightarrow> json list res" where
  "load_all cx [] = Inr []"
| "load_all cx (p # ps) = res_bind (load_json cx p) (\<lambda>v. res_bind (load_all cx ps) (\<lambda>vs. Inr (v # vs)))"

definition version_check :: "string \<Rightarrow> json \<Rightarrow> json \<Rightarrow> (report, unit) rio" where
  "version_check name contract schema =
     r_with (py_get contract (lit ''schema_version'') JNull) (\<lambda>c_ver.
     r_with (res_bind (py_get schema (lit ''properties'') (JObj [])) (\<lambda>p.
             res_bind (py_get p (lit ''schema_version'') (JObj [])) (\<lambda>v. py_get v (lit ''const'') JNull))) (\<lambda>s_ver.
       r_when (\<not> py_eq c_ver s_ver) (err ''SCHEMA_VERSION'' (lit name) (jstr ''schema_version'') (lit (name @ ''-contract.json'')))))"

definition handled_runtime_fields :: "json list" where
  "handled_runtime_fields = map jstr
     [''schema_version'', ''urls'', ''runtime_paths'', ''routes'', ''services'', ''timeouts'', ''navigation'', ''config_keys'']"

definition unhandled_fields :: "json \<Rightarrow> (report, unit) rio" where
  "unhandled_fields runtime =
     r_with (py_iter runtime) (r_each (\<lambda>key.
       r_with (if hashable key then Inr () else Inl TypeError) (\<lambda>_.
         r_when (key \<notin> set handled_runtime_fields)
           (warn ''UNHANDLED_RUNTIME_FIELD'' (lit ''runtime'') key (lit ''runtime-contract.json'')))))"

text \<open>The body of the \<open>try\<close> block.\<close>

definition run_checks :: "repo \<Rightarrow> pystr \<Rightarrow> json \<Rightarrow> json \<Rightarrow> json \<Rightarrow> json \<Rightarrow> (report, unit) rio" where
  "run_checks cx base runtime release rt_schema rc_schema =
     r_seq (check_schema cx runtime rt_schema (lit ''runtime-contract''))
    (r_seq (check_schema cx release rc_schema (lit ''release-contract''))
    (r_seq (version_check ''runtime'' runtime rt_schema)
    (r_seq (version_check ''release'' release rc_schema)
    (r_seq (check_secrets runtime (lit ''runtime.json'') (lit ''runtime''))
    (r_seq (check_secrets release (lit ''release.json'') (lit ''release''))
    (r_seq (check_secrets rt_schema (lit ''runtime-schema.json'') (lit ''runtime-schema''))
    (r_seq (check_secrets rc_schema (lit ''release-schema.json'') (lit ''release-schema''))
    (r_seq (drift_runtime cx base runtime)
    (r_seq (drift_release cx base release)
      (unhandled_fields runtime))))))))))"

text \<open>\<open>except Exception\<close>: whatever was raised becomes an entry.\<close>

definition guarded :: "(report, unit) rio \<Rightarrow> report \<Rightarrow> report" where
  "guarded m r = (case m r of (Inr _, r') \<Rightarrow> r' | (Inl _, r') \<Rightarrow> snd (err ''INTERNAL_ERROR'' [] (JStr []) [] r'))"

section \<open>The report\<close>

fun field_lt :: "json \<Rightarrow> json \<Rightarrow> bool" where
  "field_lt (JStr a) (JStr b) = (a < b)"
| "field_lt a b = (case (num_of a, num_of b) of (Some x, Some y) \<Rightarrow> num_lt x y | _ \<Rightarrow> False)"

definition entry_lt :: "entry \<Rightarrow> entry \<Rightarrow> bool" where
  "entry_lt a b \<longleftrightarrow> e_code a < e_code b \<or> e_code a = e_code b \<and> field_lt (e_field a) (e_field b)"

fun insert_entry :: "entry \<Rightarrow> entry list \<Rightarrow> entry list" where
  "insert_entry e [] = [e]"
| "insert_entry e (x # xs) = (if entry_lt x e then x # insert_entry e xs else e # x # xs)"

definition fields_comparable :: "entry list \<Rightarrow> bool" where
  "fields_comparable es \<longleftrightarrow> list_all (\<lambda>e. sortable (map e_field (filter (\<lambda>d. e_code d = e_code e) es))) es"

text \<open>\<open>sorted(entries, key=lambda e: (e["code"], e["field"]))\<close>\<close>

definition sort_entries :: "entry list \<Rightarrow> entry list res" where
  "sort_entries es = (if fields_comparable es then Inr (foldr insert_entry es []) else Inl TypeError)"

definition json_report :: "report \<Rightarrow> (bool \<times> entry list \<times> entry list) res" where
  "json_report r =
     res_bind (sort_entries (rep_errors r)) (\<lambda>es. res_bind (sort_entries (rep_warnings r)) (\<lambda>ws. Inr (report_ok r, es, ws)))"

definition exit_status :: "report \<Rightarrow> int" where
  "exit_status r =
     (if list_ex (\<lambda>e. e_code e = lit ''INTERNAL_ERROR'') (rep_errors r) then 2 else if report_ok r then 0 else 1)"

text \<open>\<open>main\<close>: the exit status, or the exception that leaves the program.\<close>

definition contracts_main :: "repo \<Rightarrow> pystr \<Rightarrow> options \<Rightarrow> int res" where
  "contracts_main cx base opts =
     res_bind (all_files cx (contract_paths base opts)) (\<lambda>there.
       if \<not> there then Inr 2
       else case load_all cx (contract_paths base opts) of
         Inl x \<Rightarrow> if x = RuntimeError then Inr 2 else Inl x
       | Inr docs \<Rightarrow>
           let r = guarded (run_checks cx base (docs ! 0) (docs ! 1) (docs ! 2) (docs ! 3)) Result in
           res_bind (if op_json opts then res_bind (json_report r) (\<lambda>_. Inr ()) else Inr ()) (\<lambda>_. Inr (exit_status r)))"

end
