(* ===== verification/Contract_Spec.thy ===== *)
theory Contract_Spec
  imports Contract_Schema
begin

text \<open>
  What \<open>_validate_value\<close> decides, without a report: schemas as a datatype with one constructor argument per keyword, the
  values each of them admits, and the JSON text of a schema. Validating against that text records an error
  exactly when the value is not admitted.
\<close>

section \<open>Schemas\<close>

datatype jtype = TArray | TObject | TString | TInteger | TNumber | TBoolean

record limits =
  li_type :: "jtype option"
  li_min_length :: "int option"
  li_pattern :: "pystr option"
  li_uri :: bool
  li_enum :: "json list"
  li_minimum :: "int option"
  li_maximum :: "int option"
  li_min_items :: "int option"
  li_unique :: bool

text \<open>The condition of an \<open>if\<close>: fields that must be there and fields that must have a value if they are.\<close>

type_synonym guard = "pystr list \<times> (pystr \<times> json) list"

datatype schema =
    Const json
  | Limits "schema list" "schema option" "(guard \<times> schema option \<times> schema option) option" limits

section \<open>The values a schema admits\<close>

fun has_type :: "jtype \<Rightarrow> json \<Rightarrow> bool" where
  "has_type TArray v = (\<exists>xs. v = JList xs)"
| "has_type TObject v = (\<exists>kvs. v = JObj kvs)"
| "has_type TString v = (\<exists>s. v = JStr s)"
| "has_type TInteger v = (\<exists>n. v = JInt n)"
| "has_type TNumber v = ((\<exists>n. v = JInt n) \<or> (\<exists>f. v = JFloat f))"
| "has_type TBoolean v = (\<exists>b. v = JBool b)"

definition string_ok :: "(pystr \<Rightarrow> pystr \<Rightarrow> bool) \<Rightarrow> limits \<Rightarrow> pystr \<Rightarrow> bool" where
  "string_ok found li s \<longleftrightarrow>
     (\<forall>n. li_min_length li = Some n \<longrightarrow> n \<le> int (length s))
     \<and> (\<forall>p. li_pattern li = Some p \<and> p \<noteq> [] \<longrightarrow> found p s)
     \<and> (li_uri li \<longrightarrow> uri_like s)"

definition number_ok :: "limits \<Rightarrow> pynum \<Rightarrow> bool" where
  "number_ok li x \<longleftrightarrow>
     (\<forall>n. li_minimum li = Some n \<longrightarrow> \<not> num_lt x (Fin (of_int n)))
     \<and> (\<forall>n. li_maximum li = Some n \<longrightarrow> \<not> num_lt (Fin (of_int n)) x)"

definition list_ok :: "limits \<Rightarrow> json list \<Rightarrow> bool" where
  "list_ok li xs \<longleftrightarrow>
     (\<forall>n. li_min_items li = Some n \<longrightarrow> n \<le> int (length xs)) \<and> (li_unique li \<longrightarrow> distinct (map item_sig xs))"

definition within_limits :: "(pystr \<Rightarrow> pystr \<Rightarrow> bool) \<Rightarrow> limits \<Rightarrow> json \<Rightarrow> bool" where
  "within_limits found li v \<longleftrightarrow>
     (\<forall>t. li_type li = Some t \<longrightarrow> has_type t v)
     \<and> (\<forall>s. v = JStr s \<longrightarrow> string_ok found li s)
     \<and> (\<forall>x. num_of v = Some x \<longrightarrow> number_ok li x)
     \<and> (\<forall>xs. v = JList xs \<longrightarrow> list_ok li xs)
     \<and> (li_enum li \<noteq> [] \<longrightarrow> (\<exists>x \<in> set (li_enum li). py_same x v))"

text \<open>The guard holds of everything that is not an object.\<close>

definition guard_holds :: "guard \<Rightarrow> json \<Rightarrow> bool" where
  "guard_holds g v \<longleftrightarrow> (\<forall>kvs. v = JObj kvs \<longrightarrow>
     set (fst g) \<subseteq> fst ` set kvs
     \<and> (\<forall>(k, c) \<in> set (snd g). \<forall>w. map_of kvs k = Some w \<and> w \<noteq> JNull \<and> c \<noteq> JNull \<longrightarrow> py_eq w c))"

definition no_limits :: limits where
  "no_limits = \<lparr>li_type = None, li_min_length = None, li_pattern = None, li_uri = False, li_enum = [], li_minimum = None,
     li_maximum = None, li_min_items = None, li_unique = False\<rparr>"

text \<open>A schema without any keyword, whose negation the checker does not ask for.\<close>

definition trivial :: "schema \<Rightarrow> bool" where
  "trivial s \<longleftrightarrow> s = Limits [] None None no_limits"

fun admits :: "(pystr \<Rightarrow> pystr \<Rightarrow> bool) \<Rightarrow> schema \<Rightarrow> json \<Rightarrow> bool" where
  "admits found (Const c) v = (c = JNull \<or> py_eq v c)"
| "admits found (Limits alls no cond li) v =
     ((\<forall>s \<in> set alls. admits found s v)
      \<and> (case no of None \<Rightarrow> True | Some s \<Rightarrow> trivial s \<or> \<not> admits found s v)
      \<and> (case cond of None \<Rightarrow> True
         | Some (g, t, e) \<Rightarrow>
             if guard_holds g v then (case t of None \<Rightarrow> True | Some s \<Rightarrow> admits found s v)
             else (case e of None \<Rightarrow> True | Some s \<Rightarrow> admits found s v))
      \<and> within_limits found li v)"

section \<open>The JSON text of a schema\<close>

definition kw :: "string \<Rightarrow> json option \<Rightarrow> (pystr \<times> json) list" where
  "kw k v = (case v of None \<Rightarrow> [] | Some x \<Rightarrow> [(lit k, x)])"

fun type_name :: "jtype \<Rightarrow> json" where
  "type_name TArray = jstr ''array''"
| "type_name TObject = jstr ''object''"
| "type_name TString = jstr ''string''"
| "type_name TInteger = jstr ''integer''"
| "type_name TNumber = jstr ''number''"
| "type_name TBoolean = jstr ''boolean''"

definition limit_items :: "limits \<Rightarrow> (pystr \<times> json) list" where
  "limit_items li =
     kw ''type'' (map_option type_name (li_type li))
     @ kw ''minLength'' (map_option JInt (li_min_length li))
     @ kw ''pattern'' (map_option JStr (li_pattern li))
     @ kw ''format'' (if li_uri li then Some (jstr ''uri'') else None)
     @ kw ''enum'' (if li_enum li = [] then None else Some (JList (li_enum li)))
     @ kw ''minimum'' (map_option JInt (li_minimum li))
     @ kw ''maximum'' (map_option JInt (li_maximum li))
     @ kw ''minItems'' (map_option JInt (li_min_items li))
     @ kw ''uniqueItems'' (if li_unique li then Some (JBool True) else None)"

definition guard_text :: "guard \<Rightarrow> json" where
  "guard_text g =
     JObj [(lit ''required'', JList (map JStr (fst g))),
           (lit ''properties'', JObj (map (\<lambda>(k, c). (k, JObj [(lit ''const'', c)])) (snd g)))]"

fun schema_text :: "schema \<Rightarrow> json" where
  "schema_text (Const c) = JObj [(lit ''const'', c)]"
| "schema_text (Limits alls no cond li) =
     JObj (kw ''allOf'' (if alls = [] then None else Some (JList (map schema_text alls)))
       @ kw ''not'' (map_option schema_text no)
       @ (case cond of None \<Rightarrow> []
          | Some (g, t, e) \<Rightarrow> kw ''if'' (Some (guard_text g)) @ kw ''then'' (map_option schema_text t) @ kw ''else'' (map_option schema_text e))
       @ limit_items li)"

section \<open>Looking up keywords\<close>

declare map_of_append [simp del]

lemma map_of_kw: "map_of (kw k v @ rest) (lit k') = (if k = k' \<and> v \<noteq> None then v else map_of rest (lit k'))"
  by (cases v) (auto simp: kw_def map_of_append)

lemma map_of_kw_end: "map_of (kw k v) (lit k') = (if k = k' then v else None)"
  by (cases v) (auto simp: kw_def)

lemma map_of_limits:
  "map_of (limit_items li) (lit ''type'') = map_option type_name (li_type li)"
  "map_of (limit_items li) (lit ''minLength'') = map_option JInt (li_min_length li)"
  "map_of (limit_items li) (lit ''pattern'') = map_option JStr (li_pattern li)"
  "map_of (limit_items li) (lit ''format'') = (if li_uri li then Some (jstr ''uri'') else None)"
  "map_of (limit_items li) (lit ''enum'') = (if li_enum li = [] then None else Some (JList (li_enum li)))"
  "map_of (limit_items li) (lit ''minimum'') = map_option JInt (li_minimum li)"
  "map_of (limit_items li) (lit ''maximum'') = map_option JInt (li_maximum li)"
  "map_of (limit_items li) (lit ''minItems'') = map_option JInt (li_min_items li)"
  "map_of (limit_items li) (lit ''uniqueItems'') = (if li_unique li then Some (JBool True) else None)"
  "map_of (limit_items li) (lit ''const'') = None"
  "map_of (limit_items li) (lit ''allOf'') = None"
  "map_of (limit_items li) (lit ''not'') = None"
  "map_of (limit_items li) (lit ''if'') = None"
  "map_of (limit_items li) (lit ''then'') = None"
  "map_of (limit_items li) (lit ''else'') = None"
  unfolding limit_items_def by (auto simp: map_of_kw map_of_kw_end)

definition cond_items :: "(guard \<times> schema option \<times> schema option) option \<Rightarrow> (pystr \<times> json) list" where
  "cond_items cond = (case cond of None \<Rightarrow> []
     | Some (g, t, e) \<Rightarrow> kw ''if'' (Some (guard_text g)) @ kw ''then'' (map_option schema_text t) @ kw ''else'' (map_option schema_text e))"

lemma map_of_cond:
  "k \<notin> {''if'', ''then'', ''else''} \<Longrightarrow> map_of (cond_items cond @ rest) (lit k) = map_of rest (lit k)"
  by (auto simp: cond_items_def map_of_kw map_of_kw_end split: option.split)

text \<open>The keywords of a schema with limits.\<close>

lemma schema_text_Limits:
  "schema_text (Limits alls no cond li) =
     JObj (kw ''allOf'' (if alls = [] then None else Some (JList (map schema_text alls))) @ kw ''not'' (map_option schema_text no)
       @ cond_items cond @ limit_items li)"
  by (simp add: cond_items_def)

declare schema_text.simps(2) [simp del]

lemma get_limits:
  assumes "k \<notin> {''allOf'', ''not'', ''if'', ''then'', ''else''}"
  shows "py_get (schema_text (Limits alls no cond li)) (lit k) d = py_get (JObj (limit_items li)) (lit k) d"
proof -
  have "k \<notin> {''if'', ''then'', ''else''}" "''allOf'' \<noteq> k" "''not'' \<noteq> k" using assms by blast+
  then show ?thesis unfolding schema_text_Limits by (simp only: py_get.simps map_of_kw map_of_cond simp_thms if_False)
qed

lemma get_all:
  "py_get (schema_text (Limits alls no cond li)) (lit ''allOf'') (JList []) = Inr (JList (map schema_text alls))"
  unfolding schema_text_Limits by (simp add: map_of_kw map_of_cond map_of_limits)

lemma get_not:
  "py_get (schema_text (Limits alls no cond li)) (lit ''not'') JNull = Inr (case no of None \<Rightarrow> JNull | Some s \<Rightarrow> schema_text s)"
  unfolding schema_text_Limits by (auto simp: map_of_kw map_of_cond map_of_limits split: option.split)

lemma map_of_if:
  "map_of (cond_items cond @ limit_items li) (lit ''if'') = map_option (\<lambda>(g, _). guard_text g) cond"
  "map_of (cond_items (Some (g, t, e)) @ limit_items li) (lit ''then'') = map_option schema_text t"
  "map_of (cond_items (Some (g, t, e)) @ limit_items li) (lit ''else'') = map_option schema_text e"
  by (auto simp: cond_items_def map_of_kw map_of_kw_end map_of_limits split: option.split)

lemma get_if:
  "py_get (schema_text (Limits alls no cond li)) (lit ''if'') JNull = Inr (case cond of None \<Rightarrow> JNull | Some (g, _) \<Rightarrow> guard_text g)"
  unfolding schema_text_Limits by (auto simp: map_of_kw map_of_if split: option.split)

lemma item_then:
  "has_key (schema_text (Limits alls no (Some (g, t, e)) li)) ''then'' \<longleftrightarrow> t \<noteq> None"
  "t = Some s \<Longrightarrow> py_item (schema_text (Limits alls no (Some (g, t, e)) li)) (lit ''then'') = Inr (schema_text s)"
  unfolding schema_text_Limits by (auto simp: has_key_def map_of_kw map_of_if split: option.split)

lemma item_else:
  "has_key (schema_text (Limits alls no (Some (g, t, e)) li)) ''else'' \<longleftrightarrow> e \<noteq> None"
  "e = Some s \<Longrightarrow> py_item (schema_text (Limits alls no (Some (g, t, e)) li)) (lit ''else'') = Inr (schema_text s)"
  unfolding schema_text_Limits by (auto simp: has_key_def map_of_kw map_of_if split: option.split)

lemma truth_schema_text: "py_truth (schema_text s) \<longleftrightarrow> \<not> trivial s"
proof (cases s)
  case (Limits alls no cond li)
  have "limit_items li = [] \<longleftrightarrow> li = no_limits"
    by (cases li) (auto simp: limit_items_def kw_def no_limits_def split: option.splits if_splits)
  then show ?thesis unfolding Limits schema_text_Limits
    by (auto simp: trivial_def kw_def cond_items_def split: option.splits)
qed (simp add: trivial_def)

section \<open>The single keywords\<close>

lemma checks_flag: "bad = Inr b \<Longrightarrow> checks (flag bad code name ctx key) (\<not> b)"
  unfolding flag_def using checks_when [of b "err code name (JStr key) ctx" False] checks_err by (intro checks_with) auto

lemma type_name_facts: "py_truth (type_name t)" "validate_type v (type_name t) \<longleftrightarrow> \<not> has_type t v"
  by (cases t; cases v; simp add: jstr_def validate_type_def)+

lemma duplicates_distinct: "duplicates seen ss = 0 \<longleftrightarrow> distinct ss \<and> set ss \<inter> set seen = {}"
  by (induction ss arbitrary: seen) auto

text \<open>Whether each keyword is violated.\<close>

definition short_string :: "limits \<Rightarrow> json \<Rightarrow> bool" where
  "short_string li v \<longleftrightarrow> (\<exists>s n. v = JStr s \<and> li_min_length li = Some n \<and> int (length s) < n)"

definition unmatched :: "(pystr \<Rightarrow> pystr \<Rightarrow> bool) \<Rightarrow> limits \<Rightarrow> json \<Rightarrow> bool" where
  "unmatched found li v \<longleftrightarrow> (\<exists>s p. v = JStr s \<and> li_pattern li = Some p \<and> p \<noteq> [] \<and> \<not> found p s)"

definition no_uri :: "limits \<Rightarrow> json \<Rightarrow> bool" where
  "no_uri li v \<longleftrightarrow> (\<exists>s. v = JStr s \<and> li_uri li \<and> \<not> uri_like s)"

definition not_in_enum :: "limits \<Rightarrow> json \<Rightarrow> bool" where
  "not_in_enum li v \<longleftrightarrow> li_enum li \<noteq> [] \<and> \<not> (\<exists>x \<in> set (li_enum li). py_same x v)"

definition below :: "limits \<Rightarrow> json \<Rightarrow> bool" where
  "below li v \<longleftrightarrow> (\<exists>x n. num_of v = Some x \<and> li_minimum li = Some n \<and> num_lt x (Fin (of_int n)))"

definition above :: "limits \<Rightarrow> json \<Rightarrow> bool" where
  "above li v \<longleftrightarrow> (\<exists>x n. num_of v = Some x \<and> li_maximum li = Some n \<and> num_lt (Fin (of_int n)) x)"

definition few_items :: "limits \<Rightarrow> json \<Rightarrow> bool" where
  "few_items li v \<longleftrightarrow> (\<exists>xs n. v = JList xs \<and> li_min_items li = Some n \<and> int (length xs) < n)"

definition repeats :: "limits \<Rightarrow> json \<Rightarrow> nat" where
  "repeats li v = (case v of JList xs \<Rightarrow> if li_unique li then duplicates [] (map item_sig xs) else 0 | _ \<Rightarrow> 0)"

lemma within_limits_iff:
  "within_limits found li v \<longleftrightarrow>
     (\<forall>t. li_type li = Some t \<longrightarrow> has_type t v) \<and> \<not> short_string li v \<and> \<not> unmatched found li v \<and> \<not> no_uri li v
     \<and> \<not> not_in_enum li v \<and> \<not> below li v \<and> \<not> above li v \<and> \<not> few_items li v \<and> repeats li v = 0"
  by (cases v) (auto simp: within_limits_def string_ok_def number_ok_def list_ok_def short_string_def unmatched_def no_uri_def
      not_in_enum_def below_def above_def few_items_def repeats_def duplicates_distinct not_le [symmetric])

lemma length_less_iff: "rat_of_nat n < rat_of_int a \<longleftrightarrow> int n < a"
  by (metis of_int_less_iff of_int_of_nat_eq)

lemma keyword_checks:
  fixes alls no cond li
  defines "pd \<equiv> schema_text (Limits alls no cond li)"
  shows "check_min_length v pd = Inr (short_string li v)"
    "cx_search cx = (\<lambda>p s. Inr (found p s)) \<Longrightarrow> check_pattern cx v pd = Inr (unmatched found li v)"
    "check_format v pd = Inr (no_uri li v)"
    "check_enum v pd = Inr (not_in_enum li v)"
    "check_minimum v pd = Inr (below li v)"
    "check_maximum v pd = Inr (above li v)"
    "check_min_items v pd = Inr (few_items li v)"
    "check_unique v pd = Inr (repeats li v)"
proof -
  show "check_min_length v pd = Inr (short_string li v)"
    unfolding pd_def by (cases v; cases "li_min_length li"; simp add: check_min_length_def get_limits map_of_limits short_string_def py_lt_def length_less_iff)
  show "check_pattern cx v pd = Inr (unmatched found li v)" if "cx_search cx = (\<lambda>p s. Inr (found p s))"
    unfolding pd_def using that by (cases v; cases "li_pattern li"; simp add: check_pattern_def get_limits map_of_limits unmatched_def)
  show "check_format v pd = Inr (no_uri li v)"
    unfolding pd_def by (cases v; simp add: check_format_def get_limits map_of_limits no_uri_def jstr_def)
  show "check_enum v pd = Inr (not_in_enum li v)"
    unfolding pd_def by (simp add: check_enum_def get_limits map_of_limits not_in_enum_def list_ex_iff)
  show "check_minimum v pd = Inr (below li v)"
    unfolding pd_def by (cases "num_of v"; cases "li_minimum li"; simp add: check_minimum_def is_number_def get_limits map_of_limits below_def py_lt_def)
  show "check_maximum v pd = Inr (above li v)"
    unfolding pd_def by (cases "num_of v"; cases "li_maximum li"; simp add: check_maximum_def is_number_def get_limits map_of_limits above_def py_lt_def)
  show "check_min_items v pd = Inr (few_items li v)"
    unfolding pd_def by (cases v; cases "li_min_items li"; simp add: check_min_items_def get_limits map_of_limits few_items_def py_lt_def length_less_iff)
  show "check_unique v pd = Inr (repeats li v)"
    unfolding pd_def by (cases v; simp add: check_unique_def get_limits map_of_limits repeats_def)
qed

lemma checks_repeat: "checks (r_each (\<lambda>_. err code name field file) [0..<n]) (n = 0)"
  by (rule checks_iff [OF checks_each [OF checks_err]]) auto

lemma checks_plain:
  assumes "cx_search cx = (\<lambda>p s. Inr (found p s))"
  shows "checks (validate_plain cx v (schema_text (Limits alls no cond li)) name ctx key) (within_limits found li v)"
proof -
  let ?pd = "schema_text (Limits alls no cond li)"
  note kws = keyword_checks [where v = v and alls = alls and no = no and cond = cond and li = li]
  have ty: "py_get ?pd (lit ''type'') JNull = Inr (case li_type li of None \<Rightarrow> JNull | Some t \<Rightarrow> type_name t)"
    by (cases "li_type li") (simp_all add: get_limits map_of_limits)
  show ?thesis
  proof (cases "\<exists>t. li_type li = Some t \<and> \<not> has_type t v")
    case True
    then have "validate_plain cx v ?pd name ctx key = err ''SCHEMA_TYPE'' name (JStr key) ctx"
      by (auto simp: validate_plain_def ty type_name_facts)
    then show ?thesis using True checks_err by (auto simp: within_limits_iff)
  next
    case False
    then have "\<not> (py_truth (case li_type li of None \<Rightarrow> JNull | Some t \<Rightarrow> type_name t)
        \<and> validate_type v (case li_type li of None \<Rightarrow> JNull | Some t \<Rightarrow> type_name t))"
      by (auto simp: type_name_facts split: option.splits)
    then have "checks (validate_plain cx v ?pd name ctx key)
      (\<not> short_string li v \<and> \<not> unmatched found li v \<and> \<not> no_uri li v \<and> \<not> not_in_enum li v \<and> \<not> below li v \<and> \<not> above li v
        \<and> \<not> few_items li v \<and> repeats li v = 0)"
      unfolding validate_plain_def ty r_with_simps
      by (simp only: if_False) (intro checks_seq checks_flag checks_with [OF kws(8)] checks_repeat kws kws(2) [OF assms])
    then show ?thesis by (rule checks_iff) (use False in \<open>auto simp: within_limits_iff\<close>)
  qed
qed

section \<open>The guard of a condition\<close>

lemma all_in_strings: "all_in (JObj kvs) (map JStr ks) = Inr (set ks \<subseteq> fst ` set kvs)"
  by (induction ks) (auto simp: hashable_def list_ex_iff)

lemma consts_agree_text:
  "consts_agree (JObj kvs) (map (\<lambda>(k, c). (k, JObj [(lit ''const'', c)])) cs)
     = Inr (\<forall>(k, c) \<in> set cs. \<forall>w. map_of kvs k = Some w \<and> w \<noteq> JNull \<and> c \<noteq> JNull \<longrightarrow> py_eq w c)"
  by (induction cs) (auto split: option.splits)

lemma if_matches_text: "if_matches v (guard_text g) = Inr (guard_holds g v)"
  by (cases v) (auto simp: if_matches_def guard_text_def guard_holds_def all_in_strings consts_agree_text)

lemma guard_text_facts: "py_truth (guard_text g)"
  by (simp add: guard_text_def)

section \<open>The combinators\<close>

lemma r_each_map: "r_each f (map g xs) = r_each (\<lambda>x. f (g x)) xs"
  by (induction xs) simp_all

lemma r_seq_return [simp]: "r_seq (r_return ()) m = m"
  by (simp add: r_seq_def r_bind_def r_return_def fun_eq_iff)

lemma validate_null_const: "validate_value cx v (JObj [(lit ''const'', JNull)]) name ctx key = r_return ()"
  by (subst validate_value.simps, cases v)
    (simp_all add: validate_plain_def flag_def check_min_length_def check_pattern_def check_format_def check_enum_def check_minimum_def
      check_maximum_def check_min_items_def check_unique_def r_when_def is_number_def jstr_def)

text \<open>What \<open>_validate_value\<close> does with the text of a schema.\<close>

definition run_not :: "repo \<Rightarrow> json \<Rightarrow> schema option \<Rightarrow> pystr \<Rightarrow> pystr \<Rightarrow> pystr \<Rightarrow> (report, unit) rio" where
  "run_not cx v no name ctx key = (case no of None \<Rightarrow> r_return ()
     | Some s \<Rightarrow> r_when (\<not> trivial s) (r_bind (r_fresh (validate_value cx v (schema_text s) name (dotted ctx key) key))
         (\<lambda>ok. r_when ok (err ''SCHEMA_NOT'' name (JStr key) ctx))))"

definition run_branch :: "repo \<Rightarrow> json \<Rightarrow> schema option \<Rightarrow> pystr \<Rightarrow> pystr \<Rightarrow> pystr \<Rightarrow> (report, unit) rio" where
  "run_branch cx v s name ctx key = (case s of None \<Rightarrow> r_return () | Some t \<Rightarrow> validate_value cx v (schema_text t) name (dotted ctx key) key)"

definition run_cond :: "repo \<Rightarrow> json \<Rightarrow> (guard \<times> schema option \<times> schema option) option \<Rightarrow> pystr \<Rightarrow> pystr \<Rightarrow> pystr \<Rightarrow> (report, unit) rio" where
  "run_cond cx v cond name ctx key = (case cond of None \<Rightarrow> r_return ()
     | Some (g, t, e) \<Rightarrow> run_branch cx v (if guard_holds g v then t else e) name ctx key)"

lemma validate_Limits:
  "validate_value cx v (schema_text (Limits alls no cond li)) name ctx key =
     r_seq (r_each (\<lambda>s. validate_value cx v (schema_text s) name (dotted ctx key) key) alls)
    (r_seq (run_not cx v no name ctx key)
    (r_seq (run_cond cx v cond name ctx key)
      (validate_plain cx v (schema_text (Limits alls no cond li)) name ctx key)))"
proof -
  let ?pd = "schema_text (Limits alls no cond li)"
  have c: "py_get ?pd (lit ''const'') JNull = Inr JNull" by (simp add: get_limits map_of_limits)
  have n: "r_with (py_get ?pd (lit ''not'') JNull) (\<lambda>n. r_when (py_truth n)
      (r_bind (r_fresh (validate_value cx v n name (dotted ctx key) key)) (\<lambda>ok. r_when ok (err ''SCHEMA_NOT'' name (JStr key) ctx))))
    = run_not cx v no name ctx key"
    by (cases no) (simp_all add: get_not run_not_def truth_schema_text r_when_def)
  have i: "r_with (py_get ?pd (lit ''if'') JNull) (\<lambda>ifc. r_when (py_truth ifc) (r_with (if_matches v ifc) (\<lambda>matched.
      if matched \<and> has_key ?pd ''then'' then r_with (py_item ?pd (lit ''then'')) (\<lambda>t. validate_value cx v t name (dotted ctx key) key)
      else if \<not> matched \<and> has_key ?pd ''else'' then r_with (py_item ?pd (lit ''else'')) (\<lambda>t. validate_value cx v t name (dotted ctx key) key)
      else r_return ())))
    = run_cond cx v cond name ctx key"
  proof (cases cond)
    case None
    then show ?thesis by (simp add: get_if run_cond_def r_when_def)
  next
    case (Some x)
    obtain g t e where x: "x = (g, t, e)" by (cases x)
    show ?thesis unfolding Some x
      by (cases t; cases e)
        (simp_all add: get_if guard_text_facts if_matches_text run_cond_def run_branch_def r_when_def item_then item_else)
  qed
  show ?thesis by (subst validate_value.simps) (simp only: c n i get_all r_with_simps py_iter.simps r_each_map simp_thms if_False)
qed

lemma checks_branch:
  assumes "\<And>t. s = Some t \<Longrightarrow> checks (validate_value cx v (schema_text t) name (dotted ctx key) key) (admits found t v)"
  shows "checks (run_branch cx v s name ctx key) (case s of None \<Rightarrow> True | Some t \<Rightarrow> admits found t v)"
  using assms by (cases s) (simp_all add: run_branch_def checks_return)

lemma validate_value_checks:
  assumes "cx_search cx = (\<lambda>p s. Inr (found p s))"
  shows "checks (validate_value cx v (schema_text s) name ctx key) (admits found s v)"
proof (induction s arbitrary: ctx)
  case (Const c)
  show ?case
  proof (cases "c = JNull")
    case False
    have "validate_value cx v (schema_text (Const c)) name ctx key = r_when (\<not> py_eq v c) (err ''SCHEMA_CONST'' name (JStr key) ctx)"
      by (subst validate_value.simps) (simp add: False)
    then show ?thesis using checks_iff [OF checks_when [OF checks_err]] False by simp
  qed (simp add: validate_null_const checks_return)
next
  case (Limits alls no cond li)
  have a: "checks (r_each (\<lambda>s. validate_value cx v (schema_text s) name (dotted ctx key) key) alls) (\<forall>s \<in> set alls. admits found s v)"
    by (rule checks_each) (rule Limits(1))
  have n: "checks (run_not cx v no name ctx key) (case no of None \<Rightarrow> True | Some s \<Rightarrow> trivial s \<or> \<not> admits found s v)"
  proof (cases no)
    case (Some s)
    have "checks (validate_value cx v (schema_text s) name (dotted ctx key) key) (admits found s v)"
      by (rule Limits(2)) (simp add: Some)
    then have "checks (run_not cx v no name ctx key) (\<not> trivial s \<longrightarrow> \<not> admits found s v)"
      unfolding run_not_def Some option.case by (intro checks_when checks_not checks_err)
    then show ?thesis by (rule checks_iff) (auto simp: Some)
  qed (simp add: run_not_def checks_return)
  have c: "checks (run_cond cx v cond name ctx key) (case cond of None \<Rightarrow> True
      | Some (g, t, e) \<Rightarrow> if guard_holds g v then (case t of None \<Rightarrow> True | Some s \<Rightarrow> admits found s v)
                      else (case e of None \<Rightarrow> True | Some s \<Rightarrow> admits found s v))"
  proof (cases cond)
    case (Some x)
    obtain g t e where x: "x = (g, t, e)" by (cases x)
    have t: "checks (run_branch cx v t name ctx key) (case t of None \<Rightarrow> True | Some s \<Rightarrow> admits found s v)"
      by (rule checks_branch) (auto simp: Some x intro!: Limits(3))
    have e: "checks (run_branch cx v e name ctx key) (case e of None \<Rightarrow> True | Some s \<Rightarrow> admits found s v)"
      by (rule checks_branch) (auto simp: Some x intro!: Limits(4))
    show ?thesis using t e by (simp add: run_cond_def Some x)
  qed (simp add: run_cond_def checks_return)
  show ?case unfolding validate_Limits admits.simps(2)
    by (intro checks_seq a n c checks_plain [OF assms])
qed

section \<open>Properties\<close>

text \<open>
  C17. \<open>_validate_value\<close> implements the abstract schemas: against the text of any of them it always completes, keeps what
  the report held, and adds an error exactly when the value is not admitted.
\<close>

theorem validate_value_refines:
  assumes "cx_search cx = (\<lambda>p s. Inr (found p s))"
  shows "\<exists>es. validate_value cx v (schema_text s) name ctx key r = (Inr (), r\<lparr>rep_errors := rep_errors r @ es\<rparr>)
    \<and> (es = [] \<longleftrightarrow> admits found s v)"
  by (rule checks_result [OF validate_value_checks [OF assms]])

definition sample_cx :: repo where
  "sample_cx = \<lparr>cx_search = (\<lambda>p s. Inr (contains p s)), cx_alnum = (\<lambda>_. False), cx_printable = (\<lambda>_. True), cx_netloc = (\<lambda>_. True),
     cx_is_file = (\<lambda>_. Inr False), cx_is_symlink = (\<lambda>_. Inr False), cx_read = (\<lambda>_. Inl FileNotFoundError),
     cx_mode = (\<lambda>_. Inl FileNotFoundError), cx_cwd = lit ''/''\<rparr>"

text \<open>The schema of an artifact name: a string that does not contain a slash.\<close>

definition sample_schema :: schema where
  "sample_schema = Limits [] (Some (Limits [] None None (no_limits\<lparr>li_pattern := Some (lit ''/'')\<rparr>))) None
     (no_limits\<lparr>li_type := Some TString, li_min_length := Some 1\<rparr>)"

lemma sample_search: "cx_search sample_cx = (\<lambda>p s. Inr (contains p s))"
  by (simp add: sample_cx_def)

lemma sample_admits:
  "\<not> admits contains sample_schema (JStr (lit ''../os.iso''))" "admits contains sample_schema (JStr (lit ''os.iso''))"
  by (simp_all add: sample_schema_def within_limits_def string_ok_def no_limits_def trivial_def lit_def starts_with_def)

theorem validate_value_refines_witness:
  "(\<exists>es. validate_value sample_cx (JStr (lit ''os.iso'')) (schema_text sample_schema) [] [] [] Result = (Inr (), Result\<lparr>rep_errors := es\<rparr>)
       \<and> es = [])
   \<and> (\<exists>es. validate_value sample_cx (JStr (lit ''../os.iso'')) (schema_text sample_schema) [] [] [] Result = (Inr (), Result\<lparr>rep_errors := es\<rparr>)
       \<and> es \<noteq> [])"
  using validate_value_refines [OF sample_search, of "JStr (lit ''os.iso'')" sample_schema "[]" "[]" "[]" Result]
    validate_value_refines [OF sample_search, of "JStr (lit ''../os.iso'')" sample_schema "[]" "[]" "[]" Result]
    sample_admits by (simp add: Result_def)

text \<open>A key of an object anywhere inside a document.\<close>

inductive key_in :: "pystr \<Rightarrow> json \<Rightarrow> bool" where
  here: "(k, v) \<in> set kvs \<Longrightarrow> key_in k (JObj kvs)"
| member: "key_in k v \<Longrightarrow> (j, v) \<in> set kvs \<Longrightarrow> key_in k (JObj kvs)"
| element: "key_in k v \<Longrightarrow> v \<in> set xs \<Longrightarrow> key_in k (JList xs)"

inductive_simps key_in_simps: "key_in k (JObj kvs)" "key_in k (JList xs)" "key_in k JNull" "key_in k (JBool b)" "key_in k (JInt n)"
  "key_in k (JFloat f)" "key_in k (JStr s)"

lemma secrets_fields:
  "(JStr k \<in> e_field ` set (secrets d ctx path)) = (forbidden_key k \<and> key_in k d)"
  "(JStr k \<in> e_field ` set (secrets_obj kvs ctx path)) = (forbidden_key k \<and> (\<exists>v. (k, v) \<in> set kvs \<or> (\<exists>j. (j, v) \<in> set kvs \<and> key_in k v)))"
  "(JStr k \<in> e_field ` set (secrets_list i xs ctx path)) = (forbidden_key k \<and> (\<exists>v \<in> set xs. key_in k v))"
proof (induction d ctx path and kvs ctx path and i xs ctx path rule: secrets_secrets_obj_secrets_list.induct)
  case (1 kvs ctx path)
  then show ?case by (auto simp: key_in_simps)
next
  case (5 key val kvs ctx path)
  then show ?case by (auto simp: mk_entry_def image_Un)
next
  case (7 i x xs ctx path)
  then show ?case by (auto simp: image_Un)
qed (auto simp: key_in_simps)

text \<open>
  C18. \<open>_check_secrets\<close> is exact: it raises nothing, keeps the report, and reports precisely the forbidden keys, in any
  capitalisation, that occur in some object of the document at any depth.
\<close>

theorem check_secrets_exact:
  "\<exists>es. check_secrets d ctx path r = (Inr (), r\<lparr>rep_errors := rep_errors r @ es\<rparr>)
     \<and> {k. JStr k \<in> e_field ` set es} = {k. map lower_ascii k \<in> set FORBIDDEN_FIELD_NAMES \<and> key_in k d}"
  by (intro exI [of _ "secrets d ctx path"]) (auto simp: check_secrets_def secrets_fields forbidden_key_def)

end
