(* ===== verification/Contract_Grows.thy ===== *)
theory Contract_Grows
  imports Contract_Main Contract_Spec
begin

text \<open>
  Every check of \<open>tools/check-contracts.py\<close> only adds to the report, so a run without an error is a run without an
  error of each of its checks. The collection \<open>grows_rules\<close> carries the fact through every program of the checker.
\<close>

section \<open>Every check only adds to the report\<close>

lemma grows_flag [grows_rules]: "grows (flag bad code name ctx key)"
  unfolding flag_def by (intro grows_rules)

lemma grows_plain [grows_rules]: "grows (validate_plain cx v pd name ctx key)"
  unfolding validate_plain_def by (intro grows_rules)

lemma grows_validate_value [grows_rules]: "grows (validate_value cx v pd name ctx key)"
proof (induction cx v pd name ctx key rule: validate_value.induct)
  case (1 cx v pd name ctx key)
  show ?case by (subst validate_value.simps) (intro grows_rules 1; assumption?)
qed

lemma grows_schema_parts [grows_rules]:
  "grows (unsupported_keywords schema ctx)" "grows (required_fields contract req ctx)"
  "grows (unknown_fields contract props addl ctx)" "grows (validate_fields cx contract props ctx)"
  unfolding unsupported_keywords_def required_fields_def unknown_fields_def validate_fields_def by (intro grows_rules)+

lemma grows_json [grows_rules]:
  "(\<And>xs. v = JList xs \<Longrightarrow> grows (f xs)) \<Longrightarrow> grows m \<Longrightarrow>
   grows (case v of JNull \<Rightarrow> m | JBool b \<Rightarrow> m | JInt n \<Rightarrow> m | JFloat x \<Rightarrow> m | JStr s \<Rightarrow> m | JList xs \<Rightarrow> f xs | JObj kvs \<Rightarrow> m)"
  by (cases v) simp_all

lemma grows_check_schema [grows_rules]: "grows (check_schema cx contract schema ctx)"
proof (induction schema arbitrary: contract ctx rule: measure_induct_rule [of jsize])
  case (less schema)
  have iter_s: "jsize cond < jsize schema" if "py_get schema (lit ''allOf'') (JList []) = Inr all" "py_iter all = Inr xs" "cond \<in> set xs" for all xs cond
    using py_iter_get_smaller [OF that] by simp
  have pdef: "Suc (jsize pd) < jsize schema" if "py_get schema (lit ''properties'') (JObj []) = Inr props" "py_item props key = Inr pd" for props key pd
    using py_get_smaller [OF that(1)] py_item_smaller [OF that(2)] that(2) by auto
  have item_s: "jsize d < jsize schema" if "py_get schema (lit ''properties'') (JObj []) = Inr props" "py_item props key = Inr pd"
    "py_get pd (lit ''items'') (JObj []) = Inr d" "py_truth d" for props key pd d
    using pdef [OF that(1,2)] py_get_smaller [OF that(3)] that(4) by auto
  show ?case
    by (subst check_schema.simps)
      (intro grows_rules less.IH; ((erule (2) iter_s) | (erule (3) item_s) | (drule (1) pdef, simp) | (drule py_item_smaller, simp)))
qed

lemma grows_check_secrets [grows_rules]: "grows (check_secrets d ctx path)"
  by (rule growsI) (rule exI [of _ "secrets d ctx path"], rule exI [of _ "[]"], simp add: check_secrets_def)

lemma grows_must_exist [grows_rules]: "grows (must_exist cx base rel contract)"
  unfolding must_exist_def by (intro grows_rules)

lemma grows_load_sources [grows_rules]: "grows (load_sources cx base contract must ms)"
proof (induction ms)
  case (Cons m ms)
  obtain key rel where m: "m = (key, rel)" by (cases m)
  show ?case unfolding m load_sources.simps by (intro grows_rules Cons.IH)
qed (simp add: grows_return)

lemma grows_expect [grows_rules]: "grows (expect_pattern cx srcs key pattern code field n)"
  unfolding expect_pattern_def by (intro grows_rules)

lemma grows_mismatch [grows_rules]: "grows (mismatch shown differ code field label)"
  unfolding mismatch_def by (intro grows_rules)

lemma grows_when_str [grows_rules]: "(\<And>s. v = JStr s \<Longrightarrow> grows (f s)) \<Longrightarrow> grows (when_str v f)"
  unfolding when_str_def by (cases v) (auto intro!: grows_rules)

lemma grows_urls [grows_rules]: "grows (drift_urls cx urls texts)"
  unfolding drift_urls_def by (intro grows_rules)

lemma grows_path_parts [grows_rules]:
  "grows (path_check cx srcs field key pattern)" "grows (unit_check cx services units service field pattern)" "grows (path_error field)"
  unfolding path_check_def unit_check_def path_error_def by (intro grows_rules)+

lemma grows_paths [grows_rules]: "grows (drift_runtime_paths cx rpaths services texts units)"
  unfolding drift_runtime_paths_def paths_runtime_dir_def paths_state_file_def paths_wifi_setup_def paths_marker_def paths_config_mount_def
    paths_storage_status_def paths_credential_def paths_profile_def paths_sessions_def Let_def
  by (intro grows_rules)

lemma grows_timeouts [grows_rules]: "grows (drift_timeouts cx timeouts texts)"
  unfolding drift_timeouts_def by (intro grows_rules)

lemma grows_routes [grows_rules]: "grows (drift_routes cx routes texts)"
  unfolding drift_routes_def route_check_def by (intro grows_rules)

lemma grows_config_keys [grows_rules]: "grows (drift_config_keys cx keys texts)"
  unfolding drift_config_keys_def config_module_check_def config_caller_check_def config_error_at_def Let_def by (intro grows_rules)

lemma grows_env_value [grows_rules]: "grows (env_value cx urls timeouts path key v)"
  unfolding env_value_def by (intro grows_rules)

lemma grows_env_lines [grows_rules]: "grows (env_lines cx allowed urls timeouts path seen ls)"
proof (induction ls arbitrary: seen)
  case (Cons raw ls)
  then show ?case unfolding env_lines.simps Let_def by (intro grows_rules Cons)
qed (simp add: grows_return)

lemma grows_env_missing [grows_rules]: "grows (env_missing seen key code field path)"
  unfolding env_missing_def by (intro grows_rules)

lemma grows_config_env [grows_rules]: "grows (drift_config_env cx base c urls timeouts)"
  unfolding drift_config_env_def by (intro grows_rules)

lemma grows_policy [grows_rules]: "grows (drift_policy cx base c)"
  unfolding drift_policy_def policy_list_def by (intro grows_rules)

lemma grows_names [grows_rules]: "grows (drift_route_names cx c)" "grows (drift_navigation c)" "grows (drift_services cx base services)"
  unfolding drift_route_names_def drift_navigation_def drift_services_def Let_def by (intro grows_rules)+

lemma grows_drift_runtime [grows_rules]: "grows (drift_runtime cx base c)"
  unfolding drift_runtime_def by (intro grows_rules)

lemma grows_rel_err [grows_rules]: "grows (rel_err cx code prefix v file)"
  unfolding rel_err_def by (intro grows_rules)

lemma grows_each_of [grows_rules]: "(\<And>x. grows (f x)) \<Longrightarrow> grows (each_of d key f)"
  unfolding each_of_def by (intro grows_rules)

lemma grows_mapping_parts [grows_rules]:
  "grows (mapping_squashfs cx mapping src_rel image_path)" "grows (mapping_comparison cx mapping src_rel)"
  "grows (mapping_mode cx base mapping src_rel)"
  unfolding mapping_squashfs_def mapping_comparison_def mapping_mode_def Let_def by (intro grows_rules)+

lemma grows_mapping_check [grows_rules]: "grows (mapping_check cx base mapping)"
  unfolding mapping_check_def by (intro grows_rules)

lemma grows_iso_paths [grows_rules]: "grows (drift_release_iso_paths cx rc verify_text)"
  unfolding drift_release_iso_paths_def iso_entry_def iso_pattern_def iso_mapping_def iso_attrs_def iso_err_def by (intro grows_rules)

lemma grows_metadata [grows_rules]:
  "grows (drift_release_metadata cx meta)" "grows (metadata_fields cx static_vals req btext build_sh)"
  unfolding drift_release_metadata_def metadata_formats_def metadata_fields_def static_field_def dynamic_field_def Let_def
  by (intro grows_rules)+

lemma grows_release_parts [grows_rules]:
  "grows (build_artifacts cx rc text path)" "grows (package_check rc text path)" "grows (service_check cx rc wanted code text path)"
  "grows (clean_check rc text path)" "grows (verify_check cx rc text path)" "grows (qemu_check cx rc text path)"
  "grows (checksum_check cx rc text)" "grows (mapping_source cx base mapping)" "grows (drift_release_mappings cx base rc)"
  unfolding build_artifacts_def package_check_def service_check_def clean_check_def verify_check_def qemu_check_def checksum_check_def
    mapping_source_def drift_release_mappings_def Let_def
  by (intro grows_rules)+

lemma grows_with_file [grows_rules]: "(\<And>t p. grows (body t p)) \<Longrightarrow> grows (with_file cx base rel body)"
  unfolding with_file_def by (intro grows_rules)

lemma grows_drift_release [grows_rules]: "grows (drift_release cx base rc)"
  unfolding drift_release_def by (intro grows_rules)

lemma grows_last [grows_rules]: "grows (version_check name contract schema)" "grows (unhandled_fields runtime)"
  unfolding version_check_def unhandled_fields_def by (intro grows_rules)+

lemma grows_run_checks [grows_rules]: "grows (run_checks cx base runtime release rt_schema rc_schema)"
  unfolding run_checks_def by (intro grows_rules)

end
