(* ===== verification/Contract_Env.thy ===== *)
theory Contract_Env
  imports Contract_Grows Config
begin

text \<open>
  The configuration file between two programs: what \<open>tools/check-contracts.py\<close> accepts in the repository is what the
  configuration module reads on the device.
\<close>

section \<open>The configuration file of a clean run\<close>

lemma py_eq_JStr [simp]: "py_eq (JStr s) v \<longleftrightarrow> v = JStr s"
  by (simp add: py_eq_def)

definition env_entries :: "pystr list \<Rightarrow> (pystr \<times> pystr) list" where
  "env_entries ls = map cut_line (filter (\<lambda>l. \<not> ignored_line l) (map rstrip_cr ls))"

text \<open>The values that the contract fixes.\<close>

definition env_agrees :: "repo \<Rightarrow> json \<Rightarrow> json \<Rightarrow> pystr \<Rightarrow> pystr \<Rightarrow> bool" where
  "env_agrees cx urls timeouts k v \<longleftrightarrow>
     (k = lit ''SUSHIDA_URL'' \<longrightarrow> py_get urls (lit ''sushida_url'') (JStr []) = Inr (JStr v))
     \<and> (k = lit ''NETWORK_CHECK_INTERVAL_SECONDS'' \<longrightarrow>
          (\<exists>e. py_get timeouts (lit ''network_check_interval_seconds'') (JStr []) = Inr e \<and> v = py_str (cx_printable cx) e))
     \<and> (k = lit ''NETWORK_SETUP_GRACE_SECONDS'' \<longrightarrow>
          (\<exists>e. py_get timeouts (lit ''network_setup_grace_seconds'') (JStr []) = Inr e \<and> v = py_str (cx_printable cx) e))"

lemma clean_env_value: "clean (env_value cx urls timeouts path k v) (\<lambda>_. env_agrees cx urls timeouts k v)"
  unfolding env_value_def by (auto simp: env_agrees_def intro!: clean_with clean_test clean_return)

lemma clean_env_lines:
  "clean (env_lines cx allowed urls timeouts path seen ls) (\<lambda>seen'.
     (\<forall>l \<in> set (map rstrip_cr ls). \<not> ignored_line l \<longrightarrow> 61 \<in> set l)
     \<and> (\<forall>(k, v) \<in> set (env_entries ls). set_mem (JStr k) allowed \<and> env_agrees cx urls timeouts k v)
     \<and> distinct (map fst (env_entries ls)) \<and> set (map fst (env_entries ls)) \<inter> set seen = {}
     \<and> set seen' = set seen \<union> set (map fst (env_entries ls)))" (is "clean _ (?Q seen ls)")
proof (induction ls arbitrary: seen)
  case Nil
  then show ?case by (simp add: env_entries_def clean_return)
next
  case (Cons raw ls)
  let ?l = "rstrip_cr raw"
  obtain k e v where p: "partition_at 61 ?l = (k, e, v)" by (cases "partition_at 61 ?l")
  show ?case
  proof (cases "ignored_line ?l")
    case True
    then have "env_lines cx allowed urls timeouts path seen (raw # ls) = env_lines cx allowed urls timeouts path seen ls"
      by (simp add: ignored_line_def Let_def)
    then show ?thesis using Cons.IH [of seen] True by (simp add: env_entries_def)
  next
    case False
    have en: "env_entries (raw # ls) = (k, v) # env_entries ls" using False p by (simp add: env_entries_def cut_line_def)
    have step: "env_lines cx allowed urls timeouts path seen (raw # ls) =
      (if \<not> e then r_seq (err ''DRIFT_CONFIG_FORMAT'' (lit ''runtime'') (jstr ''config.env'') path) (env_lines cx allowed urls timeouts path seen ls)
       else if \<not> set_mem (JStr k) allowed then
         r_seq (err ''DRIFT_CONFIG_KEY'' (lit ''runtime'') (jstr ''config.env'') path) (env_lines cx allowed urls timeouts path seen ls)
       else if k \<in> set seen then
         r_seq (err ''DRIFT_CONFIG_DUPLICATE'' (lit ''runtime'') (JStr k) path) (env_lines cx allowed urls timeouts path seen ls)
       else r_seq (env_value cx urls timeouts path k v) (env_lines cx allowed urls timeouts path (k # seen) ls))"
      using False p by (simp add: ignored_line_def Let_def)
    have bad: "clean (r_seq (err code contract field label) (env_lines cx allowed urls timeouts path seen ls)) Q" for code contract field label Q
    proof -
      have "clean (r_seq (err code contract field label) (env_lines cx allowed urls timeouts path seen ls)) (\<lambda>v. False \<and> Q v)"
        unfolding r_seq_def by (rule clean_bind [OF _ _ clean_err [where Q = "\<lambda>_. False"]]) (auto intro: grows_rules)
      then show ?thesis by (rule clean_mono) simp
    qed
    show ?thesis
    proof (cases "e \<and> set_mem (JStr k) allowed \<and> k \<notin> set seen")
      case ok: True
      have eq: "61 \<in> set ?l" using p ok partition_at_found by fastforce
      have "clean (r_seq (env_value cx urls timeouts path k v) (env_lines cx allowed urls timeouts path (k # seen) ls))
        (\<lambda>seen'. env_agrees cx urls timeouts k v \<and> ?Q (k # seen) ls seen')"
        by (intro clean_seq grows_rules clean_env_value Cons.IH)
      then have "clean (env_lines cx allowed urls timeouts path seen (raw # ls)) (\<lambda>seen'. env_agrees cx urls timeouts k v \<and> ?Q (k # seen) ls seen')"
        using ok step by simp
      then show ?thesis by (rule clean_mono) (use ok eq False in \<open>auto simp: en\<close>)
    next
      case False
      then show ?thesis unfolding step using bad by auto
    qed
  qed
qed

definition env_path :: "pystr \<Rightarrow> pystr" where
  "env_path base = root_join base (in_production ''/etc/sushida-os/config.env'')"

lemma clean_must_exist:
  "clean (must_exist cx base rel contract) (\<lambda>p. p = Some (root_join base rel) \<and> cx_is_file cx (root_join base rel) = Inr True)"
  unfolding must_exist_def
proof (rule clean_with)
  fix b
  assume b: "cx_is_file cx (root_join base rel) = Inr b"
  have "clean (r_seq (err ''MISSING_SOURCE'' contract (JStr rel) (root_join base rel)) (r_return None)) (\<lambda>_. False)"
    by (intro clean_seq_left grows_rules clean_err)
  then show "clean (if b then r_return (Some (root_join base rel))
      else r_seq (err ''MISSING_SOURCE'' contract (JStr rel) (root_join base rel)) (r_return None))
    (\<lambda>p. p = Some (root_join base rel) \<and> cx_is_file cx (root_join base rel) = Inr True)"
    using b by (auto intro!: clean_return elim: clean_mono)
qed

text \<open>What a clean check of \<open>config.env\<close> found in its lines.\<close>

definition env_good :: "repo \<Rightarrow> json list \<Rightarrow> json \<Rightarrow> json \<Rightarrow> pystr list \<Rightarrow> bool" where
  "env_good cx allowed urls timeouts ls \<longleftrightarrow>
     (\<forall>l \<in> set (map rstrip_cr ls). \<not> ignored_line l \<longrightarrow> 61 \<in> set l)
     \<and> (\<forall>(k, v) \<in> set (env_entries ls). set_mem (JStr k) allowed \<and> env_agrees cx urls timeouts k v)
     \<and> distinct (map fst (env_entries ls))
     \<and> {lit ''SUSHIDA_URL'', lit ''NETWORK_CHECK_INTERVAL_SECONDS'', lit ''NETWORK_SETUP_GRACE_SECONDS''} \<subseteq> fst ` set (env_entries ls)"

lemma clean_config_env:
  "clean (drift_config_env cx base c urls timeouts) (\<lambda>_. \<exists>text allowed.
     read_text cx Strict (env_path base) = Inr text \<and> res_bind (py_get c (lit ''config_keys'') (JList [])) py_set = Inr allowed
     \<and> env_good cx allowed urls timeouts (py_splitlines text))" (is "clean _ ?R")
  unfolding drift_config_env_def
proof (rule clean_bind [OF _ _ clean_must_exist])
  fix found
  assume "found = Some (root_join base (in_production ''/etc/sushida-os/config.env''))
    \<and> cx_is_file cx (root_join base (in_production ''/etc/sushida-os/config.env'')) = Inr True"
  then have found: "found = Some (env_path base)" by (simp add: env_path_def)
  have "clean (r_bind (env_lines cx allowed urls timeouts path [] (py_splitlines content)) (\<lambda>seen.
      r_seq (env_missing seen ''SUSHIDA_URL'' ''DRIFT_URL'' ''urls.sushida_url'' path)
     (r_seq (env_missing seen ''NETWORK_CHECK_INTERVAL_SECONDS'' ''DRIFT_TIMEOUT'' ''timeouts.network_check_interval_seconds'' path)
       (env_missing seen ''NETWORK_SETUP_GRACE_SECONDS'' ''DRIFT_TIMEOUT'' ''timeouts.network_setup_grace_seconds'' path))))
    (\<lambda>_. env_good cx allowed urls timeouts (py_splitlines content))" for allowed content path
  proof (rule clean_bind [OF _ _ clean_env_lines], goal_cases)
    case (3 seen)
    have "clean (r_seq (env_missing seen ''SUSHIDA_URL'' ''DRIFT_URL'' ''urls.sushida_url'' path)
     (r_seq (env_missing seen ''NETWORK_CHECK_INTERVAL_SECONDS'' ''DRIFT_TIMEOUT'' ''timeouts.network_check_interval_seconds'' path)
       (env_missing seen ''NETWORK_SETUP_GRACE_SECONDS'' ''DRIFT_TIMEOUT'' ''timeouts.network_setup_grace_seconds'' path)))
      (\<lambda>_. lit ''SUSHIDA_URL'' \<in> set seen \<and> lit ''NETWORK_CHECK_INTERVAL_SECONDS'' \<in> set seen \<and> lit ''NETWORK_SETUP_GRACE_SECONDS'' \<in> set seen)"
      unfolding env_missing_def by (intro clean_seq grows_rules clean_test) simp_all
    then show ?case by (rule clean_mono) (use 3 in \<open>auto simp: env_good_def\<close>)
  qed (intro grows_rules)+
  note body = this
  show "clean (case found of None \<Rightarrow> r_return ()
     | Some path \<Rightarrow>
         r_with (res_bind (py_get c (lit ''config_keys'') (JList [])) py_set) (\<lambda>allowed.
         r_with (read_text cx Strict path) (\<lambda>text.
         r_bind (env_lines cx allowed urls timeouts path [] (py_splitlines text)) (\<lambda>seen.
           r_seq (env_missing seen ''SUSHIDA_URL'' ''DRIFT_URL'' ''urls.sushida_url'' path)
          (r_seq (env_missing seen ''NETWORK_CHECK_INTERVAL_SECONDS'' ''DRIFT_TIMEOUT'' ''timeouts.network_check_interval_seconds'' path)
            (env_missing seen ''NETWORK_SETUP_GRACE_SECONDS'' ''DRIFT_TIMEOUT'' ''timeouts.network_setup_grace_seconds'' path)))))) ?R"
    unfolding found option.case
  proof (intro clean_with)
    fix allowed content
    assume "res_bind (py_get c (lit ''config_keys'') (JList [])) py_set = Inr allowed" "read_text cx Strict (env_path base) = Inr content"
    then show "clean (r_bind (env_lines cx allowed urls timeouts (env_path base) [] (py_splitlines content)) (\<lambda>seen.
        r_seq (env_missing seen ''SUSHIDA_URL'' ''DRIFT_URL'' ''urls.sushida_url'' (env_path base))
       (r_seq (env_missing seen ''NETWORK_CHECK_INTERVAL_SECONDS'' ''DRIFT_TIMEOUT'' ''timeouts.network_check_interval_seconds'' (env_path base))
         (env_missing seen ''NETWORK_SETUP_GRACE_SECONDS'' ''DRIFT_TIMEOUT'' ''timeouts.network_setup_grace_seconds'' (env_path base))))) ?R"
      by (intro clean_mono [OF body]) blast
  qed
qed (intro grows_rules)+

subsection \<open>The same file read by the runtime\<close>

lemma strict_any_handler: "utf8_decode_ints Strict bs = Inr s \<Longrightarrow> utf8_decode_ints h bs = Inr s"
proof (induction "Strict" bs arbitrary: s rule: utf8_decode_ints.induct)
  case (2 b r)
  obtain c r' s' where st: "utf8_step b r = Inr (c, r')" "utf8_decode_ints Strict r' = Inr s'" "s = c # s'"
    using 2(4) by (auto simp: res_bind_def split: sum.splits)
  then have "utf8_decode_ints h r' = Inr s'" using 2(3) by blast
  then show ?case using st by simp
qed simp

lemma splitlines_lf:
  "\<forall>c \<in> set s. is_linebreak c \<longrightarrow> c = 10 \<Longrightarrow>
   filter (\<lambda>l. l \<noteq> []) (splitlines_aux cur s)
     = filter (\<lambda>l. l \<noteq> []) ((rev cur @ hd (split_by (\<lambda>x. x = 10) s)) # tl (split_by (\<lambda>x. x = 10) s))"
proof (induction s arbitrary: cur)
  case (Cons x s)
  have IH: "filter (\<lambda>l. l \<noteq> []) (splitlines_aux c s)
      = filter (\<lambda>l. l \<noteq> []) ((rev c @ hd (split_by (\<lambda>x. x = 10) s)) # tl (split_by (\<lambda>x. x = 10) s))" for c
    by (rule Cons.IH) (use Cons.prems in simp)
  have "is_linebreak 13" by (simp add: is_linebreak_def)
  then have "x \<noteq> 13" using Cons.prems [rule_format, of x] by auto
  obtain w ws where w: "split_by (\<lambda>x. x = 10) s = w # ws" by (meson list.exhaust split_by_not_Nil)
  show ?case
  proof (cases "x = 10")
    case True
    then have "splitlines_aux cur (x # s) = rev cur # splitlines_aux [] s" by (simp add: is_linebreak_def)
    moreover have "split_by (\<lambda>x. x = 10) (x # s) = [] # w # ws" using True w by simp
    ultimately show ?thesis using IH [of "[]"] w by simp
  next
    case False
    then have "\<not> is_linebreak x" using Cons.prems by (meson list.set_intros(1))
    then have "splitlines_aux cur (x # s) = splitlines_aux (x # cur) s" using \<open>x \<noteq> 13\<close> by simp
    moreover have "split_by (\<lambda>x. x = 10) (x # s) = (x # w) # ws" using False w by simp
    ultimately show ?thesis using IH [of "x # cur"] w by simp
  qed
qed simp

lemma env_entries_nonempty: "env_entries (filter (\<lambda>l. l \<noteq> []) ls) = env_entries ls"
  by (induction ls) (auto simp: env_entries_def ignored_line_def rstrip_cr_def)

lemma setting_lines_nonempty: "setting_lines (filter (\<lambda>l. l \<noteq> []) ls) = setting_lines ls"
  by (induction ls) (auto simp: setting_lines_def ignored_line_def strip_cr_def)

text \<open>Without carriage returns both readers see the same settings.\<close>

lemma same_settings:
  assumes "\<forall>ch \<in> set content. is_linebreak ch \<longrightarrow> ch = 10"
  shows "map cut_line (setting_lines (split_on 10 content)) = env_entries (py_splitlines content)"
    and "set (setting_lines (split_on 10 content)) = {l \<in> set (map rstrip_cr (py_splitlines content)). \<not> ignored_line l}"
proof -
  have lf: "is_linebreak 13" by (simp add: is_linebreak_def)
  have cr: "13 \<notin> set l" if "l \<in> set (split_on 10 content)" for l
    using split_by_sub [of l "\<lambda>x. x = 10" content] that assms [rule_format, of 13] lf by (auto simp: split_on_def)
  have sp: "filter (\<lambda>l. l \<noteq> []) (py_splitlines content) = filter (\<lambda>l. l \<noteq> []) (split_on 10 content)"
    using splitlines_lf [OF assms, of "[]"] by (simp add: py_splitlines_def split_on_def)
  have strip: "strip_cr l = l \<and> rstrip_cr l = l" if "13 \<notin> set l" for l
  proof -
    have "dropWhile (\<lambda>c. c = 13) (rev l) = rev l" using that by (cases "rev l") (auto simp: rev_eq_Cons_iff)
    moreover have "l = [] \<or> last l \<noteq> 13" using that last_in_set by force
    ultimately show ?thesis by (auto simp: strip_cr_def rstrip_cr_def)
  qed
  have sl: "setting_lines (split_on 10 content) = filter (\<lambda>l. \<not> ignored_line l) (map rstrip_cr (split_on 10 content))"
    unfolding setting_lines_def using cr strip by (intro arg_cong [where f = "filter _"] map_cong) simp_all
  have "env_entries (py_splitlines content) = env_entries (filter (\<lambda>l. l \<noteq> []) (split_on 10 content))"
    using sp env_entries_nonempty [of "py_splitlines content"] by simp
  then show "map cut_line (setting_lines (split_on 10 content)) = env_entries (py_splitlines content)"
    unfolding env_entries_nonempty by (simp add: sl env_entries_def)
  have drop: "{l \<in> set (map rstrip_cr ls). \<not> ignored_line l} = {l \<in> set (map rstrip_cr (filter (\<lambda>l. l \<noteq> []) ls)). \<not> ignored_line l}" for ls
    by (auto simp: ignored_line_def rstrip_cr_def)
  show "set (setting_lines (split_on 10 content)) = {l \<in> set (map rstrip_cr (py_splitlines content)). \<not> ignored_line l}"
    unfolding sl drop [of "py_splitlines content"] sp by (subst drop [symmetric]) auto
qed

lemma set_mem_strings: "set_mem (JStr k) (map JStr ks) \<longleftrightarrow> k \<in> set ks"
  by (auto simp: set_mem_def list_ex_iff)

lemma py_set_strings: "py_set (JList (map JStr ks)) = Inr (map JStr ks)"
  by (auto simp: py_set_def list_all_iff hashable_def)

text \<open>
  A clean drift check of \<open>config.env\<close>: if the contract only names keys that the configuration module knows and
  the file ends its lines with LF alone, the module parses the same bytes, and the texts of the URL and the two
  network settings are those of the contract.
\<close>

lemma clean_config_env_read:
  assumes "drift_config_env cx base c urls timeouts r = (Inr (), r')" and "rep_errors r' = rep_errors r"
    and "py_get c (lit ''config_keys'') (JList []) = Inr (JList (map JStr ks))" and "\<forall>k \<in> set ks. known_key k"
    and "cx_read cx (env_path base) = Inr bs" and "utf8_decode Strict bs = Inr content"
    and "\<forall>ch \<in> set content. is_linebreak ch \<longrightarrow> ch = 10"
    and "fst (read_bytes p s) = Inr bs"
  shows "\<exists>raw u interval grace. config_read p s = Inr raw
    \<and> map_of raw (lit ''SUSHIDA_URL'') = Some u \<and> py_get urls (lit ''sushida_url'') (JStr []) = Inr (JStr u)
    \<and> py_get timeouts (lit ''network_check_interval_seconds'') (JStr []) = Inr interval
    \<and> map_of raw (lit ''NETWORK_CHECK_INTERVAL_SECONDS'') = Some (py_str (cx_printable cx) interval)
    \<and> py_get timeouts (lit ''network_setup_grace_seconds'') (JStr []) = Inr grace
    \<and> map_of raw (lit ''NETWORK_SETUP_GRACE_SECONDS'') = Some (py_str (cx_printable cx) grace)"
proof -
  have "13 \<notin> set content" using assms(7) [rule_format, of 13] by (auto simp: is_linebreak_def)
  then have rd: "read_text cx Strict (env_path base) = Inr content"
    using assms(5,6) by (simp add: read_text_def universal_newlines_id)
  let ?ls = "py_splitlines content" and ?raw = "env_entries (py_splitlines content)"
  have good: "env_good cx (map JStr ks) urls timeouts ?ls"
    using cleanD [OF clean_config_env assms(1,2)] rd assms(3) by (auto simp: py_set_strings)
  have keys: "known_key (fst kv)" if "kv \<in> set ?raw" for kv
    using good that assms(4) by (auto simp: env_good_def set_mem_strings)
  have "\<forall>l \<in> set (setting_lines (split_on 10 content)). 61 \<in> set l \<and> known_key (fst (cut_line l))"
  proof
    fix l
    assume l: "l \<in> set (setting_lines (split_on 10 content))"
    then have "61 \<in> set l" using good same_settings(2) [OF assms(7)] by (auto simp: env_good_def)
    moreover have "cut_line l \<in> set ?raw" unfolding same_settings(1) [OF assms(7), symmetric] using l by simp
    ultimately show "61 \<in> set l \<and> known_key (fst (cut_line l))" using keys by blast
  qed
  moreover have dis: "distinct (map fst ?raw)" using good by (simp add: env_good_def)
  ultimately have parse: "config_parse content = Inr ?raw"
    unfolding config_parse_def using parse_lines_spec [of "[]" 1 "split_on 10 content" ?raw] same_settings(1) [OF assms(7)] by simp
  have "utf8_decode SurrogateEscape bs = Inr content" using assms(6) unfolding utf8_decode_def by (rule strict_any_handler)
  then have "config_read p s = Inr ?raw" using assms(8) parse by (simp add: config_read_def)
  moreover have found: "\<exists>v. map_of ?raw k = Some v \<and> env_agrees cx urls timeouts k v"
    if "k \<in> {lit ''SUSHIDA_URL'', lit ''NETWORK_CHECK_INTERVAL_SECONDS'', lit ''NETWORK_SETUP_GRACE_SECONDS''}" for k
  proof -
    have sub: "{lit ''SUSHIDA_URL'', lit ''NETWORK_CHECK_INTERVAL_SECONDS'', lit ''NETWORK_SETUP_GRACE_SECONDS''} \<subseteq> fst ` set ?raw"
      and agree: "\<forall>(k, v) \<in> set ?raw. env_agrees cx urls timeouts k v"
      using good unfolding env_good_def by blast+
    have "k \<in> fst ` set ?raw" by (rule subsetD [OF sub that])
    then obtain v where kv: "(k, v) \<in> set ?raw" by (metis imageE prod.collapse)
    have "env_agrees cx urls timeouts k v" using bspec [OF agree kv] by simp
    then show ?thesis using map_of_is_SomeI [OF dis kv] by blast
  qed
  ultimately show ?thesis
    using found [of "lit ''SUSHIDA_URL''"] found [of "lit ''NETWORK_CHECK_INTERVAL_SECONDS''"] found [of "lit ''NETWORK_SETUP_GRACE_SECONDS''"]
    by (auto simp: env_agrees_def)
qed

subsection \<open>The values it loads\<close>

lemma show_numeral:
  assumes "0 \<le> n" and "n \<le> 3600"
  shows "py_isascii (show_int n)" "py_isdigit (show_int n)" "show_int n \<noteq> []" "py_int (show_int n) = Inr n"
proof -
  have e: "show_int n = show_pos n" using assms(1) by (simp add: show_int_def)
  have "ascii_numeral (show_pos n)" using show_pos_digits [OF assms(1)] by (simp add: ascii_numeral_def)
  then show "py_isascii (show_int n)" "py_isdigit (show_int n)" "show_int n \<noteq> []"
    unfolding e using ascii_numeral_iff by auto
  show "py_int (show_int n) = Inr n"
    unfolding e using length_show_pos [of n 4] assms by (intro py_int_show_pos) (simp_all add: max_str_digits_def)
qed

lemma config_value_shown:
  assumes "lookup_setting key = Some st" and "\<not> s_url st" and "map_of raw key = Some (show_int n)"
    and "s_minimum st \<le> n" and "n \<le> s_maximum st"
  shows "config_value raw key = Inr (VInt n)"
proof -
  have "0 \<le> n" "n \<le> 3600" using settings_nonneg lookup_setting_Some [OF assms(1)] assms(4,5) by fastforce+
  from show_numeral [OF this] show ?thesis using assms by (simp add: config_value_def)
qed

text \<open>
  C20. A clean drift check of \<open>config.env\<close> carries over to the running system. If \<open>check-contracts.py\<close> finds no
  drift in the file, the contract only names keys that the configuration module knows, the file ends its lines
  with LF alone, and the contract's values are ones the module can take (a URL of the official origin, an interval
  of 30 to 3600 and a grace of 0 to 60 seconds), then the module, reading the same bytes on the device, loads
  exactly the contract's URL, interval and grace.
\<close>

theorem clean_config_env_accepted:
  assumes "drift_config_env cx base c urls timeouts r = (Inr (), r')" and "rep_errors r' = rep_errors r"
    and "py_get c (lit ''config_keys'') (JList []) = Inr (JList (map JStr ks))" and "\<forall>k \<in> set ks. known_key k"
    and "cx_read cx (env_path base) = Inr bs" and "utf8_decode Strict bs = Inr content"
    and "\<forall>ch \<in> set content. is_linebreak ch \<longrightarrow> ch = 10"
    and "fst (read_bytes p s) = Inr bs"
    and "py_get urls (lit ''sushida_url'') (JStr []) = Inr (JStr u)" and "url_allowed u"
    and "py_get timeouts (lit ''network_check_interval_seconds'') (JStr []) = Inr (JInt i)" and "30 \<le> i" and "i \<le> 3600"
    and "py_get timeouts (lit ''network_setup_grace_seconds'') (JStr []) = Inr (JInt g)" and "0 \<le> g" and "g \<le> 60"
  shows "config_load (lit ''SUSHIDA_URL'') p s = Inr (VUrl u)
    \<and> config_load (lit ''NETWORK_CHECK_INTERVAL_SECONDS'') p s = Inr (VInt i)
    \<and> config_load (lit ''NETWORK_SETUP_GRACE_SECONDS'') p s = Inr (VInt g)"
proof -
  obtain raw where raw: "config_read p s = Inr raw" "map_of raw (lit ''SUSHIDA_URL'') = Some u"
    "map_of raw (lit ''NETWORK_CHECK_INTERVAL_SECONDS'') = Some (show_int i)"
    "map_of raw (lit ''NETWORK_SETUP_GRACE_SECONDS'') = Some (show_int g)"
    using clean_config_env_read [OF assms(1-8)] assms(9,11,14) by (auto simp: py_str_def)
  have l: "lookup_setting (lit ''NETWORK_CHECK_INTERVAL_SECONDS'')
        = Some (int_setting (lit ''NETWORK_CHECK_INTERVAL_SECONDS'') 30 3600 (Some 30) False)"
    "lookup_setting (lit ''NETWORK_SETUP_GRACE_SECONDS'')
        = Some (int_setting (lit ''NETWORK_SETUP_GRACE_SECONDS'') 0 60 (Some 15) False)"
    by (simp_all add: lookup_setting_def SETTINGS_def int_setting_def)
  show ?thesis
    using raw(1) config_value_url [OF raw(2)] assms(10) config_value_shown [OF l(1) _ raw(3)]
      config_value_shown [OF l(2) _ raw(4)] assms(12,13,15,16)
    by (simp add: config_load_def int_setting_def)
qed

end
