(* ===== verification/Contract_Clean.thy ===== *)
theory Contract_Clean
  imports Contract_Env
begin

text \<open>
  What a clean run of \<open>tools/check-contracts.py\<close> shows about the repository: no forbidden key in a contract, the
  declared URLs in the scripts, a unit for every declared service and a source file for every mapping of the release.
\<close>

section \<open>Secrets, sources, services and mappings of a clean run\<close>

lemma clean_secrets: "clean (check_secrets d ctx path) (\<lambda>_. \<forall>k. key_in k d \<longrightarrow> \<not> forbidden_key k)"
  unfolding clean_def check_secrets_def
proof (intro allI impI, elim conjE)
  fix r u r' k
  assume "(Inr (), r\<lparr>rep_errors := rep_errors r @ secrets d ctx path\<rparr>) = (Inr u, r')" "rep_errors r' = rep_errors r" "key_in k d"
  then have "secrets d ctx path = []" by auto
  then show "\<not> forbidden_key k" using secrets_fields(1) [of k d ctx path] \<open>key_in k d\<close> by simp
qed

text \<open>A required source is read from its place.\<close>

definition source_read :: "repo \<Rightarrow> pystr \<Rightarrow> json \<times> pystr \<Rightarrow> json \<times> pystr \<times> pystr \<Rightarrow> bool" where
  "source_read cx base m t \<longleftrightarrow>
     fst t = fst m \<and> snd (snd t) = snd m \<and> read_text cx Replace (root_join base (snd m)) = Inr (fst (snd t))"

lemma clean_load_sources: "clean (load_sources cx base contract True ms) (list_all2 (source_read cx base) ms)"
proof (induction ms)
  case (Cons m ms)
  obtain key rel where m: "m = (key, rel)" by (cases m)
  have rest: "clean (r_bind (load_sources cx base contract True ms) (\<lambda>rest. r_return ((key, content, rel) # rest)))
      (list_all2 (source_read cx base) (m # ms))" if "read_text cx Replace (root_join base rel) = Inr content" for content
  proof (rule clean_bind [OF _ _ Cons.IH], goal_cases)
    case (3 rest)
    have "source_read cx base m (key, content, rel)" using that by (simp add: m source_read_def)
    then show ?case using 3 by (intro clean_return) simp
  qed (intro grows_rules)+
  show ?case unfolding m load_sources.simps if_True
  proof (rule clean_bind [OF _ _ clean_must_exist], goal_cases)
    case (3 found)
    then show ?case using rest by (auto simp: m intro!: clean_with)
  qed (intro grows_rules)+
qed (simp add: clean_return)

lemma source_found:
  assumes "list_all2 (source_read cx base) ms texts" and "(JStr k, rel) \<in> set ms" and "distinct (map fst ms)"
    and "\<forall>e \<in> set ms. \<exists>s. fst e = JStr s"
  shows "\<exists>t. src_get texts (JStr k) = Inr (Some (t, rel)) \<and> read_text cx Replace (root_join base rel) = Inr t"
  using assms
proof (induction rule: list_all2_induct)
  case (Cons m ms t ts)
  obtain s where s: "fst m = JStr s" using Cons.prems by auto
  show ?case
  proof (cases "s = k")
    case True
    then have "m = (JStr k, rel)" using Cons.prems s by (cases m) (auto simp: image_iff)
    then show ?thesis using Cons.hyps by (cases t) (auto simp: source_read_def src_get_def hashable_def)
  next
    case False
    then have "find (\<lambda>e. py_same (fst e) (JStr k)) (t # ts) = find (\<lambda>e. py_same (fst e) (JStr k)) ts"
      using Cons.hyps s by (cases t) (simp add: source_read_def)
    then have "src_get (t # ts) (JStr k) = src_get ts (JStr k)" by (simp only: src_get_def)
    moreover have "(JStr k, rel) \<in> set ms" using Cons.prems(1) s False by auto
    ultimately show ?thesis using Cons.IH Cons.prems by simp
  qed
qed simp

lemma runtime_sources: "distinct (map fst RUNTIME_SOURCE_FILES)" "\<forall>e \<in> set RUNTIME_SOURCE_FILES. \<exists>s. fst e = JStr s"
  by (simp_all add: RUNTIME_SOURCE_FILES_def jstr_def)

lemma launch_files:
  "(jstr ''launch'', in_production ''/usr/local/bin/sushida-launch'') \<in> set RUNTIME_SOURCE_FILES"
  "(jstr ''session'', in_production ''/usr/local/libexec/sushida-session'') \<in> set RUNTIME_SOURCE_FILES"
  by (simp_all add: RUNTIME_SOURCE_FILES_def)

definition source_text :: "repo \<Rightarrow> pystr \<Rightarrow> string \<Rightarrow> pystr \<Rightarrow> bool" where
  "source_text cx base key t \<longleftrightarrow>
     (\<exists>rel. (jstr key, rel) \<in> set RUNTIME_SOURCE_FILES \<and> read_text cx Replace (root_join base rel) = Inr t)"

lemma clean_expect_literal:
  assumes "list_all2 (source_read cx base) RUNTIME_SOURCE_FILES texts" and "(jstr key, rel) \<in> set RUNTIME_SOURCE_FILES"
  shows "clean (expect_pattern cx texts (jstr key) (RLit u) code field 1) (\<lambda>_. \<exists>t. source_text cx base key t \<and> contains u t)"
proof -
  obtain t where t: "src_get texts (jstr key) = Inr (Some (t, rel))" "read_text cx Replace (root_join base rel) = Inr t"
    using source_found [OF assms(1), of "lit key" rel] assms(2) runtime_sources by (auto simp: jstr_def)
  then have "source_text cx base key t" using assms(2) by (auto simp: source_text_def)
  moreover have "\<not> length (rx_findall (word_char cx) (RLit u) t) < 1 \<Longrightarrow> contains u t"
    using rx_findall_Lit [of "word_char cx" u t] by auto
  ultimately show ?thesis unfolding expect_pattern_def t r_with_simps option.case prod.case by (intro clean_test) blast
qed

text \<open>The declared URLs occur in the launcher and in the session script.\<close>

definition urls_present :: "repo \<Rightarrow> pystr \<Rightarrow> json \<Rightarrow> bool" where
  "urls_present cx base urls \<longleftrightarrow>
     (\<forall>name \<in> {''setup_url'', ''offline_url''}. \<forall>u. py_get urls (lit name) (JStr []) = Inr (JStr u) \<and> u \<noteq> [] \<longrightarrow>
        (\<forall>key \<in> {''launch'', ''session''}. \<exists>t. source_text cx base key t \<and> contains u t))"

lemma clean_raise: "clean (\<lambda>r. (Inl x, r)) Q"
  by (simp add: clean_def)

lemma clean_when_str: "(\<And>s. v = JStr s \<Longrightarrow> s \<noteq> [] \<Longrightarrow> clean (f s) (\<lambda>_. P s)) \<Longrightarrow> clean (when_str v f) (\<lambda>_. \<forall>s. v = JStr s \<and> s \<noteq> [] \<longrightarrow> P s)"
  unfolding when_str_def by (rule clean_when; cases v) (auto simp: clean_raise)

lemma clean_urls:
  assumes "list_all2 (source_read cx base) RUNTIME_SOURCE_FILES texts"
  shows "clean (drift_urls cx urls texts) (\<lambda>_. urls_present cx base urls)"
  unfolding drift_urls_def
proof (intro clean_with, rule clean_seq_left)
  fix su off
  assume get: "py_get urls (lit ''setup_url'') (JStr []) = Inr su" "py_get urls (lit ''offline_url'') (JStr []) = Inr off"
  have one: "clean (when_str v (\<lambda>u. expect_pattern cx texts (jstr key) (RLit u) ''DRIFT_URL'' field 1))
      (\<lambda>_. \<forall>u. v = JStr u \<and> u \<noteq> [] \<longrightarrow> (\<exists>t. source_text cx base key t \<and> contains u t))"
    if "key \<in> set [''launch'', ''session'']" for v key field
  proof (rule clean_when_str)
    have "\<exists>rel. (jstr key, rel) \<in> set RUNTIME_SOURCE_FILES" using that launch_files by auto
    then obtain rel where "(jstr key, rel) \<in> set RUNTIME_SOURCE_FILES" ..
    then show "clean (expect_pattern cx texts (jstr key) (RLit s) ''DRIFT_URL'' field 1) (\<lambda>_. \<exists>t. source_text cx base key t \<and> contains s t)" for s
      by (rule clean_expect_literal [OF assms])
  qed
  have "clean (r_each (\<lambda>key.
      r_seq (when_str su (\<lambda>u. expect_pattern cx texts (jstr key) (RLit u) ''DRIFT_URL'' ''urls.setup_url'' 1))
        (when_str off (\<lambda>u. expect_pattern cx texts (jstr key) (RLit u) ''DRIFT_URL'' ''urls.offline_url'' 1))) [''launch'', ''session''])
    (\<lambda>_. \<forall>key \<in> set [''launch'', ''session'']. (\<forall>u. su = JStr u \<and> u \<noteq> [] \<longrightarrow> (\<exists>t. source_text cx base key t \<and> contains u t))
       \<and> (\<forall>u. off = JStr u \<and> u \<noteq> [] \<longrightarrow> (\<exists>t. source_text cx base key t \<and> contains u t)))"
    by (intro clean_each clean_seq one grows_rules)
  then show "clean (r_each (\<lambda>key.
      r_seq (when_str su (\<lambda>u. expect_pattern cx texts (jstr key) (RLit u) ''DRIFT_URL'' ''urls.setup_url'' 1))
        (when_str off (\<lambda>u. expect_pattern cx texts (jstr key) (RLit u) ''DRIFT_URL'' ''urls.offline_url'' 1))) [''launch'', ''session''])
    (\<lambda>_. urls_present cx base urls)"
    by (rule clean_mono) (use get in \<open>auto simp: urls_present_def\<close>)
qed (intro grows_rules)+

text \<open>Every service that is not the system's own has a unit file or link.\<close>

definition services_present :: "repo \<Rightarrow> pystr \<Rightarrow> json \<Rightarrow> bool" where
  "services_present cx base services \<longleftrightarrow>
     (\<exists>kvs. services = JObj kvs \<and> (\<forall>(key, name) \<in> set kvs. \<not> set_mem name system_services \<longrightarrow>
        (\<exists>s. name = JStr s \<and> (let p = root_join (root_join base units_dir) s in cx_is_file cx p = Inr True \<or> cx_is_symlink cx p = Inr True))))"

lemma clean_services: "clean (drift_services cx base services) (\<lambda>_. services_present cx base services)"
  unfolding drift_services_def
proof (rule clean_with)
  fix kvs
  assume kvs: "py_items services = Inr kvs"
  let ?there = "\<lambda>s. let p = root_join (root_join base units_dir) s in cx_is_file cx p = Inr True \<or> cx_is_symlink cx p = Inr True"
  let ?one = "\<lambda>(key, name).
       r_with (if hashable name then Inr () else Inl TypeError) (\<lambda>_.
       r_when (\<not> set_mem name system_services)
         (r_with (as_str name) (\<lambda>s.
            let path = root_join (root_join base units_dir) s in
            r_with (cx_is_file cx path) (\<lambda>a.
            r_with (if a then Inr True else cx_is_symlink cx path) (\<lambda>b.
              r_when (\<not> b) (err ''RUNTIME_SERVICE_MISSING'' (lit ''runtime'') (JStr (lit ''services.'' @ key)) path))))))"
  have "clean (r_each ?one kvs) (\<lambda>_. \<forall>x \<in> set kvs. \<not> set_mem (snd x) system_services \<longrightarrow> (\<exists>s. snd x = JStr s \<and> ?there s))"
  proof (rule clean_each)
    fix x :: "pystr \<times> json"
    obtain key name where x: "x = (key, name)" by (cases x)
    show "grows (?one x)" unfolding x Let_def prod.case by (intro grows_rules)
    show "clean (?one x) (\<lambda>_. \<not> set_mem (snd x) system_services \<longrightarrow> (\<exists>s. snd x = JStr s \<and> ?there s))"
      unfolding x prod.case Let_def
      by (intro clean_with clean_when clean_test clean_err) (cases name; auto split: if_splits)+
  qed
  then show "clean (r_each ?one kvs) (\<lambda>_. services_present cx base services)"
    by (rule clean_mono) (use kvs in \<open>cases services; fastforce simp: services_present_def\<close>)
qed

text \<open>The configuration file of the image, checked line by line against the contract.\<close>

definition env_holds :: "repo \<Rightarrow> pystr \<Rightarrow> json \<Rightarrow> json \<Rightarrow> json \<Rightarrow> bool" where
  "env_holds cx base c urls timeouts \<longleftrightarrow> (\<exists>content allowed.
     read_text cx Strict (env_path base) = Inr content \<and> res_bind (py_get c (lit ''config_keys'') (JList [])) py_set = Inr allowed
     \<and> env_good cx allowed urls timeouts (py_splitlines content))"

definition runtime_holds :: "repo \<Rightarrow> pystr \<Rightarrow> json \<Rightarrow> bool" where
  "runtime_holds cx base c \<longleftrightarrow> (\<exists>urls services timeouts.
     py_get c (lit ''urls'') (JObj []) = Inr urls \<and> py_get c (lit ''services'') (JObj []) = Inr services
     \<and> py_get c (lit ''timeouts'') (JObj []) = Inr timeouts
     \<and> env_holds cx base c urls timeouts \<and> urls_present cx base urls \<and> services_present cx base services)"

lemma clean_drift_runtime: "clean (drift_runtime cx base c) (\<lambda>_. runtime_holds cx base c)"
  unfolding drift_runtime_def
proof (intro clean_with)
  fix urls rpaths services timeouts
  assume get: "py_get c (lit ''urls'') (JObj []) = Inr urls" "py_get c (lit ''services'') (JObj []) = Inr services"
    "py_get c (lit ''timeouts'') (JObj []) = Inr timeouts"
  let ?rest = "\<lambda>texts units.
         r_seq (drift_runtime_paths cx rpaths services texts units)
        (r_seq (drift_timeouts cx timeouts texts)
        (r_seq (r_with (py_get c (lit ''routes'') (JList [])) (\<lambda>routes. drift_routes cx routes texts))
        (r_seq (r_with (py_get c (lit ''config_keys'') (JList [])) (\<lambda>keys. drift_config_keys cx keys texts))
        (r_seq (drift_policy cx base c)
        (r_seq (drift_route_names cx c)
        (r_seq (drift_navigation c)
          (drift_services cx base services)))))))"
  have rest: "clean (?rest texts units) (\<lambda>_. services_present cx base services)" for texts units
    by (intro clean_seq_right clean_services grows_rules)
  have both: "clean (r_seq (drift_urls cx urls texts) (?rest texts units)) (\<lambda>_. urls_present cx base urls \<and> services_present cx base services)"
    if "list_all2 (source_read cx base) RUNTIME_SOURCE_FILES texts" for texts units
    by (rule clean_seq [OF _ _ clean_urls [OF that] rest]) (intro grows_rules)+
  have inner: "clean (r_bind (load_sources cx base (lit ''runtime'') True RUNTIME_SOURCE_FILES) (\<lambda>texts.
       r_with (unit_map cx services) (\<lambda>units_of.
       r_bind (load_sources cx base (lit ''runtime'') False units_of) (\<lambda>units.
         r_seq (drift_urls cx urls texts) (?rest texts units)))))
     (\<lambda>_. urls_present cx base urls \<and> services_present cx base services)"
  proof (rule clean_bind [OF _ _ clean_load_sources])
    fix texts
    assume "list_all2 (source_read cx base) RUNTIME_SOURCE_FILES texts"
    then show "clean (r_with (unit_map cx services) (\<lambda>units_of.
       r_bind (load_sources cx base (lit ''runtime'') False units_of) (\<lambda>units.
         r_seq (drift_urls cx urls texts) (?rest texts units))))
     (\<lambda>_. urls_present cx base urls \<and> services_present cx base services)"
      by (intro clean_with clean_bind [where Q = "\<lambda>_. True"] both) (auto simp: clean_def intro!: grows_rules)
  qed (intro grows_rules)+
  have "clean (r_seq (drift_config_env cx base c urls timeouts)
      (r_bind (load_sources cx base (lit ''runtime'') True RUNTIME_SOURCE_FILES) (\<lambda>texts.
       r_with (unit_map cx services) (\<lambda>units_of.
       r_bind (load_sources cx base (lit ''runtime'') False units_of) (\<lambda>units.
         r_seq (drift_urls cx urls texts) (?rest texts units))))))
     (\<lambda>_. env_holds cx base c urls timeouts \<and> urls_present cx base urls \<and> services_present cx base services)"
    by (rule clean_seq [OF _ _ clean_config_env [folded env_holds_def] inner]) (intro grows_rules)+
  then show "clean (r_seq (drift_config_env cx base c urls timeouts)
      (r_bind (load_sources cx base (lit ''runtime'') True RUNTIME_SOURCE_FILES) (\<lambda>texts.
       r_with (unit_map cx services) (\<lambda>units_of.
       r_bind (load_sources cx base (lit ''runtime'') False units_of) (\<lambda>units.
         r_seq (drift_urls cx urls texts) (?rest texts units))))))
     (\<lambda>_. runtime_holds cx base c)"
    by (rule clean_mono) (use get in \<open>auto simp: runtime_holds_def\<close>)
qed

section \<open>The release of a clean run\<close>

text \<open>
  A mapping of the release: its source is a regular file of the repository with the declared mode, and in the root file
  system its place, owner and group are those that the build gives it.
\<close>

definition mapping_holds :: "repo \<Rightarrow> pystr \<Rightarrow> json \<Rightarrow> bool" where
  "mapping_holds cx base mapping \<longleftrightarrow> (\<exists>rel ip mode.
     py_item mapping (lit ''source'') = Inr (JStr rel) \<and> py_item mapping (lit ''image_path'') = Inr ip
     \<and> cx_is_file cx (root_join base rel) = Inr True \<and> cx_is_symlink cx (root_join base rel) = Inr False
     \<and> cx_mode cx (root_join base rel) = Inr mode \<and> py_get mapping (lit ''mode'') JNull = Inr (JStr (mode_text mode))
     \<and> (py_item mapping (lit ''region'') = Inr (jstr ''squashfs'') \<longrightarrow>
          rel = PRODUCTION_ROOT @ py_str (cx_printable cx) ip
          \<and> py_get mapping (lit ''owner'') JNull = Inr (jstr ''root'') \<and> py_get mapping (lit ''group'') JNull = Inr (jstr ''root'')))"

lemma py_eq_JStr_right: "py_eq v (JStr s) \<longleftrightarrow> v = JStr s"
  by (cases v) (auto simp: py_eq_def)

lemma as_str_Inr [simp]: "as_str v = Inr s \<longleftrightarrow> v = JStr s"
  by (cases v) auto

lemma clean_rel_err: "clean (rel_err cx code prefix v label) Q"
  by (simp add: rel_err_def clean_err)

lemma clean_rel_test: "(\<not> b \<Longrightarrow> Q ()) \<Longrightarrow> clean (r_when b (rel_err cx code prefix v label)) Q"
  by (rule clean_when [OF clean_rel_err])

lemma clean_each_of:
  assumes "\<And>x. grows (f x)" and "\<And>x. clean (f x) (\<lambda>_. P x)"
  shows "clean (each_of d key f) (\<lambda>_. \<exists>xs. res_bind (py_get d (lit key) (JList [])) py_iter = Inr xs \<and> (\<forall>x \<in> set xs. P x))"
  unfolding each_of_def by (intro clean_with clean_mono [OF clean_each [where P = P]] assms) auto

definition source_regular :: "repo \<Rightarrow> pystr \<Rightarrow> json \<Rightarrow> bool" where
  "source_regular cx base mapping \<longleftrightarrow> (\<exists>rel. py_item mapping (lit ''source'') = Inr (JStr rel)
     \<and> cx_is_file cx (root_join base rel) = Inr True \<and> cx_is_symlink cx (root_join base rel) = Inr False)"

lemma clean_mapping_source: "clean (mapping_source cx base mapping) (\<lambda>_. source_regular cx base mapping)"
  unfolding mapping_source_def Let_def
proof (intro clean_with)
  fix source rel link
  assume *: "py_item mapping (lit ''source'') = Inr source" "as_str source = Inr rel" "cx_is_symlink cx (root_join base rel) = Inr link"
  show "clean (if link then rel_err cx ''RELEASE_MAPPING_SOURCE'' ''source_image_mappings.'' source (root_join base rel)
      else r_with (cx_is_file cx (root_join base rel)) (\<lambda>there.
        r_when (\<not> there) (rel_err cx ''RELEASE_MAPPING_SOURCE'' ''source_image_mappings.'' source (root_join base rel))))
    (\<lambda>_. source_regular cx base mapping)"
    using * by (cases link) (auto simp: source_regular_def clean_rel_err intro!: clean_with clean_rel_test)
qed

lemma clean_mapping_squashfs:
  "clean (mapping_squashfs cx mapping src_rel ip) (\<lambda>_. src_rel = JStr (PRODUCTION_ROOT @ py_str (cx_printable cx) ip)
     \<and> py_get mapping (lit ''owner'') JNull = Inr (jstr ''root'') \<and> py_get mapping (lit ''group'') JNull = Inr (jstr ''root''))"
  unfolding mapping_squashfs_def
  by (intro clean_seq grows_rules clean_with clean_rel_test conjI) (auto simp: py_eq_JStr_right)

lemma clean_mapping_mode:
  "clean (mapping_mode cx base mapping src_rel) (\<lambda>_. \<forall>rel. src_rel = JStr rel \<and> cx_is_file cx (root_join base rel) = Inr True
     \<and> cx_is_symlink cx (root_join base rel) = Inr False \<longrightarrow>
     (\<exists>mode. cx_mode cx (root_join base rel) = Inr mode \<and> py_get mapping (lit ''mode'') JNull = Inr (JStr (mode_text mode))))"
  unfolding mapping_mode_def Let_def
  by (intro clean_with clean_when clean_rel_test) (auto split: if_splits)

lemma clean_mapping_check:
  "clean (mapping_check cx base mapping) (\<lambda>_. source_regular cx base mapping \<longrightarrow> mapping_holds cx base mapping)"
  unfolding mapping_check_def
proof (intro clean_with)
  fix src_rel ip region
  assume get: "py_item mapping (lit ''source'') = Inr src_rel" "py_item mapping (lit ''image_path'') = Inr ip"
    "py_item mapping (lit ''region'') = Inr region"
  let ?place = "src_rel = JStr (PRODUCTION_ROOT @ py_str (cx_printable cx) ip)
     \<and> py_get mapping (lit ''owner'') JNull = Inr (jstr ''root'') \<and> py_get mapping (lit ''group'') JNull = Inr (jstr ''root'')"
  have a: "clean (r_when (region = jstr ''squashfs'') (mapping_squashfs cx mapping src_rel ip)) (\<lambda>_. region = jstr ''squashfs'' \<longrightarrow> ?place)"
    by (rule clean_when) (auto intro: clean_mono [OF clean_mapping_squashfs])
  have b: "clean (r_seq (mapping_comparison cx mapping src_rel) (mapping_mode cx base mapping src_rel)) (\<lambda>_.
     \<forall>rel. src_rel = JStr rel \<and> cx_is_file cx (root_join base rel) = Inr True \<and> cx_is_symlink cx (root_join base rel) = Inr False \<longrightarrow>
     (\<exists>mode. cx_mode cx (root_join base rel) = Inr mode \<and> py_get mapping (lit ''mode'') JNull = Inr (JStr (mode_text mode))))"
    by (intro clean_seq_right clean_mapping_mode grows_rules)
  have "clean (r_seq (r_when (region = jstr ''squashfs'') (mapping_squashfs cx mapping src_rel ip))
      (r_seq (mapping_comparison cx mapping src_rel) (mapping_mode cx base mapping src_rel)))
    (\<lambda>_. (region = jstr ''squashfs'' \<longrightarrow> ?place) \<and> (\<forall>rel. src_rel = JStr rel \<and> cx_is_file cx (root_join base rel) = Inr True
       \<and> cx_is_symlink cx (root_join base rel) = Inr False \<longrightarrow>
       (\<exists>mode. cx_mode cx (root_join base rel) = Inr mode \<and> py_get mapping (lit ''mode'') JNull = Inr (JStr (mode_text mode)))))"
    by (rule clean_seq [OF _ _ a b]) (intro grows_rules)+
  then show "clean (r_seq (r_when (region = jstr ''squashfs'') (mapping_squashfs cx mapping src_rel ip))
      (r_seq (mapping_comparison cx mapping src_rel) (mapping_mode cx base mapping src_rel)))
    (\<lambda>_. source_regular cx base mapping \<longrightarrow> mapping_holds cx base mapping)"
    by (rule clean_mono) (use get in \<open>auto simp: source_regular_def mapping_holds_def\<close>)
qed

text \<open>Every package that the release requires is in the list that the image is built from.\<close>

definition packages_listed :: "repo \<Rightarrow> pystr \<Rightarrow> json \<Rightarrow> bool" where
  "packages_listed cx base rc \<longleftrightarrow> (\<exists>content required.
     read_text cx Strict (root_join base (lit ''live-build/config/package-lists/kiosk.list.chroot'')) = Inr content
     \<and> res_bind (py_get rc (lit ''required_packages'') (JList [])) py_set = Inr required
     \<and> (\<forall>p \<in> set required. set_mem p (map JStr (package_names content))))"

lemma clean_with_file:
  assumes "\<And>t p. grows (body t p)" and "\<And>t. clean (body t (root_join base (lit rel))) (\<lambda>_. P t)"
  shows "clean (with_file cx base rel body) (\<lambda>_. \<exists>t. read_text cx Strict (root_join base (lit rel)) = Inr t \<and> P t)"
  unfolding with_file_def
proof (rule clean_bind [OF _ _ clean_must_exist], goal_cases)
  case (3 found)
  have "clean (r_seq (body t (root_join base (lit rel))) (r_return (Some (t, root_join base (lit rel))))) (\<lambda>_. P t)" for t
    by (intro clean_seq_left grows_rules assms)
  then have "clean (r_seq (body t (root_join base (lit rel))) (r_return (Some (t, root_join base (lit rel)))))
      (\<lambda>_. \<exists>t. read_text cx Strict (root_join base (lit rel)) = Inr t \<and> P t)"
    if "read_text cx Strict (root_join base (lit rel)) = Inr t" for t
    by (rule clean_mono) (use that in blast)
  then show ?case using 3 by (auto intro!: clean_with)
qed (intro grows_rules assms)+

lemma clean_package_check:
  "clean (package_check rc content path) (\<lambda>_. \<exists>required. res_bind (py_get rc (lit ''required_packages'') (JList [])) py_set = Inr required
     \<and> (\<forall>p \<in> set required. set_mem p (map JStr (package_names content))))"
  unfolding package_check_def Let_def
  by (intro clean_with clean_when clean_err) (auto simp: filter_empty_conv)

definition mappings_hold :: "repo \<Rightarrow> pystr \<Rightarrow> json \<Rightarrow> bool" where
  "mappings_hold cx base rc \<longleftrightarrow> (\<exists>ms. res_bind (py_get rc (lit ''source_image_mappings'') (JList [])) py_iter = Inr ms
     \<and> (\<forall>m \<in> set ms. mapping_holds cx base m))"

lemma clean_mappings:
  assumes "grows k"
  shows "clean (r_seq (each_of rc ''source_image_mappings'' (mapping_source cx base)) (r_seq (drift_release_mappings cx base rc) k))
    (\<lambda>_. mappings_hold cx base rc)"
proof -
  have a: "clean (each_of rc ''source_image_mappings'' (mapping_source cx base))
     (\<lambda>_. \<exists>xs. res_bind (py_get rc (lit ''source_image_mappings'') (JList [])) py_iter = Inr xs \<and> (\<forall>x \<in> set xs. source_regular cx base x))"
    by (intro clean_each_of clean_mapping_source grows_rules)
  have b: "clean (drift_release_mappings cx base rc)
     (\<lambda>_. \<exists>xs. res_bind (py_get rc (lit ''source_image_mappings'') (JList [])) py_iter = Inr xs
        \<and> (\<forall>x \<in> set xs. source_regular cx base x \<longrightarrow> mapping_holds cx base x))"
    unfolding drift_release_mappings_def by (intro clean_each_of clean_mapping_check grows_rules)
  have c: "clean (r_seq (drift_release_mappings cx base rc) k)
     (\<lambda>_. \<exists>xs. res_bind (py_get rc (lit ''source_image_mappings'') (JList [])) py_iter = Inr xs
        \<and> (\<forall>x \<in> set xs. source_regular cx base x \<longrightarrow> mapping_holds cx base x))"
    by (intro clean_seq_left assms b grows_rules)
  show ?thesis
    by (rule clean_mono [OF clean_seq [OF _ _ a c]]) (auto simp: mappings_hold_def intro!: grows_rules assms)
qed

lemma clean_drift_release: "clean (drift_release cx base rc) (\<lambda>_. packages_listed cx base rc \<and> mappings_hold cx base rc)"
proof (rule clean_conj)
  have "clean (with_file cx base ''live-build/config/package-lists/kiosk.list.chroot'' (package_check rc)) (\<lambda>_. packages_listed cx base rc)"
    by (rule clean_mono [OF clean_with_file [OF _ clean_package_check]]) (auto simp: packages_listed_def intro: grows_rules)
  then show "clean (drift_release cx base rc) (\<lambda>_. packages_listed cx base rc)"
    unfolding drift_release_def
    by - (rule clean_bind_right, intro grows_rules, intro grows_rules, rule clean_bind_right, intro grows_rules, intro grows_rules,
        rule clean_bind_left, intro grows_rules, intro grows_rules)
  show "clean (drift_release cx base rc) (\<lambda>_. mappings_hold cx base rc)"
    unfolding drift_release_def
    by (rule clean_bind_right clean_with clean_mappings clean_seq_right | intro grows_rules)+
qed

section \<open>Exit status zero\<close>

definition no_forbidden_key :: "json \<Rightarrow> bool" where
  "no_forbidden_key d \<longleftrightarrow> (\<forall>k. key_in k d \<longrightarrow> \<not> forbidden_key k)"

lemma clean_run_checks:
  "clean (run_checks cx base runtime release rt_schema rc_schema) (\<lambda>_.
     no_forbidden_key runtime \<and> no_forbidden_key release \<and> no_forbidden_key rt_schema \<and> no_forbidden_key rc_schema
     \<and> runtime_holds cx base runtime \<and> (packages_listed cx base release \<and> mappings_hold cx base release))"
  unfolding run_checks_def no_forbidden_key_def
  by (rule clean_seq_right [OF _ _ clean_seq_right [OF _ _ clean_seq_right [OF _ _ clean_seq_right]]])
    (intro clean_seq clean_seq_left clean_secrets clean_drift_runtime clean_drift_release grows_rules)+

lemma guarded_clean:
  assumes "grows m" and "exit_status (guarded m Result) = 0"
  shows "\<exists>v r'. m Result = (Inr v, r') \<and> rep_errors r' = rep_errors Result"
proof -
  obtain x r' where m: "m Result = (x, r')" by (cases "m Result")
  have none: "rep_errors (guarded m Result) = []"
    using assms(2) by (auto simp: exit_status_def report_ok_def split: if_splits)
  show ?thesis
  proof (cases x)
    case (Inl e)
    then show ?thesis using none m by (simp add: guarded_def err_def)
  next
    case (Inr v)
    then show ?thesis using none m by (simp add: guarded_def Result_def)
  qed
qed

lemma load_all_Inr: "load_all cx ps = Inr vs \<longleftrightarrow> list_all2 (\<lambda>p v. load_json cx p = Inr v) ps vs"
  by (induction ps arbitrary: vs) (auto simp: res_bind_Inr_conv list_all2_Cons1)

text \<open>
  C19. Exit status 0 of the contract checker: the two contracts and the two schemas were read and decoded from their
  places, no object of the four documents has a forbidden key, the configuration file of the image agrees with the
  runtime contract, the declared setup and offline addresses occur in the launcher and in the session script, every
  declared service that is not the system's own has a unit, every required package is in the package list, and every
  mapping of the release has a regular source file with the declared mode, place and owner.
\<close>

theorem contracts_exit_zero:
  assumes "contracts_main cx base opts = Inr 0"
  shows "\<exists>runtime release rt_schema rc_schema.
    list_all2 (\<lambda>p d. load_json cx p = Inr d) (contract_paths base opts) [runtime, release, rt_schema, rc_schema]
    \<and> no_forbidden_key runtime \<and> no_forbidden_key release \<and> no_forbidden_key rt_schema \<and> no_forbidden_key rc_schema
    \<and> runtime_holds cx base runtime \<and> packages_listed cx base release \<and> mappings_hold cx base release"
proof -
  obtain docs where docs: "load_all cx (contract_paths base opts) = Inr docs"
    and status: "exit_status (guarded (run_checks cx base (docs ! 0) (docs ! 1) (docs ! 2) (docs ! 3)) Result) = 0"
    using assms by (auto simp: contracts_main_def Let_def res_bind_Inr_conv split: if_splits sum.splits)
  obtain runtime release rt_schema rc_schema where four: "docs = [runtime, release, rt_schema, rc_schema]"
    using docs unfolding load_all_Inr by (auto simp: contract_paths_def list_all2_Cons1)
  have "\<exists>v r'. run_checks cx base runtime release rt_schema rc_schema Result = (Inr v, r') \<and> rep_errors r' = rep_errors Result"
    using guarded_clean [OF grows_run_checks status] by (simp add: four)
  then show ?thesis using docs cleanD [OF clean_run_checks] unfolding load_all_Inr four by blast
qed

end
