(* ===== verification/Contract_Sample.thy ===== *)
theory Contract_Sample
  imports Contract_Clean
begin

text \<open>
  A small repository on which \<open>tools/check-contracts.py\<close> exits with status 0, evaluated check by check. It shows that
  the hypotheses of the theorems on clean runs can hold.
\<close>

section \<open>The repository\<close>

definition sample_json :: "string \<Rightarrow> pystr" where
  "sample_json s = map (\<lambda>c. if c = 96 then 34 else c) (lit s)"

definition sample_files :: "(pystr \<times> pystr) list" where
  "sample_files = map (\<lambda>(name, s). (lit name, sample_json s))
     [(''runtime-contract.json'', ''{`config_keys`: [`SUSHIDA_URL`, `NETWORK_CHECK_INTERVAL_SECONDS`, `NETWORK_SETUP_GRACE_SECONDS`],
`urls`: {`sushida_url`: `https://sushida.net/`, `setup_url`: `file:///s`},
`timeouts`: {`network_check_interval_seconds`: 30, `network_setup_grace_seconds`: 15},
`services`: {`kiosk_service`: `k.service`}, `navigation`: {`allowlist`: [`sushida.net`], `blocklist`: [`*`]}}''),
      (''release-contract.json'', ''{`required_packages`: [`cage`], `source_image_mappings`: [
{`source`: `live-build/config/includes.chroot/etc/k`, `image_path`: `/etc/k`, `region`: `squashfs`,
`owner`: `root`, `group`: `root`, `mode`: `0644`}]}''),
      (''runtime-contract.schema.json'', ''{}''),
      (''release-contract.schema.json'', ''{}''),
      (''config.env'', ''SUSHIDA_URL=https://sushida.net/
NETWORK_CHECK_INTERVAL_SECONDS=30
NETWORK_SETUP_GRACE_SECONDS=15
''),
      (''sushida-launch'', ''python3 -m sushida_os.config
file:///s''),
      (''sushida-network-watch'', ''python3 -m sushida_os.config''),
      (''sushida-session'', ''file:///s''),
      (''config.py'', ''Setting(`SUSHIDA_URL`
Setting(`NETWORK_CHECK_INTERVAL_SECONDS`, default=30)
Setting(`NETWORK_SETUP_GRACE_SECONDS`, default=15)''),
      (''sushida-os.json'', ''{`URLAllowlist`: [`sushida.net`], `URLBlocklist`: [`*`]}''),
      (''flash.sh'', ''sushida-os-amd64.iso''),
      (''kiosk.list.chroot'', ''cage'')]"

definition sample_text :: "pystr \<Rightarrow> pystr" where
  "sample_text p = (case map_of sample_files (basename p) of None \<Rightarrow> [] | Some s \<Rightarrow> s)"

definition sample_repo :: repo where
  "sample_repo = sample_cx\<lparr>cx_is_file := \<lambda>_. Inr True, cx_read := \<lambda>p. Inr (bytes_of (sample_text p)), cx_mode := \<lambda>_. Inr 420\<rparr>"

definition sample_base :: pystr where "sample_base = lit ''/r''"

lemma sample_ascii: "\<forall>(name, s) \<in> set sample_files. py_isascii s \<and> 13 \<notin> set s"
  unfolding sample_files_def by code_simp

lemma sample_read [simp]: "read_text sample_repo h p = Inr (sample_text p)"
proof -
  have "py_isascii (sample_text p) \<and> 13 \<notin> set (sample_text p)"
    using sample_ascii unfolding sample_text_def by (auto simp: py_isascii_def split: option.splits dest!: map_of_SomeD)
  then show ?thesis
    using utf8_roundtrip [OF py_isascii_encodable, of "sample_text p" h] by (simp add: read_text_def sample_repo_def utf8_ints_ascii universal_newlines_id)
qed

lemma sample_is_file [simp]: "cx_is_file sample_repo p = Inr True" "cx_is_symlink sample_repo p = Inr False"
  by (simp_all add: sample_repo_def sample_cx_def)

text \<open>The documents and texts that the run reads.\<close>

definition sample_urls :: json where "sample_urls = JObj [(lit ''sushida_url'', jstr ''https://sushida.net/''), (lit ''setup_url'', jstr ''file:///s'')]"

definition sample_timeouts :: json where "sample_timeouts = JObj [(lit ''network_check_interval_seconds'', JInt 30), (lit ''network_setup_grace_seconds'', JInt 15)]"

definition sample_services :: json where "sample_services = JObj [(lit ''kiosk_service'', jstr ''k.service'')]"

definition sample_runtime :: json where
  "sample_runtime = JObj
     [(lit ''config_keys'', JList (map jstr [''SUSHIDA_URL'', ''NETWORK_CHECK_INTERVAL_SECONDS'', ''NETWORK_SETUP_GRACE_SECONDS''])),
      (lit ''urls'', sample_urls), (lit ''timeouts'', sample_timeouts), (lit ''services'', sample_services),
      (lit ''navigation'', JObj [(lit ''allowlist'', JList [jstr ''sushida.net'']), (lit ''blocklist'', JList [jstr ''*''])])]"

definition sample_mapping :: json where
  "sample_mapping = JObj (map (\<lambda>(k, v). (lit k, jstr v))
     [(''source'', ''live-build/config/includes.chroot/etc/k''), (''image_path'', ''/etc/k''), (''region'', ''squashfs''),
      (''owner'', ''root''), (''group'', ''root''), (''mode'', ''0644'')])"

definition sample_release :: json where
  "sample_release = JObj [(lit ''required_packages'', JList [jstr ''cage'']), (lit ''source_image_mappings'', JList [sample_mapping])]"

definition sample_sources :: sources where
  "sample_sources = map (\<lambda>(k, p, s). (jstr k, sample_json s, in_production p))
     [(''launch'', ''/usr/local/bin/sushida-launch'', ''python3 -m sushida_os.config
file:///s''),
      (''netwatch'', ''/usr/local/bin/sushida-network-watch'', ''python3 -m sushida_os.config''),
      (''navwatch'', ''/usr/local/bin/sushida-navigation-watch'', ''''),
      (''session'', ''/usr/local/libexec/sushida-session'', ''file:///s''),
      (''wifi'', ''/usr/local/libexec/sushida-wifi-setup'', ''''),
      (''wifi_nmcli'', ''/usr/lib/python3/dist-packages/sushida_os/wifi/nmcli.py'', ''''),
      (''wifi_restore'', ''/usr/lib/python3/dist-packages/sushida_os/wifi/restore.py'', ''''),
      (''wifi_storage'', ''/usr/lib/python3/dist-packages/sushida_os/wifi/storage.py'', ''''),
      (''wifi_web'', ''/usr/lib/python3/dist-packages/sushida_os/wifi/web.py'', ''''),
      (''configprep'', ''/usr/local/libexec/sushida-config-prepare'', ''''),
      (''splash_handoff'', ''/usr/local/libexec/sushida-splash-handoff'', ''''),
      (''serial_marker'', ''/usr/local/libexec/sushida-serial-marker'', ''''),
      (''config'', ''/usr/lib/python3/dist-packages/sushida_os/config.py'', ''Setting(`SUSHIDA_URL`
Setting(`NETWORK_CHECK_INTERVAL_SECONDS`, default=30)
Setting(`NETWORK_SETUP_GRACE_SECONDS`, default=15)''),
      (''runtime_routes'', ''/usr/lib/python3/dist-packages/sushida_os/runtime/routes.py'', ''''),
      (''runtime_state'', ''/usr/lib/python3/dist-packages/sushida_os/runtime/runtime_state.py'', '''')]"

lemma sample_load: "load_json sample_repo p = (case json_loads (sample_text p) of Inr v \<Rightarrow> Inr v | Inl x \<Rightarrow> if x = JSONDecodeError then Inl RuntimeError else Inl x)"
  by (simp add: load_json_def)

lemma sample_documents:
  "load_json sample_repo (in_contracts sample_base RUNTIME_CONTRACT) = Inr sample_runtime"
  "load_json sample_repo (in_contracts sample_base RELEASE_CONTRACT) = Inr sample_release"
  "load_json sample_repo (in_contracts sample_base RUNTIME_SCHEMA) = Inr (JObj [])"
  "load_json sample_repo (in_contracts sample_base RELEASE_SCHEMA) = Inr (JObj [])"
  unfolding sample_load by code_simp+

lemma sample_texts: "map (\<lambda>(key, rel). (key, sample_text (root_join sample_base rel), rel)) RUNTIME_SOURCE_FILES = sample_sources"
  by code_simp

lemma sample_load_sources: "load_sources sample_repo base contract b ms r = (Inr (map (\<lambda>(key, rel). (key, sample_text (root_join base rel), rel)) ms), r)"
  by (induction sample_repo base contract b ms arbitrary: r rule: load_sources.induct) (simp_all add: r_return_def must_exist_def r_bind_def)

section \<open>The run\<close>

lemma ok_seq: "m r = (Inr (), r) \<Longrightarrow> k r = (Inr v, r) \<Longrightarrow> r_seq m k r = (Inr v, r)"
  by (simp add: r_seq_def r_bind_def)

lemma ok_bind: "m r = (Inr x, r) \<Longrightarrow> f x r = (Inr v, r) \<Longrightarrow> r_bind m f r = (Inr v, r)"
  by (simp add: r_bind_def)

lemma ok_with: "e = Inr x \<Longrightarrow> f x r = (Inr v, r) \<Longrightarrow> r_with e f r = (Inr v, r)"
  by simp

lemma sample_get:
  "py_get sample_runtime (lit ''urls'') (JObj []) = Inr sample_urls"
  "py_get sample_runtime (lit ''runtime_paths'') (JObj []) = Inr (JObj [])"
  "py_get sample_runtime (lit ''services'') (JObj []) = Inr sample_services"
  "py_get sample_runtime (lit ''timeouts'') (JObj []) = Inr sample_timeouts"
  "py_get sample_runtime (lit ''routes'') (JList []) = Inr (JList [])"
  by code_simp+

lemma sample_secrets:
  "check_secrets sample_runtime ctx path Result = (Inr (), Result)" "check_secrets sample_release ctx path Result = (Inr (), Result)"
  "check_secrets (JObj []) ctx path Result = (Inr (), Result)"
  by code_simp+

lemma sample_env: "drift_config_env sample_repo sample_base sample_runtime sample_urls sample_timeouts Result = (Inr (), Result)"
  by code_simp

lemma sample_drift_urls: "drift_urls sample_repo sample_urls sample_sources Result = (Inr (), Result)"
  by code_simp

lemma sample_drift_timeouts: "drift_timeouts sample_repo sample_timeouts sample_sources Result = (Inr (), Result)"
  by code_simp

lemma sample_drift_paths: "drift_runtime_paths sample_repo (JObj []) sample_services sample_sources units Result = (Inr (), Result)"
  by code_simp

lemma sample_drift_keys:
  "drift_config_keys sample_repo (JList [jstr ''SUSHIDA_URL'', jstr ''NETWORK_CHECK_INTERVAL_SECONDS'', jstr ''NETWORK_SETUP_GRACE_SECONDS'']) sample_sources Result = (Inr (), Result)"
  by code_simp

lemma sample_drift_last:
  "drift_policy sample_repo sample_base sample_runtime Result = (Inr (), Result)"
  "drift_route_names sample_repo sample_runtime Result = (Inr (), Result)"
  "drift_navigation sample_runtime Result = (Inr (), Result)"
  "drift_services sample_repo sample_base sample_services Result = (Inr (), Result)"
  by code_simp+

lemma sample_units: "\<exists>units_of. unit_map sample_repo sample_services = Inr units_of"
  by (simp add: unit_map_def sample_services_def jstr_def hashable_def)

lemma sample_drift_runtime: "drift_runtime sample_repo sample_base sample_runtime Result = (Inr (), Result)"
proof -
  obtain units_of where units: "unit_map sample_repo sample_services = Inr units_of" using sample_units by blast
  have routes: "drift_routes sample_repo (JList []) sample_sources Result = (Inr (), Result)"
    by (simp add: drift_routes_def py_set_def r_when_def r_return_def)
  have keys: "py_get sample_runtime (lit ''config_keys'') (JList [])
      = Inr (JList [jstr ''SUSHIDA_URL'', jstr ''NETWORK_CHECK_INTERVAL_SECONDS'', jstr ''NETWORK_SETUP_GRACE_SECONDS''])"
    by code_simp
  show ?thesis
    unfolding drift_runtime_def sample_get units keys r_with_simps
    by (intro ok_seq sample_env ok_bind [OF sample_load_sources] sample_drift_last sample_drift_paths routes)
      (simp_all add: sample_texts sample_drift_urls sample_drift_timeouts sample_drift_keys sample_drift_paths routes)
qed

lemma sample_drift_release: "drift_release sample_repo sample_base sample_release Result = (Inr (), Result)"
  by code_simp

lemma r_each_return: "(\<And>x. x \<in> set xs \<Longrightarrow> f x = r_return ()) \<Longrightarrow> r_each f xs = r_return ()"
  by (induction xs) (simp_all add: fun_eq_iff r_seq_def r_bind_def r_return_def)

lemma sample_check_schema: "check_schema sample_repo (JObj kvs) (JObj []) ctx r = (Inr (), r)"
proof -
  have none: "py_in (JStr k) (JObj []) = Inr False" for k
    by (simp add: hashable_def)
  show ?thesis
    by (subst check_schema.simps)
      (simp add: unsupported_keywords_def required_fields_def unknown_fields_def validate_fields_def none r_each_return split_def r_when_def
        del: py_in.simps, simp add: r_seq_def r_bind_def r_return_def)
qed

lemma sample_last:
  "version_check name sample_runtime (JObj []) Result = (Inr (), Result)" "version_check name sample_release (JObj []) Result = (Inr (), Result)"
  "unhandled_fields sample_runtime Result = (Inr (), Result)"
  by code_simp+

lemma sample_run_checks: "run_checks sample_repo sample_base sample_runtime sample_release (JObj []) (JObj []) Result = (Inr (), Result)"
proof -
  have schema: "check_schema sample_repo sample_runtime (JObj []) ctx Result = (Inr (), Result)"
    "check_schema sample_repo sample_release (JObj []) ctx Result = (Inr (), Result)" for ctx
    unfolding sample_runtime_def sample_release_def by (rule sample_check_schema)+
  show ?thesis
    unfolding run_checks_def by (intro ok_seq schema sample_last sample_secrets sample_drift_runtime sample_drift_release)
qed

lemma sample_main: "contracts_main sample_repo sample_base \<lparr>op_json = False, op_runtime = None, op_release = None\<rparr> = Inr 0"
  by (simp add: contracts_main_def contract_paths_def given_or_def sample_documents sample_run_checks guarded_def Let_def)
    (simp add: exit_status_def report_ok_def Result_def)

theorem contracts_exit_zero_witness:
  "\<exists>runtime release rt_schema rc_schema.
    list_all2 (\<lambda>p d. load_json sample_repo p = Inr d)
      (contract_paths sample_base \<lparr>op_json = False, op_runtime = None, op_release = None\<rparr>) [runtime, release, rt_schema, rc_schema]
    \<and> no_forbidden_key runtime \<and> no_forbidden_key release \<and> no_forbidden_key rt_schema \<and> no_forbidden_key rc_schema
    \<and> runtime_holds sample_repo sample_base runtime \<and> packages_listed sample_repo sample_base release
    \<and> mappings_hold sample_repo sample_base release"
  by (rule contracts_exit_zero [OF sample_main])

text \<open>The configuration file of the sample on a device.\<close>

definition sample_env_text :: pystr where "sample_env_text = sample_text (env_path sample_base)"

definition sample_device :: os where
  "sample_device = os_of [(CONFIG_FILE, \<lparr>n_type = Regular, n_mode = 420, n_uid = 0, n_data = bytes_of sample_env_text\<rparr>)]"

lemma sample_env_lines: "py_isascii sample_env_text" "\<forall>ch \<in> set sample_env_text. is_linebreak ch \<longrightarrow> ch = 10"
  by code_simp+

lemma sample_keys:
  "py_get sample_runtime (lit ''config_keys'') (JList [])
     = Inr (JList (map JStr (map lit [''SUSHIDA_URL'', ''NETWORK_CHECK_INTERVAL_SECONDS'', ''NETWORK_SETUP_GRACE_SECONDS''])))"
  "\<forall>k \<in> set (map lit [''SUSHIDA_URL'', ''NETWORK_CHECK_INTERVAL_SECONDS'', ''NETWORK_SETUP_GRACE_SECONDS'']). known_key k"
  by code_simp+

theorem clean_config_env_accepted_witness:
  "config_load (lit ''SUSHIDA_URL'') CONFIG_FILE sample_device = Inr (VUrl (lit ''https://sushida.net/''))
   \<and> config_load (lit ''NETWORK_CHECK_INTERVAL_SECONDS'') CONFIG_FILE sample_device = Inr (VInt 30)
   \<and> config_load (lit ''NETWORK_SETUP_GRACE_SECONDS'') CONFIG_FILE sample_device = Inr (VInt 15)"
proof (rule clean_config_env_accepted [OF sample_env refl sample_keys])
  show "cx_read sample_repo (env_path sample_base) = Inr (bytes_of sample_env_text)"
    by (simp add: sample_repo_def sample_env_text_def)
  show "utf8_decode Strict (bytes_of sample_env_text) = Inr sample_env_text"
    using utf8_roundtrip [OF py_isascii_encodable [OF sample_env_lines(1)]] by (simp add: utf8_ints_ascii [OF sample_env_lines(1)])
  show "\<forall>ch \<in> set sample_env_text. is_linebreak ch \<longrightarrow> ch = 10" by (rule sample_env_lines)
  show "fst (read_bytes CONFIG_FILE sample_device) = Inr (bytes_of sample_env_text)"
    by (simp add: sample_device_def os_of_def read_bytes_def)
  show "py_get sample_urls (lit ''sushida_url'') (JStr []) = Inr (JStr (lit ''https://sushida.net/''))"
    "url_allowed (lit ''https://sushida.net/'')"
    "py_get sample_timeouts (lit ''network_check_interval_seconds'') (JStr []) = Inr (JInt 30)"
    "py_get sample_timeouts (lit ''network_setup_grace_seconds'') (JStr []) = Inr (JInt 15)"
    by code_simp+
qed simp_all

text \<open>
  Without the range the check says less: a contract and a file that both say 5 seconds show no drift, and the
  module refuses the value.
\<close>

lemma clean_interval_refused:
  "env_value sample_repo sample_urls (JObj [(lit ''network_check_interval_seconds'', JInt 5)]) path
     (lit ''NETWORK_CHECK_INTERVAL_SECONDS'') (lit ''5'') Result = (Inr (), Result)
   \<and> (\<exists>m. config_value [(lit ''NETWORK_CHECK_INTERVAL_SECONDS'', lit ''5'')] (lit ''NETWORK_CHECK_INTERVAL_SECONDS'')
         = Inl (ConfigError m))"
proof
  show "env_value sample_repo sample_urls (JObj [(lit ''network_check_interval_seconds'', JInt 5)]) path
     (lit ''NETWORK_CHECK_INTERVAL_SECONDS'') (lit ''5'') Result = (Inr (), Result)"
    by code_simp
  have "config_value [(lit ''NETWORK_CHECK_INTERVAL_SECONDS'', lit ''5'')] (lit ''NETWORK_CHECK_INTERVAL_SECONDS'')
      = Inl (ConfigError (lit ''NETWORK_CHECK_INTERVAL_SECONDS must be between 30 and 3600''))"
    by code_simp
  then show "\<exists>m. config_value [(lit ''NETWORK_CHECK_INTERVAL_SECONDS'', lit ''5'')] (lit ''NETWORK_CHECK_INTERVAL_SECONDS'')
         = Inl (ConfigError m)" by blast
qed

end
