(* ===== verification/Contract_Print.thy ===== *)
theory Contract_Print
  imports Contract_Main
begin

text \<open>
  \<open>Result.human_report\<close> of \<open>tools/check-contracts.py\<close>: the text a run prints without \<open>--json\<close>. The entries of the report come
  with the texts of their messages, which the model leaves open, and \<open>shown\<close> is \<open>str()\<close> of a field that is not a string.
\<close>

definition field_text :: "(json \<Rightarrow> pystr) \<Rightarrow> json \<Rightarrow> pystr" where
  "field_text shown f = (case f of JStr t \<Rightarrow> t | _ \<Rightarrow> shown f)"

definition entry_lines :: "(json \<Rightarrow> pystr) \<Rightarrow> (entry \<times> pystr) list \<Rightarrow> entry \<times> pystr \<Rightarrow> pystr list" where
  "entry_lines shown errors x =
     (let e = fst x;
          kind = (if x \<in> set errors then lit ''ERROR'' else lit ''WARN'');
          file_field = (if py_truth (e_field e) then e_file e @ lit '':'' @ field_text shown (e_field e) else e_file e)
      in [kind @ lit '' ['' @ e_code e @ lit ''] '' @ file_field, lit ''  '' @ snd x])"

definition human_report :: "(json \<Rightarrow> pystr) \<Rightarrow> (entry \<times> pystr) list \<Rightarrow> (entry \<times> pystr) list \<Rightarrow> pystr" where
  "human_report shown errors warnings =
     (let lines =
        (if errors = [] \<and> warnings = [] then
           [lit ''runtime_contract=PASS'', lit ''release_contract=PASS'', lit ''contract_drift=PASS'']
         else
           concat (map (entry_lines shown errors) (errors @ warnings))
           @ (if errors \<noteq> [] then [lit ''contract_drift=FAIL ('' @ show_int (int (length errors)) @ lit '' error(s))'']
              else [lit ''contract_drift=PASS'']))
      in join [10] lines @ [10])"

definition last_line :: "pystr \<Rightarrow> pystr" where
  "last_line t = last (split_on 10 (butlast t))"

lemma split_by_not: "(\<forall>x \<in> set l. \<not> p x) \<Longrightarrow> split_by p l = [l]"
  by (induction l) auto

lemma split_by_at: "p c \<Longrightarrow> split_by p (a @ c # l) = split_by p a @ split_by p l"
proof (induction a)
  case (Cons x a)
  then show ?case using split_by_not_Nil [of p a] by (cases "split_by p a") auto
qed simp

lemma last_split_join:
  assumes "10 \<notin> set l"
  shows "last (split_on 10 (join [10] (ls @ [l]))) = l"
proof (cases ls)
  have one: "split_by (\<lambda>x. x = 10) l = [l]" by (rule split_by_not) (use assms in auto)
  case Nil
  then show ?thesis using one by (simp add: split_on_def)
next
  have one: "split_by (\<lambda>x. x = 10) l = [l]" by (rule split_by_not) (use assms in auto)
  case (Cons x xs)
  have "join [10] (ls @ [l]) = join [10] ls @ 10 # l" if "ls \<noteq> []" for ls :: "pystr list"
    using that
  proof (induction ls)
    case (Cons y ys)
    then show ?case by (cases "ys = []") (auto simp: join_Cons)
  qed simp
  from this [of ls] show ?thesis using one Cons split_by_at [of "\<lambda>x. x = 10" 10 "join [10] ls" l] by (simp add: split_on_def)
qed

lemma show_int_no_newline: "10 \<notin> set (show_int (int n))"
  using show_pos_digits [of "int n"] by (auto simp: show_int_def list_all_iff ascii_digit_def)

text \<open>
  The last line of the text is the verdict: it says \<open>PASS\<close> exactly for a report without errors, whatever the messages
  contain, and names the number of errors otherwise.
\<close>

theorem human_report_verdict:
  "last_line (human_report shown errors warnings) =
     (if report_ok \<lparr>rep_errors = map fst errors, rep_warnings = map fst warnings\<rparr> then lit ''contract_drift=PASS''
      else lit ''contract_drift=FAIL ('' @ show_int (int (length errors)) @ lit '' error(s))'')"
proof -
  let ?v = "if errors = [] then lit ''contract_drift=PASS''
      else lit ''contract_drift=FAIL ('' @ show_int (int (length errors)) @ lit '' error(s))''"
  obtain ls where "human_report shown errors warnings = join [10] (ls @ [?v]) @ [10]"
  proof (cases "errors = [] \<and> warnings = []")
    case True
    then show ?thesis using that [of "[lit ''runtime_contract=PASS'', lit ''release_contract=PASS'']"] by (simp add: human_report_def)
  next
    case False
    then show ?thesis using that [of "concat (map (entry_lines shown errors) (errors @ warnings))"] by (auto simp: human_report_def Let_def)
  qed
  moreover have "10 \<notin> set ?v" using show_int_no_newline [of "length errors"] by (auto simp: lit_def)
  ultimately have "last_line (human_report shown errors warnings) = ?v"
    unfolding last_line_def using last_split_join [of ?v ls] by (simp add: butlast_append)
  then show ?thesis by (simp add: report_ok_def)
qed

end
