(* ===== verification/Nav_Session.thy ===== *)
theory Nav_Session
  imports Py_Codec
begin

text \<open>
  \<open>usr/local/bin/sushida-navigation-watch\<close>, the parser of Chromium's session files: the scan for navigation records
  and the table of the latest address of each tab. Every read of an integer is checked against the length of its
  buffer, as \<open>struct.unpack_from\<close> does.
\<close>

section \<open>The parser\<close>

definition MAGIC :: bytes where "MAGIC = bytes_of (lit ''SNSS'')"
definition COMMAND_UPDATE_TAB_NAVIGATION :: byte where "COMMAND_UPDATE_TAB_NAVIGATION = 6"
definition MAX_SESSION_BYTES :: nat where "MAX_SESSION_BYTES = 4 * 1024 * 1024"
definition MAX_RECORD_BYTES :: int where "MAX_RECORD_BYTES = 65536"
definition MAX_URL_BYTES :: int where "MAX_URL_BYTES = 2048"
definition MAX_NAVIGATION_INDEX :: int where "MAX_NAVIGATION_INDEX = 4096"

definition unpack_from :: "(bytes \<Rightarrow> nat \<Rightarrow> int) \<Rightarrow> bytes \<Rightarrow> nat \<Rightarrow> int res" where
  "unpack_from f bs off = (if off + 4 \<le> length bs then Inr (f bs off) else Inl StructError)"

type_synonym nav_record = "bytes \<times> int \<times> pystr"

definition printable_url :: "pystr \<Rightarrow> bool" where
  "printable_url url \<longleftrightarrow> list_all (\<lambda>c. 0x21 \<le> c \<and> c \<noteq> 0x7F) url"

text \<open>The checks of one payload.\<close>

definition payload_record :: "bytes \<Rightarrow> nav_record option res" where
  "payload_record payload =
     res_bind (unpack_from unpack_u32 payload 4) (\<lambda>nav_index.
     res_bind (unpack_from unpack_u32 payload 8) (\<lambda>url_len.
       if nav_index \<le> MAX_NAVIGATION_INDEX \<and> 1 \<le> url_len \<and> url_len \<le> MAX_URL_BYTES \<and> 12 + url_len \<le> int (length payload) then
         Inr (case utf8_decode Strict (take (nat url_len) (drop 12 payload)) of
                Inl _ \<Rightarrow> None
              | Inr url \<Rightarrow> if printable_url url then Some (take 4 payload, nav_index, url) else None)
       else Inr None))"

text \<open>The body of the loop at one offset.\<close>

definition record_at :: "bytes \<Rightarrow> nat \<Rightarrow> nav_record option res" where
  "record_at data off =
     (if data ! off = COMMAND_UPDATE_TAB_NAVIGATION then
        res_bind (unpack_from unpack_u32 data (off + 1)) (\<lambda>size.
          if 13 \<le> size \<and> size \<le> MAX_RECORD_BYTES \<and> int off + 5 + size \<le> int (length data) then
            payload_record (take (nat size) (drop (off + 5) data))
          else Inr None)
      else Inr None)"

function scan_records :: "bytes \<Rightarrow> nat \<Rightarrow> nav_record list res" where
  "scan_records data off =
     (if off + 13 \<le> length data then
        res_bind (record_at data off) (\<lambda>r.
        res_bind (scan_records data (off + 1)) (\<lambda>rs.
          Inr (case r of None \<Rightarrow> rs | Some x \<Rightarrow> x # rs)))
      else Inr [])"
  by pat_completeness auto
termination
  by (relation "measure (\<lambda>(data, off). length data - off)") auto

declare scan_records.simps [simp del]

definition iter_navigation_records :: "bytes \<Rightarrow> nav_record list res" where
  "iter_navigation_records data =
     (if length data < 8 \<or> MAX_SESSION_BYTES < length data then Inr []
      else if take 4 data \<noteq> MAGIC then Inr []
      else res_bind (unpack_from unpack_i32 data 4) (\<lambda>version.
        if version < 1 \<or> 99 < version then Inr [] else scan_records data 8))"

text \<open>\<open>entries[tab_id] = url\<close>: a key keeps its place.\<close>

fun put_entry :: "bytes \<Rightarrow> pystr \<Rightarrow> (bytes \<times> pystr) list \<Rightarrow> (bytes \<times> pystr) list" where
  "put_entry k v [] = [(k, v)]"
| "put_entry k v ((k', v') # es) = (if k' = k then (k', v) # es else (k', v') # put_entry k v es)"

definition current_entries :: "bytes \<Rightarrow> (bytes \<times> pystr) list res" where
  "current_entries data =
     res_bind (iter_navigation_records data) (\<lambda>rs. Inr (fold (\<lambda>(tab, _, url). put_entry tab url) rs []))"

section \<open>What a record is\<close>

text \<open>The bytes of a record, with what the browser writes behind the address.\<close>

definition record_bytes :: "nav_record \<Rightarrow> bytes \<Rightarrow> bytes" where
  "record_bytes r rest =
     (case r of (tab, nav_index, url) \<Rightarrow>
        let raw = bytes_of (utf8_ints url);
            payload = tab @ pack_u32 nav_index @ pack_u32 (int (length raw)) @ raw @ rest
        in COMMAND_UPDATE_TAB_NAVIGATION # pack_u32 (int (length payload)) @ payload)"

definition record_ok :: "nav_record \<Rightarrow> bytes \<Rightarrow> bool" where
  "record_ok r rest \<longleftrightarrow>
     (case r of (tab, nav_index, url) \<Rightarrow>
        length tab = 4 \<and> 0 \<le> nav_index \<and> nav_index \<le> MAX_NAVIGATION_INDEX \<and> encodable url \<and> printable_url url
        \<and> url \<noteq> [] \<and> int (length (utf8_ints url)) \<le> MAX_URL_BYTES
        \<and> int (12 + length (utf8_ints url) + length rest) \<le> MAX_RECORD_BYTES)"

lemma unpack_u32_append: "unpack_u32 (a @ b) (length a + i) = unpack_u32 b i"
  by (simp add: unpack_u32_def nth_append add.assoc)

lemma unpack_u32_prefix: "i + 4 \<le> length a \<Longrightarrow> unpack_u32 (a @ b) i = unpack_u32 a i"
  by (simp add: unpack_u32_def nth_append)

lemma low_byte: "0 \<le> a \<Longrightarrow> a < 256 \<Longrightarrow> (a + 256 * x) mod 256 = a \<and> (a + 256 * x) div 256 = (x :: int)"
  by simp

lemma pack_unpack_u32:
  assumes "off + 4 \<le> length bs"
  shows "pack_u32 (unpack_u32 bs off) = take 4 (drop off bs)"
proof -
  let ?b = "\<lambda>i. uint (bs ! (off + i))"
  let ?n = "?b 0 + 256 * (?b 1 + 256 * (?b 2 + 256 * ?b 3))"
  have n: "unpack_u32 bs off = ?n" by (simp add: unpack_u32_def algebra_simps)
  have b: "0 \<le> ?b i \<and> ?b i < 256" for i using uint_lt2p [of "bs ! (off + i)"] by simp
  have d: "?n mod 256 = ?b 0" "?n div 256 = ?b 1 + 256 * (?b 2 + 256 * ?b 3)" using low_byte b by blast+
  have e: "(?b 1 + 256 * (?b 2 + 256 * ?b 3)) mod 256 = ?b 1" "(?b 1 + 256 * (?b 2 + 256 * ?b 3)) div 256 = ?b 2 + 256 * ?b 3"
    using low_byte b by blast+
  have f: "(?b 2 + 256 * ?b 3) mod 256 = ?b 2" "(?b 2 + 256 * ?b 3) div 256 = ?b 3" using low_byte b by blast+
  have g: "?b 3 mod 256 = ?b 3" using b [of 3] by simp
  have "?n div 65536 = ?n div 256 div 256" "?n div 16777216 = ?n div 256 div 256 div 256"
    by (simp_all flip: zdiv_zmult2_eq)
  then have hi: "?n div 65536 = ?b 2 + 256 * ?b 3" "?n div 16777216 = ?b 3" by (simp_all only: d e f)
  have "pack_u32 ?n = bytes_of [?b 0, ?b 1, ?b 2, ?b 3]" unfolding pack_u32_def hi d e f g by (rule refl)
  moreover have "take 4 (drop off bs) = [bs ! (off + 0), bs ! (off + 1), bs ! (off + 2), bs ! (off + 3)]"
    using assms by (intro nth_equalityI) (auto simp: less_Suc_eq_0_disj eval_nat_numeral)
  ultimately show ?thesis by (simp add: n bytes_of_def)
qed

lemma utf8_strict_inv:
  "list_all byte_value bs \<Longrightarrow> utf8_decode_ints Strict bs = Inr s \<Longrightarrow> encodable s \<and> utf8_ints s = bs"
proof (induction "Strict" bs arbitrary: s rule: utf8_decode_ints.induct)
  case 1
  then show ?case by (simp add: encodable_def utf8_ints_def)
next
  case (2 b r)
  obtain c r' s' where st: "utf8_step b r = Inr (c, r')" "utf8_decode_ints Strict r' = Inr s'" "s = c # s'"
    using 2(5) by (auto simp: res_bind_def split: sum.splits)
  have inv: "b # r = utf8_cp c @ r'" "\<not> is_surrogate c" "valid_cp c"
    using utf8_step_inv [OF st(1)] 2(4) by (auto simp: byte_value_def)
  then have "list_all byte_value r'" using 2(4) by (metis list_all_append)
  then have "encodable s' \<and> utf8_ints s' = r'" using 2(3) st by blast
  then show ?case using inv st(3) by (simp add: encodable_def utf8_ints_def)
qed

lemma utf8_strict_iff: "utf8_decode Strict raw = Inr url \<longleftrightarrow> encodable url \<and> raw = bytes_of (utf8_ints url)"
proof
  assume "utf8_decode Strict raw = Inr url"
  then have "encodable url \<and> utf8_ints url = ints_of raw" unfolding utf8_decode_def by (intro utf8_strict_inv ints_of_byte_values)
  then show "encodable url \<and> raw = bytes_of (utf8_ints url)" by simp
qed (auto intro: utf8_roundtrip)

section \<open>The scan finds exactly the records\<close>

definition tab_payload :: "nav_record \<Rightarrow> bytes \<Rightarrow> bytes" where
  "tab_payload r rest =
     (case r of (tab, nav_index, url) \<Rightarrow>
        tab @ pack_u32 nav_index @ pack_u32 (int (length (utf8_ints url))) @ bytes_of (utf8_ints url) @ rest)"

lemma record_bytes_payload:
  "record_bytes r rest = COMMAND_UPDATE_TAB_NAVIGATION # pack_u32 (int (length (tab_payload r rest))) @ tab_payload r rest"
  by (cases r) (simp add: record_bytes_def tab_payload_def Let_def)

lemma payload_split:
  assumes "12 + n \<le> length p"
  shows "p = take 4 p @ take 4 (drop 4 p) @ take 4 (drop 8 p) @ take n (drop 12 p) @ drop (12 + n) p"
proof -
  have "p = take 4 p @ drop 4 p" by simp
  also have "drop 4 p = take 4 (drop 4 p) @ drop 8 p" using append_take_drop_id [of 4 "drop 4 p"] by simp
  also have "drop 8 p = take 4 (drop 8 p) @ drop 12 p" using append_take_drop_id [of 4 "drop 8 p"] by simp
  also have "drop 12 p = take n (drop 12 p) @ drop (12 + n) p" using append_take_drop_id [of n "drop 12 p"] by (simp add: add.commute)
  finally show ?thesis .
qed

lemma length_tab: "record_ok r rest \<Longrightarrow> length (tab_payload r rest) = 12 + length (utf8_ints (snd (snd r))) + length rest"
  by (cases r) (simp add: record_ok_def tab_payload_def)

lemma utf8_ints_not_Nil: "utf8_ints url = [] \<longleftrightarrow> url = []"
  by (cases url) (simp_all add: utf8_ints_def)

lemma payload_found: "record_ok r rest \<Longrightarrow> payload_record (tab_payload r rest) = Inr (Some r)"
proof -
  assume ok: "record_ok r rest"
  obtain tab idx url where r: "r = (tab, idx, url)" by (cases r)
  let ?n = "length (utf8_ints url)" and ?p = "tab_payload r rest"
  have c: "length tab = 4" "0 \<le> idx" "idx \<le> MAX_NAVIGATION_INDEX" "encodable url" "printable_url url" "url \<noteq> []" "int ?n \<le> MAX_URL_BYTES"
    using ok by (auto simp: record_ok_def r)
  have p: "?p = tab @ pack_u32 idx @ pack_u32 (int ?n) @ bytes_of (utf8_ints url) @ rest" by (simp add: tab_payload_def r)
  have "unpack_u32 ?p 4 = idx" unfolding p c(1) [symmetric] by (rule unpack_pack_u32) (use c in \<open>simp_all add: MAX_NAVIGATION_INDEX_def\<close>)
  moreover have "unpack_u32 ?p 8 = int ?n"
    using unpack_pack_u32 [of "int ?n" "tab @ pack_u32 idx" "bytes_of (utf8_ints url) @ rest"] c by (simp add: p MAX_URL_BYTES_def)
  moreover have "take 4 ?p = tab" "take ?n (drop 12 ?p) = bytes_of (utf8_ints url)" "12 + ?n \<le> length ?p" by (simp_all add: p c)
  moreover have "0 < ?n" using c utf8_ints_not_Nil by simp
  ultimately show ?thesis
    using c utf8_strict_iff [of "bytes_of (utf8_ints url)" url] by (simp add: payload_record_def unpack_from_def r Suc_le_eq)
qed

lemma payload_is:
  assumes "payload_record p = Inr (Some r)" and "int (length p) \<le> MAX_RECORD_BYTES"
  shows "\<exists>rest. p = tab_payload r rest \<and> record_ok r rest"
proof -
  obtain tab idx url where r: "r = (tab, idx, url)" by (cases r)
  define n where "n = unpack_u32 p 8"
  have c: "12 \<le> length p" "idx = unpack_u32 p 4" "idx \<le> MAX_NAVIGATION_INDEX" "1 \<le> n" "n \<le> MAX_URL_BYTES" "12 + n \<le> int (length p)"
    "tab = take 4 p" "printable_url url" "utf8_decode Strict (take (nat n) (drop 12 p)) = Inr url"
    using assms(1) by (auto simp: payload_record_def unpack_from_def r n_def split: if_splits sum.splits)
  have raw: "encodable url" "take (nat n) (drop 12 p) = bytes_of (utf8_ints url)" using c(9) by (simp_all add: utf8_strict_iff)
  have len: "length (utf8_ints url) = nat n" using arg_cong [OF raw(2), of length] c(6) by simp
  have "12 + nat n \<le> length p" using c(4,6) by arith
  then have "p = tab @ pack_u32 idx @ pack_u32 n @ bytes_of (utf8_ints url) @ drop (12 + nat n) p"
    using payload_split [of "nat n" p] pack_unpack_u32 [of 4 p] pack_unpack_u32 [of 8 p] c raw(2) by (simp add: n_def)
  then have "p = tab_payload r (drop (12 + nat n) p)" using len c(4) by (simp add: tab_payload_def r)
  moreover have "record_ok r (drop (12 + nat n) p)"
    using c raw len assms(2) unpack_u32_bounds [of p 4] utf8_ints_not_Nil [of url] by (auto simp: record_ok_def r)
  ultimately show ?thesis by blast
qed

lemma record_at_iff:
  assumes "off + 13 \<le> length data"
  shows "record_at data off = Inr (Some r) \<longleftrightarrow> (\<exists>rest post. drop off data = record_bytes r rest @ post \<and> record_ok r rest)"
proof
  assume found: "record_at data off = Inr (Some r)"
  define size where "size = unpack_u32 data (off + 1)"
  have c: "data ! off = COMMAND_UPDATE_TAB_NAVIGATION" "13 \<le> size" "size \<le> MAX_RECORD_BYTES" "int off + 5 + size \<le> int (length data)"
    and p: "payload_record (take (nat size) (drop (off + 5) data)) = Inr (Some r)"
    using found assms by (auto simp: record_at_def unpack_from_def size_def split: if_splits)
  let ?p = "take (nat size) (drop (off + 5) data)"
  have len: "length ?p = nat size" using c(2,4) by (simp add: min_def) arith
  obtain rest where rest: "?p = tab_payload r rest" "record_ok r rest" using payload_is [OF p] len c(2,3) by auto
  have "drop off data = data ! off # drop (off + 1) data" using assms by (simp add: Cons_nth_drop_Suc)
  also have "drop (off + 1) data = take 4 (drop (off + 1) data) @ drop (off + 5) data"
    using append_take_drop_id [of 4 "drop (off + 1) data"] by (simp add: add.commute)
  also have "take 4 (drop (off + 1) data) = pack_u32 size" using pack_unpack_u32 [of "off + 1" data] assms by (simp add: size_def)
  also have "drop (off + 5) data = ?p @ drop (nat size) (drop (off + 5) data)" by (rule append_take_drop_id [symmetric])
  finally have d: "drop off data = data ! off # pack_u32 size @ ?p @ drop (nat size) (drop (off + 5) data)" by simp
  have "size = int (length (tab_payload r rest))" using len rest(1) c(2) by simp
  then have pk: "pack_u32 size = pack_u32 (int (length (tab_payload r rest)))" by simp
  have "drop off data = record_bytes r rest @ drop (nat size) (drop (off + 5) data)"
    using d unfolding pk rest(1) c(1) record_bytes_payload by simp
  then show "\<exists>rest post. drop off data = record_bytes r rest @ post \<and> record_ok r rest" using rest(2) by blast
next
  assume "\<exists>rest post. drop off data = record_bytes r rest @ post \<and> record_ok r rest"
  then obtain rest post where d: "drop off data = record_bytes r rest @ post" and ok: "record_ok r rest" by blast
  let ?p = "tab_payload r rest"
  have dd: "data = take off data @ record_bytes r rest @ post" using d by (metis append_take_drop_id)
  have off: "length (take off data) = off" using assms by simp
  have lp: "13 \<le> length ?p" "int (length ?p) \<le> MAX_RECORD_BYTES"
    using ok length_tab [OF ok] utf8_ints_not_Nil [of "snd (snd r)"] by (auto simp: record_ok_def Suc_le_eq split: prod.splits)
  have "unpack_u32 data (off + 1) = unpack_u32 (record_bytes r rest @ post) 1"
    using unpack_u32_append [of "take off data" "record_bytes r rest @ post" 1] dd off by simp
  also have "\<dots> = int (length ?p)"
    using unpack_pack_u32 [of "int (length ?p)" "[COMMAND_UPDATE_TAB_NAVIGATION]" "?p @ post"] lp by (simp add: record_bytes_payload MAX_RECORD_BYTES_def)
  finally have "unpack_u32 data (off + 1) = int (length ?p)" .
  moreover have "data ! off = COMMAND_UPDATE_TAB_NAVIGATION"
    using nth_append_length_plus [of "take off data" "record_bytes r rest @ post" 0] dd off by (simp add: record_bytes_payload)
  moreover have "take (length ?p) (drop (off + 5) data) = ?p"
  proof -
    have "drop (off + 5) data = drop 5 (drop off data)" by (simp add: add.commute)
    then show ?thesis by (simp add: d record_bytes_payload)
  qed
  moreover have "off + 5 + length ?p \<le> length data"
    using arg_cong [OF dd, of length] off by (simp add: record_bytes_payload)
  ultimately show "record_at data off = Inr (Some r)"
    using payload_found [OF ok] lp assms by (simp add: record_at_def unpack_from_def)
qed

text \<open>No read leaves its buffer.\<close>

lemma record_at_total: "off + 13 \<le> length data \<Longrightarrow> \<exists>r. record_at data off = Inr r"
  by (auto simp: record_at_def payload_record_def unpack_from_def)

lemma scan_records_set:
  "\<exists>rs. scan_records data off = Inr rs \<and> set rs = {r. \<exists>i \<ge> off. i + 13 \<le> length data \<and> record_at data i = Inr (Some r)}"
proof (induction data off rule: scan_records.induct)
  case (1 data off)
  show ?case
  proof (cases "off + 13 \<le> length data")
    case True
    obtain x where x: "record_at data off = Inr x" using record_at_total [OF True] by blast
    obtain rs where rs: "scan_records data (off + 1) = Inr rs"
      "set rs = {r. \<exists>i \<ge> off + 1. i + 13 \<le> length data \<and> record_at data i = Inr (Some r)}"
      using "1.IH" [OF True] by blast
    have "scan_records data off = Inr (case x of None \<Rightarrow> rs | Some y \<Rightarrow> y # rs)"
      using True x rs(1) by (subst scan_records.simps) simp
    moreover have "(i \<ge> off) = (i = off \<or> i \<ge> off + 1)" for i by auto
    ultimately show ?thesis using rs(2) x True by (cases x) auto
  qed (subst scan_records.simps, auto)
qed

definition session_header :: "bytes \<Rightarrow> bool" where
  "session_header data \<longleftrightarrow> 8 \<le> length data \<and> length data \<le> MAX_SESSION_BYTES \<and> take 4 data = MAGIC
     \<and> 1 \<le> unpack_i32 data 4 \<and> unpack_i32 data 4 \<le> 99"


section \<open>The latest address of each tab\<close>

lemma map_of_put_entry: "map_of (put_entry k v es) = (map_of es)(k \<mapsto> v)"
  by (induction es) (auto simp: fun_eq_iff)

lemma put_entry_keys: "map fst (put_entry k v es) = (if k \<in> set (map fst es) then map fst es else map fst es @ [k])"
  by (induction es) (auto simp: rev_image_eqI)

lemma put_entry_distinct: "distinct (map fst es) \<Longrightarrow> distinct (map fst (put_entry k v es))"
  by (simp only: put_entry_keys) simp

definition latest :: "nav_record list \<Rightarrow> bytes \<Rightarrow> pystr option" where
  "latest rs = map_of (rev (map (\<lambda>(tab, _, url). (tab, url)) rs))"

lemma fold_put_entry:
  "distinct (map fst es) \<Longrightarrow> distinct (map fst (fold (\<lambda>(tab, _, url). put_entry tab url) rs es))
     \<and> map_of (fold (\<lambda>(tab, _, url). put_entry tab url) rs es) = map_of es ++ latest rs"
proof (induction rs arbitrary: es)
  case (Cons r rs)
  obtain tab i url where r: "r = (tab, i, url)" by (cases r)
  have "(map_of es)(tab \<mapsto> url) ++ latest rs = map_of es ++ latest (r # rs)"
    by (simp add: r latest_def map_add_assoc)
  moreover have "map_of (put_entry tab url es) = (map_of es)(tab \<mapsto> url)" by (rule map_of_put_entry)
  moreover have "fold (\<lambda>(tab, _, url). put_entry tab url) (r # rs) es = fold (\<lambda>(tab, _, url). put_entry tab url) rs (put_entry tab url es)"
    by (simp add: r)
  ultimately show ?case using Cons.IH [OF put_entry_distinct [OF Cons.prems], of tab url] by metis
qed (simp add: latest_def)

lemma iter_records_total: "\<exists>rs. iter_navigation_records data = Inr rs"
proof -
  obtain rs where "scan_records data 8 = Inr rs" using scan_records_set [of data 8] by blast
  then show ?thesis by (simp add: iter_navigation_records_def unpack_from_def)
qed

lemma current_entries_latest:
  assumes "iter_navigation_records data = Inr rs"
  obtains es where "current_entries data = Inr es" "distinct (map fst es)" "map_of es = latest rs"
  using fold_put_entry [of "[]" rs] assms by (simp add: current_entries_def)

end
