(* ===== verification/Spacing.thy ===== *)
theory Spacing
  imports Complex_Main
begin

text \<open>
  Times at which a rate-limited loop acts: each at least a fixed gap after the one before. Shared by the two watchers.
\<close>

fun spaced :: "rat \<Rightarrow> rat \<Rightarrow> rat list \<Rightarrow> bool" where
  "spaced c since [] = True"
| "spaced c since (t # ts) = (since + c \<le> t \<and> spaced c t ts)"

lemma spaced_nth: "spaced c since ts \<Longrightarrow> i < length ts \<Longrightarrow> since + of_nat (Suc i) * c \<le> ts ! i"
proof (induction c since ts arbitrary: i rule: spaced.induct)
  case (2 c since t ts)
  then show ?case by (cases i) (fastforce simp: algebra_simps)+
qed simp

lemma spaced_drop: "spaced c since ts \<Longrightarrow> i < length ts \<Longrightarrow> spaced c (ts ! i) (drop (Suc i) ts)"
  by (induction c since ts arbitrary: i rule: spaced.induct) (auto simp: nth_Cons split: nat.splits)

lemma spaced_gap:
  assumes "spaced c since ts" and "i < j" and "j < length ts"
  shows "ts ! i + of_nat (j - i) * c \<le> ts ! j"
  using spaced_nth [OF spaced_drop [OF assms(1), of i], of "j - Suc i"] assms(2,3) by (simp add: Suc_diff_Suc)

lemma spaced_snoc: "spaced c since (ts @ [t]) \<longleftrightarrow> spaced c since ts \<and> (if ts = [] then since else last ts) + c \<le> t"
  by (induction c since ts rule: spaced.induct) auto

end
