(* ===== verification/Nav_Watch.thy ===== *)
theory Nav_Watch
  imports Nav_Session Py_Dyn Py_Web Kiosk_Signal Os_Model Spacing
begin

text \<open>
  \<open>usr/local/bin/sushida-navigation-watch\<close>: the settings, the choice of the newest session file, the classification
  of its addresses and the loop that restarts the kiosk. What the directory of session files answers at one poll is
  the record \<open>session_dir\<close>: every call has an answer of its own, so that the browser may change the files between
  two calls. The library's validation of a network location is the argument \<open>ok\<close>; the clock is rational.
\<close>

section \<open>Settings\<close>

record nav_config =
  sessions_dir :: pystr
  systemctl :: pystr
  cgroup_override :: "pystr option"
  poll_seconds :: pynum
  cooldown_seconds :: pynum
  max_iterations :: int

definition PROD_RUNTIME :: pystr where "PROD_RUNTIME = lit ''/run/sushida-os''"
definition PROD_SYSTEMCTL :: pystr where "PROD_SYSTEMCTL = lit ''/usr/bin/systemctl''"
definition SESSIONS_SUBDIR :: pystr where "SESSIONS_SUBDIR = lit ''chromium/Default/Sessions''"
definition DEFAULT_POLL_SECONDS :: pynum where "DEFAULT_POLL_SECONDS = Fin 2"
definition DEFAULT_COOLDOWN_SECONDS :: pynum where "DEFAULT_COOLDOWN_SECONDS = Fin 30"
definition MIN_POLL_SECONDS :: pynum where "MIN_POLL_SECONDS = dec64 5 (- 2)"
definition MAX_POLL_SECONDS :: pynum where "MAX_POLL_SECONDS = Fin 60"
definition MAX_COOLDOWN_SECONDS :: pynum where "MAX_COOLDOWN_SECONDS = Fin 600"

type_synonym environ = "pystr \<rightharpoonup> pystr"

definition nav_test_mode :: "environ \<Rightarrow> bool" where
  "nav_test_mode env \<longleftrightarrow> env (lit ''SUSHIDA_OS_TEST_MODE'') = Some (lit ''1'')"

definition nav_test_path :: "environ \<Rightarrow> string \<Rightarrow> pystr option res" where
  "nav_test_path env name =
     (case env (lit name) of
        None \<Rightarrow> Inr None
      | Some v \<Rightarrow>
          if \<not> nav_test_mode env then Inl SystemExit
          else if \<not> starts_with (lit ''/tmp/'') v then Inl SystemExit
          else Inr (Some v))"

definition bounded_float :: "environ \<Rightarrow> string \<Rightarrow> pynum \<Rightarrow> pynum \<Rightarrow> pynum \<Rightarrow> pynum res" where
  "bounded_float env name dflt minimum maximum =
     (case env (lit name) of
        None \<Rightarrow> Inr dflt
      | Some raw \<Rightarrow>
          if \<not> nav_test_mode env then Inl SystemExit
          else (case py_float raw of
                  Inl x \<Rightarrow> Inl SystemExit
                | Inr v \<Rightarrow> if num_le minimum v \<and> num_le v maximum then Inr v else Inl SystemExit))"

definition load_config :: "environ \<Rightarrow> nav_config res" where
  "load_config env =
     res_bind (nav_test_path env ''SUSHIDA_OS_RUNTIME'') (\<lambda>runtime.
     res_bind (nav_test_path env ''SUSHIDA_NAV_WATCH_SYSTEMCTL'') (\<lambda>sysctl.
     res_bind (nav_test_path env ''SUSHIDA_OS_TEST_CGROUP_FILE'') (\<lambda>cgroup.
       let raw = (case env (lit ''SUSHIDA_OS_MAX_ITERATIONS'') of None \<Rightarrow> lit ''0'' | Some v \<Rightarrow> v) in
       if raw \<noteq> lit ''0'' \<and> \<not> nav_test_mode env then Inl SystemExit
       else if \<not> py_isdigit raw then Inl SystemExit
       else
         res_bind (bounded_float env ''SUSHIDA_NAV_WATCH_POLL_SECONDS'' DEFAULT_POLL_SECONDS MIN_POLL_SECONDS MAX_POLL_SECONDS) (\<lambda>poll.
         res_bind (bounded_float env ''SUSHIDA_NAV_WATCH_COOLDOWN_SECONDS'' DEFAULT_COOLDOWN_SECONDS (Fin 0) MAX_COOLDOWN_SECONDS) (\<lambda>cooldown.
         res_bind (py_int raw) (\<lambda>n.
           Inr \<lparr>sessions_dir = path_join (case runtime of Some v \<Rightarrow> path_norm v | None \<Rightarrow> PROD_RUNTIME) SESSIONS_SUBDIR,
                systemctl = (case sysctl of Some v \<Rightarrow> v | None \<Rightarrow> PROD_SYSTEMCTL),
                cgroup_override = map_option path_norm cgroup,
                poll_seconds = poll, cooldown_seconds = cooldown, max_iterations = n\<rparr>))))))"

section \<open>Classification of addresses\<close>

datatype nav_verdict = Blocked | Allowed | Unknown

definition classify_http :: "split_result \<Rightarrow> nav_verdict" where
  "classify_http parts =
     (case sr_port parts of
        Inl x \<Rightarrow> Unknown
      | Inr port \<Rightarrow>
          (case sr_hostname parts of
             None \<Rightarrow> Unknown
           | Some host \<Rightarrow>
               if sr_scheme parts = lit ''https'' then
                 (if host = lit ''sushida.net'' \<and> (port = None \<or> port = Some 443) then Allowed else Blocked)
               else if host = lit ''127.0.0.1'' \<and> port = Some 8787 then Allowed else Blocked))"

definition classify_url :: "(pystr \<Rightarrow> bool) \<Rightarrow> pystr \<Rightarrow> nav_verdict" where
  "classify_url ok url =
     (if url = [] \<or> MAX_URL_BYTES < int (length url) then Unknown
      else if starts_with (lit ''about:'') url then Unknown
      else case urlsplit ok url of
        Inl x \<Rightarrow> Unknown
      | Inr parts \<Rightarrow>
          let scheme = sr_scheme parts in
          if scheme = lit ''http'' \<or> scheme = lit ''https'' then classify_http parts
          else if scheme = lit ''file'' then
            (if (sr_netloc parts = [] \<or> sr_netloc parts = lit ''localhost'') \<and> sr_path parts = lit ''/usr/share/sushida-os/offline.html''
             then Allowed else Blocked)
          else if scheme \<in> set (map lit [''chrome-error'', ''chrome'', ''view-source'', ''javascript'', ''data'']) then Blocked
          else if scheme = [] then Unknown
          else Blocked)"

text \<open>The verdicts in the order in which they override each other.\<close>

fun rank :: "nav_verdict \<Rightarrow> nat" where
  "rank Unknown = 0"
| "rank Allowed = 1"
| "rank Blocked = 2"

instantiation nav_verdict :: linorder
begin

definition less_eq_nav_verdict :: "nav_verdict \<Rightarrow> nav_verdict \<Rightarrow> bool" where
  "less_eq_nav_verdict a b \<longleftrightarrow> rank a \<le> rank b"

definition less_nav_verdict :: "nav_verdict \<Rightarrow> nav_verdict \<Rightarrow> bool" where
  "less_nav_verdict a b \<longleftrightarrow> rank a < rank b"

instance
proof
  fix a b :: nav_verdict
  show "a = b" if "a \<le> b" "b \<le> a" using that by (cases a; cases b) (simp_all add: less_eq_nav_verdict_def)
qed (auto simp: less_eq_nav_verdict_def less_nav_verdict_def)

end

section \<open>The newest session file\<close>

record session_dir =
  sd_list :: "pystr list res"
  sd_lstat :: "pystr \<Rightarrow> int res"
  sd_mtime :: "pystr \<Rightarrow> int res"
  sd_size :: "pystr \<Rightarrow> int res"
  sd_read :: "pystr \<Rightarrow> bytes res"

definition MAX_CANDIDATE_FILES :: nat where "MAX_CANDIDATE_FILES = 64"

definition stat_is_regular_file :: "int \<Rightarrow> bool" where
  "stat_is_regular_file mode \<longleftrightarrow> and mode 0xF000 = 0x8000"

fun candidates_from :: "session_dir \<Rightarrow> pystr list \<Rightarrow> pystr list \<Rightarrow> pystr list res" where
  "candidates_from d acc [] = Inr acc"
| "candidates_from d acc (name # names) =
     (if \<not> (starts_with (lit ''Session_'') name \<or> starts_with (lit ''Tabs_'') name) then candidates_from d acc names
      else case sd_lstat d name of
        Inl x \<Rightarrow> if is_OSError x then candidates_from d acc names else Inl x
      | Inr mode \<Rightarrow>
          if \<not> stat_is_regular_file mode then candidates_from d acc names
          else if MAX_CANDIDATE_FILES \<le> length (acc @ [name]) then Inr (acc @ [name])
          else candidates_from d (acc @ [name]) names)"

definition session_candidates :: "session_dir \<Rightarrow> pystr list res" where
  "session_candidates d =
     (case sd_list d of
        Inl x \<Rightarrow> if is_OSError x then Inr [] else Inl x
      | Inr names \<Rightarrow> candidates_from d [] names)"

text \<open>\<open>max\<close> keeps the first of the greatest keys.\<close>

definition key_less :: "int \<times> pystr \<Rightarrow> int \<times> pystr \<Rightarrow> bool" where
  "key_less a b \<longleftrightarrow> fst a < fst b \<or> fst a = fst b \<and> snd a < snd b"

fun newest_from :: "session_dir \<Rightarrow> (int \<times> pystr) \<Rightarrow> pystr list \<Rightarrow> (int \<times> pystr) res" where
  "newest_from d best [] = Inr best"
| "newest_from d best (name # names) =
     res_bind (sd_mtime d name) (\<lambda>t. newest_from d (if key_less best (t, name) then (t, name) else best) names)"

fun newest_file :: "session_dir \<Rightarrow> pystr list \<Rightarrow> pystr res" where
  "newest_file d [] = Inl ValueError"
| "newest_file d (name # names) =
     res_bind (sd_mtime d name) (\<lambda>t. res_bind (newest_from d (t, name) names) (\<lambda>b. Inr (snd b)))"

text \<open>\<open>except OSError: return "unknown"\<close>\<close>

definition unknown_on_os :: "nav_verdict res \<Rightarrow> nav_verdict res" where
  "unknown_on_os r = (case r of Inl x \<Rightarrow> if is_OSError x then Inr Unknown else Inl x | Inr v \<Rightarrow> Inr v)"

fun worst :: "nav_verdict \<Rightarrow> nav_verdict list \<Rightarrow> nav_verdict" where
  "worst state [] = state"
| "worst state (v # vs) = (case v of Blocked \<Rightarrow> Blocked | Allowed \<Rightarrow> worst Allowed vs | Unknown \<Rightarrow> worst state vs)"

definition assess_data :: "(pystr \<Rightarrow> bool) \<Rightarrow> bytes \<Rightarrow> nav_verdict" where
  "assess_data ok data =
     (case current_entries data of
        Inl _ \<Rightarrow> Unknown
      | Inr es \<Rightarrow> worst Unknown (map (\<lambda>e. classify_url ok (snd e)) es))"

definition assess_sessions :: "(pystr \<Rightarrow> bool) \<Rightarrow> session_dir \<Rightarrow> nav_verdict res" where
  "assess_sessions ok d =
     res_bind (session_candidates d) (\<lambda>cs.
       if cs = [] then Inr Unknown
       else unknown_on_os (res_bind (newest_file d cs) (\<lambda>newest.
         res_bind (sd_size d newest) (\<lambda>size.
           if int MAX_SESSION_BYTES < size then Inr Unknown
           else res_bind (sd_read d newest) (\<lambda>data. Inr (assess_data ok data))))))"

section \<open>The loop\<close>

text \<open>What the surroundings give to one turn of the loop, and what the program leaves.\<close>

record poll =
  po_dir :: session_dir
  po_now :: rat
  po_machine :: machine

datatype nav_event = Stage string | Signal int int

datatype nav_end = Returned int | Raised exn | Waiting

definition cooled_down :: "nav_config \<Rightarrow> rat \<Rightarrow> bool" where
  "cooled_down cfg elapsed \<longleftrightarrow> num_le (cooldown_seconds cfg) (Fin elapsed)"

text \<open>
  The loop over the given polls: how it ends (\<open>Waiting\<close>: it sleeps for the next one) and the events of each turn.
\<close>

fun nav_loop :: "(pystr \<Rightarrow> bool) \<Rightarrow> nav_config \<Rightarrow> poll list \<Rightarrow> int \<Rightarrow> rat \<Rightarrow> nav_end \<times> (rat \<times> nav_event) list" where
  "nav_loop ok cfg polls iteration last_term =
     (if max_iterations cfg \<noteq> 0 \<and> max_iterations cfg \<le> iteration then (Returned 0, [])
      else case polls of
        [] \<Rightarrow> (Waiting, [])
      | p # ps \<Rightarrow>
          (case assess_sessions ok (po_dir p) of
             Inl x \<Rightarrow> (Raised x, [])
           | Inr state \<Rightarrow>
               if state = Blocked \<and> cooled_down cfg (po_now p - last_term) then
                 (case restart_kiosk (po_machine p) (systemctl cfg) (cgroup_override cfg) of (done, sigs) \<Rightarrow>
                    let evs = (po_now p, Stage ''blocked-page'') # map (\<lambda>(pid, sig). (po_now p, Signal pid sig)) sigs in
                    (case done of
                       Inl x \<Rightarrow> (Raised x, evs)
                     | Inr b \<Rightarrow>
                         (case nav_loop ok cfg ps (iteration + 1) (po_now p) of (outcome, rest) \<Rightarrow>
                            (outcome, evs @ (po_now p, Stage (if b then ''kiosk-term'' else ''kiosk-term-unavailable'')) # rest))))
               else nav_loop ok cfg ps (iteration + 1) last_term))"

declare nav_loop.simps [simp del]

text \<open>
  \<open>main\<close>: \<open>last_term\<close> starts at 0, the origin of the monotonic clock. Each event carries the time that its turn read;
  the first carries 0.
\<close>

definition nav_main :: "(pystr \<Rightarrow> bool) \<Rightarrow> environ \<Rightarrow> poll list \<Rightarrow> (nav_end \<times> (rat \<times> nav_event) list) res" where
  "nav_main ok env polls =
     res_bind (load_config env) (\<lambda>cfg. case nav_loop ok cfg polls 0 0 of (outcome, evs) \<Rightarrow> Inr (outcome, (0, Stage ''start'') # evs))"

section \<open>Addresses of the allowed origin\<close>

definition host_char :: "codepoint \<Rightarrow> bool" where
  "host_char c \<longleftrightarrow> 48 \<le> c \<and> c \<le> 57 \<or> 65 \<le> c \<and> c \<le> 90 \<or> 97 \<le> c \<and> c \<le> 122 \<or> c = 45 \<or> c = 46"

definition user_char :: "codepoint \<Rightarrow> bool" where
  "user_char c \<longleftrightarrow> 0 \<le> c \<and> c < 128 \<and> c \<notin> {9, 10, 13, 35, 47, 63, 91, 93}"

lemma host_user: "host_char c \<Longrightarrow> user_char c"
  unfolding host_char_def user_char_def by (elim disjE conjE) simp_all

lemma https_text: "lit ''https://'' = [104, 116, 116, 112, 115] @ 58 # [47, 47]" "lit ''https'' = [104, 116, 116, 112, 115]"
  by (simp_all add: lit_def)

lemma partition_none: "c \<notin> set s \<Longrightarrow> partition_at c s = (s, False, [])"
  by (induction s) (auto simp: partition_at_def)

lemma urlsplit_https:
  assumes "list_all user_char n" and "rest = [] \<or> hd rest \<in> {47, 63, 35}"
  shows "\<exists>parts. urlsplit ok (lit ''https://'' @ n @ rest) = Inr parts \<and> sr_scheme parts = lit ''https'' \<and> sr_netloc parts = n"
proof -
  let ?keep = "\<lambda>c :: codepoint. c \<notin> {9, 10, 13}" and ?name = "\<lambda>c :: codepoint. c \<notin> {47, 63, 35}"
  let ?rest = "filter ?keep rest"
  have n: "\<forall>c \<in> set n. 0 \<le> c \<and> c < 128 \<and> ?keep c \<and> ?name c \<and> c \<noteq> 91 \<and> c \<noteq> 93"
    using assms(1) by (auto simp: list_all_iff user_char_def)
  have "filter ?keep (dropWhile (\<lambda>c. 0 \<le> c \<and> c \<le> 32) (lit ''https://'' @ n @ rest)) = [104, 116, 116, 112, 115] @ 58 # ([47, 47] @ n @ ?rest)"
    using n by (simp add: https_text filter_id_conv)
  moreover have "split_scheme ([104, 116, 116, 112, 115] @ 58 # ([47, 47] @ n @ ?rest)) = (lit ''https'', [47, 47] @ n @ ?rest)"
    unfolding split_scheme_def by (subst partition_at_append) (simp_all add: ascii_alpha_def scheme_char_def ascii_lower_def https_text)
  moreover have "split_netloc ([47, 47] @ n @ ?rest) = (n, ?rest)"
  proof -
    have r: "?rest = [] \<or> \<not> ?name (hd ?rest)" using assms(2) by (cases rest) auto
    have "takeWhile ?name (n @ ?rest) = n @ takeWhile ?name ?rest" "dropWhile ?name (n @ ?rest) = dropWhile ?name ?rest"
      using n by (auto intro!: takeWhile_append2 dropWhile_append2)
    moreover have "takeWhile ?name ?rest = []" "dropWhile ?name ?rest = ?rest" using r by (simp_all add: takeWhile_eq_Nil_iff dropWhile_eq_self_iff)
    ultimately show ?thesis by (simp add: split_netloc_def)
  qed
  moreover have "netloc_ok ok n" using n by (auto simp: netloc_ok_def py_isascii_def list_all_iff)
  ultimately show ?thesis by (simp add: urlsplit_def Let_def split_def)
qed

lemma hostinfo_plain:
  assumes "u = [] \<or> last u = 64" and "list_all host_char h"
  shows "hostinfo (u @ h) = (h, [])"
proof -
  have h: "\<forall>c \<in> set h. c \<noteq> 64 \<and> c \<noteq> 91 \<and> c \<noteq> 58" using assms(2) by (auto simp: list_all_iff host_char_def)
  have "takeWhile (\<lambda>c. c \<noteq> 64) (rev (u @ h)) = rev h @ takeWhile (\<lambda>c. c \<noteq> 64) (rev u)"
    using h takeWhile_append2 [of "rev h" "\<lambda>c. c \<noteq> 64" "rev u"] by simp
  moreover have "takeWhile (\<lambda>c. c \<noteq> 64) (rev u) = []" using assms(1) by (cases u rule: rev_cases) auto
  ultimately have "rev (takeWhile (\<lambda>c. c \<noteq> 64) (rev (u @ h))) = h" by simp
  moreover have "partition_at 91 h = (h, False, [])" "partition_at 58 h = (h, False, [])" using h by (auto intro: partition_none)
  ultimately show ?thesis by (simp add: hostinfo_def)
qed

text \<open>
  C28. An address of the form \<open>https://[user@]host[rest]\<close>, with a plain host name and whatever path, query and fragment,
  is allowed when the host is \<open>sushida.net\<close> in any case and blocked otherwise; what stands before the last \<open>@\<close> has no
  influence. So no page of the game can be taken for a blocked one, and no other host for the game.
\<close>

theorem classify_https_host:
  assumes "list_all user_char u" and "u = [] \<or> last u = 64" and "list_all host_char h" and "h \<noteq> []"
    and "rest = [] \<or> hd rest \<in> {47, 63, 35}" and "length (lit ''https://'' @ u @ h @ rest) \<le> 2048"
  shows "classify_url ok (lit ''https://'' @ u @ h @ rest) = (if map lower_ascii h = lit ''sushida.net'' then Allowed else Blocked)"
proof -
  have "list_all user_char (u @ h)" using assms(1) list.pred_mono_strong [OF assms(3) host_user] by simp
  then obtain parts where parts: "urlsplit ok (lit ''https://'' @ u @ h @ rest) = Inr parts" "sr_scheme parts = lit ''https''" "sr_netloc parts = u @ h"
    using urlsplit_https [of "u @ h" rest ok] assms(5) by auto
  have "37 \<notin> set h" using assms(3) by (auto simp: list_all_iff host_char_def)
  then have "sr_hostname parts = Some (map lower_ascii h)" "sr_port parts = Inr None"
    using hostinfo_plain [OF assms(2,3)] assms(4) by (simp_all add: sr_hostname_def sr_port_def parts(3) partition_none Let_def)
  then have "classify_http parts = (if map lower_ascii h = lit ''sushida.net'' then Allowed else Blocked)"
    by (simp add: classify_http_def parts(2))
  moreover have "\<not> starts_with (lit ''about:'') (lit ''https://'' @ u @ h @ rest)" "lit ''https://'' @ u @ h @ rest \<noteq> []"
    by (simp_all add: https_text starts_with_def lit_def)
  moreover have "\<not> MAX_URL_BYTES < int (length (lit ''https://'' @ u @ h @ rest))" using assms(6) unfolding MAX_URL_BYTES_def by linarith
  ultimately show ?thesis unfolding classify_url_def Let_def using parts(1,2) by simp
qed

theorem classify_https_host_witness:
  "classify_url (\<lambda>_. True) (lit ''https://sushida.net@Example.org/play'') = Blocked
   \<and> classify_url (\<lambda>_. True) (lit ''https://Sushida.net/play.html?x=1'') = Allowed"
proof
  show "classify_url (\<lambda>_. True) (lit ''https://sushida.net@Example.org/play'') = Blocked"
    using classify_https_host [of "lit ''sushida.net@''" "lit ''Example.org''" "lit ''/play''" "\<lambda>_. True"]
    by (simp add: lit_def user_char_def host_char_def lower_ascii_def)
  show "classify_url (\<lambda>_. True) (lit ''https://Sushida.net/play.html?x=1'') = Allowed"
    using classify_https_host [of "[]" "lit ''Sushida.net''" "lit ''/play.html?x=1''" "\<lambda>_. True"]
    by (simp add: lit_def user_char_def host_char_def lower_ascii_def)
qed

section \<open>A restart is justified\<close>

definition session_name :: "session_dir \<Rightarrow> pystr list \<Rightarrow> pystr \<Rightarrow> bool" where
  "session_name d names name \<longleftrightarrow> name \<in> set names \<and> (starts_with (lit ''Session_'') name \<or> starts_with (lit ''Tabs_'') name)
     \<and> (\<exists>mode. sd_lstat d name = Inr mode \<and> stat_is_regular_file mode)"

lemma candidates_from_mem:
  "candidates_from d acc names = Inr cs \<Longrightarrow> c \<in> set cs \<Longrightarrow> c \<in> set acc \<or> session_name d names c"
proof (induction d acc names arbitrary: cs rule: candidates_from.induct)
  case (2 d acc name names)
  then show ?case by (auto simp: session_name_def split: if_splits sum.splits) metis+
qed simp

lemma newest_from_mem: "newest_from d best names = Inr b \<Longrightarrow> snd b \<in> insert (snd best) (set names)"
  by (induction names arbitrary: best) (fastforce simp: res_bind_Inr_conv split: if_splits)+

lemma newest_file_mem: "newest_file d cs = Inr n \<Longrightarrow> n \<in> set cs"
  by (cases cs) (auto simp: res_bind_Inr_conv dest: newest_from_mem)

text \<open>The loop over the addresses computes the greatest verdict.\<close>

lemma worst_Max: "state \<noteq> Blocked \<Longrightarrow> worst state vs = Max (insert state (set vs))"
proof (induction vs arbitrary: state)
  case (Cons v vs)
  have top: "x \<le> Blocked" and bot: "Unknown \<le> x" for x by (cases x; simp add: less_eq_nav_verdict_def)+
  have "state \<le> Allowed" using Cons.prems by (cases state) (simp_all add: less_eq_nav_verdict_def)
  show ?case
  proof (cases v)
    case Blocked
    have "Max (insert state (set (v # vs))) = Blocked" using Blocked top by (intro Max_eqI) auto
    then show ?thesis using Blocked by simp
  next
    case Allowed
    have "Max (insert state (set (v # vs))) = max state (Max (insert Allowed (set vs)))" using Max_insert [of "set (v # vs)" state] Allowed by simp
    moreover have "state \<le> Max (insert Allowed (set vs))" using \<open>state \<le> Allowed\<close> by (rule order_trans) simp
    ultimately show ?thesis using Allowed Cons.IH [of Allowed] by (simp add: max_absorb2)
  next
    case Unknown
    have "Max (insert state (set (v # vs))) = Max (insert Unknown (insert state (set vs)))" using Unknown by (simp add: insert_commute)
    also have "\<dots> = max Unknown (Max (insert state (set vs)))" by (rule Max_insert) simp_all
    also have "\<dots> = Max (insert state (set vs))" using bot by (simp add: max_absorb2)
    finally show ?thesis using Unknown Cons by simp
  qed
qed simp

lemma worst_Blocked: "state \<noteq> Blocked \<Longrightarrow> worst state vs = Blocked \<longleftrightarrow> Blocked \<in> set vs"
proof -
  assume state: "state \<noteq> Blocked"
  have top: "x \<le> Blocked" for x by (cases x) (simp_all add: less_eq_nav_verdict_def)
  show ?thesis unfolding worst_Max [OF state]
  proof
    show "Blocked \<in> set vs" if "Max (insert state (set vs)) = Blocked"
      using Max_in [of "insert state (set vs)"] that state by auto
    show "Max (insert state (set vs)) = Blocked" if "Blocked \<in> set vs" using that top by (intro Max_eqI) auto
  qed
qed

text \<open>A session file whose latest address of some tab is blocked.\<close>

definition shows_blocked :: "(pystr \<Rightarrow> bool) \<Rightarrow> bytes \<Rightarrow> bool" where
  "shows_blocked ok data \<longleftrightarrow> (\<exists>rs tab url. iter_navigation_records data = Inr rs \<and> latest rs tab = Some url \<and> classify_url ok url = Blocked)"

lemma assess_data_Blocked: "assess_data ok data = Blocked \<longleftrightarrow> shows_blocked ok data"
proof -
  obtain rs where rs: "iter_navigation_records data = Inr rs" using iter_records_total by blast
  obtain es where es: "current_entries data = Inr es" "distinct (map fst es)" "map_of es = latest rs"
    by (rule current_entries_latest [OF rs])
  have "assess_data ok data = Blocked \<longleftrightarrow> (\<exists>tab url. (tab, url) \<in> set es \<and> classify_url ok url = Blocked)"
    by (force simp: assess_data_def es(1) worst_Blocked)
  also have "\<dots> \<longleftrightarrow> (\<exists>tab url. latest rs tab = Some url \<and> classify_url ok url = Blocked)"
    using es(2,3) by (metis map_of_eq_Some_iff)
  finally show ?thesis by (simp add: shows_blocked_def rs)
qed

lemma assess_blocked:
  assumes "assess_sessions ok d = Inr Blocked"
  shows "\<exists>names name data. sd_list d = Inr names \<and> session_name d names name \<and> sd_read d name = Inr data \<and> shows_blocked ok data"
proof -
  obtain cs where cs: "session_candidates d = Inr cs"
    and v: "unknown_on_os (res_bind (newest_file d cs) (\<lambda>newest. res_bind (sd_size d newest) (\<lambda>size.
         if int MAX_SESSION_BYTES < size then Inr Unknown else res_bind (sd_read d newest) (\<lambda>data. Inr (assess_data ok data))))) = Inr Blocked"
    and ne: "cs \<noteq> []"
    using assms by (auto simp: assess_sessions_def res_bind_Inr_conv split: if_splits)
  obtain name data where n: "newest_file d cs = Inr name" "sd_read d name = Inr data" "assess_data ok data = Blocked"
    using v by (auto simp: unknown_on_os_def res_bind_Inr_conv split: if_splits sum.splits)
  obtain names where "sd_list d = Inr names" "candidates_from d [] names = Inr cs"
    using cs ne by (auto simp: session_candidates_def split: sum.splits if_splits)
  moreover have "session_name d names name" using calculation(2) newest_file_mem [OF n(1)] candidates_from_mem by fastforce
  ultimately show ?thesis using n assess_data_Blocked by blast
qed

lemma restart_signals: "restart_kiosk mc sysctl override = (r, sent) \<Longrightarrow> (pid, sig) \<in> set sent \<Longrightarrow> sig = SIGTERM \<and> 1 < pid"
  by (auto simp: restart_kiosk_def Let_def split: sum.splits option.splits prod.splits if_splits bool.splits)

lemma nav_main_run:
  assumes "nav_main ok env polls = Inr (outcome, evs)"
  obtains cfg where "load_config env = Inr cfg" "evs = (0, Stage ''start'') # snd (nav_loop ok cfg polls 0 0)"
proof -
  obtain cfg where "load_config env = Inr cfg" using assms by (auto simp: nav_main_def res_bind_Inr_conv)
  moreover have "evs = (0, Stage ''start'') # snd (nav_loop ok cfg polls 0 0)"
    using assms calculation by (cases "nav_loop ok cfg polls 0 0") (simp add: nav_main_def)
  ultimately show ?thesis by (rule that)
qed

lemma nav_loop_events:
  assumes "(t, e) \<in> set (snd (nav_loop ok cfg polls n since))"
  shows "\<exists>p \<in> set polls. po_now p = t \<and> assess_sessions ok (po_dir p) = Inr Blocked
    \<and> (\<forall>pid sig. e = Signal pid sig \<longrightarrow> (pid, sig) \<in> set (snd (restart_kiosk (po_machine p) (systemctl cfg) (cgroup_override cfg))))"
  using assms
proof (induction polls arbitrary: n since)
  case Nil
  then show ?case by (simp add: nav_loop.simps split: if_splits)
next
  case (Cons p ps)
  let ?out = "nav_loop ok cfg ps (n + 1)" and ?k = "restart_kiosk (po_machine p) (systemctl cfg) (cgroup_override cfg)"
  consider (here) "assess_sessions ok (po_dir p) = Inr Blocked" "po_now p = t" "\<forall>pid sig. e = Signal pid sig \<longrightarrow> (pid, sig) \<in> set (snd ?k)"
    | (later) since' where "(t, e) \<in> set (snd (?out since'))"
  proof (cases "assess_sessions ok (po_dir p) = Inr Blocked \<and> cooled_down cfg (po_now p - since)")
    case True
    obtain r sigs where k: "?k = (r, sigs)" by (cases ?k)
    obtain o' rest where out: "?out (po_now p) = (o', rest)" by (cases "?out (po_now p)")
    have "(t, e) \<in> set ((po_now p, Stage ''blocked-page'') # map (\<lambda>(pid, sig). (po_now p, Signal pid sig)) sigs)
        \<or> (\<exists>b. (t, e) = (po_now p, Stage b)) \<or> (t, e) \<in> set rest"
      using Cons.prems True by (subst (asm) nav_loop.simps) (auto simp: k out Let_def split: if_splits sum.splits)
    then show ?thesis using True k out that(1) that(2) [of "po_now p"] by (auto split: prod.splits)
  next
    case False
    then have "(t, e) \<in> set (snd (?out since))"
      using Cons.prems by (subst (asm) nav_loop.simps) (auto split: if_splits sum.splits)
    then show ?thesis by (rule that(2))
  qed
  then show ?case
  proof cases
    case here
    then show ?thesis by auto
  next
    case later
    then show ?thesis using Cons.IH by (meson list.set_intros(2))
  qed
qed

text \<open>
  C27. The watcher signals a process only for a blocked page: at the time of the signal a regular session file of the
  profile directory, whose content was read, shows for some tab a latest address that is blocked. The signal is the
  validated restart of the kiosk, \<open>SIGTERM\<close> to a process number above 1.
\<close>

theorem nav_signal_justified:
  assumes "nav_main ok env polls = Inr (outcome, evs)" and "(t, Signal pid sig) \<in> set evs"
  shows "\<exists>p \<in> set polls. \<exists>names name data. po_now p = t \<and> sd_list (po_dir p) = Inr names \<and> session_name (po_dir p) names name
    \<and> sd_read (po_dir p) name = Inr data \<and> shows_blocked ok data \<and> sig = SIGTERM \<and> 1 < pid"
proof -
  obtain cfg where "load_config env = Inr cfg" and evs: "evs = (0, Stage ''start'') # snd (nav_loop ok cfg polls 0 0)"
    by (rule nav_main_run [OF assms(1)])
  have mem: "(t, Signal pid sig) \<in> set (snd (nav_loop ok cfg polls 0 0))" using assms(2) by (simp add: evs)
  obtain p where p: "p \<in> set polls" "po_now p = t" "assess_sessions ok (po_dir p) = Inr Blocked"
    and sent: "(pid, sig) \<in> set (snd (restart_kiosk (po_machine p) (systemctl cfg) (cgroup_override cfg)))"
    using nav_loop_events [OF mem] by blast
  have "sig = SIGTERM \<and> 1 < pid" using restart_signals sent by (metis prod.collapse)
  then show ?thesis using p assess_blocked [OF p(3)] by blast
qed

section \<open>Restarts are spaced\<close>

definition restarts :: "(rat \<times> nav_event) list \<Rightarrow> rat list" where
  "restarts evs = map fst (filter (\<lambda>e. snd e = Stage ''blocked-page'') evs)"

lemma nav_loop_spaced:
  assumes "cooldown_seconds cfg = Fin c"
  shows "spaced c since (restarts (snd (nav_loop ok cfg polls n since)))"
proof (induction polls arbitrary: n since)
  case Nil
  then show ?case by (subst nav_loop.simps) (simp add: restarts_def)
next
  case (Cons p ps)
  let ?k = "restart_kiosk (po_machine p) (systemctl cfg) (cgroup_override cfg)"
  obtain r sigs where k: "?k = (r, sigs)" by (cases ?k)
  have none: "filter (\<lambda>e. snd e = Stage ''blocked-page'') (map (\<lambda>(pid, sig). (t, Signal pid sig)) sigs) = []" for t
    by (induction sigs) auto
  have cool: "cooled_down cfg d \<longleftrightarrow> c \<le> d" for d using assms by (auto simp: cooled_down_def num_le_def)
  obtain o' rest where out: "nav_loop ok cfg ps (n + 1) (po_now p) = (o', rest)" by (cases "nav_loop ok cfg ps (n + 1) (po_now p)")
  then have "spaced c (po_now p) (restarts rest)" using Cons.IH [of "po_now p" "n + 1"] by simp
  then show ?case
    using Cons.IH by (subst nav_loop.simps) (auto simp: Let_def k out none cool restarts_def split: sum.splits)
qed

definition production_config :: nav_config where
  "production_config = \<lparr>sessions_dir = lit ''/run/sushida-os/chromium/Default/Sessions'', systemctl = lit ''/usr/bin/systemctl'',
     cgroup_override = None, poll_seconds = Fin 2, cooldown_seconds = Fin 30, max_iterations = 0\<rparr>"

text \<open>Without the test mode the settings are the fixed ones.\<close>

lemma load_config_production:
  assumes "\<not> nav_test_mode env" and "load_config env = Inr cfg"
  shows "cfg = production_config"
proof -
  have none: "x = None" if "nav_test_path env name = Inr x" for name x
    using that assms(1) by (auto simp: nav_test_path_def split: option.splits)
  have dflt: "x = d" if "bounded_float env name d lo hi = Inr x" for name d lo hi x
    using that assms(1) by (auto simp: bounded_float_def split: option.splits)
  have zero: "py_int [48] = Inr 0" by code_simp
  show ?thesis
    using assms by (auto simp: load_config_def res_bind_Inr_conv Let_def production_config_def zero path_join_def lit_def PROD_RUNTIME_def
        PROD_SYSTEMCTL_def SESSIONS_SUBDIR_def DEFAULT_POLL_SECONDS_def DEFAULT_COOLDOWN_SECONDS_def dest!: none dflt split: if_splits option.splits)
qed

text \<open>
  C29. In production the watcher cannot be made to restart the kiosk in a loop: whatever the session files show, two
  attempts of one run are at least thirty seconds of the monotonic clock apart, so that \<open>n\<close> attempts take at least
  \<open>30 n\<close> seconds from the clock's origin. Settings from the environment have no effect outside the test mode.
\<close>

theorem nav_restart_spacing:
  assumes "\<not> nav_test_mode env" and "nav_main ok env polls = Inr (outcome, evs)" and "i < j" and "j < length (restarts evs)"
  shows "load_config env = Inr production_config
    \<and> restarts evs ! i + 30 * of_nat (j - i) \<le> restarts evs ! j \<and> 30 * of_nat (Suc i) \<le> restarts evs ! i"
proof -
  obtain cfg where cfg: "load_config env = Inr cfg" and evs: "evs = (0, Stage ''start'') # snd (nav_loop ok cfg polls 0 0)"
    by (rule nav_main_run [OF assms(2)])
  have prod: "cfg = production_config" by (rule load_config_production [OF assms(1) cfg])
  have "spaced 30 0 (restarts (snd (nav_loop ok cfg polls 0 0)))"
    by (rule nav_loop_spaced) (simp add: prod production_config_def)
  then have sp: "spaced 30 0 (restarts evs)" by (simp add: evs restarts_def)
  show ?thesis using spaced_gap [OF sp assms(3,4)] spaced_nth [OF sp, of i] assms(3,4) cfg prod by (simp add: mult.commute)
qed

section \<open>A run\<close>

definition sample_session :: bytes where
  "sample_session = MAGIC @ pack_u32 3 @ record_bytes ([0, 0, 0, 1], 0, lit ''http://a'') [0]"

definition sample_poll :: "rat \<Rightarrow> poll" where
  "sample_poll t = \<lparr>
     po_dir = \<lparr>sd_list = Inr [lit ''LOCK'', lit ''Session_1''], sd_lstat = (\<lambda>_. Inr 0x8180), sd_mtime = (\<lambda>_. Inr 7),
               sd_size = (\<lambda>_. Inr 34), sd_read = (\<lambda>_. Inr sample_session)\<rparr>,
     po_now = t, po_machine = sample_machine (lit ''812'')\<rparr>"

lemma sample_session_bytes:
  "sample_session = [83, 78, 83, 83, 3, 0, 0, 0, 6, 21, 0, 0, 0, 0, 0, 0, 1, 0, 0, 0, 0, 8, 0, 0, 0, 104, 116, 116, 112, 58, 47, 47, 97, 0]"
  by code_simp

lemma sample_scan: "scan_records sample_session 8 = Inr [([0, 0, 0, 1], 0, lit ''http://a'')]"
proof -
  have "record_at sample_session 8 = Inr (Some ([0, 0, 0, 1], 0, lit ''http://a''))" by code_simp
  moreover have "scan_records sample_session 9 = Inr []"
    unfolding sample_session_bytes by (simp add: scan_records.simps record_at_def COMMAND_UPDATE_TAB_NAVIGATION_def)
  ultimately show ?thesis by (subst scan_records.simps) (simp add: sample_session_bytes)
qed

lemma sample_assess_data: "assess_data (\<lambda>_. True) sample_session = Blocked"
proof -
  have "take 4 sample_session = MAGIC" "length sample_session = 34" "unpack_i32 sample_session 4 = 3" by code_simp+
  then have "current_entries sample_session = Inr [([0, 0, 0, 1], lit ''http://a'')]"
    by (simp add: current_entries_def iter_navigation_records_def unpack_from_def MAX_SESSION_BYTES_def sample_scan)
  moreover have "classify_url (\<lambda>_. True) (lit ''http://a'') = Blocked" by code_simp
  ultimately show ?thesis by (simp add: assess_data_def)
qed

lemma sample_assess: "assess_sessions (\<lambda>_. True) (po_dir (sample_poll t)) = Inr Blocked"
proof -
  have "stat_is_regular_file 0x8180" by code_simp
  then show ?thesis
    by (simp add: assess_sessions_def session_candidates_def sample_poll_def starts_with_def lit_def MAX_CANDIDATE_FILES_def
        MAX_SESSION_BYTES_def unknown_on_os_def sample_assess_data)
qed

lemma sample_kill: "restart_kiosk (po_machine (sample_poll t)) (systemctl production_config) (cgroup_override production_config) = (Inr True, [(812, 15)])"
  unfolding sample_poll_def production_config_def by code_simp

lemma sample_config: "load_config Map.empty = Inr production_config"
  by code_simp

lemma sample_nav_run:
  "nav_main (\<lambda>_. True) Map.empty [sample_poll 40, sample_poll 60, sample_poll 75]
     = Inr (Waiting, [(0, Stage ''start''), (40, Stage ''blocked-page''), (40, Signal 812 15), (40, Stage ''kiosk-term''),
         (75, Stage ''blocked-page''), (75, Signal 812 15), (75, Stage ''kiosk-term'')])"
proof -
  have now: "po_now (sample_poll t) = t" for t by (simp add: sample_poll_def)
  have cool: "cooled_down production_config d \<longleftrightarrow> 30 \<le> d" for d
    by (auto simp: cooled_down_def production_config_def num_le_def)
  have "max_iterations production_config = 0" by (simp add: production_config_def)
  then show ?thesis
    by (simp add: nav_main_def sample_config nav_loop.simps sample_assess sample_kill now cool)
qed

theorem nav_signal_justified_witness:
  "\<exists>p names name data. p \<in> set [sample_poll 40, sample_poll 60, sample_poll 75] \<and> po_now p = 75
    \<and> sd_list (po_dir p) = Inr names \<and> session_name (po_dir p) names name \<and> sd_read (po_dir p) name = Inr data
    \<and> shows_blocked (\<lambda>_. True) data"
  using nav_signal_justified [OF sample_nav_run, of 75 812 15] by auto

theorem nav_restart_spacing_witness:
  "load_config Map.empty = Inr production_config \<and> (40 :: rat) + 30 \<le> 75"
  using nav_restart_spacing [OF _ sample_nav_run, of 0 1] by (simp add: nav_test_mode_def restarts_def)

end
