(* ===== verification/Input_Watch.thy ===== *)
theory Input_Watch
  imports Config Rio Spacing Py_Dyn
begin

text \<open>
  \<open>usr/local/libexec/sushida-input-watch\<close>: the hotkeys for volume and brightness. What the panel, the mixer and the
  configuration file answer is the record \<open>hw\<close>, given anew for each action; the key codes are those of the library
  \<open>evdev\<close>, an argument. The program's state holds its two global variables, the time of the last action and, as a
  ghost, what it did: the files written, the commands run and the actions with their times.
\<close>

section \<open>Surroundings and state\<close>

record hw =
  hw_dir :: "pystr list res"
  hw_is_file :: "pystr \<Rightarrow> bool res"
  hw_read :: "pystr \<Rightarrow> bytes res"
  hw_write :: "pystr \<Rightarrow> exn option"
  hw_run :: "pystr list \<Rightarrow> int res"
  hw_os :: os

datatype effect = Wrote pystr pystr | Ran "pystr list"

record iw =
  MIXER_CONTROL :: pystr
  BOOT_BRIGHTNESS_APPLIED :: bool
  last_action :: rat
  iw_effects :: "effect list"
  iw_actions :: "(rat \<times> string \<times> bool option) list"

definition BACKLIGHT_ROOT :: pystr where "BACKLIGHT_ROOT = lit ''/sys/class/backlight''"
definition AMIXER :: pystr where "AMIXER = lit ''/usr/bin/amixer''"
definition VOLUME_STEP_PERCENT :: int where "VOLUME_STEP_PERCENT = 5"
definition BRIGHTNESS_STEP_PERCENT :: int where "BRIGHTNESS_STEP_PERCENT = 10"
definition BRIGHTNESS_FLOOR_PERCENT :: int where "BRIGHTNESS_FLOOR_PERCENT = 5"
definition MIN_ACTION_INTERVAL_SECONDS :: pynum where "MIN_ACTION_INTERVAL_SECONDS = dec64 15 (- 2)"
definition DEVICE_RESCAN_SECONDS :: rat where "DEVICE_RESCAN_SECONDS = 60"

definition record_effect :: "effect \<Rightarrow> iw \<Rightarrow> iw" where
  "record_effect e s = s\<lparr>iw_effects := iw_effects s @ [e]\<rparr>"

section \<open>Brightness\<close>

definition brightness_key :: pystr where "brightness_key = lit ''SCREEN_BRIGHTNESS_PERCENT''"

text \<open>\<open>configured_brightness_percent\<close>: a \<open>ConfigError\<close> gives the default; another exception leaves the program.\<close>

definition configured_brightness_percent :: "hw \<Rightarrow> int res" where
  "configured_brightness_percent h =
     (let dflt = (case lookup_setting brightness_key of Some s \<Rightarrow> (case s_default s of Some n \<Rightarrow> Inr n | None \<Rightarrow> Inl TypeError) | None \<Rightarrow> Inl KeyError)
      in case config_load brightness_key CONFIG_FILE (hw_os h) of
           Inl (ConfigError _) \<Rightarrow> dflt
         | Inl (Uncaught x) \<Rightarrow> Inl x
         | Inr VNone \<Rightarrow> dflt
         | Inr (VInt n) \<Rightarrow> Inr n
         | Inr (VUrl u) \<Rightarrow> py_int u)"

definition clamp_brightness_raw :: "int \<Rightarrow> int \<Rightarrow> int" where
  "clamp_brightness_raw percent max_raw =
     (let floor_raw = max 1 (max_raw * BRIGHTNESS_FLOOR_PERCENT div 100);
          raw = max_raw * percent div 100
      in max floor_raw (min max_raw raw))"

definition panel_file :: "pystr \<Rightarrow> string \<Rightarrow> pystr" where
  "panel_file device name = path_join (path_join BACKLIGHT_ROOT device) (lit name)"

fun first_panel :: "hw \<Rightarrow> pystr list \<Rightarrow> pystr option res" where
  "first_panel h [] = Inr None"
| "first_panel h (e # es) =
     res_bind (hw_is_file h (panel_file e ''brightness'')) (\<lambda>a.
     res_bind (if a then hw_is_file h (panel_file e ''max_brightness'') else Inr False) (\<lambda>b.
       if b then Inr (Some e) else first_panel h es))"

definition backlight_device :: "hw \<Rightarrow> pystr option res" where
  "backlight_device h =
     (case res_bind (hw_dir h) (\<lambda>names. first_panel h (sort names)) of
        Inl x \<Rightarrow> if is_OSError x then Inr None else Inl x
      | Inr d \<Rightarrow> Inr d)"

text \<open>\<open>_read_raw\<close>: a decoding error is a \<open>ValueError\<close> too.\<close>

definition read_raw :: "hw \<Rightarrow> pystr \<Rightarrow> int option res" where
  "read_raw h p =
     (case res_bind (hw_read h p) (\<lambda>bs. res_bind (utf8_decode Strict bs) (\<lambda>s. py_int (py_strip (universal_newlines s)))) of
        Inl x \<Rightarrow> if is_OSError x \<or> x = ValueError \<or> x = UnicodeError then Inr None else Inl x
      | Inr n \<Rightarrow> Inr (Some n))"

definition backlight :: "hw \<Rightarrow> (pystr \<times> int) option res" where
  "backlight h =
     res_bind (backlight_device h) (\<lambda>d. case d of
       None \<Rightarrow> Inr None
     | Some device \<Rightarrow> res_bind (read_raw h (panel_file device ''max_brightness'')) (\<lambda>m. case m of
         None \<Rightarrow> Inr None
       | Some max_raw \<Rightarrow> Inr (if max_raw \<le> 0 then None else Some (device, max_raw))))"

definition write_brightness :: "hw \<Rightarrow> pystr \<Rightarrow> int \<Rightarrow> int \<Rightarrow> (iw, bool) rio" where
  "write_brightness h device max_raw percent = (\<lambda>s.
     let p = panel_file device ''brightness'' in
     case hw_write h p of
       Some x \<Rightarrow> (if is_OSError x then Inr False else Inl x, s)
     | None \<Rightarrow> (Inr True, record_effect (Wrote p (show_int (clamp_brightness_raw percent max_raw) @ [10])) s))"

definition set_brightness_percent :: "hw \<Rightarrow> int \<Rightarrow> (iw, bool) rio" where
  "set_brightness_percent h percent =
     r_with (backlight h) (\<lambda>b. case b of
       None \<Rightarrow> r_return False
     | Some (device, max_raw) \<Rightarrow> write_brightness h device max_raw percent)"

definition stepped_percent :: "int \<Rightarrow> int \<Rightarrow> int \<Rightarrow> int" where
  "stepped_percent max_raw current direction =
     max BRIGHTNESS_FLOOR_PERCENT (min 100 (current * 100 div max_raw + direction * BRIGHTNESS_STEP_PERCENT))"

definition step_brightness :: "hw \<Rightarrow> int \<Rightarrow> (iw, bool) rio" where
  "step_brightness h direction =
     r_with (backlight h) (\<lambda>b. case b of
       None \<Rightarrow> r_return False
     | Some (device, max_raw) \<Rightarrow>
         r_with (read_raw h (panel_file device ''brightness'')) (\<lambda>c. case c of
           None \<Rightarrow> r_return False
         | Some current \<Rightarrow> write_brightness h device max_raw (stepped_percent max_raw current direction)))"

section \<open>Volume\<close>

definition run_amixer :: "hw \<Rightarrow> pystr list \<Rightarrow> (iw, bool) rio" where
  "run_amixer h args = (\<lambda>s.
     let argv = AMIXER # lit ''-q'' # args in
     (case hw_run h argv of
        Inl x \<Rightarrow> if is_OSError x \<or> x = TimeoutExpired then Inr False else Inl x
      | Inr code \<Rightarrow> Inr (code = 0), record_effect (Ran argv) s))"

definition MIXER_CANDIDATES :: "pystr list" where
  "MIXER_CANDIDATES = map lit [''Master'', ''PCM'', ''Speaker'', ''Headphone'']"

definition set_mixer :: "pystr \<Rightarrow> (iw, unit) rio" where
  "set_mixer name = (\<lambda>s. (Inr (), s\<lparr>MIXER_CONTROL := name\<rparr>))"

fun probe_mixers :: "hw \<Rightarrow> pystr list \<Rightarrow> (iw, unit) rio" where
  "probe_mixers h [] = r_return ()"
| "probe_mixers h (name # names) =
     r_bind (run_amixer h [lit ''get'', name]) (\<lambda>ok. if ok then set_mixer name else probe_mixers h names)"

definition select_mixer_control :: "hw \<Rightarrow> (iw, unit) rio" where
  "select_mixer_control h = r_seq (set_mixer (hd MIXER_CANDIDATES)) (probe_mixers h MIXER_CANDIDATES)"

text \<open>The mixer command with the control that is current.\<close>

definition mixer_set :: "hw \<Rightarrow> pystr list \<Rightarrow> (iw, bool) rio" where
  "mixer_set h args = (\<lambda>s. run_amixer h (lit ''set'' # MIXER_CONTROL s # args) s)"

definition volume_up :: "hw \<Rightarrow> (iw, bool) rio" where
  "volume_up h = mixer_set h [show_int VOLUME_STEP_PERCENT @ lit ''%+'', lit ''unmute'']"

definition volume_down :: "hw \<Rightarrow> (iw, bool) rio" where
  "volume_down h = mixer_set h [show_int VOLUME_STEP_PERCENT @ lit ''%-'', lit ''unmute'']"

definition volume_mute_toggle :: "hw \<Rightarrow> (iw, bool) rio" where
  "volume_mute_toggle h = mixer_set h [lit ''toggle'']"

definition brightness_up :: "hw \<Rightarrow> (iw, bool) rio" where "brightness_up h = step_brightness h 1"

definition brightness_down :: "hw \<Rightarrow> (iw, bool) rio" where "brightness_down h = step_brightness h (- 1)"

section \<open>Boot defaults\<close>

definition ensure_boot_brightness :: "hw \<Rightarrow> (iw, bool) rio" where
  "ensure_boot_brightness h = (\<lambda>s.
     if BOOT_BRIGHTNESS_APPLIED s then (Inr True, s)
     else r_with (configured_brightness_percent h) (\<lambda>percent.
       r_bind (set_brightness_percent h percent) (\<lambda>ok s'.
         if ok then (Inr True, s'\<lparr>BOOT_BRIGHTNESS_APPLIED := True\<rparr>) else (Inr (BOOT_BRIGHTNESS_APPLIED s'), s'))) s)"

definition apply_boot_defaults :: "hw \<Rightarrow> (iw, unit) rio" where
  "apply_boot_defaults h =
     r_seq (select_mixer_control h)
    (r_seq (mixer_set h [lit ''unmute''])
    (r_seq (run_amixer h [lit ''set'', lit ''Speaker'', lit ''unmute''])
    (r_seq (ensure_boot_brightness h)
      (r_return ()))))"

section \<open>Key events\<close>

record keycodes =
  EV_KEY :: int
  KEY_VOLUMEUP :: int
  KEY_VOLUMEDOWN :: int
  KEY_MUTE :: int
  KEY_BRIGHTNESSUP :: int
  KEY_BRIGHTNESSDOWN :: int

text \<open>The table as pairs; of two pairs with one code the later counts.\<close>

definition watched_actions :: "keycodes \<Rightarrow> (int \<times> string \<times> (hw \<Rightarrow> (iw, bool) rio)) list" where
  "watched_actions k =
     [(KEY_VOLUMEUP k, ''volume-up'', volume_up),
      (KEY_VOLUMEDOWN k, ''volume-down'', volume_down),
      (KEY_MUTE k, ''volume-mute-toggle'', volume_mute_toggle),
      (KEY_BRIGHTNESSUP k, ''brightness-up'', brightness_up),
      (KEY_BRIGHTNESSDOWN k, ''brightness-down'', brightness_down)]"

definition action_of :: "keycodes \<Rightarrow> int \<Rightarrow> (string \<times> (hw \<Rightarrow> (iw, bool) rio)) option" where
  "action_of k code = map_of (rev (watched_actions k)) code"

text \<open>An event, with the time and the surroundings at which it is handled.\<close>

record key_event =
  ev_type :: int
  ev_code :: int
  ev_value :: int
  ev_now :: rat
  ev_hw :: hw

definition note_action :: "rat \<Rightarrow> string \<Rightarrow> bool option \<Rightarrow> iw \<Rightarrow> iw" where
  "note_action t name r s = s\<lparr>iw_actions := iw_actions s @ [(t, name, r)]\<rparr>"

definition run_action :: "rat \<Rightarrow> string \<Rightarrow> (iw, bool) rio \<Rightarrow> (iw, unit) rio" where
  "run_action t name m = (\<lambda>s.
     case m (s\<lparr>last_action := t\<rparr>) of
       (Inl x, s') \<Rightarrow> (Inl x, note_action t name None s')
     | (Inr ok, s') \<Rightarrow> (Inr (), note_action t name (Some ok) s'))"

definition handle_event :: "keycodes \<Rightarrow> key_event \<Rightarrow> (iw, unit) rio" where
  "handle_event k e =
     (if ev_type e \<noteq> EV_KEY k \<or> ev_value e \<notin> {1, 2} then r_return ()
      else case action_of k (ev_code e) of
        None \<Rightarrow> r_return ()
      | Some (name, action) \<Rightarrow> (\<lambda>s.
          if num_lt (Fin (ev_now e - last_action s)) MIN_ACTION_INTERVAL_SECONDS then (Inr (), s)
          else run_action (ev_now e) name (action (ev_hw e)) s))"

section \<open>The loop\<close>

text \<open>One turn: the devices that can be opened with their keys, what \<open>select\<close> returns and what each device gives.\<close>

record input_turn =
  tn_now :: rat
  tn_devices :: "(nat \<times> int list res) list"
  tn_hw :: hw
  tn_select :: "nat list res"
  tn_read :: "nat \<Rightarrow> key_event list res"

fun open_devices :: "keycodes \<Rightarrow> (nat \<times> int list res) list \<Rightarrow> nat list res" where
  "open_devices k [] = Inr []"
| "open_devices k ((d, keys) # ds) =
     (case keys of
        Inl x \<Rightarrow> if is_OSError x then open_devices k ds else Inl x
      | Inr ks \<Rightarrow> res_bind (open_devices k ds) (\<lambda>r.
          Inr (if list_ex (\<lambda>w. fst w \<in> set ks) (watched_actions k) then d # r else r)))"

text \<open>The loop over the ready devices; \<open>False\<close> when one of them could not be read.\<close>

fun read_ready :: "keycodes \<Rightarrow> (nat \<Rightarrow> key_event list res) \<Rightarrow> nat list \<Rightarrow> (iw, bool) rio" where
  "read_ready k rd [] = r_return True"
| "read_ready k rd (d # ds) =
     (case rd d of
        Inl x \<Rightarrow> if is_OSError x then r_return False else (\<lambda>s. (Inl x, s))
      | Inr evs \<Rightarrow> r_seq (r_each (handle_event k) evs) (read_ready k rd ds))"

definition wait_turn :: "keycodes \<Rightarrow> input_turn \<Rightarrow> nat list \<Rightarrow> (iw, nat list) rio" where
  "wait_turn k t devices =
     (case tn_select t of
        Inl x \<Rightarrow> if is_OSError x then r_return [] else (\<lambda>s. (Inl x, s))
      | Inr ready \<Rightarrow> r_bind (read_ready k (tn_read t) ready) (\<lambda>ok. r_return (if ok then devices else [])))"

fun input_loop :: "keycodes \<Rightarrow> input_turn list \<Rightarrow> nat list \<Rightarrow> rat \<Rightarrow> (iw, unit) rio" where
  "input_loop k [] devices last_rescan = r_return ()"
| "input_loop k (t # ts) devices last_rescan =
     (if devices = [] \<or> DEVICE_RESCAN_SECONDS \<le> tn_now t - last_rescan then
        r_with (open_devices k (tn_devices t)) (\<lambda>opened.
        r_seq (ensure_boot_brightness (tn_hw t))
          (if opened = [] then input_loop k ts opened (tn_now t)
           else r_bind (wait_turn k t opened) (\<lambda>ds. input_loop k ts ds (tn_now t))))
      else r_bind (wait_turn k t devices) (\<lambda>ds. input_loop k ts ds last_rescan))"

definition iw_init :: iw where
  "iw_init = \<lparr>MIXER_CONTROL = hd MIXER_CANDIDATES, BOOT_BRIGHTNESS_APPLIED = False, last_action = 0, iw_effects = [], iw_actions = []\<rparr>"

text \<open>
  \<open>main\<close>: without the library or not as root the exit status is 1; otherwise it runs for as long as turns are given
  (the result \<open>0\<close> is never reached by the program itself).
\<close>

definition input_main :: "keycodes option \<Rightarrow> int \<Rightarrow> hw \<Rightarrow> (nat \<times> int list res) list \<Rightarrow> rat \<Rightarrow> input_turn list \<Rightarrow> (iw, int) rio" where
  "input_main evdev euid h devs start turns =
     (case evdev of
        None \<Rightarrow> r_return 1
      | Some k \<Rightarrow>
          if euid \<noteq> 0 then r_return 1
          else r_seq (apply_boot_defaults h)
            (r_with (open_devices k devs) (\<lambda>devices.
              r_seq (input_loop k turns devices start) (r_return 0))))"

section \<open>The clamp and the steps\<close>

lemma le_div_100: "c * 100 \<le> x \<Longrightarrow> c \<le> x div 100" for c x :: int
  using zdiv_mono1 [of "c * 100" x 100] by simp

lemma div_100_less: "x < c * 100 \<Longrightarrow> x div 100 < c" for c x :: int
  using mult_div_mod_eq [of 100 x] pos_mod_sign [of 100 x] by linarith

lemma clamp_bounds:
  assumes "0 < m"
  shows "1 \<le> clamp_brightness_raw percent m" "clamp_brightness_raw percent m \<le> m" "m * 5 div 100 \<le> clamp_brightness_raw percent m"
proof -
  have "m * 5 div 100 \<le> m" using assms div_100_less [of "m * 5" m] by simp
  then show "1 \<le> clamp_brightness_raw percent m" "clamp_brightness_raw percent m \<le> m" "m * 5 div 100 \<le> clamp_brightness_raw percent m"
    using assms by (auto simp: clamp_brightness_raw_def BRIGHTNESS_FLOOR_PERCENT_def Let_def)
qed

lemma percent_of:
  fixes c m :: int
  assumes "0 < m"
  shows "m * (c * 100 div m) \<le> c * 100 \<and> c * 100 < m * (c * 100 div m) + m"
  using pos_mod_bound [OF assms, of "c * 100"] pos_mod_sign [OF assms, of "c * 100"] mult_div_mod_eq [of m "c * 100"] by linarith

lemma step_up_raw:
  assumes "0 < m" and "0 \<le> c" and "c \<le> m"
  shows "c \<le> clamp_brightness_raw (stepped_percent m c 1) m"
    and "10 \<le> m \<Longrightarrow> c < m \<Longrightarrow> c < clamp_brightness_raw (stepped_percent m c 1) m"
proof -
  let ?p = "c * 100 div m" and ?raw = "m * (c * 100 div m + 10) div 100"
  have p: "m * ?p \<le> c * 100" "c * 100 < m * ?p + m" "0 \<le> ?p" using percent_of [OF assms(1), of c] assms by (auto simp: pos_imp_zdiv_nonneg_iff)
  have eq: "stepped_percent m c 1 = min 100 (?p + 10)"
    using p(3) by (simp add: stepped_percent_def BRIGHTNESS_FLOOR_PERCENT_def BRIGHTNESS_STEP_PERCENT_def)
  have up: "clamp_brightness_raw 100 m = m"
    using clamp_bounds [OF assms(1), of 100] assms(1) by (auto simp: clamp_brightness_raw_def Let_def)
  have raw: "min m ?raw \<le> clamp_brightness_raw (?p + 10) m" by (simp add: clamp_brightness_raw_def Let_def)
  have "c \<le> ?raw" using le_div_100 [of c "m * (?p + 10)"] p assms(1) by (simp add: algebra_simps)
  then have "c \<le> clamp_brightness_raw (?p + 10) m" using raw assms(3) by linarith
  then show "c \<le> clamp_brightness_raw (stepped_percent m c 1) m" unfolding eq using up assms(3) by (simp add: min_def)
  assume m: "10 \<le> m" "c < m"
  have "c < ?raw"
  proof (cases "m = 10")
    case False
    then show ?thesis using le_div_100 [of "c + 1" "m * (?p + 10)"] p m by (simp add: algebra_simps)
  qed simp
  then have "c < clamp_brightness_raw (?p + 10) m" using raw m(2) by linarith
  then show "c < clamp_brightness_raw (stepped_percent m c 1) m" unfolding eq using up m by (simp add: min_def)
qed

lemma max_or_floor: "b < c \<Longrightarrow> max a b < c \<or> max a b = a" for a b c :: int
  by (auto simp: max_def)

lemma step_down_raw:
  assumes "0 < m" and "0 \<le> c"
  shows "clamp_brightness_raw (stepped_percent m c (- 1)) m < c \<or> clamp_brightness_raw (stepped_percent m c (- 1)) m = max 1 (m * 5 div 100)"
proof -
  let ?p = "c * 100 div m"
  have p: "m * ?p \<le> c * 100" "0 \<le> ?p" using percent_of [OF assms(1), of c] assms by (auto simp: pos_imp_zdiv_nonneg_iff)
  have clamp: "clamp_brightness_raw q m = max (max 1 (m * 5 div 100)) (min m (m * q div 100))" for q
    by (simp add: clamp_brightness_raw_def BRIGHTNESS_FLOOR_PERCENT_def Let_def)
  show ?thesis
  proof (cases "?p - 10 \<le> 5")
    case True
    then have "stepped_percent m c (- 1) = 5" by (simp add: stepped_percent_def BRIGHTNESS_FLOOR_PERCENT_def BRIGHTNESS_STEP_PERCENT_def)
    then show ?thesis by (simp add: clamp)
  next
    case False
    define q where "q = stepped_percent m c (- 1)"
    have "q \<le> ?p - 10" using False by (simp add: q_def stepped_percent_def BRIGHTNESS_FLOOR_PERCENT_def BRIGHTNESS_STEP_PERCENT_def)
    then have "m * q \<le> m * (?p - 10)" using assms(1) by simp
    also have "\<dots> < c * 100" using p(1) assms(1) by (simp add: algebra_simps)
    finally have "m * q div 100 < c" by (rule div_100_less)
    then have "min m (m * q div 100) < c" by (rule min.strict_coboundedI2)
    then show ?thesis unfolding q_def [symmetric] clamp by (rule max_or_floor)
  qed
qed

section \<open>What the program does to the machine\<close>

text \<open>The commands that can be run, whatever the events.\<close>

definition fixed_commands :: "pystr list list" where
  "fixed_commands = map (\<lambda>args. AMIXER # lit ''-q'' # args)
     (concat (map (\<lambda>c. [[lit ''get'', c], [lit ''set'', c, lit ''5%+'', lit ''unmute''], [lit ''set'', c, lit ''5%-'', lit ''unmute''],
        [lit ''set'', c, lit ''toggle''], [lit ''set'', c, lit ''unmute'']]) MIXER_CANDIDATES))"

text \<open>A write sets the brightness of a panel between its floor and its maximum, and never to zero.\<close>

fun effect_ok :: "hw set \<Rightarrow> effect \<Rightarrow> bool" where
  "effect_ok H (Ran argv) \<longleftrightarrow> argv \<in> set fixed_commands"
| "effect_ok H (Wrote p content) \<longleftrightarrow> (\<exists>h \<in> H. \<exists>device max_raw raw. p = panel_file device ''brightness''
     \<and> backlight h = Inr (Some (device, max_raw)) \<and> content = show_int raw @ [10] \<and> 1 \<le> raw \<and> max_raw * 5 div 100 \<le> raw \<and> raw \<le> max_raw)"

definition effects_ok :: "hw set \<Rightarrow> iw \<Rightarrow> bool" where
  "effects_ok H s \<longleftrightarrow> MIXER_CONTROL s \<in> set MIXER_CANDIDATES \<and> list_all (effect_ok H) (iw_effects s)"

lemma backlight_positive: "backlight h = Inr (Some (device, m)) \<Longrightarrow> 0 < m"
  by (auto simp: backlight_def res_bind_Inr_conv split: option.splits if_splits)

lemma keeps_write:
  assumes "h \<in> H" and "backlight h = Inr (Some (device, m))"
  shows "r_keeps (effects_ok H) (write_brightness h device m percent)"
  using clamp_bounds [OF backlight_positive [OF assms(2)], of percent] assms
  by (intro r_keepsI) (fastforce simp: write_brightness_def effects_ok_def record_effect_def Let_def split: option.splits)

lemma keeps_step: "h \<in> H \<Longrightarrow> r_keeps (effects_ok H) (step_brightness h d)"
  unfolding step_brightness_def by (auto intro!: keeps_intros keeps_write split: option.splits)

lemma keeps_set: "h \<in> H \<Longrightarrow> r_keeps (effects_ok H) (set_brightness_percent h percent)"
  unfolding set_brightness_percent_def by (auto intro!: keeps_intros keeps_write split: option.splits)

lemma keeps_run: "AMIXER # lit ''-q'' # args \<in> set fixed_commands \<Longrightarrow> r_keeps (effects_ok H) (run_amixer h args)"
  by (intro r_keepsI) (simp add: run_amixer_def effects_ok_def record_effect_def Let_def)

lemma keeps_mixer_set:
  assumes "\<And>c. c \<in> set MIXER_CANDIDATES \<Longrightarrow> AMIXER # lit ''-q'' # lit ''set'' # c # args \<in> set fixed_commands"
  shows "r_keeps (effects_ok H) (mixer_set h args)"
  using assms keeps_run [of "lit ''set'' # _ # args" H h] unfolding r_keeps_def mixer_set_def by (simp add: effects_ok_def)

lemma keeps_probe: "set cs \<subseteq> set MIXER_CANDIDATES \<Longrightarrow> r_keeps (effects_ok H) (probe_mixers h cs)"
proof (induction cs)
  case (Cons c cs)
  have "r_keeps (effects_ok H) (set_mixer c)" using Cons.prems by (intro r_keepsI) (simp add: set_mixer_def effects_ok_def)
  moreover have "AMIXER # lit ''-q'' # [lit ''get'', c] \<in> set fixed_commands" using Cons.prems by (force simp: fixed_commands_def)
  ultimately show ?case using Cons by (auto intro!: keeps_intros keeps_run)
qed (simp add: r_keeps_return)

lemma keeps_boot_brightness: "h \<in> H \<Longrightarrow> r_keeps (effects_ok H) (ensure_boot_brightness h)"
proof (rule r_keepsI)
  fix s
  assume h: "h \<in> H" and s: "effects_ok H s"
  show "effects_ok H (snd (ensure_boot_brightness h s))"
  proof (cases "BOOT_BRIGHTNESS_APPLIED s \<or> (\<exists>x. configured_brightness_percent h = Inl x)")
    case False
    then obtain percent where c: "configured_brightness_percent h = Inr percent" by (cases "configured_brightness_percent h") auto
    obtain r s' where set: "set_brightness_percent h percent s = (r, s')" by (cases "set_brightness_percent h percent s")
    then have "effects_ok H s'" using r_keepsD [OF keeps_set [OF h] s] by blast
    then show ?thesis using False c set by (cases r) (auto simp: ensure_boot_brightness_def r_bind_def effects_ok_def)
  qed (auto simp: ensure_boot_brightness_def s)
qed

lemma five_text: "show_int VOLUME_STEP_PERCENT = lit ''5''"
  by code_simp

lemma keeps_actions:
  assumes "h \<in> H" and "action_of k code = Some (name, action)"
  shows "r_keeps (effects_ok H) (action h)"
proof -
  have "action \<in> {volume_up, volume_down, volume_mute_toggle, brightness_up, brightness_down}"
    using map_of_SomeD [OF assms(2) [unfolded action_of_def]] by (auto simp: watched_actions_def)
  moreover have "lit ''5'' @ lit ''%+'' = lit ''5%+''" "lit ''5'' @ lit ''%-'' = lit ''5%-''" by (simp_all add: lit_def)
  ultimately show ?thesis
    using keeps_step [OF assms(1)]
    by (auto simp: volume_up_def volume_down_def volume_mute_toggle_def brightness_up_def brightness_down_def five_text fixed_commands_def intro!: keeps_mixer_set)
qed

lemma keeps_run_action: "r_keeps (effects_ok H) m \<Longrightarrow> r_keeps (effects_ok H) (run_action t name m)"
proof (rule r_keepsI)
  fix s
  assume m: "r_keeps (effects_ok H) m" and s: "effects_ok H s"
  obtain r s' where run: "m (s\<lparr>last_action := t\<rparr>) = (r, s')" by (cases "m (s\<lparr>last_action := t\<rparr>)")
  have "effects_ok H s'" by (rule r_keepsD [OF m _ run]) (use s in \<open>simp add: effects_ok_def\<close>)
  then show "effects_ok H (snd (run_action t name m s))" using run by (cases r) (auto simp: run_action_def note_action_def effects_ok_def)
qed

lemma keeps_handle: "ev_hw e \<in> H \<Longrightarrow> r_keeps (effects_ok H) (handle_event k e)"
proof (cases "action_of k (ev_code e)")
  case (Some a)
  assume h: "ev_hw e \<in> H"
  obtain name action where a: "a = (name, action)" by (cases a)
  have run: "r_keeps (effects_ok H) (run_action (ev_now e) name (action (ev_hw e)))"
    using keeps_run_action keeps_actions [OF h] Some a by blast
  show ?thesis
    by (rule r_keepsI) (use run in \<open>auto simp: handle_event_def Some a r_return_def r_keeps_def\<close>)
qed (simp add: handle_event_def r_keeps_return)

definition turn_hws :: "input_turn \<Rightarrow> hw set" where
  "turn_hws t = insert (tn_hw t) {ev_hw e |d evs e. tn_read t d = Inr evs \<and> e \<in> set evs}"

lemma keeps_ready: "(\<And>d evs e. rd d = Inr evs \<Longrightarrow> e \<in> set evs \<Longrightarrow> ev_hw e \<in> H) \<Longrightarrow> r_keeps (effects_ok H) (read_ready k rd ds)"
  by (induction ds) (auto intro!: keeps_intros keeps_handle split: sum.splits)

lemma keeps_wait: "turn_hws t \<subseteq> H \<Longrightarrow> r_keeps (effects_ok H) (wait_turn k t devices)"
  unfolding wait_turn_def turn_hws_def by (auto intro!: keeps_intros keeps_ready split: sum.splits)

lemma keeps_loop: "(\<And>t. t \<in> set ts \<Longrightarrow> turn_hws t \<subseteq> H) \<Longrightarrow> r_keeps (effects_ok H) (input_loop k ts devices since)"
proof (induction ts arbitrary: devices since)
  case (Cons t ts)
  have t: "turn_hws t \<subseteq> H" "tn_hw t \<in> H" using Cons.prems [of t] by (auto simp: turn_hws_def)
  show ?case
    by (auto intro!: keeps_intros keeps_boot_brightness keeps_wait t Cons.IH Cons.prems)
qed (simp add: r_keeps_return)

text \<open>
  C30. Whatever keys are pressed and whatever the machine answers, the hotkey service changes it in two ways only. It
  runs one of a fixed set of mixer commands, none of which contains data of an event; and it writes to the brightness
  file of the panel it found a decimal between the panel's 5 percent floor and its maximum and never below 1, so that
  the screen cannot be turned dark.
\<close>

theorem input_effects_fixed:
  "list_all (effect_ok (insert h (\<Union> (turn_hws ` set turns)))) (iw_effects (snd (input_main evdev euid h devs start turns iw_init)))"
proof -
  let ?H = "insert h (\<Union> (turn_hws ` set turns))"
  have init: "effects_ok ?H iw_init" by (simp add: effects_ok_def iw_init_def MIXER_CANDIDATES_def)
  have mixer: "r_keeps (effects_ok ?H) (set_mixer (hd MIXER_CANDIDATES))"
    by (intro r_keepsI) (simp add: set_mixer_def effects_ok_def MIXER_CANDIDATES_def)
  have speaker: "AMIXER # lit ''-q'' # [lit ''set'', lit ''Speaker'', lit ''unmute''] \<in> set fixed_commands"
    by (simp add: fixed_commands_def MIXER_CANDIDATES_def)
  have "r_keeps (effects_ok ?H) (apply_boot_defaults h)"
    unfolding apply_boot_defaults_def select_mixer_control_def
    by (intro keeps_intros mixer keeps_probe keeps_run [OF speaker] keeps_boot_brightness keeps_mixer_set) (auto simp: fixed_commands_def)
  moreover have "r_keeps (effects_ok ?H) (input_loop k turns ds start)" for k ds
    by (rule keeps_loop) blast
  ultimately have "r_keeps (effects_ok ?H) (input_main evdev euid h devs start turns)"
    unfolding input_main_def by (auto intro!: keeps_intros split: option.splits)
  then show ?thesis using init unfolding r_keeps_def by (simp add: effects_ok_def)
qed

section \<open>Actions are rate-limited\<close>

text \<open>Only \<open>run_action\<close> changes the time of the last action and the list of actions.\<close>

definition untouched :: "rat \<Rightarrow> (rat \<times> string \<times> bool option) list \<Rightarrow> iw \<Rightarrow> bool" where
  "untouched t as s \<longleftrightarrow> last_action s = t \<and> iw_actions s = as"

lemma untouched_ops [keeps_intros]:
  "r_keeps (untouched t as) (write_brightness h device m percent)" "r_keeps (untouched t as) (run_amixer h args)"
  "r_keeps (untouched t as) (mixer_set h args)" "r_keeps (untouched t as) (set_mixer c)"
  by (auto simp: r_keeps_def untouched_def write_brightness_def run_amixer_def mixer_set_def set_mixer_def record_effect_def Let_def
      split: option.splits)

lemma untouched_step [keeps_intros]:
  "r_keeps (untouched t as) (step_brightness h d)" "r_keeps (untouched t as) (set_brightness_percent h percent)"
  unfolding step_brightness_def set_brightness_percent_def by (auto intro!: keeps_intros split: option.splits)

lemma untouched_boot [keeps_intros]: "r_keeps (untouched t as) (ensure_boot_brightness h)"
proof (rule r_keepsI)
  fix s
  assume s: "untouched t as s"
  have "r_keeps (untouched t as) (r_with (configured_brightness_percent h) (\<lambda>percent. r_bind (set_brightness_percent h percent) (\<lambda>ok s'.
         if ok then (Inr True, s'\<lparr>BOOT_BRIGHTNESS_APPLIED := True\<rparr>) else (Inr (BOOT_BRIGHTNESS_APPLIED s'), s'))))"
    by (intro keeps_intros r_keepsI) (simp add: untouched_def)
  then show "untouched t as (snd (ensure_boot_brightness h s))" using s unfolding r_keeps_def ensure_boot_brightness_def by simp
qed

lemma untouched_probe [keeps_intros]: "r_keeps (untouched t as) (probe_mixers h cs)"
  by (induction cs) (auto intro!: keeps_intros)

lemma untouched_action:
  assumes "action_of k code = Some (name, action)"
  shows "r_keeps (untouched t as) (action h)"
proof -
  have "action \<in> {volume_up, volume_down, volume_mute_toggle, brightness_up, brightness_down}"
    using map_of_SomeD [OF assms [unfolded action_of_def]] by (auto simp: watched_actions_def)
  then show ?thesis
    by (auto simp: volume_up_def volume_down_def volume_mute_toggle_def brightness_up_def brightness_down_def intro!: keeps_intros)
qed

text \<open>The double nearest to 0.15.\<close>

definition action_gap :: rat where "action_gap = 5404319552844595 / 36028797018963968"

lemma action_gap_value: "MIN_ACTION_INTERVAL_SECONDS = Fin action_gap"
  unfolding MIN_ACTION_INTERVAL_SECONDS_def action_gap_def by code_simp

definition limited :: "iw \<Rightarrow> bool" where
  "limited s \<longleftrightarrow> spaced action_gap 0 (map fst (iw_actions s)) \<and> last_action s = (if iw_actions s = [] then 0 else fst (last (iw_actions s)))"

lemma limited_untouched: "limited s \<Longrightarrow> (\<And>t as. r_keeps (untouched t as) m) \<Longrightarrow> limited (snd (m s))"
  unfolding r_keeps_def untouched_def limited_def by metis

lemma limited_run_action:
  assumes "limited s" and "last_action s + action_gap \<le> t" and "\<And>t as. r_keeps (untouched t as) m"
  shows "limited (snd (run_action t name m s))"
proof -
  obtain r s' where run: "m (s\<lparr>last_action := t\<rparr>) = (r, s')" by (cases "m (s\<lparr>last_action := t\<rparr>)")
  have "untouched t (iw_actions s) s'" by (rule r_keepsD [OF assms(3) _ run]) (simp add: untouched_def)
  moreover have "spaced action_gap 0 (map fst (iw_actions s) @ [t])"
    using assms(1,2) by (auto simp: limited_def spaced_snoc last_map)
  ultimately show ?thesis using run by (cases r) (auto simp: run_action_def note_action_def limited_def untouched_def)
qed

lemma keeps_limited:
  "r_keeps limited (handle_event k e)" "r_keeps limited (ensure_boot_brightness h)" "r_keeps limited (apply_boot_defaults h)"
proof -
  show "r_keeps limited (handle_event k e)"
  proof (rule r_keepsI)
    fix s
    assume s: "limited s"
    show "limited (snd (handle_event k e s))"
    proof (cases "action_of k (ev_code e)")
      case None
      then show ?thesis using s by (simp add: handle_event_def r_return_def)
    next
      case (Some a)
      obtain name action where a: "a = (name, action)" by (cases a)
      have "limited (snd (run_action (ev_now e) name (action (ev_hw e)) s))" if "last_action s + action_gap \<le> ev_now e"
        using limited_run_action [OF s that] untouched_action Some a by blast
      then show ?thesis using s Some by (auto simp: handle_event_def a r_return_def action_gap_value)
    qed
  qed
  show "r_keeps limited (ensure_boot_brightness h)" by (intro r_keepsI limited_untouched keeps_intros)
  show "r_keeps limited (apply_boot_defaults h)"
    unfolding apply_boot_defaults_def select_mixer_control_def by (intro r_keepsI limited_untouched keeps_intros)
qed

lemma limited_loop: "r_keeps limited (input_loop k ts devices since)"
proof (induction ts arbitrary: devices since)
  case (Cons t ts)
  have ready: "r_keeps limited (read_ready k rd ds)" for rd ds
    by (induction ds) (auto intro!: keeps_intros keeps_limited split: sum.splits)
  have "r_keeps limited (wait_turn k t ds)" for ds
    unfolding wait_turn_def by (auto intro!: keeps_intros ready split: sum.splits)
  then show ?case by (auto intro!: keeps_intros keeps_limited Cons.IH)
qed (simp add: r_keeps_return)

text \<open>
  C31. The actions of one run are rate-limited: however many key events arrive, on however many devices, the times of
  two successive actions are at least the configured interval (the double nearest to 0.15 seconds) apart, and the
  first is at least as far from the origin of the clock.
\<close>

theorem input_actions_spaced:
  "MIN_ACTION_INTERVAL_SECONDS = Fin action_gap
   \<and> spaced action_gap 0 (map fst (iw_actions (snd (input_main evdev euid h devs start turns iw_init))))"
proof -
  have "r_keeps limited (input_main evdev euid h devs start turns)"
    unfolding input_main_def by (auto intro!: keeps_intros keeps_limited limited_loop split: option.splits)
  moreover have "limited iw_init" by (simp add: limited_def iw_init_def)
  ultimately show ?thesis unfolding r_keeps_def limited_def using action_gap_value by blast
qed

section \<open>A brightness key moves the brightness\<close>

text \<open>
  A brightness key on a readable and writable panel: one write, of a decimal between 1 and the maximum. The key
  for brighter never lowers the value, and it raises it when the panel has at least 10 levels and is not at its
  maximum. The key for darker lowers the value or leaves the panel at its floor.
\<close>

theorem step_brightness_moves:
  assumes "backlight h = Inr (Some (device, max_raw))" and "read_raw h (panel_file device ''brightness'') = Inr (Some current)"
    and "0 \<le> current" and "current \<le> max_raw" and "hw_write h (panel_file device ''brightness'') = None"
  shows "\<exists>up down.
    brightness_up h s = (Inr True, record_effect (Wrote (panel_file device ''brightness'') (show_int up @ [10])) s)
    \<and> brightness_down h s = (Inr True, record_effect (Wrote (panel_file device ''brightness'') (show_int down @ [10])) s)
    \<and> 1 \<le> up \<and> up \<le> max_raw \<and> current \<le> up \<and> (10 \<le> max_raw \<and> current < max_raw \<longrightarrow> current < up)
    \<and> 1 \<le> down \<and> down \<le> max_raw \<and> (down < current \<or> down = max 1 (max_raw * 5 div 100))"
proof -
  have pos: "0 < max_raw" by (rule backlight_positive [OF assms(1)])
  show ?thesis
    using clamp_bounds [OF pos] step_up_raw [OF pos assms(3,4)] step_down_raw [OF pos assms(3)] assms
    by (intro exI [of _ "clamp_brightness_raw (stepped_percent max_raw current 1) max_raw"]
        exI [of _ "clamp_brightness_raw (stepped_percent max_raw current (- 1)) max_raw"])
      (auto simp: brightness_up_def brightness_down_def step_brightness_def write_brightness_def)
qed

definition sample_hw :: "int \<Rightarrow> int \<Rightarrow> hw" where
  "sample_hw max_raw current = \<lparr>hw_dir = Inr [lit ''intel_backlight''], hw_is_file = (\<lambda>_. Inr True),
     hw_read = (\<lambda>p. Inr (bytes_of (show_int (if p = panel_file (lit ''intel_backlight'') ''brightness'' then current else max_raw) @ [10]))),
     hw_write = (\<lambda>_. None), hw_run = (\<lambda>_. Inr 0), hw_os = os_of []\<rparr>"

lemma sample_panel:
  "backlight (sample_hw 20 8) = Inr (Some (lit ''intel_backlight'', 20))"
  "read_raw (sample_hw 20 8) (panel_file (lit ''intel_backlight'') ''brightness'') = Inr (Some 8)"
  by code_simp+

theorem step_brightness_moves_witness:
  "\<exists>up down. brightness_up (sample_hw 20 8) iw_init
       = (Inr True, record_effect (Wrote (panel_file (lit ''intel_backlight'') ''brightness'') (show_int up @ [10])) iw_init)
     \<and> brightness_down (sample_hw 20 8) iw_init
       = (Inr True, record_effect (Wrote (panel_file (lit ''intel_backlight'') ''brightness'') (show_int down @ [10])) iw_init)
     \<and> 8 < up \<and> up \<le> 20 \<and> 1 \<le> down"
proof -
  have "hw_write (sample_hw 20 8) (panel_file (lit ''intel_backlight'') ''brightness'') = None" by (simp add: sample_hw_def)
  then show ?thesis using step_brightness_moves [OF sample_panel, of iw_init] by fastforce
qed

text \<open>On a panel with fewer levels the key for brighter can have no effect.\<close>

lemma step_up_stuck:
  "clamp_brightness_raw (stepped_percent 7 1 1) 7 = 1" "clamp_brightness_raw (stepped_percent 9 1 1) 9 = 1"
  by code_simp+

end
