(* ===== verification/Screenshot.thy ===== *)
theory Screenshot
  imports Py_Codec
begin

text \<open>
  \<open>tests/qemu/check-screenshot.py\<close>: the check that a captured frame of the kiosk is neither blank nor a partial scanout.
  The header of the PPM file is read line by line, the pixel loop keeps two counts, a bounding box and two byte arrays,
  and the thresholds are compared without division. The reference is the picture itself: sets of dark and bright
  pixels. With a second argument the frame is written as PNG; \<open>zlib.compress\<close> is a parameter, the checksum is computed.
  Every failure of the program is the exit status 1, here \<open>SystemExit\<close>.
\<close>

unbundle bit_operations_syntax

section \<open>Reading the header\<close>

text \<open>The bytes of the file as integers; \<open>readline\<close> keeps the line feed.\<close>

fun read_line :: "int list \<Rightarrow> int list \<times> int list" where
  "read_line [] = ([], [])"
| "read_line (c # cs) = (if c = 10 then ([10], cs) else (case read_line cs of (l, rest) \<Rightarrow> (c # l, rest)))"

lemma read_line_append: "fst (read_line bs) @ snd (read_line bs) = bs"
  by (induction bs) (auto split: prod.split)

lemma read_line_less: "(line, rest) = read_line bs \<Longrightarrow> line \<noteq> [] \<Longrightarrow> length rest < length bs"
  using read_line_append [of bs] by (metis fst_conv snd_conv length_append length_greater_0_conv less_add_same_cancel2)

definition byte_space :: "int \<Rightarrow> bool" where
  "byte_space c \<longleftrightarrow> c \<in> {9, 10, 11, 12, 13, 32}"

definition byte_strip :: "int list \<Rightarrow> int list" where
  "byte_strip bs = rev (dropWhile byte_space (rev (dropWhile byte_space bs)))"

definition byte_words :: "int list \<Rightarrow> int list list" where
  "byte_words bs = filter (\<lambda>w. w \<noteq> []) (split_by byte_space bs)"

text \<open>\<open>int(value)\<close> of bytes: only ASCII, and none of the separators that count as spaces in a string.\<close>

definition bytes_int :: "int list \<Rightarrow> int res" where
  "bytes_int v = (if list_all (\<lambda>c. c < 128 \<and> \<not> (28 \<le> c \<and> c \<le> 31)) v then py_int v else Inl ValueError)"

function read_header :: "int list list \<Rightarrow> int list \<Rightarrow> (int list list \<times> int list) res" where
  "read_header header bs =
     (if length header \<ge> 3 then Inr (header, bs)
      else case read_line bs of (line, rest) \<Rightarrow>
        if line = [] then Inl SystemExit
        else read_header (header @ byte_words (takeWhile (\<lambda>c. c \<noteq> 35) line)) rest)"
  by pat_completeness auto
termination
  by (relation "measure (\<lambda>(_, bs). length bs)") (auto dest: read_line_less)

definition read_ppm :: "int list \<Rightarrow> (int \<times> int \<times> int list) res" where
  "read_ppm bs =
     (case read_line bs of (magic, rest) \<Rightarrow>
        if byte_strip magic \<noteq> [80, 54] then Inl SystemExit
        else res_bind (read_header [] rest) (\<lambda>(header, pixels).
          case map bytes_int (take 3 header) of
            [Inr width, Inr height, Inr maximum] \<Rightarrow>
              if width \<le> 0 \<or> height \<le> 0 \<or> maximum \<noteq> 255 then Inl SystemExit
              else if int (length pixels) \<noteq> width * height * 3 then Inl SystemExit
              else Inr (width, height, pixels)
          | _ \<Rightarrow> Inl SystemExit))"

section \<open>The pixel loop\<close>

record scan_state =
  fr_dark :: nat
  fr_bright :: nat
  fr_left :: int
  fr_right :: int
  fr_top :: int
  fr_bottom :: int
  fr_columns :: "nat list"
  fr_rows :: "nat list"

definition frame_init :: "nat \<Rightarrow> nat \<Rightarrow> scan_state" where
  "frame_init width height = \<lparr>fr_dark = 0, fr_bright = 0, fr_left = int width, fr_right = -1, fr_top = int height, fr_bottom = -1,
     fr_columns = replicate width 0, fr_rows = replicate height 0\<rparr>"

definition dark :: "int list \<Rightarrow> nat \<Rightarrow> bool" where
  "dark px k \<longleftrightarrow> max (px ! (3 * k)) (max (px ! (3 * k + 1)) (px ! (3 * k + 2))) \<le> 32"

definition bright :: "int list \<Rightarrow> nat \<Rightarrow> bool" where
  "bright px k \<longleftrightarrow> min (px ! (3 * k)) (min (px ! (3 * k + 1)) (px ! (3 * k + 2))) \<ge> 180"

definition scan_pixel :: "nat \<Rightarrow> int list \<Rightarrow> scan_state \<Rightarrow> nat \<Rightarrow> scan_state" where
  "scan_pixel width px f k =
     (let f = (if dark px k then f\<lparr>fr_dark := fr_dark f + 1\<rparr> else f) in
      if bright px k then
        (let x = k mod width; y = k div width in
         f\<lparr>fr_bright := fr_bright f + 1,
           fr_left := min (fr_left f) (int x), fr_right := max (fr_right f) (int x),
           fr_top := min (fr_top f) (int y), fr_bottom := max (fr_bottom f) (int y),
           fr_columns := (fr_columns f)[x := 1], fr_rows := (fr_rows f)[y := 1]\<rparr>)
      else f)"

definition scan_frame :: "nat \<Rightarrow> nat \<Rightarrow> int list \<Rightarrow> scan_state" where
  "scan_frame width height px = foldl (scan_pixel width px) (frame_init width height) [0 ..< length px div 3]"

definition frame_ok :: "nat \<Rightarrow> nat \<Rightarrow> scan_state \<Rightarrow> bool" where
  "frame_ok width height f \<longleftrightarrow>
     (let total = width * height;
          bright_width = fr_right f - fr_left f + 1;
          bright_height = fr_bottom f - fr_top f + 1;
          occupied_columns = sum_list (fr_columns f);
          occupied_rows = sum_list (fr_rows f)
      in \<not> fr_dark f * 100 < total * 70
         \<and> \<not> fr_bright f * 1000 < total
         \<and> \<not> (bright_width * 5 < int width \<or> bright_height * 20 < int height)
         \<and> \<not> (occupied_columns * 5 < width \<or> occupied_rows * 20 < height))"

definition check_screenshot :: "int list \<Rightarrow> scan_state res" where
  "check_screenshot bs =
     res_bind (read_ppm bs) (\<lambda>(width, height, pixels).
       let f = scan_frame (nat width) (nat height) pixels in
       if frame_ok (nat width) (nat height) f then Inr f else Inl SystemExit)"

section \<open>Writing the frame as PNG\<close>

text \<open>\<open>zlib.crc32\<close>: bit by bit, least significant bit first.\<close>

definition crc_shift :: "32 word \<Rightarrow> 32 word" where
  "crc_shift c = (if bit c 0 then drop_bit 1 c XOR 0xEDB88320 else drop_bit 1 c)"

definition crc_byte :: "32 word \<Rightarrow> int \<Rightarrow> 32 word" where
  "crc_byte c b = (crc_shift ^^ 8) (c XOR word_of_int b)"

definition crc32 :: "int list \<Rightarrow> int" where
  "crc32 bs = uint (NOT (foldl crc_byte (NOT 0) bs))"

text \<open>\<open>struct.pack(">I", n)\<close>\<close>

definition pack_be :: "int \<Rightarrow> int list res" where
  "pack_be n = (if 0 \<le> n \<and> n < 4294967296 then Inr [n div 16777216, n div 65536 mod 256, n div 256 mod 256, n mod 256] else Inl StructError)"

definition chunk :: "int list \<Rightarrow> int list \<Rightarrow> int list res" where
  "chunk kind data =
     res_bind (pack_be (int (length data))) (\<lambda>n.
     res_bind (pack_be (crc32 (kind @ data))) (\<lambda>checksum. Inr (n @ kind @ data @ checksum)))"

definition png_rows :: "nat \<Rightarrow> nat \<Rightarrow> int list \<Rightarrow> int list" where
  "png_rows width height px = concat (map (\<lambda>row. 0 # take (width * 3) (drop (row * width * 3) px)) [0 ..< height])"

definition PNG_SIGNATURE :: "int list" where "PNG_SIGNATURE = [137, 80, 78, 71, 13, 10, 26, 10]"

definition write_png :: "(int list \<Rightarrow> int list) \<Rightarrow> nat \<Rightarrow> nat \<Rightarrow> int list \<Rightarrow> int list res" where
  "write_png compress width height px =
     res_bind (pack_be (int width)) (\<lambda>w. res_bind (pack_be (int height)) (\<lambda>h.
     res_bind (chunk [73, 72, 68, 82] (w @ h @ [8, 2, 0, 0, 0])) (\<lambda>ihdr.
     res_bind (chunk [73, 68, 65, 84] (compress (png_rows width height px))) (\<lambda>idat.
     res_bind (chunk [73, 69, 78, 68] []) (\<lambda>iend. Inr (PNG_SIGNATURE @ ihdr @ idat @ iend))))))"

section \<open>The loop against the picture\<close>

definition darks :: "int list \<Rightarrow> nat \<Rightarrow> nat set" where
  "darks px n = {k. k < n \<and> dark px k}"

definition brights :: "int list \<Rightarrow> nat \<Rightarrow> nat set" where
  "brights px n = {k. k < n \<and> bright px k}"

definition marks :: "nat \<Rightarrow> nat set \<Rightarrow> nat list" where
  "marks n A = map (\<lambda>i. of_bool (i \<in> A)) [0 ..< n]"

lemma marks_empty: "marks n {} = replicate n 0"
  by (simp add: marks_def map_replicate_const)

lemma marks_insert: "marks n (insert x A) = (marks n A)[x := 1]"
  by (rule nth_equalityI) (auto simp: marks_def nth_list_update)

lemma sum_marks: "A \<subseteq> {..< n} \<Longrightarrow> sum_list (marks n A) = card A"
proof -
  assume A: "A \<subseteq> {..< n}"
  have "sum_list (marks n A) = (\<Sum>i \<in> {..< n}. of_bool (i \<in> A))"
    unfolding marks_def by (simp add: interv_sum_list_conv_sum_set_nat atLeast0LessThan)
  also have "\<dots> = card ({..< n} \<inter> A)" by (simp add: of_bool_def sum.If_cases)
  finally show ?thesis using A by (simp add: inf.absorb2)
qed

lemma set_Suc:
  "darks px (Suc n) = (if dark px n then insert n (darks px n) else darks px n)"
  "brights px (Suc n) = (if bright px n then insert n (brights px n) else brights px n)"
  by (auto simp: darks_def brights_def less_Suc_eq)

lemma set_finite: "finite (darks px n)" "finite (brights px n)" "n \<notin> darks px n" "n \<notin> brights px n"
  by (simp_all add: darks_def brights_def)

text \<open>What the loop knows after \<open>n\<close> pixels: the counts, the marks, and that the box contains every bright pixel.\<close>

definition scanned :: "nat \<Rightarrow> nat \<Rightarrow> int list \<Rightarrow> nat \<Rightarrow> scan_state \<Rightarrow> bool" where
  "scanned w h px n f \<longleftrightarrow>
     fr_dark f = card (darks px n) \<and> fr_bright f = card (brights px n)
     \<and> fr_columns f = marks w ((\<lambda>k. k mod w) ` brights px n) \<and> fr_rows f = marks h ((\<lambda>k. k div w) ` brights px n)
     \<and> (\<forall>k \<in> brights px n. fr_left f \<le> int (k mod w) \<and> int (k mod w) \<le> fr_right f
          \<and> fr_top f \<le> int (k div w) \<and> int (k div w) \<le> fr_bottom f)"

lemma scanned_step: "scanned w h px n f \<Longrightarrow> scanned w h px (Suc n) (scan_pixel w px f n)"
  by (auto simp: scanned_def scan_pixel_def Let_def set_Suc set_finite marks_insert)

lemma scanned_loop: "scanned w h px n (foldl (scan_pixel w px) (frame_init w h) [0 ..< n])"
  by (induction n) (simp_all add: scanned_step, simp add: scanned_def frame_init_def darks_def brights_def marks_empty)

text \<open>The occupied columns lie in the box, so the test of the box adds nothing.\<close>

lemma card_within:
  fixes A :: "nat set"
  assumes "\<forall>x \<in> A. a \<le> int x \<and> int x \<le> b" and "A \<noteq> {}"
  shows "int (card A) \<le> b - a + 1"
proof -
  have "int ` A \<subseteq> {a .. b}" using assms(1) by auto
  then have "card (int ` A) \<le> card {a .. b}" by (intro card_mono) simp_all
  moreover have "card (int ` A) = card A" by (intro card_image) simp
  moreover have "a \<le> b" using assms by force
  ultimately show ?thesis by simp
qed

lemma frame_ok_iff:
  assumes "length px = 3 * (width * height)" and "0 < width"
  shows "frame_ok width height (scan_frame width height px) \<longleftrightarrow>
    70 * (width * height) \<le> 100 * card (darks px (width * height))
    \<and> width * height \<le> 1000 * card (brights px (width * height))
    \<and> width \<le> 5 * card ((\<lambda>k. k mod width) ` brights px (width * height))
    \<and> height \<le> 20 * card ((\<lambda>k. k div width) ` brights px (width * height))"
proof -
  let ?n = "width * height" and ?f = "scan_frame width height px"
  let ?B = "brights px ?n" let ?X = "(\<lambda>k. k mod width) ` ?B" and ?Y = "(\<lambda>k. k div width) ` ?B"
  have s: "scanned width height px ?n ?f" using scanned_loop [of width height px ?n] assms(1) by (simp add: scan_frame_def)
  have X: "?X \<subseteq> {..< width}" using assms(2) by auto
  have Y: "?Y \<subseteq> {..< height}" by (auto simp: brights_def less_mult_imp_div_less mult.commute)
  have c: "fr_dark ?f = card (darks px ?n)" "fr_bright ?f = card ?B" "sum_list (fr_columns ?f) = card ?X" "sum_list (fr_rows ?f) = card ?Y"
    using s sum_marks [OF X] sum_marks [OF Y] by (simp_all add: scanned_def)
  have box: "\<not> (fr_right ?f - fr_left ?f + 1) * 5 < int width" "\<not> (fr_bottom ?f - fr_top ?f + 1) * 20 < int height"
    if "?B \<noteq> {}" "\<not> card ?X * 5 < width" "\<not> card ?Y * 20 < height"
  proof -
    have "int (card ?X) \<le> fr_right ?f - fr_left ?f + 1" "int (card ?Y) \<le> fr_bottom ?f - fr_top ?f + 1"
      using s that(1) by (auto simp: scanned_def intro!: card_within)
    moreover have "int width \<le> int (card ?X * 5)" "int height \<le> int (card ?Y * 20)" using that(2,3) by (simp_all only: of_nat_le_iff not_less)
    ultimately show "\<not> (fr_right ?f - fr_left ?f + 1) * 5 < int width" "\<not> (fr_bottom ?f - fr_top ?f + 1) * 20 < int height"
      by simp_all
  qed
  show ?thesis
  proof (cases "?B = {}")
    case True
    then have "card ?X = 0" "card ?Y = 0" by simp_all
    then show ?thesis unfolding frame_ok_def Let_def c using assms(2) by simp
  next
    case False
    show ?thesis unfolding frame_ok_def Let_def c using box [OF False] by (simp add: not_less mult.commute [of _ 5] mult.commute [of _ 20] mult.commute [of _ 100] mult.commute [of _ 1000] mult.commute [of _ 70]) blast
  qed
qed

section \<open>The file\<close>

text \<open>A frame as the emulator writes it.\<close>

definition ppm_file :: "nat \<Rightarrow> nat \<Rightarrow> int list \<Rightarrow> int list" where
  "ppm_file width height px = [80, 54, 10] @ show_pos (int width) @ [32] @ show_pos (int height) @ [10, 50, 53, 53, 10] @ px"

lemma read_line_at: "10 \<notin> set l \<Longrightarrow> read_line (l @ 10 # rest) = (l @ [10], rest)"
  by (induction l) auto

lemma digits_plain:
  assumes "x \<in> set (show_pos (int n))"
  shows "48 \<le> x \<and> x \<le> 57"
  using show_pos_digits [of "int n"] assms by (auto simp: list_all_iff ascii_digit_def)

lemma bytes_int_show: "length (show_pos (int n)) \<le> max_str_digits \<Longrightarrow> bytes_int (show_pos (int n)) = Inr (int n)"
  using digits_plain [of _ n] by (fastforce simp: bytes_int_def list_all_iff py_int_show_pos)

lemma size_words: "byte_words (show_pos (int w) @ 32 # show_pos (int h) @ [10]) = [show_pos (int w), show_pos (int h)]"
proof -
  have d: "\<forall>x \<in> set (show_pos (int n)). \<not> byte_space x" for n using digits_plain [of _ n] by (force simp: byte_space_def)
  have "byte_space 32" "byte_space 10" by (simp_all add: byte_space_def)
  then show ?thesis by (simp add: byte_words_def split_by_append [OF d] show_pos_not_Nil)
qed

lemma read_ppm_file:
  assumes "length px = 3 * (width * height)" and "0 < width" and "0 < height"
    and "length (show_pos (int width)) \<le> max_str_digits" and "length (show_pos (int height)) \<le> max_str_digits"
  shows "read_ppm (ppm_file width height px) = Inr (int width, int height, px)"
proof -
  let ?l = "show_pos (int width) @ 32 # show_pos (int height)"
  have m: "read_line (ppm_file width height px) = ([80, 54, 10], ?l @ 10 # [50, 53, 53] @ 10 # px)" by (simp add: ppm_file_def)
  have n: "10 \<notin> set ?l" "\<forall>x \<in> set (?l @ [10]). x \<noteq> 35" using digits_plain [of 10] digits_plain [of 35] by auto
  have l: "read_line (?l @ 10 # [50, 53, 53] @ 10 # px) = (?l @ [10], [50, 53, 53] @ 10 # px)" by (rule read_line_at [OF n(1)])
  have t: "takeWhile (\<lambda>c. c \<noteq> 35) (?l @ [10]) = ?l @ [10]" using n(2) by (simp only: takeWhile_eq_all_conv)
  have h: "read_header [] (?l @ 10 # [50, 53, 53] @ 10 # px) = Inr ([show_pos (int width), show_pos (int height), [50, 53, 53]], px)"
    unfolding read_header.simps [of "[]"] l using t size_words [of width height]
    by (simp add: byte_words_def byte_space_def)
  have s: "byte_strip [80, 54, 10] = [80, 54]" "bytes_int [50, 53, 53] = Inr 255" by code_simp+
  have "int (length px) = int width * int height * 3" using assms(1) by simp
  then show ?thesis
    using assms m h s by (simp add: read_ppm_def bytes_int_show)
qed

text \<open>
  C40. The check of a screenshot decides what its thresholds say of the picture: on a frame as the emulator writes it, the
  check succeeds exactly if at least 70 percent of the pixels are dark, at least one in a thousand is bright, and
  bright pixels stand in at least a fifth of the columns and a twentieth of the rows.
\<close>

theorem screenshot_exact:
  assumes "length px = 3 * (width * height)" and "0 < width" and "0 < height"
    and "length (show_pos (int width)) \<le> max_str_digits" and "length (show_pos (int height)) \<le> max_str_digits"
  shows "is_ok (check_screenshot (ppm_file width height px)) \<longleftrightarrow>
    70 * (width * height) \<le> 100 * card (darks px (width * height))
    \<and> width * height \<le> 1000 * card (brights px (width * height))
    \<and> width \<le> 5 * card ((\<lambda>k. k mod width) ` brights px (width * height))
    \<and> height \<le> 20 * card ((\<lambda>k. k div width) ` brights px (width * height))"
proof -
  have "is_ok (check_screenshot (ppm_file width height px)) \<longleftrightarrow> frame_ok width height (scan_frame width height px)"
    by (simp add: check_screenshot_def read_ppm_file [OF assms] Let_def)
  then show ?thesis unfolding frame_ok_iff [OF assms(1,2)] .
qed

section \<open>The PNG file\<close>

text \<open>A reader of such files: the length, the kind, the data and the checksum of each chunk, then the unfiltered rows.\<close>

definition unpack_be :: "int list \<Rightarrow> int" where
  "unpack_be bs = foldl (\<lambda>n b. 256 * n + b) 0 bs"

definition read_chunk :: "int list \<Rightarrow> (int list \<times> int list \<times> int list) option" where
  "read_chunk bs =
     (let n = nat (unpack_be (take 4 bs)); kind = take 4 (drop 4 bs); data = take n (drop 8 bs) in
      if length bs < 12 + n \<or> unpack_be (take 4 (drop (8 + n) bs)) \<noteq> crc32 (kind @ data) then None
      else Some (kind, data, drop (12 + n) bs))"

fun unfilter :: "nat \<Rightarrow> nat \<Rightarrow> int list \<Rightarrow> int list" where
  "unfilter n 0 rows = []"
| "unfilter n (Suc h) rows = take n (tl rows) @ unfilter n h (drop n (tl rows))"

definition read_png :: "(int list \<Rightarrow> int list) \<Rightarrow> int list \<Rightarrow> (int \<times> int \<times> int list) option" where
  "read_png decompress bs =
     (if take 8 bs \<noteq> PNG_SIGNATURE then None
      else case read_chunk (drop 8 bs) of None \<Rightarrow> None | Some (_, ihdr, bs1) \<Rightarrow>
      (case read_chunk bs1 of None \<Rightarrow> None | Some (_, idat, bs2) \<Rightarrow>
       (case read_chunk bs2 of None \<Rightarrow> None | Some (kind, _, bs3) \<Rightarrow>
        let w = unpack_be (take 4 ihdr); h = unpack_be (take 4 (drop 4 ihdr)) in
        if kind = [73, 69, 78, 68] \<and> bs3 = [] \<and> drop 8 ihdr = [8, 2, 0, 0, 0]
        then Some (w, h, unfilter (nat w * 3) (nat h) (decompress idat)) else None)))"

lemma pack_be_read: "pack_be n = Inr p \<Longrightarrow> length p = 4 \<and> unpack_be p = n \<and> 0 \<le> n"
proof -
  assume p: "pack_be n = Inr p"
  then have e: "p = [n div 16777216, n div 65536 mod 256, n div 256 mod 256, n mod 256]" "0 \<le> n"
    by (simp_all add: pack_be_def split: if_splits)
  have "unpack_be p = n mod 256 + 256 * (n div 256 mod 256) + 65536 * (n div 65536 mod 256) + 16777216 * (n div 16777216)"
    by (simp only: e(1) unpack_be_def foldl.simps) (simp add: algebra_simps del: mod_div_trivial)
  moreover have "length p = 4" by (simp add: e(1))
  ultimately show ?thesis using base256_four [of n] e(2) by metis
qed

lemma read_chunk_back:
  assumes "chunk kind data = Inr c" and "length kind = 4"
  shows "read_chunk (c @ rest) = Some (kind, data, rest)"
proof -
  obtain n s where n: "pack_be (int (length data)) = Inr n" "pack_be (crc32 (kind @ data)) = Inr s" "c = n @ kind @ data @ s"
    using assms(1) by (auto simp: chunk_def res_bind_Inr_conv)
  note u = pack_be_read [OF n(1)] pack_be_read [OF n(2)]
  show ?thesis using u assms(2) by (simp add: read_chunk_def n(3) Let_def)
qed

lemma unfilter_rows:
  assumes "length px = n * h"
  shows "unfilter n h (concat (map (\<lambda>row. 0 # take n (drop (row * n) px)) [0 ..< h])) = px"
  using assms
proof (induction h arbitrary: px)
  case (Suc h)
  have "[0 ..< Suc h] = 0 # map Suc [0 ..< h]" by (simp add: upt_conv_Cons map_Suc_upt del: upt_Suc)
  then have rows: "map (\<lambda>row. 0 # take n (drop (row * n) px)) [0 ..< Suc h]
      = (0 # take n px) # map (\<lambda>row. 0 # take n (drop (row * n) (drop n px))) [0 ..< h]"
    by (simp add: comp_def add.commute del: upt_Suc)
  have l: "length (take n px) = n" using Suc.prems by simp
  have "unfilter n h (concat (map (\<lambda>row. 0 # take n (drop (row * n) (drop n px))) [0 ..< h])) = drop n px"
    using Suc.prems by (intro Suc.IH) simp
  then show ?case unfolding rows using l by simp
qed simp

lemma pack_be_total: "0 \<le> n \<Longrightarrow> n < 4294967296 \<Longrightarrow> \<exists>p. pack_be n = Inr p"
  by (simp add: pack_be_def)

lemma chunk_total: "length data < 4294967296 \<Longrightarrow> \<exists>c. chunk kind data = Inr c"
  using pack_be_total [of "int (length data)"] pack_be_total [of "crc32 (kind @ data)"]
    uint_lt2p [of "NOT (foldl crc_byte (NOT 0) (kind @ data))"]
  by (auto simp: chunk_def res_bind_Inr_conv crc32_def)

text \<open>
  A frame is written and can be read back from the PNG file, given that decompression undoes compression; the sizes are
  those of the format.
\<close>

theorem png_roundtrip:
  assumes "width < 4294967296" and "height < 4294967296" and "length (compress (png_rows width height px)) < 4294967296"
    and "length px = 3 * (width * height)" and "\<And>x. decompress (compress x) = x"
  shows "\<exists>bs. write_png compress width height px = Inr bs \<and> read_png decompress bs = Some (int width, int height, px)"
proof -
  obtain w h where p: "pack_be (int width) = Inr w" "pack_be (int height) = Inr h"
    using pack_be_total [of "int width"] pack_be_total [of "int height"] assms(1,2) by auto
  note u = pack_be_read [OF p(1)] pack_be_read [OF p(2)]
  obtain ihdr where c1: "chunk [73, 72, 68, 82] (w @ h @ [8, 2, 0, 0, 0]) = Inr ihdr"
    using chunk_total [of "w @ h @ [8, 2, 0, 0, 0]"] u by auto
  obtain idat where c2: "chunk [73, 68, 65, 84] (compress (png_rows width height px)) = Inr idat" using chunk_total assms(3) by blast
  obtain iend where c3: "chunk [73, 69, 78, 68] [] = Inr iend" using chunk_total [of "[]"] by auto
  have r: "read_chunk (ihdr @ idat @ iend) = Some ([73, 72, 68, 82], w @ h @ [8, 2, 0, 0, 0], idat @ iend)"
    "read_chunk (idat @ iend) = Some ([73, 68, 65, 84], compress (png_rows width height px), iend)"
    "read_chunk iend = Some ([73, 69, 78, 68], [], [])"
    using read_chunk_back [OF c1, of "idat @ iend"] read_chunk_back [OF c2, of iend] read_chunk_back [OF c3, of "[]"] by simp_all
  have "unfilter (width * 3) height (png_rows width height px) = px"
    using unfilter_rows [of px "width * 3" height] assms(4) by (simp add: png_rows_def mult.assoc ac_simps)
  then show ?thesis
    using u r assms(5) p c1 c2 c3 by (simp add: write_png_def read_png_def PNG_SIGNATURE_def Let_def)
qed

section \<open>Witnesses\<close>

text \<open>Twenty pixels, four of them bright in different columns.\<close>

definition sample_frame :: "int list" where
  "sample_frame = concat (replicate 4 [255, 255, 255]) @ replicate 48 0"

theorem screenshot_exact_witness: "is_ok (check_screenshot (ppm_file 20 1 sample_frame))"
proof -
  have d: "darks sample_frame 20 = set (filter (dark sample_frame) [0 ..< 20])" "brights sample_frame 20 = set (filter (bright sample_frame) [0 ..< 20])"
    by (auto simp: darks_def brights_def)
  have "filter (dark sample_frame) [0 ..< 20] = [4 ..< 20]" "filter (bright sample_frame) [0 ..< 20] = [0 ..< 4]" by code_simp+
  then have c: "darks sample_frame 20 = {4 ..< 20}" "brights sample_frame 20 = {0 ..< 4}" unfolding d by (simp_all only: set_upt)
  have i: "(\<lambda>k. k mod 20) ` {0 ..< 4 :: nat} = {0 ..< 4}" "(\<lambda>k. k div 20) ` {0 ..< 4 :: nat} = {0}" by (auto simp: image_def intro: exI [of _ 0])
  have l: "length sample_frame = 3 * (20 * 1)" by code_simp
  have s: "length (show_pos (int 20)) \<le> max_str_digits" "length (show_pos (int 1)) \<le> max_str_digits" by code_simp+
  show ?thesis using screenshot_exact [OF l _ _ s] unfolding mult_1_right c i by simp
qed

theorem png_roundtrip_witness:
  "\<exists>bs. write_png (\<lambda>x. x) 1 1 [255, 0, 7] = Inr bs \<and> read_png (\<lambda>x. x) bs = Some (1, 1, [255, 0, 7])"
  using png_roundtrip [of 1 1 "\<lambda>x. x" "[255, 0, 7]" "\<lambda>x. x"] by (simp add: png_rows_def)

end
