(* ===== verification/Spec2Isabelle.thy ===== *)
theory Spec2Isabelle
  imports Routes Runtime_State Config Nmcli_Connect Wifi_Service Kiosk_Signal Gen_Structure Contract_Sample Contract_Print
    Nav_Watch Input_Watch Screenshot
begin

text \<open>
  A verification library for Sushi-da OS, a kiosk image that shows one web page. The Python programs of the repository
  are translated definition by definition; the theorems state what the programs guarantee to each other and to the
  machine. In what follows \<open>PKG\<close> is \<open>src/live-build/config/includes.chroot/usr/lib/python3/dist-packages/sushida_os\<close>
  and \<open>LOCAL\<close> is \<open>src/live-build/config/includes.chroot/usr/local\<close>.

  \<^bold>\<open>The parts and how they interact.\<close> At boot the launcher asks \<open>PKG/config.py\<close> for the settings of \<open>config.env\<close> and
  \<open>PKG/runtime/routes.py\<close> for the route (online, setup or offline), and publishes the route through
  \<open>PKG/runtime/runtime_state.py\<close>. In the setup route the browser shows the page of \<open>PKG/wifi/web.py\<close>; a submitted
  credential goes to the coordinator (\<open>coordinator.py\<close>), whose worker thread calls the NetworkManager adapter (\<open>nmcli.py\<close>),
  which saves the credential through \<open>storage.py\<close>; \<open>restore.py\<close> retries the saved credential after boot. Two watchers
  run beside the browser: \<open>LOCAL/bin/sushida-navigation-watch\<close> restarts the kiosk through
  \<open>PKG/runtime/kiosk_signal.py\<close> after a blocked navigation, and \<open>LOCAL/libexec/sushida-input-watch\<close> serves the volume
  and brightness keys. \<open>src/tools/check-contracts.py\<close> and \<open>src/tools/gen-structure.py\<close> check the repository before a
  release; \<open>src/tests/qemu/check-screenshot.py\<close> checks a frame of the booted image.

  \<^bold>\<open>The language and the machine.\<close>
  \<^item> \<open>Prelude\<close>: strings as lists of code points, exceptions as values (\<open>res\<close>), the string operations of the sources,
    numbers read and shown, the simplification collections.
  \<^item> \<open>Rio\<close>: programs over a state that may raise, their loops, and invariants of the state (\<open>r_keeps\<close>).
  \<^item> \<open>Py_Codec\<close>, \<open>Py_Json\<close>, \<open>Py_Unicode\<close>, \<open>Py_Web\<close>: UTF-8 with its error handlers and \<open>struct\<close>; JSON; case mappings; HTML
    escaping, URLs, forms, Base64 and SHA-256. Each codec has its round trip.
  \<^item> \<open>Py_Dyn\<close>: operations on values of unknown type with their exceptions, binary64 rounding, \<open>repr\<close> and \<open>str\<close>.
  \<^item> \<open>Py_Re\<close>: the regular expressions that the sources write, by backtracking, with an inductive matching relation.
  \<^item> \<open>Os_Model\<close>: a file system with system calls that can all fail; the locales \<open>published\<close> and \<open>published_checked\<close> state
    what a file published by write and rename promises its readers. They are interpreted for the saved credentials
    (\<open>Storage\<close>) and the runtime state (\<open>Runtime_State\<close>).
  \<^item> \<open>Spacing\<close>: times of a rate-limited loop.

  \<^bold>\<open>The runtime package.\<close>
  \<^item> \<open>Routes\<close>, \<open>Runtime_State\<close>, \<open>Config\<close>, \<open>Kiosk_Signal\<close>: one theory for each module of the same name, its command line
    included. The route command is exact from its arguments to the printed route and falls back to offline; the state
    file is replaced atomically under any failing calls, read back exactly and refused when malformed (except for one
    kind of document, on which the reader raises); the settings parser agrees with a declarative reading, and the URL
    of an accepted file is printed byte for byte; a signal is sent only after the whole chain of checks.
  \<^item> \<open>Wifi_Types\<close>, \<open>Storage\<close>: validation of credentials; credentials, token and marker on the configuration partition.
  \<^item> \<open>Nmcli\<close>, \<open>Nmcli_Scan\<close>, \<open>Nmcli_Connect\<close>: the adapter over an arbitrary \<open>nmcli\<close>; what a scan returns, which command
    lines an attempt can issue and what it logs, that neither depends on the password, what a reported success has
    scanned, run and verified, and that a failed attempt deletes the profile it created (the command is issued;
    whether \<open>nmcli\<close> carries it out is \<open>nmcli\<close>'s).
  \<^item> \<open>Coordinator\<close>: the lock-protected object and the three threads as step relations; invariants of every reachable
    interleaving, no lost wake-up except after a response that could not be written, and liveness: in every fair run
    in which no response stays lost, every stored credential is attempted. A credential submitted during an attempt
    is deferred and attempted next, as the module and \<open>src/docs/wifi-state-machine.md\<close> (lines 42, 43) say and
    \<open>src/docs/networking.md\<close> (lines 89 to 91) denies.
  \<^item> \<open>Service\<close>, \<open>Restore\<close>: the world that one thread sees while the others act, and the restore loop over the locale
    \<open>restore_env\<close>, interpreted on the operations of the coordinator, the adapter and the storage. The loop is a
    \<open>partial_function\<close> over options: that it ends, with a bounded number of attempts and naps, is proved.
  \<^item> \<open>Web_Pages\<close>, \<open>Web\<close>: the pages and the request handlers with every refusal; the path of a credential from the
    browser's form to the coordinator. \<open>Web_Responses\<close>: the dispatch of requests, and the form of all that is written.
  \<^item> \<open>Threads\<close>: the worker loop with its attempts, and the refinement: the programs of the three threads move the
    coordinator only by the steps that \<open>Coordinator\<close> interleaves. \<open>Wifi_Service\<close>: the entry point
    \<open>LOCAL/libexec/sushida-wifi-setup\<close> and whole runs of the service.

  \<^bold>\<open>The watchers.\<close>
  \<^item> \<open>Nav_Session\<close>, \<open>Nav_Watch\<close>: the session parser yields exactly the records that the file contains; addresses of the
    game's host are allowed and others blocked; a restart is justified by a blocked page, and restarts are spaced. A
    run is a list of polls, each with its own answers of the directory, the clock and \<open>systemctl\<close>.
  \<^item> \<open>Input_Watch\<close>: what a key event can do to the machine, for lists of turns of the loop; the brightness stays
    between the floor and the maximum of the panel; actions are rate-limited.

  \<^bold>\<open>The tools.\<close>
  \<^item> \<open>Gen_Structure\<close>: the structure index and its check mode.
  \<^item> \<open>Contract_Report\<close>: the report of the checker and the logic for programs that write to it. \<open>Contract_Schema\<close>: schema
    validation and the search for secrets. \<open>Contract_Sources\<close>, \<open>Contract_Runtime\<close>, \<open>Contract_Release\<close>: the drift checks
    of the two contracts against the repository. \<open>Contract_Main\<close>: the run, the order of the report, the exit status.
    \<open>Contract_Print\<close>: the report as text, whose last line is the verdict.
  \<^item> \<open>Contract_Spec\<close>: abstract schemas and the refinement of the validator to them. \<open>Contract_Grows\<close>: every check only
    adds to the report. \<open>Contract_Env\<close>: a configuration file without drift, with LF line ends, is loaded by \<open>Config\<close>
    with the contract's values, if these are ones the module can take. \<open>Contract_Clean\<close>: what exit status 0 means for the repository. \<open>Contract_Sample\<close>: a repository
    on which the whole run ends with status 0, evaluated by the simplifier.
  \<^item> \<open>Screenshot\<close>: the header, the pixel loop and the thresholds against the sets of dark and bright pixels; the PNG file
    can be read back.

  \<^bold>\<open>Bounds and fuel.\<close> Loops of the sources are structural recursion or recursion with a measure; the restore loop is a
  \<open>partial_function\<close> with a proof that it returns. The JSON reader has fuel, two units for each character, which is proved
  never to run out (\<open>json_loads_no_fuel\<close>); the search for the shortest text of a float tries 17 digits, enough for every
  double. No other definition is cut off by a chosen number: where a list stands for the turns of an endless loop
  (polls, turns, requests, interleavings) or a number bounds the passes of the worker, the theorems hold for every such
  list and number. Python integers are unbounded, as in the
  language; bytes are 8-bit words.

  \<^bold>\<open>Parameters.\<close> \<open>nmcli\<close>, \<open>systemctl\<close>, \<open>amixer\<close>, \<open>evdev\<close> and \<open>git\<close> are arbitrary functions or answers. So are the search for a
  pattern that comes from a contract or a schema, the validation of a bracketed or non-ASCII network location, and the
  tables of printable and alphanumeric characters beyond ASCII, the page of \<open>http.server\<close> for a method it does not know,
  and \<open>zlib.compress\<close>.

  \<^bold>\<open>Idealisations.\<close> Syncing a file can fail and has no other effect, so nothing is said about power cuts. A failing
  write of the brightness leaves no partial effect. An attempt of \<open>connect_wifi\<close> is one step for the other threads:
  they act before it and after it. The heads of responses are without the \<open>Server\<close> and \<open>Date\<close> lines of \<open>http.server\<close>,
  and an exception that escapes a handler ends the request without the traceback that \<open>socketserver\<close> prints. The JSON
  reader has no recursion limit (a document nested deeper than the interpreter's limit raises in the program).

  \<^bold>\<open>Not modelled.\<close> \<open>argparse\<close> and the parsing of HTTP requests by \<open>http.server\<close> (the models start behind them); the texts
  of the checker's messages and its JSON output; negative zero; rounding of differences
  of clock values, which are rational numbers; the shell programs, systemd units, live-build configuration and release
  scripts, which are configuration and glue around programs outside the repository; the test suites and documentation.
\<close>

section \<open>The setup service as a whole\<close>

text \<open>
  C1. A run of the setup service, from its entry point through any list of requests: without a token nothing is started;
  otherwise both threads are, the token made at the start is the one that every request is compared with, and the
  requests together move the coordinator only by steps of the handler thread of the interleaved system, between which
  the other threads act, and leave that thread at rest.
\<close>

theorem service_run_sound:
  "case service_main g bind page rqs w of (r, threads, w') \<Rightarrow>
     thread_run (g_ot g) handler_own (w_co w, HIdle) (w_co w', HIdle)
     \<and> threads = (case fst (web_csrf g w) of Inl _ \<Rightarrow> [] | Inr _ \<Rightarrow> [ConnectWorker, RestoreSavedConnection])
     \<and> (case r of Inl _ \<Rightarrow> True | Inr _ \<Rightarrow> (\<exists>t. fst (web_csrf g w) = Inr t \<and> wb_csrf w' = Some t))"
proof -
  obtain c w1 where c: "web_csrf g w = (c, w1)" by fastforce
  note a = csrf_start [OF c]
  show ?thesis
  proof (cases rule: service_main_cases [of g w bind page rqs])
    case (3 t)
    then have "wb_csrf w1 = Some t" using web_csrf_cached c by auto
    then have "wb_csrf (serve_forever g page rqs w1) = Some t" by (rule serve_token)
    moreover have "thread_run (g_ot g) handler_own (w_co w, HIdle) (w_co (serve_forever g page rqs w1), HIdle)"
      by (rule rtranclp_trans [OF a(2) serve_run])
    ultimately show ?thesis using 3 c by simp
  qed (use a c in auto)
qed

end
